(* ===== verification/Prelude.thy ===== *)
theory Prelude
  imports Main "HOL-Library.Multiset" "HOL-Library.AList"
begin

text \<open>
  The prelude of the development: Rust's \<open>Result\<close>, saturating and checked arithmetic at a fixed
  width, the storage maps of a pallet, and the arithmetic of \<open>sp_arithmetic\<close> (per-things and
  fixed-point numbers) that the sources import from a third-party crate. The last two are
  interfaces, stated as locales over records of operations. Machine integers are natural numbers;
  every operation that can leave its width says what it does there, so a \<open>u128\<close> addition that
  saturates is \<open>sat_add u128_max\<close> and \<open>saturating_sub\<close> is the truncating subtraction of
  \<open>nat\<close>.
\<close>

section \<open>Results\<close>

datatype ('a, 'e) result = Ok 'a | Err 'e

definition and_then :: "('a, 'e) result \<Rightarrow> ('a \<Rightarrow> ('b, 'e) result) \<Rightarrow> ('b, 'e) result" where
  "and_then r f = (case r of Ok x \<Rightarrow> f x | Err e \<Rightarrow> Err e)"

definition map_err :: "('e \<Rightarrow> 'd) \<Rightarrow> ('a, 'e) result \<Rightarrow> ('a, 'd) result" where
  "map_err f r = (case r of Ok x \<Rightarrow> Ok x | Err e \<Rightarrow> Err (f e))"

definition ok_or :: "'e \<Rightarrow> 'a option \<Rightarrow> ('a, 'e) result" where
  "ok_or e x = (case x of None \<Rightarrow> Err e | Some v \<Rightarrow> Ok v)"

definition ensure :: "bool \<Rightarrow> 'e \<Rightarrow> (unit, 'e) result" where
  "ensure b e = (if b then Ok () else Err e)"

definition is_ok :: "('a, 'e) result \<Rightarrow> bool" where
  "is_ok r = (case r of Ok _ \<Rightarrow> True | Err _ \<Rightarrow> False)"

lemma and_then_simps [simp]:
  "and_then (Ok x) f = f x" "and_then (Err e) f = Err e"
  by (simp_all add: and_then_def)

lemma and_then_Ok_iff: "and_then r f = Ok y \<longleftrightarrow> (\<exists>x. r = Ok x \<and> f x = Ok y)"
  by (cases r) auto

lemma map_err_simps [simp]: "map_err f (Ok x) = Ok x" "map_err f (Err e) = Err (f e)"
  by (simp_all add: map_err_def)

lemma map_err_Ok_iff [simp]: "map_err f r = Ok y \<longleftrightarrow> r = Ok y"
  by (cases r) auto

lemma ok_or_simps [simp]: "ok_or e None = Err e" "ok_or e (Some x) = Ok x"
  by (simp_all add: ok_or_def)

lemma ok_or_Ok_iff [simp]: "ok_or e x = Ok y \<longleftrightarrow> x = Some y"
  by (cases x) auto

lemma ensure_simps [simp]: "ensure True e = Ok ()" "ensure False e = Err e"
  by (simp_all add: ensure_def)

lemma ensure_Ok_iff [simp]: "ensure b e = Ok u \<longleftrightarrow> b"
  by (simp add: ensure_def)

lemma is_ok_simps [simp]: "is_ok (Ok x)" "\<not> is_ok (Err e)"
  by (simp_all add: is_ok_def)

section \<open>Integers of a fixed width\<close>

definition u8_max :: nat where "u8_max = 255"
definition u16_max :: nat where "u16_max = 65535"
definition u32_max :: nat where "u32_max = 4294967295"
definition u64_max :: nat where "u64_max = 18446744073709551615"
definition u128_max :: nat where "u128_max = 2 ^ 128 - 1"
definition u256_max :: nat where "u256_max = 2 ^ 256 - 1"

text \<open>The large bounds as numerals, so that an evaluation does not compute the powers again and again.\<close>

lemma max_code [code]:
  "u128_max = 340282366920938463463374607431768211455"
  "u256_max = 115792089237316195423570985008687907853269984665640564039457584007913129639935"
  by (simp_all add: u128_max_def u256_max_def)

definition sat_add :: "nat \<Rightarrow> nat \<Rightarrow> nat \<Rightarrow> nat" where
  "sat_add m a b = min (a + b) m"

definition sat_mul :: "nat \<Rightarrow> nat \<Rightarrow> nat \<Rightarrow> nat" where
  "sat_mul m a b = min (a * b) m"

definition saturated_into :: "nat \<Rightarrow> nat \<Rightarrow> nat" where
  "saturated_into m a = min a m"

definition checked_sub :: "nat \<Rightarrow> nat \<Rightarrow> nat option" where
  "checked_sub a b = (if b \<le> a then Some (a - b) else None)"

definition checked_add :: "nat \<Rightarrow> nat \<Rightarrow> nat \<Rightarrow> nat option" where
  "checked_add m a b = (if a + b \<le> m then Some (a + b) else None)"

abbreviation sat_sub :: "nat \<Rightarrow> nat \<Rightarrow> nat" where "sat_sub a b \<equiv> a - b"
abbreviation u128_add :: "nat \<Rightarrow> nat \<Rightarrow> nat" where "u128_add \<equiv> sat_add u128_max"
abbreviation u128_mul :: "nat \<Rightarrow> nat \<Rightarrow> nat" where "u128_mul \<equiv> sat_mul u128_max"
abbreviation u32_add :: "nat \<Rightarrow> nat \<Rightarrow> nat" where "u32_add \<equiv> sat_add u32_max"
abbreviation u32_mul :: "nat \<Rightarrow> nat \<Rightarrow> nat" where "u32_mul \<equiv> sat_mul u32_max"
abbreviation u16_add :: "nat \<Rightarrow> nat \<Rightarrow> nat" where "u16_add \<equiv> sat_add u16_max"

lemmas width_defs = u8_max_def u16_max_def u32_max_def u64_max_def u128_max_def

lemma sat_add_le [simp]: "sat_add m a b \<le> m"
  by (simp add: sat_add_def)

lemma sat_mul_le [simp]: "sat_mul m a b \<le> m"
  by (simp add: sat_mul_def)

lemma saturated_into_le [simp]: "saturated_into m a \<le> m"
  by (simp add: saturated_into_def)

lemma saturated_into_id [simp]: "a \<le> m \<Longrightarrow> saturated_into m a = a"
  by (simp add: saturated_into_def)

lemma sat_add_exact: "a + b \<le> m \<Longrightarrow> sat_add m a b = a + b"
  by (simp add: sat_add_def)

lemma sat_add_le_sum: "sat_add m a b \<le> a + b"
  by (simp add: sat_add_def)

lemma sat_add_zero [simp]: "a \<le> m \<Longrightarrow> sat_add m a 0 = a" "a \<le> m \<Longrightarrow> sat_add m 0 a = a"
  by (simp_all add: sat_add_def)

lemma sat_add_eq_0_iff [simp]: "0 < m \<Longrightarrow> sat_add m a b = 0 \<longleftrightarrow> a = 0 \<and> b = 0"
  by (auto simp: sat_add_def min_def)

lemma sat_inc [simp]: "a < m \<Longrightarrow> sat_add m a (Suc 0) = Suc a"
  by (simp add: sat_add_def)

lemma sat_add_commute: "sat_add m a b = sat_add m b a"
  by (simp add: sat_add_def add.commute)

lemma sat_add_mono: "a \<le> c \<Longrightarrow> b \<le> d \<Longrightarrow> sat_add m a b \<le> sat_add m c d"
  by (simp add: sat_add_def)

lemma width_pos [simp]: "0 < u8_max" "0 < u16_max" "0 < u32_max" "0 < u64_max" "0 < u128_max"
  by (simp_all add: width_defs)

lemma fold_sat_add:
  assumes "acc + sum_list xs \<le> m"
  shows "foldl (sat_add m) acc xs = acc + sum_list xs"
  using assms by (induction xs arbitrary: acc) (simp_all add: sat_add_exact)

lemma fold_sat_add_min: "acc \<le> m \<Longrightarrow> foldl (sat_add m) acc xs = min (acc + sum_list xs) m"
  by (induction xs arbitrary: acc) (auto simp: sat_add_def min_def)

lemma less_mult_add1D: "(a::nat) * c < (b + 1) * c \<Longrightarrow> a \<le> b"
  by (drule mult_less_cancel2 [THEN iffD1]) simp

lemma le_mult_posD: "(0::nat) < k \<Longrightarrow> k * n \<le> m \<Longrightarrow> n \<le> m" "(0::nat) < k \<Longrightarrow> n * k \<le> m \<Longrightarrow> n \<le> m"
  by (cases k; simp)+

lemma ratio_div_le: "(a::nat) < b \<Longrightarrow> a * c div b \<le> c"
proof -
  assume "a < b"
  then have "a * c div b \<le> b * c div b" by (intro div_le_mono mult_right_mono) auto
  with \<open>a < b\<close> show ?thesis by simp
qed

section \<open>Bounded vectors\<close>

text \<open>\<open>BoundedVec::try_push\<close> with capacity \<open>cap\<close>.\<close>

definition try_push :: "nat \<Rightarrow> 'a \<Rightarrow> 'a list \<Rightarrow> ('a list, unit) result" where
  "try_push cap x xs = (if length xs < cap then Ok (xs @ [x]) else Err ())"

section \<open>Storage maps\<close>

text \<open>
  A pallet's \<open>StorageMap\<close> is a finite map that can be iterated, in an order the code may not rely
  on. The interface is what the pallets use: \<open>get\<close>, \<open>insert\<close>, \<open>remove\<close> and \<open>iter\<close>; the laws
  speak of the entries as a multiset, so nothing proved from them depends on the order.
\<close>

type_synonym ('k, 'v) smap = "('k \<times> 'v) list"

definition sm_get :: "('k, 'v) smap \<Rightarrow> 'k \<Rightarrow> 'v option" where
  "sm_get m k = map_of m k"

definition sm_put :: "('k, 'v) smap \<Rightarrow> 'k \<Rightarrow> 'v \<Rightarrow> ('k, 'v) smap" where
  "sm_put m k v = AList.update k v m"

definition sm_remove :: "('k, 'v) smap \<Rightarrow> 'k \<Rightarrow> ('k, 'v) smap" where
  "sm_remove m k = filter (\<lambda>e. fst e \<noteq> k) m"

definition sm_iter :: "('k, 'v) smap \<Rightarrow> ('k \<times> 'v) list" where
  "sm_iter m = m"

definition sm_invar :: "('k, 'v) smap \<Rightarrow> bool" where
  "sm_invar m \<longleftrightarrow> distinct (map fst m)"

definition sm_contains :: "('k, 'v) smap \<Rightarrow> 'k \<Rightarrow> bool" where
  "sm_contains m k \<longleftrightarrow> sm_get m k \<noteq> None"

definition sm_get_or :: "'v \<Rightarrow> ('k, 'v) smap \<Rightarrow> 'k \<Rightarrow> 'v" where
  "sm_get_or d m k = (case sm_get m k of None \<Rightarrow> d | Some v \<Rightarrow> v)"

definition sm_sum :: "('v \<Rightarrow> nat) \<Rightarrow> ('k, 'v) smap \<Rightarrow> nat" where
  "sm_sum f m = sum_list (map (\<lambda>e. f (snd e)) (sm_iter m))"

lemma filter_mset_fst_notin:
  assumes "k \<notin> fst ` set xs"
  shows "filter_mset (\<lambda>e. fst e = k) (mset xs) = {#}"
    and "filter_mset (\<lambda>e. fst e \<noteq> k) (mset xs) = mset xs"
  using assms by (induction xs) auto

lemma filter_mset_fst_eq:
  assumes "distinct (map fst xs)"
  shows "filter_mset (\<lambda>e. fst e = k) (mset xs) =
    (case map_of xs k of None \<Rightarrow> {#} | Some v \<Rightarrow> {#(k, v)#})"
  using assms
proof (induction xs)
  case Nil
  show ?case by simp
next
  case (Cons e xs)
  show ?case
  proof (cases "fst e = k")
    case True
    with Cons.prems have "filter_mset (\<lambda>e. fst e = k) (mset xs) = {#}"
      by (simp add: filter_mset_fst_notin)
    with True show ?thesis by (cases e) simp
  next
    case False
    with Cons show ?thesis by (cases e) simp
  qed
qed

lemma mset_update_distinct:
  assumes "distinct (map fst m)"
  shows "mset (AList.update k v m) = add_mset (k, v) (filter_mset (\<lambda>e. fst e \<noteq> k) (mset m))"
  using assms
proof (induction m)
  case Nil
  show ?case by simp
next
  case (Cons e m)
  show ?case
  proof (cases "fst e = k")
    case True
    with Cons.prems have "filter_mset (\<lambda>e. fst e \<noteq> k) (mset m) = mset m"
      by (simp add: filter_mset_fst_notin)
    with True show ?thesis by (cases e) simp
  next
    case False
    with Cons show ?thesis by (cases e) simp
  qed
qed

locale storage_map =
  fixes get :: "'m \<Rightarrow> 'k \<Rightarrow> 'v option"
    and put :: "'m \<Rightarrow> 'k \<Rightarrow> 'v \<Rightarrow> 'm"
    and remove :: "'m \<Rightarrow> 'k \<Rightarrow> 'm"
    and entries :: "'m \<Rightarrow> ('k \<times> 'v) list"
    and invar :: "'m \<Rightarrow> bool"
  assumes get_entries: "get m k = map_of (entries m) k"
    and invar_distinct: "invar m \<Longrightarrow> distinct (map fst (entries m))"
    and put_entries: "invar m \<Longrightarrow> mset (entries (put m k v)) =
          add_mset (k, v) (filter_mset (\<lambda>e. fst e \<noteq> k) (mset (entries m)))"
    and remove_entries: "invar m \<Longrightarrow> mset (entries (remove m k)) =
          filter_mset (\<lambda>e. fst e \<noteq> k) (mset (entries m))"
    and invar_put: "invar m \<Longrightarrow> invar (put m k v)"
    and invar_remove: "invar m \<Longrightarrow> invar (remove m k)"
begin

lemma get_Some_iff: "invar m \<Longrightarrow> get m k = Some v \<longleftrightarrow> (k, v) \<in> set (entries m)"
  by (simp add: get_entries invar_distinct)

lemma set_put:
  "invar m \<Longrightarrow> set (entries (put m k v)) = insert (k, v) {e \<in> set (entries m). fst e \<noteq> k}"
  using arg_cong [OF put_entries, of m set_mset k v] by simp

lemma set_remove: "invar m \<Longrightarrow> set (entries (remove m k)) = {e \<in> set (entries m). fst e \<noteq> k}"
  using arg_cong [OF remove_entries, of m set_mset k] by simp

lemma get_put: "invar m \<Longrightarrow> get (put m k v) j = (if j = k then Some v else get m j)"
proof -
  assume m: "invar m"
  note p = invar_put [OF m, of k v]
  have "get (put m k v) j = Some w \<longleftrightarrow> (if j = k then Some v else get m j) = Some w" for w
    using m p by (auto simp: get_Some_iff set_put)
  then show ?thesis by (metis option.exhaust)
qed

lemma get_remove: "invar m \<Longrightarrow> get (remove m k) j = (if j = k then None else get m j)"
proof -
  assume m: "invar m"
  note p = invar_remove [OF m, of k]
  have "get (remove m k) j = Some w \<longleftrightarrow> (if j = k then None else get m j) = Some w" for w
    using m p by (auto simp: get_Some_iff set_remove)
  then show ?thesis by (metis option.exhaust)
qed

lemma entries_split:
  assumes "invar m"
  shows "mset (entries m) = filter_mset (\<lambda>e. fst e \<noteq> k) (mset (entries m)) +
    (case get m k of None \<Rightarrow> {#} | Some v \<Rightarrow> {#(k, v)#})"
proof -
  have d: "distinct (map fst (entries m))" using assms by (rule invar_distinct)
  from filter_mset_fst_eq [OF d, of k] show ?thesis
    by (subst multiset_partition [of _ "\<lambda>e. fst e \<noteq> k"]) (simp add: get_entries)
qed

lemma sum_put:
  assumes "invar m"
  shows "(\<Sum>e\<leftarrow>entries (put m k v). f e :: nat) + (case get m k of None \<Rightarrow> 0 | Some w \<Rightarrow> f (k, w)) =
    (\<Sum>e\<leftarrow>entries m. f e) + f (k, v)"
proof -
  let ?r = "filter_mset (\<lambda>e. fst e \<noteq> k) (mset (entries m))"
  have a: "(\<Sum>e\<leftarrow>entries (put m k v). f e) = sum_mset (image_mset f ?r) + f (k, v)"
    using assms by (simp flip: sum_mset_sum_list add: put_entries)
  have b: "(\<Sum>e\<leftarrow>entries m. f e) = sum_mset (image_mset f ?r) +
      (case get m k of None \<Rightarrow> 0 | Some w \<Rightarrow> f (k, w))"
    by (subst sum_mset_sum_list [symmetric], subst mset_map, subst entries_split [OF assms, of k])
      (simp split: option.splits)
  from a b show ?thesis by simp
qed

lemma sum_remove:
  assumes "invar m"
  shows "(\<Sum>e\<leftarrow>entries (remove m k). f e :: nat) + (case get m k of None \<Rightarrow> 0 | Some w \<Rightarrow> f (k, w)) =
    (\<Sum>e\<leftarrow>entries m. f e)"
proof -
  let ?r = "filter_mset (\<lambda>e. fst e \<noteq> k) (mset (entries m))"
  have a: "(\<Sum>e\<leftarrow>entries (remove m k). f e) = sum_mset (image_mset f ?r)"
    using assms by (simp flip: sum_mset_sum_list add: remove_entries)
  have b: "(\<Sum>e\<leftarrow>entries m. f e) = sum_mset (image_mset f ?r) +
      (case get m k of None \<Rightarrow> 0 | Some w \<Rightarrow> f (k, w))"
    by (subst sum_mset_sum_list [symmetric], subst mset_map, subst entries_split [OF assms, of k])
      (simp split: option.splits)
  from a b show ?thesis by simp
qed

lemma sum_ge_entry:
  assumes "invar m" "get m k = Some v"
  shows "(f (k, v) :: nat) \<le> (\<Sum>e\<leftarrow>entries m. f e)"
  using sum_remove [OF assms(1), of f k] assms(2) by simp

end

interpretation sm: storage_map sm_get sm_put sm_remove sm_iter sm_invar
proof unfold_locales
  fix m :: "('k, 'v) smap" and k :: 'k and v :: 'v
  show "sm_get m k = map_of (sm_iter m) k"
    by (simp add: sm_get_def sm_iter_def)
  assume m: "sm_invar m"
  then show d: "distinct (map fst (sm_iter m))"
    by (simp add: sm_invar_def sm_iter_def)
  show "mset (sm_iter (sm_put m k v)) = add_mset (k, v) (filter_mset (\<lambda>e. fst e \<noteq> k) (mset (sm_iter m)))"
    using d by (simp add: sm_put_def sm_iter_def mset_update_distinct)
  show "mset (sm_iter (sm_remove m k)) = filter_mset (\<lambda>e. fst e \<noteq> k) (mset (sm_iter m))"
    by (simp add: sm_remove_def sm_iter_def)
  show "sm_invar (sm_put m k v)"
    using m by (simp add: sm_invar_def sm_put_def distinct_update)
  show "sm_invar (sm_remove m k)"
    using m by (simp add: sm_invar_def sm_remove_def distinct_map_filter)
qed

lemmas sm_laws [simp] = sm.get_put sm.get_remove sm.invar_put sm.invar_remove

lemma sm_sum_put:
  "sm_invar m \<Longrightarrow> sm_sum f (sm_put m k v) + (case sm_get m k of None \<Rightarrow> 0 | Some w \<Rightarrow> f w) =
    sm_sum f m + f v"
  using sm.sum_put [of m "\<lambda>e. f (snd e)" k v] by (simp add: sm_sum_def cong: option.case_cong)

lemma sm_sum_remove:
  "sm_invar m \<Longrightarrow> sm_sum f (sm_remove m k) + (case sm_get m k of None \<Rightarrow> 0 | Some w \<Rightarrow> f w) = sm_sum f m"
  using sm.sum_remove [of m "\<lambda>e. f (snd e)" k] by (simp add: sm_sum_def cong: option.case_cong)

lemma sm_sum_ge_entry: "sm_invar m \<Longrightarrow> sm_get m k = Some v \<Longrightarrow> f v \<le> sm_sum f m"
  using sm.sum_ge_entry [of m k v "\<lambda>e. f (snd e)"] by (simp add: sm_sum_def)

lemma sm_contains_put: "sm_invar m \<Longrightarrow> sm_contains (sm_put m k v) j \<longleftrightarrow> j = k \<or> sm_contains m j"
  by (simp add: sm_contains_def sm.get_put)

lemma sm_contains_remove: "sm_invar m \<Longrightarrow> sm_contains (sm_remove m k) j \<longleftrightarrow> j \<noteq> k \<and> sm_contains m j"
  by (simp add: sm_contains_def sm.get_remove)

section \<open>Two storage maps that are inverse to each other\<close>

definition sm_inverse :: "('k, 'v) smap \<Rightarrow> ('v, 'k) smap \<Rightarrow> bool" where
  "sm_inverse m n \<longleftrightarrow> sm_invar m \<and> sm_invar n \<and> (\<forall>k v. sm_get m k = Some v \<longleftrightarrow> sm_get n v = Some k)"

lemma sm_inverse_invar: "sm_inverse m n \<Longrightarrow> sm_invar m" "sm_inverse m n \<Longrightarrow> sm_invar n"
  by (simp_all add: sm_inverse_def)

lemma sm_inverse_iff: "sm_inverse m n \<Longrightarrow> sm_get m k = Some v \<longleftrightarrow> sm_get n v = Some k"
  by (simp add: sm_inverse_def)

lemma sm_inverse_empty [simp]: "sm_inverse [] []"
  by (simp add: sm_inverse_def sm_invar_def sm_get_def)

lemma sm_inverse_put:
  assumes "sm_inverse m n" and "sm_get m k = None" "sm_get n v = None"
  shows "sm_inverse (sm_put m k v) (sm_put n v k)"
proof -
  have "sm_get (sm_put m k v) j = Some w \<longleftrightarrow> sm_get (sm_put n v k) w = Some j" for j w
    using assms sm_inverse_iff [OF assms(1), of k w] sm_inverse_iff [OF assms(1), of j v]
      sm_inverse_iff [OF assms(1), of j w]
    by (auto simp: sm_inverse_invar)
  with assms(1) show ?thesis by (simp add: sm_inverse_def)
qed

lemma sm_inverse_remove:
  assumes "sm_inverse m n" and "sm_get m k = Some v"
  shows "sm_inverse (sm_remove m k) (sm_remove n v)"
proof -
  have "sm_get (sm_remove m k) j = Some w \<longleftrightarrow> sm_get (sm_remove n v) w = Some j" for j w
    using assms sm_inverse_iff [OF assms(1), of k v] sm_inverse_iff [OF assms(1), of j w]
    by (auto simp: sm.get_remove sm_inverse_invar)
  with assms(1) show ?thesis by (simp add: sm_inverse_def sm.invar_remove)
qed

lemma sm_inverse_move:
  assumes "sm_inverse m n" and "sm_get m k = Some v" and "sm_get n w = None"
  shows "sm_inverse (sm_put m k w) (sm_remove (sm_put n w k) v)"
proof -
  note i = sm_inverse_invar [OF assms(1)]
  have "v \<noteq> w" using assms sm_inverse_iff [OF assms(1), of k v] by auto
  then have "sm_get (sm_put m k w) j = Some u \<longleftrightarrow> sm_get (sm_remove (sm_put n w k) v) u = Some j" for j u
    using assms i sm_inverse_iff [OF assms(1), of k v] sm_inverse_iff [OF assms(1), of j u]
      sm_inverse_iff [OF assms(1), of j w] sm_inverse_iff [OF assms(1), of k u]
    by (auto simp: sm.get_put sm.get_remove sm.invar_put split: if_splits)
  with i show ?thesis by (simp add: sm_inverse_def sm.invar_put sm.invar_remove)
qed

end
