(* ===== verification/PerThings.thy ===== *)
theory PerThings
  imports Prelude
begin

text \<open>
  The arithmetic of the third-party crate \<open>sp_arithmetic\<close>: the per-things (\<open>Perbill\<close>,
  \<open>Permill\<close>, \<open>Perquintill\<close>, a fraction in parts of an accuracy) and \<open>FixedU128\<close>. The code is not
  part of the repository, so its operations are records of functions that the model takes as
  arguments, and what the pallets rely on is stated as two locales with the crate's documented
  behaviour: multiplication rounds to the nearest integer, \<open>from_rational\<close> rounds down and never
  exceeds one whole, a quotient of two per-things is one whole when the divisor is not larger, a
  checked addition fails above one whole, a fixed-point quotient is off by
  less than one unit, as is a fixed-point product that does not saturate, and multiplication of an integer by a
  fixed-point number rounds down and saturates. An exact implementation on natural numbers satisfies both.
\<close>

record PerThing =
  pt_mul :: "nat \<Rightarrow> nat \<Rightarrow> nat"
  pt_from_rational :: "nat \<Rightarrow> nat \<Rightarrow> nat"
  pt_checked_add :: "nat \<Rightarrow> nat \<Rightarrow> nat option"
  pt_div :: "nat \<Rightarrow> nat \<Rightarrow> nat"

locale per_thing =
  fixes accuracy :: nat and P :: PerThing
  assumes accuracy_pos: "0 < accuracy"
    and mul_nearest_up: "p \<le> accuracy \<Longrightarrow> 2 * (pt_mul P p x * accuracy) \<le> 2 * (p * x) + accuracy"
    and mul_nearest_down: "p \<le> accuracy \<Longrightarrow> 2 * (p * x) \<le> 2 * (pt_mul P p x * accuracy) + accuracy"
    and from_rational_le: "pt_from_rational P a b \<le> accuracy"
    and from_rational_down: "0 < b \<Longrightarrow> pt_from_rational P a b * b \<le> a * accuracy"
    and checked_add_eq: "pt_checked_add P a b = (if a + b \<le> accuracy then Some (a + b) else None)"
    and div_le: "pt_div P a b \<le> accuracy"
    and div_one: "b \<le> a \<Longrightarrow> pt_div P a b = accuracy"
begin

lemma mul_le: "p \<le> accuracy \<Longrightarrow> pt_mul P p x \<le> x"
proof -
  assume p: "p \<le> accuracy"
  have "2 * (pt_mul P p x * accuracy) \<le> 2 * (p * x) + accuracy"
    using p by (rule mul_nearest_up)
  also have "\<dots> \<le> 2 * (accuracy * x) + accuracy"
    using p by simp
  also have "\<dots> < 2 * ((x + 1) * accuracy)"
    using accuracy_pos by (simp add: algebra_simps)
  finally have "pt_mul P p x * accuracy < (x + 1) * accuracy"
    by simp
  then show ?thesis by (rule less_mult_add1D)
qed

lemma mul_zero: "p \<le> accuracy \<Longrightarrow> pt_mul P p 0 = 0"
  using mul_le [of p 0] by simp

lemma mul_one: "pt_mul P accuracy x = x"
proof (rule antisym)
  show "pt_mul P accuracy x \<le> x" by (rule mul_le) simp
  have "2 * (accuracy * x) \<le> 2 * (pt_mul P accuracy x * accuracy) + accuracy" by (rule mul_nearest_down) simp
  also have "\<dots> < 2 * ((pt_mul P accuracy x + 1) * accuracy)" using accuracy_pos by (simp add: algebra_simps)
  finally have "x * accuracy < (pt_mul P accuracy x + 1) * accuracy" by (simp add: mult.commute)
  then show "x \<le> pt_mul P accuracy x" by (rule less_mult_add1D)
qed

text \<open>Shares of one amount: portions that sum to at most one whole pay out at most the amount plus
  half a unit for each portion.\<close>

lemma sum_mul_le:
  assumes "sum_list ps \<le> accuracy"
  shows "2 * (\<Sum>p\<leftarrow>ps. pt_mul P p x) \<le> 2 * x + length ps"
proof -
  have le: "p \<le> accuracy" if "p \<in> set ps" for p
    using member_le_sum_list [OF that] assms by simp
  have "2 * ((\<Sum>p\<leftarrow>ps. pt_mul P p x) * accuracy) \<le> 2 * (sum_list ps * x) + length ps * accuracy"
    using le
  proof (induction ps)
    case (Cons p ps)
    then have "2 * (pt_mul P p x * accuracy) \<le> 2 * (p * x) + accuracy"
      by (simp add: mul_nearest_up)
    with Cons show ?case by (simp add: algebra_simps)
  qed simp
  also have "\<dots> \<le> 2 * (accuracy * x) + length ps * accuracy"
    using assms by simp
  finally have "(2 * (\<Sum>p\<leftarrow>ps. pt_mul P p x)) * accuracy \<le> (2 * x + length ps) * accuracy"
    by (simp add: algebra_simps)
  then show ?thesis using accuracy_pos by simp
qed

lemma sum_mul_ge:
  assumes "sum_list ps = accuracy"
  shows "2 * x \<le> 2 * (\<Sum>p\<leftarrow>ps. pt_mul P p x) + length ps"
proof -
  have le: "p \<le> accuracy" if "p \<in> set ps" for p
    using member_le_sum_list [OF that] assms by simp
  have "2 * (sum_list ps * x) \<le> 2 * ((\<Sum>p\<leftarrow>ps. pt_mul P p x) * accuracy) + length ps * accuracy"
    using le
  proof (induction ps)
    case (Cons p ps)
    then have "2 * (p * x) \<le> 2 * (pt_mul P p x * accuracy) + accuracy"
      by (simp add: mul_nearest_down)
    with Cons show ?case by (simp add: algebra_simps)
  qed simp
  then have "(2 * x) * accuracy \<le> (2 * (\<Sum>p\<leftarrow>ps. pt_mul P p x) + length ps) * accuracy"
    by (simp add: assms algebra_simps)
  then show ?thesis using accuracy_pos by simp
qed

text \<open>A proportional share of a pool: \<open>from_rational a b * pool\<close>.\<close>

lemma share_le:
  assumes "0 < b"
  shows "2 * (pt_mul P (pt_from_rational P a b) pool * b) \<le> 2 * (a * pool) + b"
proof -
  let ?p = "pt_from_rational P a b"
  have "2 * (pt_mul P ?p pool * accuracy) \<le> 2 * (?p * pool) + accuracy"
    by (rule mul_nearest_up) (rule from_rational_le)
  then have "2 * (pt_mul P ?p pool * accuracy) * b \<le> (2 * (?p * pool) + accuracy) * b"
    by (rule mult_right_mono) simp
  also have "\<dots> = 2 * (?p * b) * pool + accuracy * b"
    by (simp add: algebra_simps)
  also have "\<dots> \<le> 2 * (a * accuracy) * pool + accuracy * b"
    using from_rational_down [OF assms, of a] by (simp add: mult_le_mono)
  finally have "(2 * (pt_mul P ?p pool * b)) * accuracy \<le> (2 * (a * pool) + b) * accuracy"
    by (simp add: algebra_simps)
  then show ?thesis using accuracy_pos by simp
qed

lemma share_le_pool: "pt_mul P (pt_from_rational P a b) pool \<le> pool"
  by (rule mul_le) (rule from_rational_le)

lemma sum_shares_le:
  assumes "0 < b" and "sum_list as \<le> b"
  shows "2 * (\<Sum>a\<leftarrow>as. pt_mul P (pt_from_rational P a b) pool) \<le> 2 * pool + length as"
proof -
  have "2 * ((\<Sum>a\<leftarrow>as. pt_mul P (pt_from_rational P a b) pool) * b) \<le> 2 * (sum_list as * pool) + length as * b"
  proof (induction as)
    case (Cons a as)
    with share_le [OF assms(1), of a pool] show ?case
      by (simp add: algebra_simps)
  qed simp
  also have "\<dots> \<le> 2 * (b * pool) + length as * b"
    using assms(2) by simp
  finally have "(2 * (\<Sum>a\<leftarrow>as. pt_mul P (pt_from_rational P a b) pool)) * b \<le> (2 * pool + length as) * b"
    by (simp add: algebra_simps)
  then show ?thesis using assms(1) by simp
qed

text \<open>Summing parts with the checked addition, as the validity checks of the pallets do.\<close>

lemma fold_checked_add:
  "foldl (\<lambda>acc p. case acc of None \<Rightarrow> None | Some a \<Rightarrow> pt_checked_add P a p) (Some a) ps =
    (if a + sum_list ps \<le> accuracy \<or> ps = [] then Some (a + sum_list ps) else None)"
proof (induction ps arbitrary: a)
  case (Cons p ps)
  have none: "foldl (\<lambda>acc p. case acc of None \<Rightarrow> None | Some a \<Rightarrow> pt_checked_add P a p) None qs = None" for qs
    by (induction qs) auto
  show ?case
    using Cons.IH [of "a + p"] by (cases ps) (auto simp: checked_add_eq none add.assoc)
qed simp

end

definition fixed_div :: nat where "fixed_div = 10 ^ 18"

record FixedPoint =
  fp_from_rational :: "nat \<Rightarrow> nat \<Rightarrow> nat"
  fp_saturating_mul_int :: "nat \<Rightarrow> nat \<Rightarrow> nat \<Rightarrow> nat"
  fp_saturating_mul :: "nat \<Rightarrow> nat \<Rightarrow> nat"

locale fixed_point =
  fixes F :: FixedPoint
  assumes from_rational_up: "0 < d \<Longrightarrow> fp_from_rational F n d * d < n * fixed_div + d"
    and from_rational_low: "0 < d \<Longrightarrow> n * fixed_div < fp_from_rational F n d * d + d"
    and mul_int_le: "fp_saturating_mul_int F m x n \<le> m"
    and mul_int_down: "fp_saturating_mul_int F m x n * fixed_div \<le> x * n"
    and mul_int_floor: "fp_saturating_mul_int F m x n < m \<Longrightarrow>
          x * n < (fp_saturating_mul_int F m x n + 1) * fixed_div"
    and mul_up: "x * y \<le> u128_max * fixed_div \<Longrightarrow> fp_saturating_mul F x y * fixed_div < x * y + fixed_div"
    and mul_low: "x * y \<le> u128_max * fixed_div \<Longrightarrow> x * y < fp_saturating_mul F x y * fixed_div + fixed_div"
    and mul_le_max: "fp_saturating_mul F x y \<le> u128_max"
begin

lemma from_rational_le_one: "0 < d \<Longrightarrow> n \<le> d \<Longrightarrow> fp_from_rational F n d \<le> fixed_div"
proof -
  assume d: "0 < d" "n \<le> d"
  have "fp_from_rational F n d * d < n * fixed_div + d" using d(1) by (rule from_rational_up)
  also have "\<dots> \<le> (fixed_div + 1) * d" using d(2) by (simp add: algebra_simps)
  finally show ?thesis by (rule less_mult_add1D)
qed

lemma mul_int_le_self: "x \<le> fixed_div \<Longrightarrow> fp_saturating_mul_int F m x n \<le> n"
proof -
  assume x: "x \<le> fixed_div"
  have "fp_saturating_mul_int F m x n * fixed_div \<le> x * n" by (rule mul_int_down)
  also have "\<dots> \<le> n * fixed_div" using x by simp
  finally show ?thesis by (simp add: fixed_div_def)
qed

lemma mul_int_mono: "x \<le> y \<Longrightarrow> fp_saturating_mul_int F m x n \<le> fp_saturating_mul_int F m y n"
proof (cases "fp_saturating_mul_int F m y n < m")
  case True
  assume xy: "x \<le> y"
  have "fp_saturating_mul_int F m x n * fixed_div \<le> x * n" by (rule mul_int_down)
  also have "\<dots> \<le> y * n" using xy by simp
  also have "\<dots> < (fp_saturating_mul_int F m y n + 1) * fixed_div" using True by (rule mul_int_floor)
  finally show ?thesis by (rule less_mult_add1D)
next
  case False
  then show ?thesis using mul_int_le [of m x n] by simp
qed

end

section \<open>An exact implementation\<close>

definition exact_per_thing :: "nat \<Rightarrow> PerThing" where
  "exact_per_thing acc = \<lparr>
     pt_mul = (\<lambda>p x. (2 * (p * x) + acc - 1) div (2 * acc)),
     pt_from_rational = (\<lambda>a b. if b \<le> a then acc else a * acc div b),
     pt_checked_add = (\<lambda>a b. if a + b \<le> acc then Some (a + b) else None),
     pt_div = (\<lambda>a b. if b \<le> a then acc else a * acc div b) \<rparr>"

definition exact_fixed_point :: FixedPoint where
  "exact_fixed_point = \<lparr>
     fp_from_rational = (\<lambda>n d. n * fixed_div div d),
     fp_saturating_mul_int = (\<lambda>m x n. min (x * n div fixed_div) m),
     fp_saturating_mul = (\<lambda>x y. min (x * y div fixed_div) u128_max) \<rparr>"

lemma exact_per_thing:
  assumes "0 < acc"
  shows "per_thing acc (exact_per_thing acc)"
proof
  show "0 < acc" by (rule assms)
next
  fix p x
  have "pt_mul (exact_per_thing acc) p x * (2 * acc) \<le> 2 * (p * x) + acc - 1"
    by (simp add: exact_per_thing_def)
  then show "2 * (pt_mul (exact_per_thing acc) p x * acc) \<le> 2 * (p * x) + acc"
    by (simp add: mult.left_commute)
  have "2 * (p * x) + acc - 1 < (pt_mul (exact_per_thing acc) p x + 1) * (2 * acc)"
    using assms dividend_less_div_times [of "2 * acc" "2 * (p * x) + acc - 1"]
    by (simp add: exact_per_thing_def)
  then show "2 * (p * x) \<le> 2 * (pt_mul (exact_per_thing acc) p x * acc) + acc"
    using assms by (simp add: algebra_simps)
next
  fix a b
  show "pt_from_rational (exact_per_thing acc) a b \<le> acc"
    by (simp add: exact_per_thing_def ratio_div_le)
  show "pt_div (exact_per_thing acc) a b \<le> acc"
    by (simp add: exact_per_thing_def ratio_div_le)
  show "0 < b \<Longrightarrow> pt_from_rational (exact_per_thing acc) a b * b \<le> a * acc"
    by (simp add: exact_per_thing_def mult.commute)
qed (simp_all add: exact_per_thing_def)

definition perbill_acc :: nat where "perbill_acc = 10 ^ 9"
definition permill_acc :: nat where "permill_acc = 10 ^ 6"
definition perquintill_acc :: nat where "perquintill_acc = 10 ^ 18"

abbreviation exact_perbill :: PerThing where "exact_perbill \<equiv> exact_per_thing perbill_acc"
abbreviation exact_permill :: PerThing where "exact_permill \<equiv> exact_per_thing permill_acc"
abbreviation exact_perquintill :: PerThing where "exact_perquintill \<equiv> exact_per_thing perquintill_acc"

interpretation perbill: per_thing perbill_acc exact_perbill
  by (rule exact_per_thing) (simp add: perbill_acc_def)

interpretation permill: per_thing permill_acc exact_permill
  by (rule exact_per_thing) (simp add: permill_acc_def)

interpretation perquintill: per_thing perquintill_acc exact_perquintill
  by (rule exact_per_thing) (simp add: perquintill_acc_def)

interpretation fixed: fixed_point exact_fixed_point
proof
  fix d n m x y :: nat
  show "0 < d \<Longrightarrow> fp_from_rational exact_fixed_point n d * d < n * fixed_div + d"
    by (simp add: exact_fixed_point_def le_less_trans [OF div_times_less_eq_dividend])
  show "0 < d \<Longrightarrow> n * fixed_div < fp_from_rational exact_fixed_point n d * d + d"
    using dividend_less_div_times [of d "n * fixed_div"] by (simp add: exact_fixed_point_def add.commute)
  show "fp_saturating_mul_int exact_fixed_point m x n \<le> m"
    by (simp add: exact_fixed_point_def)
  have "min (x * n div fixed_div) m * fixed_div \<le> x * n div fixed_div * fixed_div"
    by (intro mult_right_mono) auto
  also have "\<dots> \<le> x * n" by simp
  finally show "fp_saturating_mul_int exact_fixed_point m x n * fixed_div \<le> x * n"
    by (simp add: exact_fixed_point_def)
  show "fp_saturating_mul_int exact_fixed_point m x n < m \<Longrightarrow>
      x * n < (fp_saturating_mul_int exact_fixed_point m x n + 1) * fixed_div"
    using dividend_less_div_times [of fixed_div "x * n"]
    by (simp add: exact_fixed_point_def fixed_div_def min_def split: if_splits)
  have "min (x * y div fixed_div) u128_max * fixed_div \<le> x * y div fixed_div * fixed_div"
    by (intro mult_right_mono) auto
  also have "\<dots> \<le> x * y" by simp
  finally show "fp_saturating_mul exact_fixed_point x y * fixed_div < x * y + fixed_div"
    by (simp add: exact_fixed_point_def fixed_div_def)
  show "x * y < fp_saturating_mul exact_fixed_point x y * fixed_div + fixed_div" if "x * y \<le> u128_max * fixed_div"
  proof -
    have "x * y div fixed_div \<le> u128_max * fixed_div div fixed_div" using that by (rule div_le_mono)
    then have "fp_saturating_mul exact_fixed_point x y = x * y div fixed_div"
      by (simp add: exact_fixed_point_def fixed_div_def)
    then show ?thesis using dividend_less_div_times [of fixed_div "x * y"] by (simp add: fixed_div_def)
  qed
  show "fp_saturating_mul exact_fixed_point x y \<le> u128_max"
    by (simp add: exact_fixed_point_def)
qed

text \<open>The whole arithmetic interface, as the pallets take it.\<close>

record Arith =
  ar_perbill :: PerThing
  ar_permill :: PerThing
  ar_perquintill :: PerThing
  ar_fixed :: FixedPoint

locale arith =
  fixes A :: Arith
  assumes perbill_laws: "per_thing perbill_acc (ar_perbill A)"
    and permill_laws: "per_thing permill_acc (ar_permill A)"
    and perquintill_laws: "per_thing perquintill_acc (ar_perquintill A)"
    and fixed_laws: "fixed_point (ar_fixed A)"

sublocale arith \<subseteq> pb: per_thing perbill_acc "ar_perbill A"
  by (rule perbill_laws)

sublocale arith \<subseteq> pm: per_thing permill_acc "ar_permill A"
  by (rule permill_laws)

sublocale arith \<subseteq> pq: per_thing perquintill_acc "ar_perquintill A"
  by (rule perquintill_laws)

sublocale arith \<subseteq> fx: fixed_point "ar_fixed A"
  by (rule fixed_laws)

definition exact_arith :: Arith where
  "exact_arith = \<lparr> ar_perbill = exact_perbill, ar_permill = exact_permill, ar_perquintill = exact_perquintill,
     ar_fixed = exact_fixed_point \<rparr>"

interpretation ea: arith exact_arith
  by (rule arith.intro) (simp_all add: exact_arith_def perbill.per_thing_axioms permill.per_thing_axioms
      perquintill.per_thing_axioms fixed.fixed_point_axioms)

end
