(* ===== verification/Primitives.thy ===== *)
theory Primitives
  imports PerThings "HOL-Library.Word"
begin

unbundle bit_operations_syntax

text \<open>
  The shared primitives of dApp staking (\<open>primitives/src/dapp_staking.rs\<close>): the number types, the
  cycle configuration that the runtimes provide, the standard number of tier slots, and
  \<open>RankedTier\<close>, the byte that packs a rank in its upper and a tier in its lower four bits. Tier and
  rank are 8-bit words, since the packing is bitwise; the other numbers are naturals.
\<close>

type_synonym EraNumber = nat
type_synonym PeriodNumber = nat
type_synonym DAppId = nat
type_synonym Balance = nat
type_synonym BlockNumber = nat
type_synonym TierId = "8 word"
type_synonym Rank = "8 word"

section \<open>Cycle configuration\<close>

record CycleConfiguration =
  periods_per_cycle :: nat
  eras_per_voting_subperiod :: nat
  eras_per_build_and_earn_subperiod :: nat
  blocks_per_era :: nat

definition period_in_era_lengths :: "CycleConfiguration \<Rightarrow> EraNumber" where
  "period_in_era_lengths c =
     u32_add (eras_per_voting_subperiod c) (eras_per_build_and_earn_subperiod c)"

definition cycle_in_era_lengths :: "CycleConfiguration \<Rightarrow> EraNumber" where
  "cycle_in_era_lengths c = u32_mul (period_in_era_lengths c) (periods_per_cycle c)"

definition blocks_per_cycle :: "CycleConfiguration \<Rightarrow> BlockNumber" where
  "blocks_per_cycle c = u32_mul (blocks_per_era c) (cycle_in_era_lengths c)"

definition build_and_earn_eras_per_cycle :: "CycleConfiguration \<Rightarrow> EraNumber" where
  "build_and_earn_eras_per_cycle c =
     u32_mul (eras_per_build_and_earn_subperiod c) (periods_per_cycle c)"

definition eras_per_period :: "CycleConfiguration \<Rightarrow> EraNumber" where
  "eras_per_period c = u32_add (eras_per_build_and_earn_subperiod c) 1"

definition eras_per_cycle :: "CycleConfiguration \<Rightarrow> EraNumber" where
  "eras_per_cycle c = u32_mul (eras_per_period c) (periods_per_cycle c)"

lemmas cycle_defs = period_in_era_lengths_def cycle_in_era_lengths_def blocks_per_cycle_def
  build_and_earn_eras_per_cycle_def eras_per_period_def eras_per_cycle_def

text \<open>
  The contract of a configuration: the four numbers are positive, as the integrity tests of both
  pallets assert, and a whole cycle fits a 32-bit block number, so nothing saturates.
\<close>

locale cycle_configuration =
  fixes c :: CycleConfiguration
  assumes periods_pos: "0 < periods_per_cycle c"
    and voting_pos: "0 < eras_per_voting_subperiod c"
    and build_and_earn_pos: "0 < eras_per_build_and_earn_subperiod c"
    and blocks_pos: "0 < blocks_per_era c"
    and cycle_fits: "blocks_per_era c * ((eras_per_voting_subperiod c + eras_per_build_and_earn_subperiod c) *
          periods_per_cycle c) \<le> u32_max"
begin

lemma cycle_lengths_fit:
  "(eras_per_voting_subperiod c + eras_per_build_and_earn_subperiod c) * periods_per_cycle c \<le> u32_max"
  using blocks_pos cycle_fits by (rule le_mult_posD)

lemma period_fits: "eras_per_voting_subperiod c + eras_per_build_and_earn_subperiod c \<le> u32_max"
  using periods_pos cycle_lengths_fit by (rule le_mult_posD)

lemma blocks_per_cycle_exact:
  "blocks_per_cycle c =
    blocks_per_era c * (eras_per_voting_subperiod c + eras_per_build_and_earn_subperiod c) * periods_per_cycle c"
  using cycle_fits cycle_lengths_fit period_fits
  by (simp add: cycle_defs sat_add_def sat_mul_def mult.assoc)

lemma eras_per_cycle_exact:
  "eras_per_cycle c = (eras_per_build_and_earn_subperiod c + 1) * periods_per_cycle c"
proof -
  have "(eras_per_build_and_earn_subperiod c + 1) * periods_per_cycle c \<le>
      (eras_per_voting_subperiod c + eras_per_build_and_earn_subperiod c) * periods_per_cycle c"
    using voting_pos by (intro mult_right_mono) auto
  then show ?thesis
    using cycle_lengths_fit period_fits voting_pos
    by (simp add: cycle_defs sat_add_def sat_mul_def min_def)
qed

lemma build_and_earn_eras_exact:
  "build_and_earn_eras_per_cycle c = eras_per_build_and_earn_subperiod c * periods_per_cycle c"
  using cycle_lengths_fit by (simp add: cycle_defs sat_mul_def add_mult_distrib)

lemma eras_per_cycle_pos: "0 < eras_per_cycle c"
  using periods_pos by (simp add: eras_per_cycle_exact)

end

text \<open>The configurations of the four runtimes.\<close>

definition astar_cycle :: CycleConfiguration where
  "astar_cycle = \<lparr> periods_per_cycle = 3, eras_per_voting_subperiod = 11,
     eras_per_build_and_earn_subperiod = 111, blocks_per_era = 24 * (60 * (60000 div 12000)) \<rparr>"

definition shiden_cycle :: CycleConfiguration where
  "shiden_cycle = \<lparr> periods_per_cycle = 6, eras_per_voting_subperiod = 6,
     eras_per_build_and_earn_subperiod = 55, blocks_per_era = 24 * (60 * (60000 div 6000)) \<rparr>"

definition shibuya_cycle :: CycleConfiguration where
  "shibuya_cycle = \<lparr> periods_per_cycle = 2, eras_per_voting_subperiod = 8,
     eras_per_build_and_earn_subperiod = 20, blocks_per_era = 6 * (60 * (60000 div 6000)) \<rparr>"

definition local_cycle :: CycleConfiguration where
  "local_cycle = \<lparr> periods_per_cycle = 4, eras_per_voting_subperiod = 2,
     eras_per_build_and_earn_subperiod = 22, blocks_per_era = 30 \<rparr>"

interpretation astar_cycle: cycle_configuration astar_cycle
  by unfold_locales (simp_all add: astar_cycle_def u32_max_def)

interpretation shiden_cycle: cycle_configuration shiden_cycle
  by unfold_locales (simp_all add: shiden_cycle_def u32_max_def)

interpretation shibuya_cycle: cycle_configuration shibuya_cycle
  by unfold_locales (simp_all add: shibuya_cycle_def u32_max_def)

interpretation local_cycle: cycle_configuration local_cycle
  by unfold_locales (simp_all add: local_cycle_def u32_max_def)

section \<open>Tier slots\<close>

definition StandardTierSlots_number_of_slots :: "FixedPoint \<Rightarrow> nat \<Rightarrow> nat" where
  "StandardTierSlots_number_of_slots F price =
     (let result = sat_add u64_max (fp_saturating_mul_int F u64_max price 1000) 50
      in saturated_into u16_max result)"

text \<open>What the tier configuration needs of a \<open>TierSlots\<close> implementation: a number that fits 16 bits
  and grows with the price.\<close>

locale tier_slots =
  fixes number_of_slots :: "nat \<Rightarrow> nat"
  assumes slots_fit: "number_of_slots price \<le> u16_max"
    and slots_mono: "p \<le> q \<Longrightarrow> number_of_slots p \<le> number_of_slots q"

lemma standard_tier_slots:
  assumes "fixed_point F"
  shows "tier_slots (StandardTierSlots_number_of_slots F)"
proof
  fix price p q :: nat
  show "StandardTierSlots_number_of_slots F price \<le> u16_max"
    by (simp add: StandardTierSlots_number_of_slots_def)
  assume "p \<le> q"
  then have "fp_saturating_mul_int F u64_max p 1000 \<le> fp_saturating_mul_int F u64_max q 1000"
    by (rule fixed_point.mul_int_mono [OF assms])
  then show "StandardTierSlots_number_of_slots F p \<le> StandardTierSlots_number_of_slots F q"
    by (simp add: StandardTierSlots_number_of_slots_def Let_def saturated_into_def sat_add_def min_def)
qed

interpretation standard_slots: tier_slots "StandardTierSlots_number_of_slots exact_fixed_point"
  by (rule standard_tier_slots) (rule fixed.fixed_point_axioms)

section \<open>Ranked tiers\<close>

datatype ArithmeticError = Overflow

datatype RankedTier = RankedTier "8 word"

definition MAX_RANK :: Rank where "MAX_RANK = 10"

definition RankedTier_new :: "TierId \<Rightarrow> Rank \<Rightarrow> (RankedTier, ArithmeticError) result" where
  "RankedTier_new tier rank =
     (if rank > MAX_RANK \<or> tier > 0xf then Err Overflow
      else Ok (RankedTier ((push_bit 4 rank) OR (tier AND 0x0f))))"

definition RankedTier_new_saturated :: "TierId \<Rightarrow> Rank \<Rightarrow> RankedTier" where
  "RankedTier_new_saturated tier rank =
     RankedTier ((push_bit 4 (min rank MAX_RANK)) OR (min tier 0xf AND 0x0f))"

fun RankedTier_tier :: "RankedTier \<Rightarrow> TierId" where
  "RankedTier_tier (RankedTier b) = b AND 0x0f"

fun RankedTier_rank :: "RankedTier \<Rightarrow> Rank" where
  "RankedTier_rank (RankedTier b) = min (drop_bit 4 b) MAX_RANK"

definition RankedTier_deconstruct :: "RankedTier \<Rightarrow> TierId \<times> Rank" where
  "RankedTier_deconstruct rt = (RankedTier_tier rt, RankedTier_rank rt)"

definition find_rank :: "Balance \<Rightarrow> Balance \<Rightarrow> Balance \<Rightarrow> Rank" where
  "find_rank lower_bound upper_bound stake_amount =
     (if upper_bound = 0 then 0
      else
        let rank_threshold = sat_sub upper_bound lower_bound div unat MAX_RANK in
        if rank_threshold = 0 then 0
        else
          let q = sat_sub stake_amount lower_bound div rank_threshold in
          min (if q \<le> u8_max then of_nat q else 0) MAX_RANK)"

lemma low_nibble_eq: "(b AND 0x0f :: 8 word) = take_bit 4 b"
  by (simp add: take_bit_eq_mask mask_eq_exp_minus_1)

lemma nibble_take_bit: "b \<le> 0xf \<Longrightarrow> take_bit 4 b = (b :: 8 word)"
proof -
  assume "b \<le> 0xf"
  then have "b < 2 ^ 4" by (simp add: word_le_nat_alt word_less_nat_alt)
  then have "b AND mask 4 = b" by (rule less_mask_eq)
  then show ?thesis by (simp only: take_bit_eq_mask)
qed

lemma nibble_drop_bit: "b \<le> 0xf \<Longrightarrow> drop_bit 4 b = (0 :: 8 word)"
  by (simp add: nibble_take_bit flip: take_bit_eq_self_iff_drop_bit_eq_0)

lemma high_nibble: "drop_bit 4 (push_bit 4 b) = (take_bit 4 b :: 8 word)"
  by (rule bit_eqI) (auto simp: bit_simps)

lemma packed_byte:
  assumes "tier \<le> (0xf :: 8 word)" "rank \<le> (0xf :: 8 word)"
  shows "(push_bit 4 rank OR (tier AND 0x0f)) AND 0x0f = tier"
    and "drop_bit 4 (push_bit 4 rank OR (tier AND 0x0f)) = rank"
  using assms
  by (simp_all add: low_nibble_eq take_bit_push_bit nibble_take_bit high_nibble nibble_drop_bit)

lemma RankedTier_new_saturated_deconstruct:
  "RankedTier_deconstruct (RankedTier_new_saturated tier rank) = (min tier 0xf, min rank MAX_RANK)"
proof -
  have "min rank MAX_RANK \<le> 0xf" by (simp add: MAX_RANK_def min_le_iff_disj)
  then show ?thesis
    using packed_byte [of "min tier 0xf" "min rank MAX_RANK"]
    by (simp del: bit.conj_disj_distrib2 bit.disj_conj_distrib2 add: RankedTier_deconstruct_def RankedTier_new_saturated_def)
qed

lemma find_rank_le: "find_rank l u s \<le> MAX_RANK"
  by (simp add: find_rank_def Let_def)

end
