(* ===== verification/Frame.thy ===== *)
theory Frame
  imports Prelude
begin

text \<open>
  What the pallets use of FRAME, the framework of the runtime: the origin of a call, the errors a dispatch
  returns, the checks of origins, and weights. A call is a function from the state to a new state or an error; FRAME
  rolls back a call that fails, so an error leaves the caller with the old state.
\<close>

datatype 'acc RawOrigin = Root | Signed 'acc | NoOrigin

text \<open>What a dispatch can fail with: a bad origin, an error of the pallet, a failed lookup, an overflow, or an
  error of the currency.\<close>

datatype 'e dispatch_error = BadOrigin | CannotLookup | Module 'e | ArithmeticOverflow | CurrencyError

definition ensure_signed :: "'acc RawOrigin \<Rightarrow> ('acc, 'e dispatch_error) result" where
  "ensure_signed origin = (case origin of Signed account \<Rightarrow> Ok account | _ \<Rightarrow> Err BadOrigin)"

definition ensure_root :: "'acc RawOrigin \<Rightarrow> (unit, 'e dispatch_error) result" where
  "ensure_root origin = (case origin of Root \<Rightarrow> Ok () | _ \<Rightarrow> Err BadOrigin)"

definition ensure_signed_or_root :: "'acc RawOrigin \<Rightarrow> ('acc option, 'e dispatch_error) result" where
  "ensure_signed_or_root origin =
     (case origin of Signed account \<Rightarrow> Ok (Some account) | Root \<Rightarrow> Ok None | NoOrigin \<Rightarrow> Err BadOrigin)"

definition ensure_origin :: "('acc RawOrigin \<Rightarrow> bool) \<Rightarrow> 'acc RawOrigin \<Rightarrow> (unit, 'e dispatch_error) result" where
  "ensure_origin P origin = ensure (P origin) BadOrigin"

lemma ensure_signed_Ok [simp]: "ensure_signed origin = Ok a \<longleftrightarrow> origin = Signed a"
  by (cases origin) (auto simp: ensure_signed_def)

lemma ensure_root_Ok [simp]: "ensure_root origin = Ok u \<longleftrightarrow> origin = Root"
  by (cases origin) (auto simp: ensure_root_def)

lemma ensure_origin_Ok [simp]: "ensure_origin P origin = Ok u \<longleftrightarrow> P origin"
  by (simp add: ensure_origin_def)

section \<open>Weights\<close>

record Weight =
  ref_time :: nat
  proof_size :: nat

text \<open>The arithmetic of weights: saturating at 64 bits and component by component.\<close>

definition Weight_zero :: Weight where "Weight_zero = \<lparr> ref_time = 0, proof_size = 0 \<rparr>"

definition Weight_saturating_add :: "Weight \<Rightarrow> Weight \<Rightarrow> Weight" where
  "Weight_saturating_add a b = \<lparr> ref_time = sat_add u64_max (ref_time a) (ref_time b),
     proof_size = sat_add u64_max (proof_size a) (proof_size b) \<rparr>"

definition Weight_saturating_sub :: "Weight \<Rightarrow> Weight \<Rightarrow> Weight" where
  "Weight_saturating_sub a b = \<lparr> ref_time = sat_sub (ref_time a) (ref_time b),
     proof_size = sat_sub (proof_size a) (proof_size b) \<rparr>"

definition Weight_min :: "Weight \<Rightarrow> Weight \<Rightarrow> Weight" where
  "Weight_min a b = \<lparr> ref_time = min (ref_time a) (ref_time b), proof_size = min (proof_size a) (proof_size b) \<rparr>"

definition Weight_any_lt :: "Weight \<Rightarrow> Weight \<Rightarrow> bool" where
  "Weight_any_lt a b \<longleftrightarrow> ref_time a < ref_time b \<or> proof_size a < proof_size b"

end
