(* ===== verification/Inflation.thy ===== *)
theory Inflation
  imports Primitives Frame "HOL-Library.Code_Target_Nat"
begin

text \<open>
  The inflation pallet (\<open>pallets/inflation/src/lib.rs\<close>): the parameters that split the yearly emission, the
  configuration of rewards derived from them at the start of a cycle, the payout of block rewards, the cap on
  rewards paid on demand, and the recalculation that the dApp staking pallet announces. The currency and the
  beneficiaries of the block rewards are operations on the state outside the pallet; an issued credit is its
  amount.
\<close>

section \<open>Configuration and parameters\<close>

record InflationConfiguration =
  ic_recalculation_era :: EraNumber
  ic_issuance_safety_cap :: Balance
  ic_collator_reward_per_block :: Balance
  ic_treasury_reward_per_block :: Balance
  ic_dapp_reward_pool_per_era :: Balance
  ic_base_staker_reward_pool_per_era :: Balance
  ic_adjustable_staker_reward_pool_per_era :: Balance
  ic_bonus_reward_pool_per_period :: Balance
  ic_ideal_staking_rate :: nat

definition InflationConfiguration_default :: InflationConfiguration where
  "InflationConfiguration_default = \<lparr> ic_recalculation_era = 0, ic_issuance_safety_cap = 0, ic_collator_reward_per_block = 0,
     ic_treasury_reward_per_block = 0, ic_dapp_reward_pool_per_era = 0, ic_base_staker_reward_pool_per_era = 0,
     ic_adjustable_staker_reward_pool_per_era = 0, ic_bonus_reward_pool_per_period = 0, ic_ideal_staking_rate = 0 \<rparr>"

record InflationParameters =
  ip_max_inflation_rate :: nat
  ip_treasury_part :: nat
  ip_collators_part :: nat
  ip_dapps_part :: nat
  ip_base_stakers_part :: nat
  ip_adjustable_stakers_part :: nat
  ip_bonus_part :: nat
  ip_ideal_staking_rate :: nat

definition inflation_parts :: "InflationParameters \<Rightarrow> nat list" where
  "inflation_parts p = [ip_treasury_part p, ip_collators_part p, ip_dapps_part p, ip_base_stakers_part p,
     ip_adjustable_stakers_part p, ip_bonus_part p]"

definition InflationParameters_is_valid :: "PerThing \<Rightarrow> InflationParameters \<Rightarrow> bool" where
  "InflationParameters_is_valid P params \<longleftrightarrow>
     foldl (\<lambda>acc part. case acc of None \<Rightarrow> None | Some a \<Rightarrow> pt_checked_add P a part) (Some 0) (inflation_parts params)
       = Some perquintill_acc"

definition perquintill_percent :: "nat \<Rightarrow> nat" where
  "perquintill_percent n = n * perquintill_acc div 100"

definition InflationParameters_default :: InflationParameters where
  "InflationParameters_default = \<lparr> ip_max_inflation_rate = perquintill_percent 7, ip_treasury_part = perquintill_percent 5,
     ip_collators_part = perquintill_percent 3, ip_dapps_part = perquintill_percent 20, ip_base_stakers_part = perquintill_percent 25,
     ip_adjustable_stakers_part = perquintill_percent 35, ip_bonus_part = perquintill_percent 12,
     ip_ideal_staking_rate = perquintill_percent 50 \<rparr>"

section \<open>State and interface\<close>

datatype InflationError = InvalidInflationParameters

datatype InflationEvent = InflationParametersForceChanged
  | InflationConfigurationForceChanged InflationConfiguration
  | ForcedInflationRecalculation InflationConfiguration
  | NewInflationConfiguration InflationConfiguration

record ('acc, 'x) InflationConfig =
  if_perquintill :: PerThing
  if_cycle :: CycleConfiguration
  if_total_issuance :: "'x \<Rightarrow> Balance"
  if_issue :: "Balance \<Rightarrow> 'x \<Rightarrow> Balance \<times> 'x"
  if_deposit :: "'acc \<Rightarrow> Balance \<Rightarrow> 'x \<Rightarrow> ('x, unit) result"
  if_collators :: "Balance \<Rightarrow> 'x \<Rightarrow> 'x"
  if_treasury :: "Balance \<Rightarrow> 'x \<Rightarrow> 'x"

text \<open>A storage value that was never written reads as its default.\<close>

record 'x InflationState =
  in_active_config :: "InflationConfiguration option"
  in_params :: "InflationParameters option"
  in_do_recalculation :: "EraNumber option"
  in_events :: "InflationEvent list"
  in_env :: 'x

definition active_config :: "'x InflationState \<Rightarrow> InflationConfiguration" where
  "active_config s = (case in_active_config s of None \<Rightarrow> InflationConfiguration_default | Some c \<Rightarrow> c)"

definition inflation_params :: "'x InflationState \<Rightarrow> InflationParameters" where
  "inflation_params s = (case in_params s of None \<Rightarrow> InflationParameters_default | Some p \<Rightarrow> p)"

definition inflation_event :: "InflationEvent \<Rightarrow> 'x InflationState \<Rightarrow> 'x InflationState" where
  "inflation_event e s = s\<lparr> in_events := in_events s @ [e] \<rparr>"

section \<open>Internal functions\<close>

text \<open>The sum that \<open>payout_block_rewards\<close> returns is not used; as a plain addition it is taken modulo the width.\<close>

definition payout_block_rewards :: "('acc, 'x) InflationConfig \<Rightarrow> 'x InflationState \<Rightarrow> Balance \<times> 'x InflationState" where
  "payout_block_rewards I s =
     (let config = active_config s;
          (collator_amount, x) = if_issue I (ic_collator_reward_per_block config) (in_env s);
          (treasury_amount, x) = if_issue I (ic_treasury_reward_per_block config) x;
          x = if_collators I collator_amount x;
          x = if_treasury I treasury_amount x
      in ((ic_collator_reward_per_block config + ic_treasury_reward_per_block config) mod 2 ^ 128, s\<lparr> in_env := x \<rparr>))"

definition recalculate_inflation :: "('acc, 'x) InflationConfig \<Rightarrow> EraNumber \<Rightarrow> 'x InflationState \<Rightarrow> InflationConfiguration" where
  "recalculate_inflation I next_era s =
     (let params = inflation_params s;
          total_issuance = if_total_issuance I (in_env s);
          mul = pt_mul (if_perquintill I);
          max_emission = mul (ip_max_inflation_rate params) total_issuance;
          issuance_safety_cap = u128_add total_issuance max_emission;
          treasury_emission = mul (ip_treasury_part params) max_emission;
          collators_emission = mul (ip_collators_part params) max_emission;
          dapps_emission = mul (ip_dapps_part params) max_emission;
          base_stakers_emission = mul (ip_base_stakers_part params) max_emission;
          adjustable_stakers_emission = mul (ip_adjustable_stakers_part params) max_emission;
          bonus_emission = mul (ip_bonus_part params) max_emission;
          cycle_blocks = max (blocks_per_cycle (if_cycle I)) 1;
          cycle_build_and_earn_eras = max (build_and_earn_eras_per_cycle (if_cycle I)) 1;
          cycle_periods = max (periods_per_cycle (if_cycle I)) 1
      in \<lparr> ic_recalculation_era = u32_add next_era (eras_per_cycle (if_cycle I)),
           ic_issuance_safety_cap = issuance_safety_cap,
           ic_collator_reward_per_block = collators_emission div cycle_blocks,
           ic_treasury_reward_per_block = treasury_emission div cycle_blocks,
           ic_dapp_reward_pool_per_era = dapps_emission div cycle_build_and_earn_eras,
           ic_base_staker_reward_pool_per_era = base_stakers_emission div cycle_build_and_earn_eras,
           ic_adjustable_staker_reward_pool_per_era = adjustable_stakers_emission div cycle_build_and_earn_eras,
           ic_bonus_reward_pool_per_period = bonus_emission div cycle_periods,
           ic_ideal_staking_rate = ip_ideal_staking_rate params \<rparr>)"

definition relaxed_issuance_safety_cap :: "InflationConfiguration \<Rightarrow> Balance" where
  "relaxed_issuance_safety_cap config = u128_mul (ic_issuance_safety_cap config) 101 div 100"

definition is_payout_cap_limit_exceeded :: "('acc, 'x) InflationConfig \<Rightarrow> Balance \<Rightarrow> 'x InflationState \<Rightarrow> bool" where
  "is_payout_cap_limit_exceeded I payout s \<longleftrightarrow>
     (let config = active_config s;
          new_issuance = u128_add (if_total_issuance I (in_env s)) payout
      in new_issuance > relaxed_issuance_safety_cap config)"

section \<open>Hooks and calls\<close>

text \<open>The genesis build asserts valid parameters; a failed assertion is \<open>None\<close>.\<close>

definition Inflation_build :: "('acc, 'x) InflationConfig \<Rightarrow> InflationParameters \<Rightarrow> 'x InflationState \<Rightarrow> 'x InflationState option" where
  "Inflation_build I params s =
     (if \<not> InflationParameters_is_valid (if_perquintill I) params then None
      else
        let starting_era = 1;
            config = recalculate_inflation I starting_era s
        in Some (s\<lparr> in_active_config := Some config, in_params := Some params \<rparr>))"

definition Inflation_on_initialize :: "('acc, 'x) InflationConfig \<Rightarrow> 'x InflationState \<Rightarrow> 'x InflationState" where
  "Inflation_on_initialize I s = snd (payout_block_rewards I s)"

definition Inflation_on_finalize :: "('acc, 'x) InflationConfig \<Rightarrow> 'x InflationState \<Rightarrow> 'x InflationState" where
  "Inflation_on_finalize I s =
     (case in_do_recalculation s of
        Some next_era \<Rightarrow>
          let config = recalculate_inflation I next_era s
          in inflation_event (NewInflationConfiguration config)
               (s\<lparr> in_active_config := Some config, in_do_recalculation := None \<rparr>)
      | None \<Rightarrow> s)"

definition Inflation_integrity_test :: "('acc, 'x) InflationConfig \<Rightarrow> bool" where
  "Inflation_integrity_test I \<longleftrightarrow> periods_per_cycle (if_cycle I) > 0 \<and> eras_per_voting_subperiod (if_cycle I) > 0
     \<and> eras_per_build_and_earn_subperiod (if_cycle I) > 0 \<and> blocks_per_era (if_cycle I) > 0"

definition force_set_inflation_params ::
  "('acc, 'x) InflationConfig \<Rightarrow> 'acc RawOrigin \<Rightarrow> InflationParameters \<Rightarrow> 'x InflationState \<Rightarrow> ('x InflationState, InflationError dispatch_error) result" where
  "force_set_inflation_params I origin params s =
     and_then (ensure_root origin) (\<lambda>_.
     and_then (ensure (InflationParameters_is_valid (if_perquintill I) params) (Module InvalidInflationParameters)) (\<lambda>_.
     Ok (inflation_event InflationParametersForceChanged (s\<lparr> in_params := Some params \<rparr>))))"

definition force_inflation_recalculation ::
  "('acc, 'x) InflationConfig \<Rightarrow> 'acc RawOrigin \<Rightarrow> EraNumber \<Rightarrow> 'x InflationState \<Rightarrow> ('x InflationState, InflationError dispatch_error) result" where
  "force_inflation_recalculation I origin next_era s =
     and_then (ensure_root origin) (\<lambda>_.
     let config = recalculate_inflation I next_era s
     in Ok (inflation_event (ForcedInflationRecalculation config) (s\<lparr> in_active_config := Some config \<rparr>)))"

section \<open>The interface to dApp staking\<close>

definition Inflation_block_before_new_era :: "EraNumber \<Rightarrow> 'x InflationState \<Rightarrow> 'x InflationState" where
  "Inflation_block_before_new_era new_era s =
     (if ic_recalculation_era (active_config s) \<le> new_era then s\<lparr> in_do_recalculation := Some new_era \<rparr> else s)"

definition staker_and_dapp_reward_pools :: "('acc, 'x) InflationConfig \<Rightarrow> 'x InflationState \<Rightarrow> Balance \<Rightarrow> Balance \<times> Balance" where
  "staker_and_dapp_reward_pools I s total_value_staked =
     (let config = active_config s;
          total_issuance = if_total_issuance I (in_env s);
          staked_ratio = pt_from_rational (if_perquintill I) total_value_staked total_issuance;
          adjustment_factor = pt_div (if_perquintill I) staked_ratio (ic_ideal_staking_rate config);
          adjustable_part = pt_mul (if_perquintill I) adjustment_factor (ic_adjustable_staker_reward_pool_per_era config);
          staker_reward_pool = u128_add (ic_base_staker_reward_pool_per_era config) adjustable_part
      in (staker_reward_pool, ic_dapp_reward_pool_per_era config))"

definition Inflation_bonus_reward_pool :: "'x InflationState \<Rightarrow> Balance" where
  "Inflation_bonus_reward_pool s = ic_bonus_reward_pool_per_period (active_config s)"

text \<open>A failed deposit is ignored: the reward is lost.\<close>

definition payout_reward :: "('acc, 'x) InflationConfig \<Rightarrow> 'acc \<Rightarrow> Balance \<Rightarrow> 'x InflationState \<Rightarrow> ('x InflationState, unit) result" where
  "payout_reward I account reward s =
     and_then (ensure (\<not> is_payout_cap_limit_exceeded I reward s) ()) (\<lambda>_.
     Ok (case if_deposit I account reward (in_env s) of Ok x \<Rightarrow> s\<lparr> in_env := x \<rparr> | Err _ \<Rightarrow> s))"

text \<open>The migration to shorter blocks (\<open>pallets/inflation/src/migration.rs\<close>).\<close>

definition AdjustBlockRewardMigration_on_runtime_upgrade :: "'x InflationState \<Rightarrow> 'x InflationState" where
  "AdjustBlockRewardMigration_on_runtime_upgrade s =
     s\<lparr> in_active_config := map_option (\<lambda>config. config
         \<lparr> ic_collator_reward_per_block := ic_collator_reward_per_block config div 2,
           ic_treasury_reward_per_block := ic_treasury_reward_per_block config div 2 \<rparr>) (in_active_config s) \<rparr>"

section \<open>The budget of a cycle\<close>

lemma is_valid_iff:
  assumes "per_thing perquintill_acc P"
  shows "InflationParameters_is_valid P p \<longleftrightarrow> sum_list (inflation_parts p) = perquintill_acc"
  unfolding InflationParameters_is_valid_def per_thing.fold_checked_add [OF assms]
  by (auto simp: inflation_parts_def)

text \<open>The most a configuration can pay out over a cycle.\<close>

definition cycle_budget :: "CycleConfiguration \<Rightarrow> InflationConfiguration \<Rightarrow> nat" where
  "cycle_budget c config =
     blocks_per_cycle c * (ic_collator_reward_per_block config + ic_treasury_reward_per_block config)
     + build_and_earn_eras_per_cycle c * (ic_dapp_reward_pool_per_era config + ic_base_staker_reward_pool_per_era config
         + ic_adjustable_staker_reward_pool_per_era config)
     + periods_per_cycle c * ic_bonus_reward_pool_per_period config"

definition max_emission :: "('acc, 'x) InflationConfig \<Rightarrow> 'x InflationState \<Rightarrow> Balance" where
  "max_emission I s = pt_mul (if_perquintill I) (ip_max_inflation_rate (inflation_params s)) (if_total_issuance I (in_env s))"

lemma div_dust:
  fixes n m :: nat
  assumes "0 < n"
  shows "n * (m div n) \<le> m" "m \<le> n * (m div n) + n"
proof -
  show "n * (m div n) \<le> m" by simp
  have "m mod n \<le> n" using assms by (simp add: less_imp_le)
  then show "m \<le> n * (m div n) + n" using mult_div_mod_eq [of n m] by linarith
qed

lemma cycle_pos:
  assumes "cycle_configuration c"
  shows "0 < blocks_per_cycle c" "0 < build_and_earn_eras_per_cycle c" "0 < periods_per_cycle c"
proof -
  show "0 < blocks_per_cycle c" using cycle_configuration.blocks_per_cycle_exact [OF assms] assms by (simp add: cycle_configuration_def)
  show "0 < build_and_earn_eras_per_cycle c" using cycle_configuration.build_and_earn_eras_exact [OF assms] assms by (simp add: cycle_configuration_def)
  show "0 < periods_per_cycle c" using assms by (simp add: cycle_configuration_def)
qed

lemma six_parts_le:
  fixes m c t d b a n :: nat
  assumes "c' \<le> c" "t' \<le> t" "d' \<le> d" "b' \<le> b" "a' \<le> a" "n' \<le> n" "2 * (t + c + d + b + a + n) \<le> 2 * m + 6"
  shows "c' + t' + d' + b' + a' + n' \<le> m + 3"
proof -
  have "c' + t' + d' + b' + a' + n' \<le> c + t + d + b + a + n" using assms(1-6) by (intro add_mono)
  with assms(7) show ?thesis by simp
qed

lemma six_parts_ge:
  fixes m c t d b a n :: nat
  assumes "c \<le> c' + x" "t \<le> t' + x" "d \<le> d' + y" "b \<le> b' + y" "a \<le> a' + y" "n \<le> n' + z"
    "2 * m \<le> 2 * (t + c + d + b + a + n) + 6"
  shows "m \<le> c' + t' + d' + b' + a' + n' + 3 + 2 * x + 3 * y + z"
proof -
  have "c + t + d + b + a + n \<le> (c' + x) + (t' + x) + (d' + y) + (b' + y) + (a' + y) + (n' + z)" using assms(1-6) by (intro add_mono)
  with assms(7) show ?thesis by simp
qed

lemma budget_bounds:
  fixes next_era :: EraNumber
  assumes P: "per_thing perquintill_acc (if_perquintill I)" and c: "cycle_configuration (if_cycle I)"
    and valid: "InflationParameters_is_valid (if_perquintill I) (inflation_params s)"
  defines "budget \<equiv> cycle_budget (if_cycle I) (recalculate_inflation I next_era s)"
  shows "budget \<le> max_emission I s + 3"
    and "max_emission I s \<le> budget + 3 + 2 * blocks_per_cycle (if_cycle I) + 3 * build_and_earn_eras_per_cycle (if_cycle I) + periods_per_cycle (if_cycle I)"
proof -
  let ?m = "max_emission I s" and ?P = "if_perquintill I" and ?p = "inflation_params s"
  let ?e = "\<lambda>part. pt_mul ?P part ?m"
  let ?B = "blocks_per_cycle (if_cycle I)" and ?E = "build_and_earn_eras_per_cycle (if_cycle I)" and ?N = "periods_per_cycle (if_cycle I)"
  note pos = cycle_pos [OF c]
  have sum: "sum_list (inflation_parts ?p) = perquintill_acc" using valid is_valid_iff [OF P] by simp
  have parts: "(\<Sum>part\<leftarrow>inflation_parts ?p. ?e part) = ?e (ip_treasury_part ?p) + ?e (ip_collators_part ?p) + ?e (ip_dapps_part ?p)
      + ?e (ip_base_stakers_part ?p) + ?e (ip_adjustable_stakers_part ?p) + ?e (ip_bonus_part ?p)"
    by (simp add: inflation_parts_def)
  have up: "2 * (\<Sum>part\<leftarrow>inflation_parts ?p. ?e part) \<le> 2 * ?m + 6"
    using per_thing.sum_mul_le [OF P, of "inflation_parts ?p" ?m] sum by (simp add: inflation_parts_def)
  have low: "2 * ?m \<le> 2 * (\<Sum>part\<leftarrow>inflation_parts ?p. ?e part) + 6"
    using per_thing.sum_mul_ge [OF P, of "inflation_parts ?p" ?m] sum by (simp add: inflation_parts_def)
  have max: "max ?B 1 = ?B" "max ?E 1 = ?E" "max ?N 1 = ?N" using pos by simp_all
  have b: "budget = ?B * (?e (ip_collators_part ?p) div ?B) + ?B * (?e (ip_treasury_part ?p) div ?B)
      + ?E * (?e (ip_dapps_part ?p) div ?E) + ?E * (?e (ip_base_stakers_part ?p) div ?E) + ?E * (?e (ip_adjustable_stakers_part ?p) div ?E)
      + ?N * (?e (ip_bonus_part ?p) div ?N)"
    unfolding budget_def cycle_budget_def recalculate_inflation_def Let_def max by (simp add: max_emission_def distrib_left)
  note dB = div_dust [OF pos(1)] and dE = div_dust [OF pos(2)] and dN = div_dust [OF pos(3)]
  show "budget \<le> ?m + 3" unfolding b by (rule six_parts_le [OF dB(1) dB(1) dE(1) dE(1) dE(1) dN(1) up [unfolded parts]])
  show "?m \<le> budget + 3 + 2 * ?B + 3 * ?E + ?N" unfolding b by (rule six_parts_ge [OF dB(2) dB(2) dE(2) dE(2) dE(2) dN(2) low [unfolded parts]])
qed

section \<open>The payouts of a cycle\<close>

text \<open>What the payouts rely on: the total issuance fits a balance; issuing and depositing raise it by at most the
  amount; and the beneficiaries of a block reward do not raise it.\<close>

definition currency_ok :: "('acc, 'x) InflationConfig \<Rightarrow> bool" where
  "currency_ok I \<longleftrightarrow> (\<forall>x. if_total_issuance I x \<le> u128_max)
     \<and> (\<forall>n x. if_total_issuance I (snd (if_issue I n x)) \<le> if_total_issuance I x + n)
     \<and> (\<forall>n x. if_total_issuance I (if_collators I n x) \<le> if_total_issuance I x)
     \<and> (\<forall>n x. if_total_issuance I (if_treasury I n x) \<le> if_total_issuance I x)
     \<and> (\<forall>a n x x'. if_deposit I a n x = Ok x' \<longrightarrow> if_total_issuance I x' \<le> if_total_issuance I x + n)"

datatype 'acc CycleAction = BlockStart | Payout 'acc Balance

fun cycle_run :: "('acc, 'x) InflationConfig \<Rightarrow> 'acc CycleAction list \<Rightarrow> 'x InflationState \<Rightarrow> ('x InflationState, unit) result" where
  "cycle_run I [] s = Ok s"
| "cycle_run I (BlockStart # as) s = cycle_run I as (Inflation_on_initialize I s)"
| "cycle_run I (Payout a n # as) s = and_then (payout_reward I a n s) (cycle_run I as)"

definition cycle_blocks :: "'acc CycleAction list \<Rightarrow> nat" where
  "cycle_blocks as = length (filter (\<lambda>a. a = BlockStart) as)"

definition cycle_payouts :: "'acc CycleAction list \<Rightarrow> nat" where
  "cycle_payouts as = sum_list (map (\<lambda>a. case a of BlockStart \<Rightarrow> 0 | Payout _ n \<Rightarrow> n) as)"

lemma block_rewards_issuance:
  assumes "currency_ok I"
  shows "if_total_issuance I (in_env (Inflation_on_initialize I s)) \<le> if_total_issuance I (in_env s)
      + ic_collator_reward_per_block (active_config s) + ic_treasury_reward_per_block (active_config s)"
    and "active_config (Inflation_on_initialize I s) = active_config s"
proof -
  let ?c = "active_config s" and ?t = "if_total_issuance I"
  obtain a x where a: "if_issue I (ic_collator_reward_per_block ?c) (in_env s) = (a, x)" by fastforce
  obtain b y where b: "if_issue I (ic_treasury_reward_per_block ?c) x = (b, y)" by fastforce
  have s': "Inflation_on_initialize I s = s\<lparr> in_env := if_treasury I b (if_collators I a y) \<rparr>"
    by (simp add: Inflation_on_initialize_def payout_block_rewards_def Let_def a b)
  have "?t (snd (if_issue I n z)) \<le> ?t z + n" "?t (if_collators I n z) \<le> ?t z" "?t (if_treasury I n z) \<le> ?t z" for n z
    using assms by (simp_all add: currency_ok_def)
  from this(3) [of b "if_collators I a y"] this(2) [of a y] this(1) [of "ic_treasury_reward_per_block ?c" x] this(1) [of "ic_collator_reward_per_block ?c" "in_env s"]
  show "?t (in_env (Inflation_on_initialize I s)) \<le> ?t (in_env s) + ic_collator_reward_per_block ?c + ic_treasury_reward_per_block ?c"
    by (simp add: s' a b)
  show "active_config (Inflation_on_initialize I s) = ?c" by (simp add: s' active_config_def)
qed

lemma payout_reward_Ok:
  assumes C: "currency_ok I" and cap: "if_total_issuance I (in_env s) + n \<le> relaxed_issuance_safety_cap (active_config s)"
  obtains s' where "payout_reward I a n s = Ok s'" "active_config s' = active_config s"
    "if_total_issuance I (in_env s') \<le> if_total_issuance I (in_env s) + n"
proof -
  have ok: "\<not> is_payout_cap_limit_exceeded I n s"
    using cap sat_add_le_sum [of u128_max "if_total_issuance I (in_env s)" n]
    by (simp add: is_payout_cap_limit_exceeded_def Let_def)
  have "if_total_issuance I x \<le> if_total_issuance I (in_env s) + n" if "if_deposit I a n (in_env s) = Ok x" for x
    using C that by (simp add: currency_ok_def)
  then show thesis
    using ok that by (cases "if_deposit I a n (in_env s)") (auto simp: payout_reward_def active_config_def)
qed

lemma cycle_run_Ok:
  assumes C: "currency_ok I" and cap: "bound \<le> relaxed_issuance_safety_cap config"
  shows "active_config s = config \<Longrightarrow>
    if_total_issuance I (in_env s) + cycle_blocks as * (ic_collator_reward_per_block config + ic_treasury_reward_per_block config)
      + cycle_payouts as \<le> bound \<Longrightarrow>
    \<exists>s'. cycle_run I as s = Ok s' \<and> if_total_issuance I (in_env s') \<le> bound"
proof (induction as arbitrary: s)
  case Nil
  then show ?case by simp
next
  case (Cons act as)
  show ?case
  proof (cases act)
    case BlockStart
    with Cons.prems block_rewards_issuance [OF C, of s] show ?thesis
      by (simp, intro Cons.IH) (auto simp: cycle_blocks_def cycle_payouts_def)
  next
    case (Payout a n)
    with Cons.prems have "if_total_issuance I (in_env s) + n \<le> relaxed_issuance_safety_cap (active_config s)"
      using cap by (simp add: cycle_payouts_def)
    then obtain s' where "payout_reward I a n s = Ok s'" "active_config s' = active_config s"
        "if_total_issuance I (in_env s') \<le> if_total_issuance I (in_env s) + n"
      by (rule payout_reward_Ok [OF C, of s n a])
    with Cons.prems Payout show ?thesis
      by (simp, intro Cons.IH) (auto simp: cycle_blocks_def cycle_payouts_def)
  qed
qed

section \<open>Recalculation\<close>

text \<open>The end of the block before a new era, as the dApp staking pallet and the hooks compose it; the rest of the
  chain may change the state outside the pallet before it.\<close>

definition announce_era :: "('acc, 'x) InflationConfig \<Rightarrow> EraNumber \<Rightarrow> 'x \<Rightarrow> 'x InflationState \<Rightarrow> 'x InflationState" where
  "announce_era I era x s = Inflation_on_finalize I (Inflation_block_before_new_era era (s\<lparr> in_env := x \<rparr>))"

primrec run_eras :: "('acc, 'x) InflationConfig \<Rightarrow> (nat \<Rightarrow> 'x) \<Rightarrow> EraNumber \<Rightarrow> nat \<Rightarrow> 'x InflationState \<Rightarrow> 'x InflationState" where
  "run_eras I env era 0 s = s"
| "run_eras I env era (Suc n) s = announce_era I (era + n) (env n) (run_eras I env era n s)"

lemma announce_era_fields:
  fixes x :: 'x
  assumes "in_do_recalculation s = None" "era + eras_per_cycle (if_cycle I) \<le> u32_max"
  defines "s' \<equiv> announce_era I era x s" and "due \<equiv> ic_recalculation_era (active_config s) \<le> era"
  shows "in_do_recalculation s' = None"
    "ic_recalculation_era (active_config s') = (if due then era + eras_per_cycle (if_cycle I) else ic_recalculation_era (active_config s))"
    "length (in_events s') = length (in_events s) + (if due then 1 else 0)"
  using assms(1,2)
  by (auto simp: s'_def due_def announce_era_def Inflation_on_finalize_def Inflation_block_before_new_era_def inflation_event_def
      active_config_def recalculate_inflation_def Let_def sat_add_exact split: option.splits)

lemma run_eras_schedule:
  assumes none: "in_do_recalculation s = None" and start: "era \<le> ic_recalculation_era (active_config s)"
    and N: "N = eras_per_cycle (if_cycle I)" "0 < N"
  shows "era + n + N \<le> u32_max \<Longrightarrow> in_do_recalculation (run_eras I env era n s) = None
    \<and> (\<exists>k. ic_recalculation_era (active_config (run_eras I env era n s)) = ic_recalculation_era (active_config s) + k * N
        \<and> length (in_events (run_eras I env era n s)) = length (in_events s) + k
        \<and> era + n \<le> ic_recalculation_era (active_config s) + k * N
        \<and> (k \<noteq> 0 \<longrightarrow> ic_recalculation_era (active_config s) + (k - 1) * N < era + n))"
proof (induction n)
  case 0
  with none start show ?case by (auto intro!: exI [of _ 0])
next
  case (Suc n)
  let ?s = "run_eras I env era n s" and ?r = "ic_recalculation_era (active_config s)"
  from Suc obtain k where dn: "in_do_recalculation ?s = None" and r: "ic_recalculation_era (active_config ?s) = ?r + k * N"
    and ev: "length (in_events ?s) = length (in_events s) + k" and le: "era + n \<le> ?r + k * N" "k \<noteq> 0 \<longrightarrow> ?r + (k - 1) * N < era + n"
    by auto
  have fits: "era + n + eras_per_cycle (if_cycle I) \<le> u32_max" using Suc.prems N by simp
  note f = announce_era_fields [OF dn fits, of "env n"]
  show ?case
  proof (cases "?r + k * N \<le> era + n")
    case True
    with le have "?r + k * N = era + n" by simp
    with f r ev N show ?thesis by (auto intro!: exI [of _ "Suc k"])
  next
    case False
    with f r ev le show ?thesis by (auto intro!: exI [of _ k])
  qed
qed

section \<open>Properties\<close>

text \<open>An instance: the state outside the pallet is the total issuance.\<close>

definition example_inflation :: "(nat, nat) InflationConfig" where
  "example_inflation = \<lparr> if_perquintill = exact_perquintill, if_cycle = astar_cycle, if_total_issuance = (\<lambda>x. min x u128_max),
     if_issue = (\<lambda>n x. (n, min (x + n) u128_max)), if_deposit = (\<lambda>a n x. Ok (min (x + n) u128_max)),
     if_collators = (\<lambda>n x. x), if_treasury = (\<lambda>n x. x) \<rparr>"

definition example_inflation_state :: "nat InflationState" where
  "example_inflation_state = \<lparr> in_active_config = None, in_params = None, in_do_recalculation = None, in_events = [], in_env = 8000000000 \<rparr>"

lemma example_inflation_simps:
  "if_perquintill example_inflation = exact_perquintill" "if_cycle example_inflation = astar_cycle"
  "inflation_params example_inflation_state = InflationParameters_default"
  by (simp_all add: example_inflation_def example_inflation_state_def inflation_params_def)

lemma example_inflation_ok:
  "per_thing perquintill_acc (if_perquintill example_inflation)" "cycle_configuration (if_cycle example_inflation)"
  "currency_ok example_inflation"
  by (auto simp: example_inflation_simps perquintill.per_thing_axioms astar_cycle.cycle_configuration_axioms)
    (auto simp: currency_ok_def example_inflation_def min_def)

lemma default_params_valid: "InflationParameters_is_valid exact_perquintill InflationParameters_default"
  by code_simp

lemma example_emission: "max_emission example_inflation example_inflation_state = 560000000"
  by code_simp

text \<open>C10: Everything a recalculated configuration can pay over a cycle (the block rewards of all blocks, the reward
  pools of all build and earn eras, the bonus pools of all periods) is at most the maximum emission and three units
  of rounding, and falls short of it by no more than the remainders of the divisions.\<close>

theorem inflation_within_budget:
  assumes "per_thing perquintill_acc (if_perquintill I)" and "cycle_configuration (if_cycle I)"
    and "InflationParameters_is_valid (if_perquintill I) (inflation_params s)"
  shows "cycle_budget (if_cycle I) (recalculate_inflation I next_era s) \<le> max_emission I s + 3
    \<and> max_emission I s \<le> cycle_budget (if_cycle I) (recalculate_inflation I next_era s) + 3
        + 2 * blocks_per_cycle (if_cycle I) + 3 * build_and_earn_eras_per_cycle (if_cycle I) + periods_per_cycle (if_cycle I)"
  using budget_bounds [OF assms] by simp

theorem inflation_within_budget_witness:
  "cycle_budget astar_cycle (recalculate_inflation example_inflation 1 example_inflation_state) \<le> 560000003"
  using inflation_within_budget [of example_inflation example_inflation_state 1] example_inflation_ok default_params_valid
  by (simp add: example_inflation_simps example_emission)

text \<open>C4: In a cycle that starts with a recalculation, no reward is ever refused: with at most the cycle's number of
  blocks, and rewards on demand that add up to at most the pools of the cycle, every payout succeeds in whatever
  order they come, and the issuance ends within three units of the safety cap. The cap has to be large enough that
  its one percent of tolerance covers the rounding, and small enough that the tolerance does not saturate.\<close>

theorem cycle_payouts_never_refused:
  assumes "per_thing perquintill_acc (if_perquintill I)" and "cycle_configuration (if_cycle I)" and "currency_ok I"
    and "InflationParameters_is_valid (if_perquintill I) (inflation_params s)"
    and "300 \<le> if_total_issuance I (in_env s) + max_emission I s"
    and "(if_total_issuance I (in_env s) + max_emission I s) * 101 \<le> u128_max"
    and "active_config s = recalculate_inflation I era s"
    and "cycle_blocks actions \<le> blocks_per_cycle (if_cycle I)"
    and "cycle_payouts actions \<le> build_and_earn_eras_per_cycle (if_cycle I) * (ic_dapp_reward_pool_per_era (active_config s)
        + ic_base_staker_reward_pool_per_era (active_config s) + ic_adjustable_staker_reward_pool_per_era (active_config s))
      + periods_per_cycle (if_cycle I) * ic_bonus_reward_pool_per_period (active_config s)"
  shows "\<exists>s'. cycle_run I actions s = Ok s'
    \<and> if_total_issuance I (in_env s') \<le> ic_issuance_safety_cap (active_config s) + 3"
proof -
  let ?t = "if_total_issuance I (in_env s)" and ?m = "max_emission I s" and ?c = "active_config s"
  have cap: "ic_issuance_safety_cap ?c = ?t + ?m"
    using assms(6,7) by (simp add: recalculate_inflation_def Let_def max_emission_def sat_add_exact)
  have "(?t + ?m + 3) * 100 \<le> (?t + ?m) * 101" using assms(5) by simp
  then have "?t + ?m + 3 \<le> (?t + ?m) * 101 div 100" by (simp add: less_eq_div_iff_mult_less_eq)
  then have bound: "?t + ?m + 3 \<le> relaxed_issuance_safety_cap ?c"
    using assms(6) by (simp add: relaxed_issuance_safety_cap_def cap sat_mul_def)
  have "cycle_blocks actions * (ic_collator_reward_per_block ?c + ic_treasury_reward_per_block ?c) \<le>
      blocks_per_cycle (if_cycle I) * (ic_collator_reward_per_block ?c + ic_treasury_reward_per_block ?c)"
    using assms(8) by (rule mult_le_mono1)
  with assms(9) budget_bounds(1) [OF assms(1,2,4), of era, folded assms(7)]
  have "?t + cycle_blocks actions * (ic_collator_reward_per_block ?c + ic_treasury_reward_per_block ?c) + cycle_payouts actions \<le> ?t + ?m + 3"
    unfolding cycle_budget_def by linarith
  from cycle_run_Ok [OF assms(3) bound refl this] show ?thesis by (simp add: cap)
qed

definition example_cycle_config :: InflationConfiguration where
  "example_cycle_config = \<lparr> ic_recalculation_era = 337, ic_issuance_safety_cap = 8560000000, ic_collator_reward_per_block = 6,
     ic_treasury_reward_per_block = 10, ic_dapp_reward_pool_per_era = 336336, ic_base_staker_reward_pool_per_era = 420420,
     ic_adjustable_staker_reward_pool_per_era = 588588, ic_bonus_reward_pool_per_period = 22400000,
     ic_ideal_staking_rate = perquintill_percent 50 \<rparr>"

definition example_cycle_start :: "nat InflationState" where
  "example_cycle_start = example_inflation_state\<lparr> in_active_config := Some example_cycle_config \<rparr>"

lemma example_recalculation: "recalculate_inflation example_inflation 1 example_inflation_state = example_cycle_config"
  by code_simp

lemma astar_cycle_values: "blocks_per_cycle astar_cycle = 2635200" "build_and_earn_eras_per_cycle astar_cycle = 333" "eras_per_cycle astar_cycle = 336"
  by code_simp+

lemma example_cycle_start_simps:
  "in_env example_cycle_start = 8000000000" "if_total_issuance example_inflation 8000000000 = 8000000000"
  "active_config example_cycle_start = example_cycle_config" "in_events example_cycle_start = []" "in_do_recalculation example_cycle_start = None"
  "inflation_params example_cycle_start = InflationParameters_default" "max_emission example_inflation example_cycle_start = 560000000"
  using example_emission
  by (simp_all add: example_cycle_start_def example_inflation_state_def example_inflation_def active_config_def inflation_params_def max_emission_def u128_max_def)

lemma example_cycle_values:
  "300 \<le> if_total_issuance example_inflation (in_env example_cycle_start) + max_emission example_inflation example_cycle_start"
  "(if_total_issuance example_inflation (in_env example_cycle_start) + max_emission example_inflation example_cycle_start) * 101 \<le> u128_max"
  "active_config example_cycle_start = recalculate_inflation example_inflation 1 example_cycle_start"
  "InflationParameters_is_valid (if_perquintill example_inflation) (inflation_params example_cycle_start)"
  "cycle_blocks [BlockStart, Payout (7::nat) 1000, BlockStart] \<le> blocks_per_cycle (if_cycle example_inflation)"
  "cycle_payouts [BlockStart, Payout (7::nat) 1000, BlockStart] \<le> build_and_earn_eras_per_cycle (if_cycle example_inflation) *
     (ic_dapp_reward_pool_per_era (active_config example_cycle_start) + ic_base_staker_reward_pool_per_era (active_config example_cycle_start)
       + ic_adjustable_staker_reward_pool_per_era (active_config example_cycle_start))
     + periods_per_cycle (if_cycle example_inflation) * ic_bonus_reward_pool_per_period (active_config example_cycle_start)"
proof -
  have "recalculate_inflation example_inflation 1 example_cycle_start = recalculate_inflation example_inflation 1 example_inflation_state"
    by (simp add: recalculate_inflation_def example_cycle_start_def inflation_params_def)
  then show "active_config example_cycle_start = recalculate_inflation example_inflation 1 example_cycle_start"
    unfolding example_recalculation by (simp only: example_cycle_start_simps)
qed (use default_params_valid in \<open>simp_all add: example_cycle_start_simps example_inflation_simps astar_cycle_values u128_max_def
    cycle_blocks_def cycle_payouts_def example_cycle_config_def\<close>)

theorem cycle_payouts_never_refused_witness:
  "\<exists>s'. cycle_run example_inflation [BlockStart, Payout 7 1000, BlockStart] example_cycle_start = Ok s'"
  using cycle_payouts_never_refused [OF example_inflation_ok example_cycle_values(4,1,2,3,5,6)] by blast

text \<open>A reward on demand is paid exactly when the issuance with it stays within the cap and its one percent of
  tolerance; a refused payout changes nothing, and a paid one leaves the issuance within that limit.\<close>

lemma payout_respects_cap:
  assumes "currency_ok I" and "relaxed_issuance_safety_cap (active_config s) < u128_max"
  shows "(is_ok (payout_reward I account reward s) \<longleftrightarrow>
      if_total_issuance I (in_env s) + reward \<le> relaxed_issuance_safety_cap (active_config s))
    \<and> (\<forall>s'. payout_reward I account reward s = Ok s' \<longrightarrow>
      if_total_issuance I (in_env s') \<le> relaxed_issuance_safety_cap (active_config s) \<and> active_config s' = active_config s)"
proof -
  have iff: "is_payout_cap_limit_exceeded I reward s \<longleftrightarrow> \<not> if_total_issuance I (in_env s) + reward \<le> relaxed_issuance_safety_cap (active_config s)"
    using assms(2) by (auto simp: is_payout_cap_limit_exceeded_def Let_def sat_add_def)
  show ?thesis
  proof (cases "is_payout_cap_limit_exceeded I reward s")
    case True
    then show ?thesis using iff by (simp add: payout_reward_def)
  next
    case False
    then obtain s' where "payout_reward I account reward s = Ok s'" "active_config s' = active_config s"
        "if_total_issuance I (in_env s') \<le> if_total_issuance I (in_env s) + reward"
      using iff payout_reward_Ok [OF assms(1), of s reward account] by blast
    with False iff show ?thesis by simp
  qed
qed

text \<open>C13: The inflation is recalculated exactly once per cycle: however the rest of the chain changes between the
  eras, after any number of announced eras there have been \<open>k\<close> recalculations, at the era first due and at every
  cycle length after it, and the next one is due one cycle length later.\<close>

theorem recalculation_once_per_cycle:
  assumes "in_do_recalculation s = None" and "era \<le> ic_recalculation_era (active_config s)"
    and "0 < eras_per_cycle (if_cycle I)" and "era + n + eras_per_cycle (if_cycle I) \<le> u32_max"
  shows "\<exists>k. ic_recalculation_era (active_config (run_eras I env era n s)) = ic_recalculation_era (active_config s) + k * eras_per_cycle (if_cycle I)
    \<and> length (in_events (run_eras I env era n s)) = length (in_events s) + k
    \<and> era + n \<le> ic_recalculation_era (active_config s) + k * eras_per_cycle (if_cycle I)
    \<and> (k \<noteq> 0 \<longrightarrow> ic_recalculation_era (active_config s) + (k - 1) * eras_per_cycle (if_cycle I) < era + n)"
  using run_eras_schedule [OF assms(1,2) refl assms(3,4)] by blast

theorem recalculation_once_per_cycle_witness:
  "\<exists>k. length (in_events (run_eras example_inflation (\<lambda>_. 9000000000) 2 400 example_cycle_start)) = k \<and> 402 \<le> 337 + k * 336 \<and> (k \<noteq> 0 \<longrightarrow> 337 + (k - 1) * 336 < 402)"
  using recalculation_once_per_cycle [of example_cycle_start 2 example_inflation 400 "\<lambda>_. 9000000000"]
  by (simp add: u32_max_def example_cycle_start_simps example_inflation_simps astar_cycle_values example_cycle_config_def)

text \<open>The staker reward pool of an era lies between the base pool and the base pool plus the adjustable one, and
  it is the whole of both when the staked part of the issuance reaches the ideal staking rate.\<close>

lemma staker_pool_bounds:
  assumes "per_thing perquintill_acc (if_perquintill I)"
    and "ic_base_staker_reward_pool_per_era (active_config s) + ic_adjustable_staker_reward_pool_per_era (active_config s) \<le> u128_max"
  shows "ic_base_staker_reward_pool_per_era (active_config s) \<le> fst (staker_and_dapp_reward_pools I s staked)
    \<and> fst (staker_and_dapp_reward_pools I s staked) \<le>
        ic_base_staker_reward_pool_per_era (active_config s) + ic_adjustable_staker_reward_pool_per_era (active_config s)
    \<and> (ic_ideal_staking_rate (active_config s) \<le> pt_from_rational (if_perquintill I) staked (if_total_issuance I (in_env s)) \<longrightarrow>
        fst (staker_and_dapp_reward_pools I s staked) =
        ic_base_staker_reward_pool_per_era (active_config s) + ic_adjustable_staker_reward_pool_per_era (active_config s))"
proof -
  let ?a = "ic_adjustable_staker_reward_pool_per_era (active_config s)"
  let ?f = "pt_div (if_perquintill I) (pt_from_rational (if_perquintill I) staked (if_total_issuance I (in_env s))) (ic_ideal_staking_rate (active_config s))"
  have le: "pt_mul (if_perquintill I) ?f ?a \<le> ?a" by (rule per_thing.mul_le [OF assms(1)]) (rule per_thing.div_le [OF assms(1)])
  have "?f = perquintill_acc" if "ic_ideal_staking_rate (active_config s) \<le> pt_from_rational (if_perquintill I) staked (if_total_issuance I (in_env s))"
    using that by (rule per_thing.div_one [OF assms(1)])
  with le assms(2) show ?thesis
    by (auto simp: staker_and_dapp_reward_pools_def Let_def sat_add_exact per_thing.mul_one [OF assms(1)])
qed

text \<open>The genesis build computes the first configuration before it stores the parameters it was given: whatever
  valid parameters a chain starts with, its first cycle runs on the default ones.\<close>

lemma genesis_ignores_parameters:
  assumes "in_params s = None" and "Inflation_build I params s = Some s'"
  shows "inflation_params s' = params
    \<and> active_config s' = recalculate_inflation I 1 (s\<lparr> in_params := Some InflationParameters_default \<rparr>)"
  using assms by (auto simp: Inflation_build_def Let_def active_config_def inflation_params_def recalculate_inflation_def split: if_splits)

definition other_params :: InflationParameters where
  "other_params = InflationParameters_default\<lparr> ip_max_inflation_rate := perquintill_percent 1 \<rparr>"

lemma genesis_ignores_parameters_example:
  "\<exists>s'. Inflation_build example_inflation other_params example_inflation_state = Some s'
    \<and> ic_issuance_safety_cap (active_config s') = 8560000000"
proof -
  have v: "InflationParameters_is_valid (if_perquintill example_inflation) other_params"
    and cap: "ic_issuance_safety_cap (recalculate_inflation example_inflation 1 (example_inflation_state\<lparr> in_params := Some InflationParameters_default \<rparr>)) = 8560000000"
    and n: "in_params example_inflation_state = None"
    by code_simp+
  from v obtain s' where b: "Inflation_build example_inflation other_params example_inflation_state = Some s'"
    by (simp add: Inflation_build_def Let_def)
  from genesis_ignores_parameters [OF n b] b cap show ?thesis by simp
qed

end
