(* ===== verification/StakeTypes.thy ===== *)
theory StakeTypes
  imports Primitives
begin

text \<open>
  The basic data of dApp staking (\<open>pallets/dapp-staking/src/types.rs\<close>): subperiods, the protocol
  state and its transitions, dApp records, stake amounts split into a voting and a build\&earn part,
  and the per-era totals. Each Rust struct is a record with prefixed fields, each \<open>&mut self\<close> method
  a function that returns the updated record.
\<close>

section \<open>Protocol state\<close>

datatype Subperiod = Voting | BuildAndEarn

fun Subperiod_next :: "Subperiod \<Rightarrow> Subperiod" where
  "Subperiod_next Voting = BuildAndEarn"
| "Subperiod_next BuildAndEarn = Voting"

record PeriodInfo =
  pi_number :: PeriodNumber
  pi_subperiod :: Subperiod
  pi_next_subperiod_start_era :: EraNumber

definition PeriodInfo_is_next_period :: "PeriodInfo \<Rightarrow> EraNumber \<Rightarrow> bool" where
  "PeriodInfo_is_next_period p era \<longleftrightarrow>
     pi_subperiod p = BuildAndEarn \<and> pi_next_subperiod_start_era p \<le> era"

record PeriodEndInfo =
  pe_bonus_reward_pool :: Balance
  pe_total_vp_stake :: Balance
  pe_final_era :: EraNumber

datatype ForcingType = ForceEra | ForceSubperiod

record ProtocolState =
  ps_era :: EraNumber
  ps_next_era_start :: BlockNumber
  ps_period_info :: PeriodInfo
  ps_maintenance :: bool

definition ProtocolState_default :: ProtocolState where
  "ProtocolState_default = \<lparr> ps_era = 1, ps_next_era_start = 2,
     ps_period_info = \<lparr> pi_number = 1, pi_subperiod = Voting, pi_next_subperiod_start_era = 2 \<rparr>,
     ps_maintenance = False \<rparr>"

definition ProtocolState_set_next_era_start :: "BlockNumber \<Rightarrow> ProtocolState \<Rightarrow> ProtocolState" where
  "ProtocolState_set_next_era_start b s = s\<lparr> ps_next_era_start := b \<rparr>"

definition ProtocolState_subperiod :: "ProtocolState \<Rightarrow> Subperiod" where
  "ProtocolState_subperiod s = pi_subperiod (ps_period_info s)"

definition ProtocolState_period_number :: "ProtocolState \<Rightarrow> PeriodNumber" where
  "ProtocolState_period_number s = pi_number (ps_period_info s)"

definition ProtocolState_next_subperiod_start_era :: "ProtocolState \<Rightarrow> EraNumber" where
  "ProtocolState_next_subperiod_start_era s = pi_next_subperiod_start_era (ps_period_info s)"

definition ProtocolState_is_new_era :: "ProtocolState \<Rightarrow> BlockNumber \<Rightarrow> bool" where
  "ProtocolState_is_new_era s now \<longleftrightarrow> ps_next_era_start s \<le> now"

definition ProtocolState_advance_to_next_subperiod ::
  "EraNumber \<Rightarrow> BlockNumber \<Rightarrow> ProtocolState \<Rightarrow> ProtocolState" where
  "ProtocolState_advance_to_next_subperiod next_subperiod_start_era next_era_start s =
     (let period_number = (case ProtocolState_subperiod s of
            Voting \<Rightarrow> ProtocolState_period_number s
          | BuildAndEarn \<Rightarrow> u32_add (ProtocolState_period_number s) 1)
      in s\<lparr> ps_period_info := \<lparr> pi_number = period_number,
                pi_subperiod = Subperiod_next (ProtocolState_subperiod s),
                pi_next_subperiod_start_era = next_subperiod_start_era \<rparr>,
            ps_next_era_start := next_era_start \<rparr>)"

lemmas protocol_defs = ProtocolState_subperiod_def ProtocolState_period_number_def
  ProtocolState_next_subperiod_start_era_def ProtocolState_is_new_era_def
  ProtocolState_advance_to_next_subperiod_def ProtocolState_set_next_era_start_def
  PeriodInfo_is_next_period_def

section \<open>dApp information\<close>

record 'acc DAppInfo =
  di_owner :: 'acc
  di_id :: DAppId
  di_reward_beneficiary :: "'acc option"

definition DAppInfo_reward_beneficiary :: "'acc DAppInfo \<Rightarrow> 'acc" where
  "DAppInfo_reward_beneficiary d =
     (case di_reward_beneficiary d of Some account_id \<Rightarrow> account_id | None \<Rightarrow> di_owner d)"

record UnlockingChunk =
  uc_amount :: Balance
  uc_unlock_block :: BlockNumber

section \<open>Stake amounts\<close>

record StakeAmount =
  sa_voting :: Balance
  sa_build_and_earn :: Balance
  sa_era :: EraNumber
  sa_period :: PeriodNumber

definition StakeAmount_default :: StakeAmount where
  "StakeAmount_default = \<lparr> sa_voting = 0, sa_build_and_earn = 0, sa_era = 0, sa_period = 0 \<rparr>"

definition StakeAmount_is_empty :: "StakeAmount \<Rightarrow> bool" where
  "StakeAmount_is_empty s \<longleftrightarrow> sa_voting s = 0 \<and> sa_build_and_earn s = 0"

definition StakeAmount_total :: "StakeAmount \<Rightarrow> Balance" where
  "StakeAmount_total s = u128_add (sa_voting s) (sa_build_and_earn s)"

definition StakeAmount_for_type :: "StakeAmount \<Rightarrow> Subperiod \<Rightarrow> Balance" where
  "StakeAmount_for_type s subperiod =
     (case subperiod of Voting \<Rightarrow> sa_voting s | BuildAndEarn \<Rightarrow> sa_build_and_earn s)"

definition StakeAmount_add :: "Balance \<Rightarrow> Subperiod \<Rightarrow> StakeAmount \<Rightarrow> StakeAmount" where
  "StakeAmount_add amount subperiod s =
     (case subperiod of
        Voting \<Rightarrow> s\<lparr> sa_voting := u128_add (sa_voting s) amount \<rparr>
      | BuildAndEarn \<Rightarrow> s\<lparr> sa_build_and_earn := u128_add (sa_build_and_earn s) amount \<rparr>)"

definition StakeAmount_subtract :: "Balance \<Rightarrow> StakeAmount \<Rightarrow> StakeAmount" where
  "StakeAmount_subtract amount s =
     (if sa_build_and_earn s \<ge> amount
      then s\<lparr> sa_build_and_earn := sat_sub (sa_build_and_earn s) amount \<rparr>
      else
        let remainder = sat_sub amount (sa_build_and_earn s)
        in s\<lparr> sa_build_and_earn := 0, sa_voting := sat_sub (sa_voting s) remainder \<rparr>)"

text \<open>An amount is well formed when both parts together fit a balance; then no total saturates.
  \<open>sa_leq\<close> compares two amounts part by part.\<close>

definition sa_ok :: "StakeAmount \<Rightarrow> bool" where
  "sa_ok s \<longleftrightarrow> sa_voting s + sa_build_and_earn s \<le> u128_max"

definition sa_leq :: "StakeAmount \<Rightarrow> StakeAmount \<Rightarrow> bool" where
  "sa_leq a b \<longleftrightarrow> sa_voting a \<le> sa_voting b \<and> sa_build_and_earn a \<le> sa_build_and_earn b"

definition sa_sum :: "StakeAmount \<Rightarrow> nat" where
  "sa_sum s = sa_voting s + sa_build_and_earn s"

lemma sa_total_eq: "sa_ok s \<Longrightarrow> StakeAmount_total s = sa_sum s"
  by (simp add: sa_ok_def StakeAmount_total_def sa_sum_def sat_add_exact)

lemma sa_ok_sum: "sa_ok s \<longleftrightarrow> sa_sum s \<le> u128_max"
  by (simp add: sa_ok_def sa_sum_def)

lemma sa_default_simps [simp]:
  "sa_voting StakeAmount_default = 0" "sa_build_and_earn StakeAmount_default = 0"
  "sa_era StakeAmount_default = 0" "sa_period StakeAmount_default = 0"
  "sa_sum StakeAmount_default = 0" "sa_ok StakeAmount_default"
  "StakeAmount_is_empty StakeAmount_default" "StakeAmount_total StakeAmount_default = 0"
  by (simp_all add: StakeAmount_default_def sa_sum_def sa_ok_def StakeAmount_is_empty_def StakeAmount_total_def)

lemma sa_is_empty_iff: "StakeAmount_is_empty s \<longleftrightarrow> sa_sum s = 0"
  by (simp add: StakeAmount_is_empty_def sa_sum_def)

lemma sa_total_0_iff [simp]: "StakeAmount_total s = 0 \<longleftrightarrow> StakeAmount_is_empty s"
  by (simp add: StakeAmount_total_def StakeAmount_is_empty_def)

lemma sa_subtract_simps [simp]:
  "sa_era (StakeAmount_subtract a s) = sa_era s" "sa_period (StakeAmount_subtract a s) = sa_period s"
  by (simp_all add: StakeAmount_subtract_def Let_def)

lemma sa_add_simps [simp]:
  "sa_era (StakeAmount_add a p s) = sa_era s" "sa_period (StakeAmount_add a p s) = sa_period s"
  by (simp_all add: StakeAmount_add_def split: Subperiod.split)

lemma sa_subtract_parts:
  "sa_build_and_earn (StakeAmount_subtract a s) = sa_build_and_earn s - a"
  "sa_voting (StakeAmount_subtract a s) = sa_voting s - (a - sa_build_and_earn s)"
  by (simp_all add: StakeAmount_subtract_def Let_def)

lemma sa_sum_subtract [simp]: "sa_sum (StakeAmount_subtract a s) = sa_sum s - a"
  by (simp add: sa_sum_def sa_subtract_parts)

lemma sa_ok_subtract [simp]: "sa_ok s \<Longrightarrow> sa_ok (StakeAmount_subtract a s)"
  by (simp add: sa_ok_sum)

lemma sa_subtract_mono: "sa_leq s t \<Longrightarrow> sa_leq (StakeAmount_subtract a s) (StakeAmount_subtract a t)"
  by (auto simp: sa_leq_def sa_subtract_parts)

lemma sa_sum_add: "sa_sum s + a \<le> u128_max \<Longrightarrow> sa_sum (StakeAmount_add a p s) = sa_sum s + a"
  by (cases p) (simp_all add: StakeAmount_add_def sa_sum_def sat_add_exact)

lemma sa_ok_add: "sa_sum s + a \<le> u128_max \<Longrightarrow> sa_ok (StakeAmount_add a p s)"
  by (simp add: sa_ok_sum sa_sum_add)

lemma sa_leq_add: "sa_ok s \<Longrightarrow> sa_leq t s \<Longrightarrow> sa_leq t (StakeAmount_add a p s)"
  by (cases p) (auto simp: StakeAmount_add_def sa_leq_def sa_ok_def sat_add_def)

lemma sa_leq_refl [simp]: "sa_leq s s"
  by (simp add: sa_leq_def)

lemma sa_leq_trans: "sa_leq s t \<Longrightarrow> sa_leq t u \<Longrightarrow> sa_leq s u"
  by (auto simp: sa_leq_def)

lemma sa_leq_sum: "sa_leq s t \<Longrightarrow> sa_sum s \<le> sa_sum t"
  by (simp add: sa_leq_def sa_sum_def)

lemma sa_update_simps [simp]:
  "sa_sum (s\<lparr>sa_era := e\<rparr>) = sa_sum s" "sa_sum (s\<lparr>sa_period := p\<rparr>) = sa_sum s"
  "sa_ok (s\<lparr>sa_era := e\<rparr>) = sa_ok s" "sa_ok (s\<lparr>sa_period := p\<rparr>) = sa_ok s"
  "sa_leq (s\<lparr>sa_era := e\<rparr>) t = sa_leq s t" "sa_leq t (s\<lparr>sa_era := e\<rparr>) = sa_leq t s"
  "sa_leq (s\<lparr>sa_period := p\<rparr>) t = sa_leq s t" "sa_leq t (s\<lparr>sa_period := p\<rparr>) = sa_leq t s"
  "StakeAmount_total (s\<lparr>sa_era := e\<rparr>) = StakeAmount_total s"
  "StakeAmount_total (s\<lparr>sa_period := p\<rparr>) = StakeAmount_total s"
  "StakeAmount_is_empty (s\<lparr>sa_era := e\<rparr>) = StakeAmount_is_empty s"
  "StakeAmount_is_empty (s\<lparr>sa_period := p\<rparr>) = StakeAmount_is_empty s"
  by (simp_all add: sa_sum_def sa_ok_def sa_leq_def StakeAmount_total_def StakeAmount_is_empty_def)

section \<open>Era information\<close>

record EraInfo =
  ei_total_locked :: Balance
  ei_unlocking :: Balance
  ei_current_stake_amount :: StakeAmount
  ei_next_stake_amount :: StakeAmount

definition EraInfo_default :: EraInfo where
  "EraInfo_default = \<lparr> ei_total_locked = 0, ei_unlocking = 0,
     ei_current_stake_amount = StakeAmount_default, ei_next_stake_amount = StakeAmount_default \<rparr>"

definition EraInfo_add_locked :: "Balance \<Rightarrow> EraInfo \<Rightarrow> EraInfo" where
  "EraInfo_add_locked amount i = i\<lparr> ei_total_locked := u128_add (ei_total_locked i) amount \<rparr>"

definition EraInfo_unlocking_started :: "Balance \<Rightarrow> EraInfo \<Rightarrow> EraInfo" where
  "EraInfo_unlocking_started amount i =
     i\<lparr> ei_total_locked := sat_sub (ei_total_locked i) amount,
        ei_unlocking := u128_add (ei_unlocking i) amount \<rparr>"

definition EraInfo_unlocking_removed :: "Balance \<Rightarrow> EraInfo \<Rightarrow> EraInfo" where
  "EraInfo_unlocking_removed amount i = i\<lparr> ei_unlocking := sat_sub (ei_unlocking i) amount \<rparr>"

definition EraInfo_add_stake_amount :: "Balance \<Rightarrow> Subperiod \<Rightarrow> EraInfo \<Rightarrow> EraInfo" where
  "EraInfo_add_stake_amount amount subperiod i =
     i\<lparr> ei_next_stake_amount := StakeAmount_add amount subperiod (ei_next_stake_amount i) \<rparr>"

definition EraInfo_unstake_amount :: "Balance \<Rightarrow> EraInfo \<Rightarrow> EraInfo" where
  "EraInfo_unstake_amount amount i =
     i\<lparr> ei_current_stake_amount := StakeAmount_subtract amount (ei_current_stake_amount i),
        ei_next_stake_amount := StakeAmount_subtract amount (ei_next_stake_amount i) \<rparr>"

definition EraInfo_total_staked_amount :: "EraInfo \<Rightarrow> Balance" where
  "EraInfo_total_staked_amount i = StakeAmount_total (ei_current_stake_amount i)"

definition EraInfo_staked_amount :: "EraInfo \<Rightarrow> Subperiod \<Rightarrow> Balance" where
  "EraInfo_staked_amount i subperiod = StakeAmount_for_type (ei_current_stake_amount i) subperiod"

definition EraInfo_total_staked_amount_next_era :: "EraInfo \<Rightarrow> Balance" where
  "EraInfo_total_staked_amount_next_era i = StakeAmount_total (ei_next_stake_amount i)"

definition EraInfo_staked_amount_next_era :: "EraInfo \<Rightarrow> Subperiod \<Rightarrow> Balance" where
  "EraInfo_staked_amount_next_era i subperiod = StakeAmount_for_type (ei_next_stake_amount i) subperiod"

definition EraInfo_reset_stake :: "StakeAmount \<Rightarrow> StakeAmount" where
  "EraInfo_reset_stake s = s\<lparr> sa_voting := 0, sa_build_and_earn := 0,
     sa_era := u32_add (sa_era s) 1, sa_period := u32_add (sa_period s) 1 \<rparr>"

definition EraInfo_migrate_to_next_era :: "Subperiod option \<Rightarrow> EraInfo \<Rightarrow> EraInfo" where
  "EraInfo_migrate_to_next_era next_subperiod i =
     (if next_subperiod = Some Voting
      then i\<lparr> ei_current_stake_amount := EraInfo_reset_stake (ei_current_stake_amount i),
              ei_next_stake_amount := EraInfo_reset_stake (ei_next_stake_amount i) \<rparr>
      else i\<lparr> ei_current_stake_amount := ei_next_stake_amount i,
              ei_next_stake_amount := (ei_next_stake_amount i)
                \<lparr> sa_era := u32_add (sa_era (ei_next_stake_amount i)) 1 \<rparr> \<rparr>)"

lemmas era_info_defs = EraInfo_add_locked_def EraInfo_unlocking_started_def
  EraInfo_unlocking_removed_def EraInfo_add_stake_amount_def EraInfo_unstake_amount_def
  EraInfo_total_staked_amount_def EraInfo_staked_amount_def
  EraInfo_total_staked_amount_next_era_def EraInfo_staked_amount_next_era_def
  EraInfo_migrate_to_next_era_def

lemma reset_stake_simps [simp]:
  "sa_sum (EraInfo_reset_stake s) = 0" "sa_ok (EraInfo_reset_stake s)"
  by (simp_all add: EraInfo_reset_stake_def sa_sum_def sa_ok_def)

end
