(* ===== verification/Ledger.thy ===== *)
theory Ledger
  imports StakeTypes
begin

text \<open>
  \<open>AccountLedger\<close> and \<open>EraStakePairIter\<close> (\<open>pallets/dapp-staking/src/types.rs\<close>): an account's locked
  balance, its unlocking chunks, and its stake in the current and the next era. A method on
  \<open>&mut self\<close> that can fail returns the updated ledger in a \<open>result\<close>. A bounded vector is a list, and
  its capacity is an argument of the one method that inserts into it.
\<close>

section \<open>Binary search\<close>

text \<open>\<open>slice::binary_search_by\<close>: the position of a key in a sorted slice, or where it would go.\<close>

function binary_search :: "nat list \<Rightarrow> nat \<Rightarrow> nat \<Rightarrow> nat \<Rightarrow> (nat, nat) result" where
  "binary_search ks x lo hi =
     (if lo < hi then
        let mid = lo + (hi - lo) div 2 in
        if ks ! mid = x then Ok mid
        else if ks ! mid < x then binary_search ks x (mid + 1) hi
        else binary_search ks x lo mid
      else Err lo)"
  by pat_completeness auto
termination
  by (relation "measure (\<lambda>(ks, x, lo, hi). hi - lo)") auto

declare binary_search.simps [simp del]

lemma binary_search_spec:
  assumes "sorted_wrt (<) ks" "hi \<le> length ks" "lo \<le> hi"
    and "\<forall>j<lo. ks ! j < x" "\<forall>j. hi \<le> j \<and> j < length ks \<longrightarrow> x < ks ! j"
  shows "case binary_search ks x lo hi of
      Ok i \<Rightarrow> i < length ks \<and> ks ! i = x
    | Err i \<Rightarrow> i \<le> length ks \<and> (\<forall>j<i. ks ! j < x) \<and> (\<forall>j. i \<le> j \<and> j < length ks \<longrightarrow> x < ks ! j)"
  using assms
proof (induction ks x lo hi rule: binary_search.induct)
  case (1 ks x lo hi)
  show ?case
  proof (cases "lo < hi")
    case False
    with "1.prems" have "lo = hi" by simp
    with "1.prems" show ?thesis by (simp add: binary_search.simps [of ks x hi hi])
  next
    case True
    define mid where "mid = lo + (hi - lo) div 2"
    have mid: "lo \<le> mid" "mid < hi" using True by (auto simp: mid_def)
    consider "ks ! mid = x" | "ks ! mid < x" | "x < ks ! mid" by linarith
    then show ?thesis
    proof cases
      case 1
      with True mid "1.prems" show ?thesis
        by (simp add: binary_search.simps [of ks x lo hi] mid_def [symmetric] Let_def)
    next
      case 2
      have "\<forall>j<mid + 1. ks ! j < x"
      proof (intro allI impI)
        fix j assume "j < mid + 1"
        then have "ks ! j \<le> ks ! mid"
          using sorted_wrt_nth_less [OF "1.prems"(1), of j mid] mid "1.prems"(2) by (cases "j = mid") auto
        with 2 show "ks ! j < x" by simp
      qed
      with 2 True mid "1.prems" "1.IH"(1) [OF True mid_def] show ?thesis
        by (simp add: binary_search.simps [of ks x lo hi] mid_def [symmetric] Let_def)
    next
      case 3
      have "\<forall>j. mid \<le> j \<and> j < length ks \<longrightarrow> x < ks ! j"
      proof (intro allI impI)
        fix j assume j: "mid \<le> j \<and> j < length ks"
        then have "ks ! mid \<le> ks ! j"
          using sorted_wrt_nth_less [OF "1.prems"(1), of mid j] by (cases "j = mid") auto
        with 3 show "x < ks ! j" by simp
      qed
      moreover have n: "ks ! mid \<noteq> x" "\<not> ks ! mid < x" using 3 by auto
      ultimately show ?thesis using True mid "1.prems" "1.IH"(2) [OF True mid_def n]
        by (simp add: binary_search.simps [of ks x lo hi] mid_def [symmetric] Let_def)
    qed
  qed
qed

section \<open>The account ledger\<close>

datatype AccountLedgerError = InvalidEra | NoCapacity | InvalidPeriod | UnavailableStakeFunds
  | UnstakeAmountLargerThanStake | NothingToClaim | InvalidIterator

record AccountLedger =
  al_locked :: Balance
  al_unlocking :: "UnlockingChunk list"
  al_staked :: StakeAmount
  al_staked_future :: "StakeAmount option"
  al_contract_stake_count :: nat

definition AccountLedger_default :: AccountLedger where
  "AccountLedger_default = \<lparr> al_locked = 0, al_unlocking = [], al_staked = StakeAmount_default,
     al_staked_future = None, al_contract_stake_count = 0 \<rparr>"

definition AccountLedger_is_empty :: "AccountLedger \<Rightarrow> bool" where
  "AccountLedger_is_empty l \<longleftrightarrow> al_locked l = 0 \<and> al_unlocking l = []
     \<and> StakeAmount_total (al_staked l) = 0 \<and> al_staked_future l = None"

definition AccountLedger_active_locked_amount :: "AccountLedger \<Rightarrow> Balance" where
  "AccountLedger_active_locked_amount l = al_locked l"

definition AccountLedger_unlocking_amount :: "AccountLedger \<Rightarrow> Balance" where
  "AccountLedger_unlocking_amount l =
     foldl (\<lambda>sum chunk. u128_add sum (uc_amount chunk)) 0 (al_unlocking l)"

definition AccountLedger_total_locked_amount :: "AccountLedger \<Rightarrow> Balance" where
  "AccountLedger_total_locked_amount l =
     u128_add (AccountLedger_active_locked_amount l) (AccountLedger_unlocking_amount l)"

definition AccountLedger_add_lock_amount :: "Balance \<Rightarrow> AccountLedger \<Rightarrow> AccountLedger" where
  "AccountLedger_add_lock_amount amount l = l\<lparr> al_locked := u128_add (al_locked l) amount \<rparr>"

definition AccountLedger_subtract_lock_amount :: "Balance \<Rightarrow> AccountLedger \<Rightarrow> AccountLedger" where
  "AccountLedger_subtract_lock_amount amount l = l\<lparr> al_locked := sat_sub (al_locked l) amount \<rparr>"

definition AccountLedger_add_unlocking_chunk ::
  "nat \<Rightarrow> Balance \<Rightarrow> BlockNumber \<Rightarrow> AccountLedger \<Rightarrow> (AccountLedger, AccountLedgerError) result" where
  "AccountLedger_add_unlocking_chunk capacity amount unlock_block l =
     (if amount = 0 then Ok l
      else
        let u = al_unlocking l in
        case binary_search (map uc_unlock_block u) unlock_block 0 (length u) of
          Ok idx \<Rightarrow>
            Ok (l\<lparr> al_unlocking := u[idx := (u ! idx)\<lparr> uc_amount := u128_add (uc_amount (u ! idx)) amount \<rparr>] \<rparr>)
        | Err idx \<Rightarrow>
            let new_unlocking_chunk = \<lparr> uc_amount = amount, uc_unlock_block = unlock_block \<rparr> in
            if length u < capacity
            then Ok (l\<lparr> al_unlocking := take idx u @ new_unlocking_chunk # drop idx u \<rparr>)
            else Err NoCapacity)"

definition AccountLedger_staked_amount :: "AccountLedger \<Rightarrow> PeriodNumber \<Rightarrow> Balance" where
  "AccountLedger_staked_amount l active_period =
     (case al_staked_future l of
        Some stake_amount \<Rightarrow>
          if sa_period stake_amount = active_period then StakeAmount_total stake_amount
          else if sa_period (al_staked l) = active_period then StakeAmount_total (al_staked l)
          else 0
      | None \<Rightarrow>
          if sa_period (al_staked l) = active_period then StakeAmount_total (al_staked l) else 0)"

definition AccountLedger_staked_amount_for_type ::
  "AccountLedger \<Rightarrow> Subperiod \<Rightarrow> PeriodNumber \<Rightarrow> Balance" where
  "AccountLedger_staked_amount_for_type l subperiod period =
     (case al_staked_future l of
        Some stake_amount \<Rightarrow>
          if sa_period stake_amount = period then StakeAmount_for_type stake_amount subperiod
          else if sa_period (al_staked l) = period then StakeAmount_for_type (al_staked l) subperiod
          else 0
      | None \<Rightarrow>
          if sa_period (al_staked l) = period then StakeAmount_for_type (al_staked l) subperiod else 0)"

definition AccountLedger_unlockable_amount :: "AccountLedger \<Rightarrow> PeriodNumber \<Rightarrow> Balance" where
  "AccountLedger_unlockable_amount l current_period =
     sat_sub (AccountLedger_active_locked_amount l) (AccountLedger_staked_amount l current_period)"

definition AccountLedger_stakeable_amount :: "AccountLedger \<Rightarrow> PeriodNumber \<Rightarrow> Balance" where
  "AccountLedger_stakeable_amount l active_period =
     sat_sub (AccountLedger_active_locked_amount l) (AccountLedger_staked_amount l active_period)"

text \<open>\<open>claim_unlocked\<close>: \<open>Vec::retain\<close> with a closure that adds each removed chunk to the total.\<close>

fun retain_locked :: "BlockNumber \<Rightarrow> Balance \<Rightarrow> UnlockingChunk list \<Rightarrow> Balance \<times> UnlockingChunk list" where
  "retain_locked now acc [] = (acc, [])"
| "retain_locked now acc (chunk # chunks) =
     (if uc_unlock_block chunk \<le> now
      then retain_locked now (u128_add acc (uc_amount chunk)) chunks
      else let (acc', kept) = retain_locked now acc chunks in (acc', chunk # kept))"

definition AccountLedger_claim_unlocked :: "BlockNumber \<Rightarrow> AccountLedger \<Rightarrow> Balance \<times> AccountLedger" where
  "AccountLedger_claim_unlocked current_block_number l =
     (let (acc, kept) = retain_locked current_block_number 0 (al_unlocking l)
      in (acc, l\<lparr> al_unlocking := kept \<rparr>))"

definition AccountLedger_consume_unlocking_chunks :: "AccountLedger \<Rightarrow> Balance \<times> AccountLedger" where
  "AccountLedger_consume_unlocking_chunks l =
     (foldl (\<lambda>sum chunk. u128_add sum (uc_amount chunk)) 0 (al_unlocking l), l\<lparr> al_unlocking := [] \<rparr>)"

definition AccountLedger_stake_unstake_argument_check ::
  "AccountLedger \<Rightarrow> EraNumber \<Rightarrow> PeriodInfo \<Rightarrow> (unit, AccountLedgerError) result" where
  "AccountLedger_stake_unstake_argument_check l current_era current_period_info =
     (if \<not> StakeAmount_is_empty (al_staked l) then
        if sa_era (al_staked l) \<noteq> current_era then Err InvalidEra
        else if sa_period (al_staked l) \<noteq> pi_number current_period_info then Err InvalidPeriod
        else Ok ()
      else
        case al_staked_future l of
          Some stake_amount \<Rightarrow>
            if sa_era stake_amount \<noteq> u32_add current_era 1 \<and> sa_era stake_amount \<noteq> current_era
            then Err InvalidEra
            else if sa_period stake_amount \<noteq> pi_number current_period_info then Err InvalidPeriod
            else Ok ()
        | None \<Rightarrow> Ok ())"

definition AccountLedger_add_stake_amount ::
  "Balance \<Rightarrow> EraNumber \<Rightarrow> PeriodInfo \<Rightarrow> AccountLedger \<Rightarrow> (AccountLedger, AccountLedgerError) result" where
  "AccountLedger_add_stake_amount amount current_era current_period_info l =
     (if amount = 0 then Ok l
      else case AccountLedger_stake_unstake_argument_check l current_era current_period_info of
        Err e \<Rightarrow> Err e
      | Ok _ \<Rightarrow>
          if AccountLedger_stakeable_amount l (pi_number current_period_info) < amount
          then Err UnavailableStakeFunds
          else
            (case al_staked_future l of
               Some stake_amount \<Rightarrow>
                 Ok (l\<lparr> al_staked := (if sa_era stake_amount = current_era then stake_amount else al_staked l),
                        al_staked_future := Some ((StakeAmount_add amount (pi_subperiod current_period_info) stake_amount)
                          \<lparr> sa_era := u32_add current_era 1 \<rparr>) \<rparr>)
             | None \<Rightarrow>
                 let stake_amount = (al_staked l)\<lparr> sa_era := u32_add current_era 1,
                                                   sa_period := pi_number current_period_info \<rparr>
                 in Ok (l\<lparr> al_staked_future :=
                      Some (StakeAmount_add amount (pi_subperiod current_period_info) stake_amount) \<rparr>)))"

definition AccountLedger_unstake_amount ::
  "Balance \<Rightarrow> EraNumber \<Rightarrow> PeriodInfo \<Rightarrow> AccountLedger \<Rightarrow> (AccountLedger, AccountLedgerError) result" where
  "AccountLedger_unstake_amount amount current_era current_period_info l =
     (if amount = 0 then Ok l
      else case AccountLedger_stake_unstake_argument_check l current_era current_period_info of
        Err e \<Rightarrow> Err e
      | Ok _ \<Rightarrow>
          if AccountLedger_staked_amount l (pi_number current_period_info) < amount
          then Err UnstakeAmountLargerThanStake
          else
            let staked = StakeAmount_subtract amount (al_staked l);
                staked' = (if StakeAmount_is_empty staked then StakeAmount_default else staked);
                future' = (case al_staked_future l of
                    Some f \<Rightarrow>
                      (let stake_amount = StakeAmount_subtract amount f
                       in if StakeAmount_is_empty stake_amount then None else Some stake_amount)
                  | None \<Rightarrow> None)
            in Ok (l\<lparr> al_staked := staked', al_staked_future := future' \<rparr>))"

definition AccountLedger_staked_period :: "AccountLedger \<Rightarrow> PeriodNumber option" where
  "AccountLedger_staked_period l =
     (if StakeAmount_is_empty (al_staked l) then map_option sa_period (al_staked_future l)
      else Some (sa_period (al_staked l)))"

definition AccountLedger_earliest_staked_era :: "AccountLedger \<Rightarrow> EraNumber option" where
  "AccountLedger_earliest_staked_era l =
     (if StakeAmount_is_empty (al_staked l) then map_option sa_era (al_staked_future l)
      else Some (sa_era (al_staked l)))"

definition AccountLedger_maybe_cleanup_expired :: "PeriodNumber \<Rightarrow> AccountLedger \<Rightarrow> bool \<times> AccountLedger" where
  "AccountLedger_maybe_cleanup_expired valid_threshold_period l =
     (case AccountLedger_staked_period l of
        Some staked_period \<Rightarrow>
          if staked_period < valid_threshold_period
          then (True, l\<lparr> al_staked := StakeAmount_default, al_staked_future := None \<rparr>)
          else (False, l)
      | None \<Rightarrow> (False, l))"

section \<open>The reward iterator\<close>

record EraStakePairIter =
  it_maybe_first :: "(EraNumber \<times> Balance) option"
  it_start_era :: EraNumber
  it_end_era :: EraNumber
  it_amount :: Balance

definition EraStakePairIter_new ::
  "EraNumber \<times> EraNumber \<times> Balance \<Rightarrow> (EraNumber \<times> Balance) option \<Rightarrow> (EraStakePairIter, unit) result" where
  "EraStakePairIter_new span maybe_first =
     (case span of (s, e, a) \<Rightarrow>
        if s > e then Err ()
        else if (case maybe_first of Some (era, _) \<Rightarrow> sat_sub s era \<noteq> 1 | None \<Rightarrow> False) then Err ()
        else Ok \<lparr> it_maybe_first = maybe_first, it_start_era = s, it_end_era = e, it_amount = a \<rparr>)"

definition EraStakePairIter_next ::
  "EraStakePairIter \<Rightarrow> (EraNumber \<times> Balance) option \<times> EraStakePairIter" where
  "EraStakePairIter_next it =
     (case it_maybe_first it of
        Some p \<Rightarrow> (Some p, it\<lparr> it_maybe_first := None \<rparr>)
      | None \<Rightarrow>
          if it_start_era it \<le> it_end_era it
          then (Some (it_start_era it, it_amount it), it\<lparr> it_start_era := u32_add (it_start_era it) 1 \<rparr>)
          else (None, it))"

text \<open>All the pairs the iterator yields. Its era counter saturates, so an iterator that ends in the
  largest era never stops; then the value is \<open>None\<close>.\<close>

partial_function (option) EraStakePairIter_collect ::
  "EraStakePairIter \<Rightarrow> (EraNumber \<times> Balance) list option" where
  "EraStakePairIter_collect it =
     (case EraStakePairIter_next it of
        (None, _) \<Rightarrow> Some []
      | (Some p, it') \<Rightarrow> Option.bind (EraStakePairIter_collect it') (\<lambda>ps. Some (p # ps)))"

declare EraStakePairIter_collect.simps [code]

definition AccountLedger_claim_up_to_era ::
  "EraNumber \<Rightarrow> EraNumber option \<Rightarrow> AccountLedger \<Rightarrow>
     (EraStakePairIter \<times> AccountLedger, AccountLedgerError) result" where
  "AccountLedger_claim_up_to_era era period_end l =
     (let staked = al_staked l; future = al_staked_future l in
      if (if \<not> StakeAmount_is_empty staked then era < sa_era staked
          else case future of Some f \<Rightarrow> era < sa_era f | None \<Rightarrow> False)
      then Err NothingToClaim
      else
        let (span, maybe_first) =
              (case future of
                 Some f \<Rightarrow>
                   if StakeAmount_is_empty staked then ((sa_era f, era, StakeAmount_total f), None)
                   else if sa_era staked = era then ((era, era, StakeAmount_total staked), None)
                   else ((sa_era f, era, StakeAmount_total f), Some (sa_era staked, StakeAmount_total staked))
               | None \<Rightarrow> ((sa_era staked, era, StakeAmount_total staked), None))
        in case EraStakePairIter_new span maybe_first of
             Err _ \<Rightarrow> Err InvalidIterator
           | Ok result \<Rightarrow>
               let rolled = (case future of Some f \<Rightarrow> f | None \<Rightarrow> staked)\<lparr> sa_era := u32_add era 1 \<rparr>;
                   all_claimed = (case period_end of Some period_end_era \<Rightarrow> era \<ge> period_end_era | None \<Rightarrow> False)
               in Ok (result, l\<lparr> al_staked := (if all_claimed then StakeAmount_default else rolled),
                                 al_staked_future := None \<rparr>))"

section \<open>Unlocking chunks\<close>

abbreviation chunk_sum :: "UnlockingChunk list \<Rightarrow> nat" where
  "chunk_sum cs \<equiv> sum_list (map uc_amount cs)"

definition chunk_at :: "UnlockingChunk list \<Rightarrow> BlockNumber \<Rightarrow> nat" where
  "chunk_at cs b = sum_list (map (\<lambda>c. if uc_unlock_block c = b then uc_amount c else 0) cs)"

definition chunks_wf :: "nat \<Rightarrow> UnlockingChunk list \<Rightarrow> bool" where
  "chunks_wf capacity cs \<longleftrightarrow> sorted_wrt (<) (map uc_unlock_block cs) \<and> (\<forall>c\<in>set cs. 0 < uc_amount c)
     \<and> length cs \<le> capacity"

lemma fold_chunks:
  "acc \<le> u128_max \<Longrightarrow>
    foldl (\<lambda>sum chunk. u128_add sum (uc_amount chunk)) acc cs = min (acc + chunk_sum cs) u128_max"
  by (induction cs arbitrary: acc) (auto simp: sat_add_def min_def)

lemma unlocking_amount_eq: "AccountLedger_unlocking_amount l = min (chunk_sum (al_unlocking l)) u128_max"
  by (simp add: AccountLedger_unlocking_amount_def fold_chunks)

lemma retain_locked_eq:
  "acc \<le> u128_max \<Longrightarrow> retain_locked now acc cs =
    (min (acc + chunk_sum (filter (\<lambda>c. uc_unlock_block c \<le> now) cs)) u128_max,
     filter (\<lambda>c. \<not> uc_unlock_block c \<le> now) cs)"
  by (induction now acc cs rule: retain_locked.induct) (auto simp: sat_add_def min_def)

lemma chunks_wf_filter: "chunks_wf k cs \<Longrightarrow> chunks_wf k (filter P cs)"
  by (auto simp: chunks_wf_def sorted_wrt_map sorted_wrt_filter intro: le_trans [OF length_filter_le])

lemma chunks_wf_Nil [simp]: "chunks_wf k []"
  by (simp add: chunks_wf_def)

lemma chunk_sum_split: "chunk_sum (filter P cs) + chunk_sum (filter (\<lambda>c. \<not> P c) cs) = chunk_sum cs"
  by (induction cs) auto

lemma sum_list_map_update:
  "i < length cs \<Longrightarrow> sum_list (map w (cs[i := c])) + (w (cs ! i) :: nat) = sum_list (map w cs) + w c"
  by (induction cs arbitrary: i) (auto split: nat.split)

lemma sum_list_map_insert:
  "sum_list (map w (take i cs @ c # drop i cs)) = sum_list (map w cs) + (w c :: nat)"
proof -
  have "sum_list (map w (take i cs @ c # drop i cs)) = sum_list (map w (take i cs @ drop i cs)) + w c"
    unfolding map_append sum_list_append by simp
  then show ?thesis by simp
qed

lemma chunk_at_after: "chunk_at (filter (\<lambda>c. \<not> uc_unlock_block c \<le> now) cs) b = (if b \<le> now then 0 else chunk_at cs b)"
  by (induction cs) (auto simp: chunk_at_def)

lemma chunk_sum_ge: "c \<in> set cs \<Longrightarrow> uc_amount c \<le> chunk_sum cs"
  by (induction cs) auto

text \<open>Inserting a chunk: an existing block grows, a new block is inserted in order, and the only
  failure is a new block in a full vector.\<close>

lemma add_unlocking_chunk_found:
  assumes wf: "chunks_wf k (al_unlocking l)" and a: "0 < a" and i: "i < length (al_unlocking l)"
    and b: "uc_unlock_block (al_unlocking l ! i) = b"
    and found: "binary_search (map uc_unlock_block (al_unlocking l)) b 0 (length (al_unlocking l)) = Ok i"
    and fits: "chunk_sum (al_unlocking l) + a \<le> u128_max"
  shows "\<exists>l'. AccountLedger_add_unlocking_chunk k a b l = Ok l' \<and> chunks_wf k (al_unlocking l')
    \<and> chunk_sum (al_unlocking l') = chunk_sum (al_unlocking l) + a \<and> l' = l\<lparr>al_unlocking := al_unlocking l'\<rparr>
    \<and> (\<forall>b'. chunk_at (al_unlocking l') b' = chunk_at (al_unlocking l) b' + (if b' = b then a else 0))"
proof -
  let ?u = "al_unlocking l"
  let ?c = "(?u ! i)\<lparr> uc_amount := u128_add (uc_amount (?u ! i)) a \<rparr>"
  have "uc_amount (?u ! i) \<le> chunk_sum ?u" using i by (intro chunk_sum_ge) simp
  then have am: "uc_amount ?c = uc_amount (?u ! i) + a" using fits by (simp add: sat_add_exact)
  have blocks: "map uc_unlock_block (?u[i := ?c]) = map uc_unlock_block ?u"
    using i by (simp add: map_update list_update_same_conv)
  have pos: "0 < uc_amount c" if "c \<in> set (?u[i := ?c])" for c
  proof -
    from that have "c = ?c \<or> c \<in> set ?u" using set_update_subset_insert [of ?u i ?c] by auto
    then show ?thesis using wf a am by (auto simp: chunks_wf_def)
  qed
  have "chunks_wf k (?u[i := ?c])"
    using wf pos blocks by (simp only: chunks_wf_def length_list_update) blast
  moreover have "chunk_sum (?u[i := ?c]) = chunk_sum ?u + a"
    using sum_list_map_update [OF i, of uc_amount ?c] am by simp
  moreover have "chunk_at (?u[i := ?c]) b' = chunk_at ?u b' + (if b' = b then a else 0)" for b'
    using sum_list_map_update [OF i, of "\<lambda>c. if uc_unlock_block c = b' then uc_amount c else 0" ?c] am b
    by (simp add: chunk_at_def split: if_splits)
  ultimately show ?thesis
    using a found by (simp add: AccountLedger_add_unlocking_chunk_def Let_def)
qed

lemma sorted_insert_nth:
  assumes "sorted_wrt (<) (ks :: nat list)" "i \<le> length ks" "\<forall>j<i. ks ! j < x"
    "\<forall>j. i \<le> j \<and> j < length ks \<longrightarrow> x < ks ! j"
  shows "sorted_wrt (<) (take i ks @ x # drop i ks)"
proof -
  have "\<forall>y\<in>set (take i ks). y < x" using assms(2,3) by (auto simp: in_set_conv_nth)
  moreover have "\<forall>y\<in>set (drop i ks). x < y" using assms(2,4) by (auto simp: in_set_conv_nth)
  moreover have "sorted_wrt (<) (take i ks @ drop i ks)" using assms(1) by simp
  ultimately show ?thesis unfolding sorted_wrt_append by (auto intro: less_trans)
qed

lemma add_unlocking_chunk_new:
  assumes wf: "chunks_wf k (al_unlocking l)" and a: "0 < a"
    and new: "binary_search (map uc_unlock_block (al_unlocking l)) b 0 (length (al_unlocking l)) = Err i"
    and i: "i \<le> length (al_unlocking l)" "\<forall>j<i. uc_unlock_block (al_unlocking l ! j) < b"
      "\<forall>j. i \<le> j \<and> j < length (al_unlocking l) \<longrightarrow> b < uc_unlock_block (al_unlocking l ! j)"
  shows "if length (al_unlocking l) < k
    then \<exists>l'. AccountLedger_add_unlocking_chunk k a b l = Ok l' \<and> chunks_wf k (al_unlocking l')
      \<and> chunk_sum (al_unlocking l') = chunk_sum (al_unlocking l) + a \<and> l' = l\<lparr>al_unlocking := al_unlocking l'\<rparr>
    \<and> (\<forall>b'. chunk_at (al_unlocking l') b' = chunk_at (al_unlocking l) b' + (if b' = b then a else 0))
    else AccountLedger_add_unlocking_chunk k a b l = Err NoCapacity"
proof -
  let ?u = "al_unlocking l" and ?c = "\<lparr> uc_amount = a, uc_unlock_block = b \<rparr>"
  let ?n = "take i ?u @ ?c # drop i ?u"
  have "sorted_wrt (<) (take i (map uc_unlock_block ?u) @ b # drop i (map uc_unlock_block ?u))"
    using wf i by (intro sorted_insert_nth) (auto simp: chunks_wf_def)
  then have "sorted_wrt (<) (map uc_unlock_block ?n)" by (simp add: take_map drop_map)
  moreover have "0 < uc_amount c" if "c \<in> set ?n" for c
    using that wf a by (auto simp: chunks_wf_def dest: in_set_takeD in_set_dropD)
  ultimately have "length ?u < k \<Longrightarrow> chunks_wf k ?n" using i(1) by (auto simp: chunks_wf_def)
  moreover have "chunk_sum ?n = chunk_sum ?u + a"
    by (simp only: sum_list_map_insert) simp
  moreover have "chunk_at ?n b' = chunk_at ?u b' + (if b' = b then a else 0)" for b'
    by (simp only: chunk_at_def sum_list_map_insert) simp
  ultimately show ?thesis
    using a new by (simp add: AccountLedger_add_unlocking_chunk_def Let_def)
qed

lemma add_unlocking_chunk_correct:
  assumes wf: "chunks_wf k (al_unlocking l)" and a: "0 < a" and fits: "chunk_sum (al_unlocking l) + a \<le> u128_max"
  shows "if b \<in> uc_unlock_block ` set (al_unlocking l) \<or> length (al_unlocking l) < k
    then \<exists>l'. AccountLedger_add_unlocking_chunk k a b l = Ok l' \<and> chunks_wf k (al_unlocking l')
      \<and> chunk_sum (al_unlocking l') = chunk_sum (al_unlocking l) + a \<and> l' = l\<lparr>al_unlocking := al_unlocking l'\<rparr>
    \<and> (\<forall>b'. chunk_at (al_unlocking l') b' = chunk_at (al_unlocking l) b' + (if b' = b then a else 0))
    else AccountLedger_add_unlocking_chunk k a b l = Err NoCapacity"
proof -
  let ?u = "al_unlocking l" and ?ks = "map uc_unlock_block (al_unlocking l)"
  have found: "case binary_search ?ks b 0 (length ?u) of
      Ok i \<Rightarrow> i < length ?ks \<and> ?ks ! i = b
    | Err i \<Rightarrow> i \<le> length ?ks \<and> (\<forall>j<i. ?ks ! j < b) \<and> (\<forall>j. i \<le> j \<and> j < length ?ks \<longrightarrow> b < ?ks ! j)"
    using wf binary_search_spec [of ?ks "length ?u" 0 b] by (simp add: chunks_wf_def)
  show ?thesis
  proof (cases "binary_search ?ks b 0 (length ?u)")
    case (Ok i)
    with found have i: "i < length ?u" "uc_unlock_block (?u ! i) = b" by auto
    then have "b \<in> uc_unlock_block ` set ?u" by force
    with add_unlocking_chunk_found [OF wf a i Ok fits] show ?thesis by simp
  next
    case (Err i)
    with found have i: "i \<le> length ?u" "\<forall>j<i. uc_unlock_block (?u ! j) < b"
        "\<forall>j. i \<le> j \<and> j < length ?u \<longrightarrow> b < uc_unlock_block (?u ! j)" by auto
    have "b \<notin> uc_unlock_block ` set ?u"
    proof
      assume "b \<in> uc_unlock_block ` set ?u"
      then obtain j where j: "j < length ?u" "b = uc_unlock_block (?u ! j)" by (auto simp: in_set_conv_nth)
      with i(2) [THEN spec, of j] i(3) [THEN spec, of j] show False by auto
    qed
    with add_unlocking_chunk_new [OF wf a Err i] show ?thesis by simp
  qed
qed

section \<open>Staking\<close>

text \<open>
  The invariant of the two stake entries: both fit, a next-era entry is not empty, and when there is
  a current one too, it is one era older, of the same period and no larger in either part. The
  abstract view of a ledger is the stake that is effective in each era.
\<close>

definition stake_wf :: "AccountLedger \<Rightarrow> bool" where
  "stake_wf l \<longleftrightarrow> sa_ok (al_staked l) \<and>
     (case al_staked_future l of
        None \<Rightarrow> True
      | Some f \<Rightarrow> sa_ok f \<and> \<not> StakeAmount_is_empty f \<and>
          (\<not> StakeAmount_is_empty (al_staked l) \<longrightarrow>
             sa_era f = sa_era (al_staked l) + 1 \<and> sa_period f = sa_period (al_staked l) \<and> sa_leq (al_staked l) f))"

definition stake_at :: "AccountLedger \<Rightarrow> EraNumber \<Rightarrow> nat" where
  "stake_at l e =
     (case al_staked_future l of
        Some f \<Rightarrow> if sa_era f \<le> e then sa_sum f else if sa_era (al_staked l) \<le> e then sa_sum (al_staked l) else 0
      | None \<Rightarrow> if sa_era (al_staked l) \<le> e then sa_sum (al_staked l) else 0)"

definition latest_stake :: "AccountLedger \<Rightarrow> nat" where
  "latest_stake l = (case al_staked_future l of Some f \<Rightarrow> sa_sum f | None \<Rightarrow> sa_sum (al_staked l))"

lemma staked_amount_checked:
  assumes "stake_wf l" "AccountLedger_stake_unstake_argument_check l e pinfo = Ok u"
  shows "AccountLedger_staked_amount l (pi_number pinfo) = latest_stake l"
  using assms
  by (auto simp: AccountLedger_stake_unstake_argument_check_def AccountLedger_staked_amount_def stake_wf_def
      latest_stake_def sa_total_eq sa_is_empty_iff split: if_splits option.splits)

lemma latest_stake_le: "stake_wf l \<Longrightarrow> latest_stake l \<le> u128_max"
  by (auto simp: stake_wf_def latest_stake_def sa_ok_sum split: option.splits)

lemma stake_at_le_latest: "stake_wf l \<Longrightarrow> stake_at l e \<le> latest_stake l"
  by (auto simp: stake_wf_def latest_stake_def stake_at_def sa_is_empty_iff dest: sa_leq_sum split: option.splits)

lemma add_stake_OkE:
  assumes wf: "stake_wf l" and ok: "AccountLedger_add_stake_amount a era pinfo l = Ok l'" and a: "0 < a"
  obtains u where "AccountLedger_stake_unstake_argument_check l era pinfo = Ok u"
    "latest_stake l + a \<le> al_locked l"
    "l' = (case al_staked_future l of
        Some f \<Rightarrow> l\<lparr> al_staked := (if sa_era f = era then f else al_staked l),
             al_staked_future := Some ((StakeAmount_add a (pi_subperiod pinfo) f)\<lparr> sa_era := u32_add era 1 \<rparr>) \<rparr>
      | None \<Rightarrow> l\<lparr> al_staked_future := Some (StakeAmount_add a (pi_subperiod pinfo)
             ((al_staked l)\<lparr> sa_era := u32_add era 1, sa_period := pi_number pinfo \<rparr>)) \<rparr>)"
proof -
  from ok a obtain u where c: "AccountLedger_stake_unstake_argument_check l era pinfo = Ok u"
    by (auto simp: AccountLedger_add_stake_amount_def split: result.splits)
  from staked_amount_checked [OF wf c] ok a c have "latest_stake l + a \<le> al_locked l"
    by (simp add: AccountLedger_add_stake_amount_def AccountLedger_stakeable_amount_def
        AccountLedger_active_locked_amount_def split: if_splits)
  with that c ok a show thesis
    by (simp add: AccountLedger_add_stake_amount_def Let_def split: if_splits option.splits)
qed

lemmas ledger_check_defs = AccountLedger_stake_unstake_argument_check_def stake_wf_def sa_is_empty_iff

lemma add_stake_correct:
  assumes wf: "stake_wf l" and era: "era < u32_max" and lock: "al_locked l \<le> u128_max"
    and ok: "AccountLedger_add_stake_amount a era pinfo l = Ok l'" and a: "0 < a"
  shows "stake_wf l'" "latest_stake l' = latest_stake l + a"
    "stake_at l' e = stake_at l e + (if era < e then a else 0)"
    "l' = l\<lparr>al_staked := al_staked l', al_staked_future := al_staked_future l'\<rparr>"
    "latest_stake l' \<le> al_locked l'"
    "AccountLedger_staked_amount l' (pi_number pinfo) = latest_stake l'"
proof -
  obtain u where c: "AccountLedger_stake_unstake_argument_check l era pinfo = Ok u"
    and room: "latest_stake l + a \<le> al_locked l"
    and l': "l' = (case al_staked_future l of
        Some f \<Rightarrow> l\<lparr> al_staked := (if sa_era f = era then f else al_staked l),
             al_staked_future := Some ((StakeAmount_add a (pi_subperiod pinfo) f)\<lparr> sa_era := u32_add era 1 \<rparr>) \<rparr>
      | None \<Rightarrow> l\<lparr> al_staked_future := Some (StakeAmount_add a (pi_subperiod pinfo)
             ((al_staked l)\<lparr> sa_era := u32_add era 1, sa_period := pi_number pinfo \<rparr>)) \<rparr>)"
    by (rule add_stake_OkE [OF wf ok a])
  have fits: "latest_stake l + a \<le> u128_max" using room lock by simp
  show wf': "stake_wf l'"
    using wf c fits a era unfolding l'
    by (cases "al_staked_future l"; cases "sa_sum (al_staked l) = 0")
      (auto simp: ledger_check_defs latest_stake_def sa_sum_add sa_ok_add sa_leq_add split: if_splits)
  show "latest_stake l' = latest_stake l + a"
    using fits unfolding l' by (simp add: latest_stake_def sa_sum_add split: option.splits)
  then show "latest_stake l' \<le> al_locked l'"
    using room unfolding l' by (simp split: option.splits)
  show "stake_at l' e = stake_at l e + (if era < e then a else 0)"
    using wf c fits era unfolding l'
    by (cases "al_staked_future l"; cases "sa_sum (al_staked l) = 0")
      (auto simp: ledger_check_defs stake_at_def latest_stake_def sa_sum_add split: if_splits)
  show "l' = l\<lparr>al_staked := al_staked l', al_staked_future := al_staked_future l'\<rparr>"
    unfolding l' by (simp split: option.splits)
  have "\<exists>f. al_staked_future l' = Some f \<and> sa_period f = pi_number pinfo"
    using wf c unfolding l' by (auto simp: ledger_check_defs split: option.splits if_splits)
  with wf' show "AccountLedger_staked_amount l' (pi_number pinfo) = latest_stake l'"
    by (auto simp: AccountLedger_staked_amount_def latest_stake_def stake_wf_def sa_total_eq)
qed

lemma unstake_OkE:
  assumes wf: "stake_wf l" and ok: "AccountLedger_unstake_amount a era pinfo l = Ok l'" and a: "0 < a"
  obtains u where "AccountLedger_stake_unstake_argument_check l era pinfo = Ok u" "a \<le> latest_stake l"
    "l' = l\<lparr> al_staked := (if sa_sum (al_staked l) \<le> a then StakeAmount_default else StakeAmount_subtract a (al_staked l)),
        al_staked_future := (case al_staked_future l of None \<Rightarrow> None
          | Some f \<Rightarrow> if sa_sum f \<le> a then None else Some (StakeAmount_subtract a f)) \<rparr>"
proof -
  from ok a obtain u where c: "AccountLedger_stake_unstake_argument_check l era pinfo = Ok u"
    by (auto simp: AccountLedger_unstake_amount_def split: result.splits)
  from staked_amount_checked [OF wf c] ok a c have "a \<le> latest_stake l"
    by (simp add: AccountLedger_unstake_amount_def split: if_splits)
  with that c ok a show thesis
    by (simp add: AccountLedger_unstake_amount_def Let_def sa_is_empty_iff split: if_splits option.splits)
qed

lemma unstake_correct:
  assumes wf: "stake_wf l" and ok: "AccountLedger_unstake_amount a era pinfo l = Ok l'" and a: "0 < a"
  shows "stake_wf l'" "a \<le> latest_stake l" "latest_stake l' = latest_stake l - a"
    "stake_at l' e = stake_at l e - a"
    "l' = l\<lparr>al_staked := al_staked l', al_staked_future := al_staked_future l'\<rparr>"
    "AccountLedger_staked_amount l' (pi_number pinfo) = latest_stake l'"
proof -
  obtain u where c: "AccountLedger_stake_unstake_argument_check l era pinfo = Ok u"
    and le: "a \<le> latest_stake l"
    and l': "l' = l\<lparr> al_staked := (if sa_sum (al_staked l) \<le> a then StakeAmount_default else StakeAmount_subtract a (al_staked l)),
        al_staked_future := (case al_staked_future l of None \<Rightarrow> None
          | Some f \<Rightarrow> if sa_sum f \<le> a then None else Some (StakeAmount_subtract a f)) \<rparr>"
    by (rule unstake_OkE [OF wf ok a])
  have mono: "sa_sum (al_staked l) \<le> sa_sum f" if "al_staked_future l = Some f" for f
    using wf that by (cases "sa_sum (al_staked l) = 0") (auto simp: stake_wf_def sa_is_empty_iff dest: sa_leq_sum)
  show "a \<le> latest_stake l" by (rule le)
  show wf': "stake_wf l'"
    using wf unfolding l' by (auto simp: stake_wf_def sa_is_empty_iff sa_subtract_mono split: option.splits)
  show "latest_stake l' = latest_stake l - a"
    using mono unfolding l' by (fastforce simp: latest_stake_def split: option.splits)
  show "stake_at l' e = stake_at l e - a"
    using wf mono unfolding l' by (fastforce simp: stake_at_def stake_wf_def sa_is_empty_iff split: option.splits)
  show "l' = l\<lparr>al_staked := al_staked l', al_staked_future := al_staked_future l'\<rparr>"
    unfolding l' by simp
  show "AccountLedger_staked_amount l' (pi_number pinfo) = latest_stake l'"
  proof (cases "al_staked_future l'")
    case (Some f)
    with wf c have "sa_period f = pi_number pinfo"
      unfolding l' by (auto simp: ledger_check_defs split: option.splits if_splits)
    with Some wf' show ?thesis
      by (simp add: AccountLedger_staked_amount_def latest_stake_def stake_wf_def sa_total_eq)
  next
    case None
    have "al_staked l' = StakeAmount_default \<or> sa_period (al_staked l') = pi_number pinfo"
    proof (cases "al_staked_future l")
      case (Some f)
      with None have "sa_sum f \<le> a" unfolding l' by (simp split: if_splits)
      with mono [OF Some] have "sa_sum (al_staked l) \<le> a" by simp
      then show ?thesis unfolding l' by simp
    next
      case None
      with c show ?thesis unfolding l' by (auto simp: ledger_check_defs split: if_splits)
    qed
    with None wf' show ?thesis
      by (auto simp: AccountLedger_staked_amount_def latest_stake_def stake_wf_def sa_total_eq)
  qed
qed

section \<open>Claiming\<close>

lemma iter_collect_span:
  assumes "it_maybe_first it = None" "it_end_era it < u32_max"
  shows "EraStakePairIter_collect it =
    Some (map (\<lambda>e. (e, it_amount it)) [it_start_era it..<Suc (it_end_era it)])"
  using assms
proof (induction "Suc (it_end_era it) - it_start_era it" arbitrary: it)
  case 0
  then show ?case
    by (simp add: EraStakePairIter_collect.simps [of it] EraStakePairIter_next_def)
next
  case (Suc n)
  let ?it = "it\<lparr> it_start_era := Suc (it_start_era it) \<rparr>"
  from Suc.hyps(2) have le: "it_start_era it \<le> it_end_era it" by simp
  have "EraStakePairIter_collect ?it = Some (map (\<lambda>e. (e, it_amount it)) [Suc (it_start_era it)..<Suc (it_end_era it)])"
    using Suc.hyps(1) [of ?it] Suc.hyps(2) Suc.prems by simp
  then show ?case
    using le Suc.prems by (simp add: EraStakePairIter_collect.simps [of it] EraStakePairIter_next_def upt_conv_Cons)
qed

lemma iter_collect:
  assumes "it_end_era it < u32_max"
  shows "EraStakePairIter_collect it =
    Some ((case it_maybe_first it of None \<Rightarrow> [] | Some p \<Rightarrow> [p]) @
      map (\<lambda>e. (e, it_amount it)) [it_start_era it..<Suc (it_end_era it)])"
proof (cases "it_maybe_first it")
  case None
  with assms show ?thesis by (simp add: iter_collect_span)
next
  case (Some p)
  with assms iter_collect_span [of "it\<lparr> it_maybe_first := None \<rparr>"] show ?thesis
    by (simp add: EraStakePairIter_collect.simps [of it] EraStakePairIter_next_def)
qed

definition period_ended :: "EraNumber option \<Rightarrow> EraNumber \<Rightarrow> bool" where
  "period_ended period_end era = (case period_end of Some p \<Rightarrow> p \<le> era | None \<Rightarrow> False)"

definition claimed_ledger :: "EraNumber \<Rightarrow> AccountLedger \<Rightarrow> AccountLedger" where
  "claimed_ledger era l = l\<lparr> al_staked := (case al_staked_future l of Some f \<Rightarrow> f | None \<Rightarrow> al_staked l)
     \<lparr> sa_era := Suc era \<rparr>, al_staked_future := None \<rparr>"

definition cleared_ledger :: "AccountLedger \<Rightarrow> AccountLedger" where
  "cleared_ledger l = l\<lparr> al_staked := StakeAmount_default, al_staked_future := None \<rparr>"

lemma claim_up_to_era_eq:
  assumes wf: "stake_wf l" and e0: "AccountLedger_earliest_staked_era l = Some e0"
    and era: "e0 \<le> era" "era < u32_max"
  obtains it where "AccountLedger_claim_up_to_era era pe l =
      Ok (it, if period_ended pe era then cleared_ledger l else claimed_ledger era l)"
    "EraStakePairIter_collect it = Some (map (\<lambda>e. (e, stake_at l e)) [e0..<Suc era])"
    "it_end_era it = era"
proof (cases "al_staked_future l")
  case None
  let ?it = "\<lparr> it_maybe_first = None, it_start_era = e0, it_end_era = era, it_amount = StakeAmount_total (al_staked l) \<rparr>"
  from None e0 have ne: "\<not> StakeAmount_is_empty (al_staked l)" "sa_era (al_staked l) = e0"
    by (auto simp: AccountLedger_earliest_staked_era_def split: if_splits)
  have "AccountLedger_claim_up_to_era era pe l =
      Ok (?it, if period_ended pe era then cleared_ledger l else claimed_ledger era l)"
    using None ne era
    by (simp add: AccountLedger_claim_up_to_era_def EraStakePairIter_new_def Let_def period_ended_def
        cleared_ledger_def claimed_ledger_def)
  moreover have "EraStakePairIter_collect ?it = Some (map (\<lambda>e. (e, stake_at l e)) [e0..<Suc era])"
    using None ne wf era by (simp add: iter_collect stake_at_def stake_wf_def sa_total_eq del: upt_Suc cong: map_cong)
  ultimately show thesis by (rule that) simp
next
  case (Some f)
  show thesis
  proof (cases "StakeAmount_is_empty (al_staked l)")
    case True
    let ?it = "\<lparr> it_maybe_first = None, it_start_era = e0, it_end_era = era, it_amount = StakeAmount_total f \<rparr>"
    from True Some e0 have f: "sa_era f = e0" by (simp add: AccountLedger_earliest_staked_era_def)
    have "AccountLedger_claim_up_to_era era pe l =
        Ok (?it, if period_ended pe era then cleared_ledger l else claimed_ledger era l)"
      using Some True f era
      by (simp add: AccountLedger_claim_up_to_era_def EraStakePairIter_new_def Let_def period_ended_def
          cleared_ledger_def claimed_ledger_def)
    moreover have "EraStakePairIter_collect ?it = Some (map (\<lambda>e. (e, stake_at l e)) [e0..<Suc era])"
      using Some f wf era by (simp add: iter_collect stake_at_def stake_wf_def sa_total_eq del: upt_Suc cong: map_cong)
    ultimately show thesis by (rule that) simp
  next
    case False
    with Some e0 wf have s: "sa_era (al_staked l) = e0" "sa_era f = Suc e0" "sa_ok f" "sa_ok (al_staked l)"
      by (auto simp: AccountLedger_earliest_staked_era_def stake_wf_def)
    show thesis
    proof (cases "era = e0")
      case True
      let ?it = "\<lparr> it_maybe_first = None, it_start_era = e0, it_end_era = era, it_amount = StakeAmount_total (al_staked l) \<rparr>"
      have "AccountLedger_claim_up_to_era era pe l =
          Ok (?it, if period_ended pe era then cleared_ledger l else claimed_ledger era l)"
        using Some False True s era
        by (simp add: AccountLedger_claim_up_to_era_def EraStakePairIter_new_def Let_def period_ended_def
            cleared_ledger_def claimed_ledger_def)
      moreover have "EraStakePairIter_collect ?it = Some (map (\<lambda>e. (e, stake_at l e)) [e0..<Suc era])"
        using Some s True era by (simp add: iter_collect stake_at_def sa_total_eq)
      ultimately show thesis by (rule that) simp
    next
      case neq: False
      let ?it = "\<lparr> it_maybe_first = Some (e0, StakeAmount_total (al_staked l)), it_start_era = Suc e0,
          it_end_era = era, it_amount = StakeAmount_total f \<rparr>"
      have "AccountLedger_claim_up_to_era era pe l =
          Ok (?it, if period_ended pe era then cleared_ledger l else claimed_ledger era l)"
        using Some False neq s era
        by (simp add: AccountLedger_claim_up_to_era_def EraStakePairIter_new_def Let_def period_ended_def
            cleared_ledger_def claimed_ledger_def)
      moreover have "EraStakePairIter_collect ?it = Some (map (\<lambda>e. (e, stake_at l e)) [e0..<Suc era])"
        using Some s neq era
        by (simp add: iter_collect stake_at_def sa_total_eq upt_conv_Cons [of e0 "Suc era"] del: upt_Suc cong: map_cong)
      ultimately show thesis by (rule that) simp
    qed
  qed
qed

lemma claim_too_early:
  assumes "AccountLedger_earliest_staked_era l = Some e0" "era < e0"
  shows "AccountLedger_claim_up_to_era era pe l = Err NothingToClaim"
  using assms by (auto simp: AccountLedger_earliest_staked_era_def AccountLedger_claim_up_to_era_def split: if_splits)

lemma claimed_ledger_correct:
  assumes wf: "stake_wf l" and e0: "AccountLedger_earliest_staked_era l = Some e0" and era: "e0 \<le> era"
  shows "stake_wf (claimed_ledger era l)" "AccountLedger_earliest_staked_era (claimed_ledger era l) = Some (Suc era)"
    "latest_stake (claimed_ledger era l) = latest_stake l"
    "era < e \<Longrightarrow> stake_at (claimed_ledger era l) e = stake_at l e"
  using wf e0 era
  by (auto simp: claimed_ledger_def stake_wf_def AccountLedger_earliest_staked_era_def latest_stake_def stake_at_def
      split: option.splits if_splits)

lemma cleared_ledger_simps [simp]:
  "stake_wf (cleared_ledger l)" "latest_stake (cleared_ledger l) = 0" "stake_at (cleared_ledger l) e = 0"
  "AccountLedger_staked_amount (cleared_ledger l) p = 0"
  by (simp_all add: cleared_ledger_def stake_wf_def latest_stake_def stake_at_def AccountLedger_staked_amount_def)

section \<open>Properties\<close>

text \<open>C5: Claiming rewards up to an era yields exactly one pair for every era from the earliest staked one
  to that era, each with the stake that was effective in it, and the iterator stops. The ledger keeps
  the stake of every later era, unless the claim reaches the end of the period, which clears it.\<close>

theorem claim_up_to_era_pairs:
  assumes "stake_wf l" and "AccountLedger_earliest_staked_era l = Some e0" and "e0 \<le> era" and "era < u32_max"
  shows "\<exists>it l'. AccountLedger_claim_up_to_era era period_end l = Ok (it, l')
    \<and> EraStakePairIter_collect it = Some (map (\<lambda>e. (e, stake_at l e)) [e0..<Suc era])
    \<and> stake_wf l'
    \<and> (if period_ended period_end era then AccountLedger_earliest_staked_era l' = None
       else AccountLedger_earliest_staked_era l' = Some (Suc era) \<and> (\<forall>e. era < e \<longrightarrow> stake_at l' e = stake_at l e))"
proof -
  obtain it where it: "AccountLedger_claim_up_to_era era period_end l =
      Ok (it, if period_ended period_end era then cleared_ledger l else claimed_ledger era l)"
    "EraStakePairIter_collect it = Some (map (\<lambda>e. (e, stake_at l e)) [e0..<Suc era])"
    by (rule claim_up_to_era_eq [OF assms])
  have cleared: "AccountLedger_earliest_staked_era (cleared_ledger l) = None"
    by (simp add: cleared_ledger_def AccountLedger_earliest_staked_era_def)
  show ?thesis
    unfolding it(1) using it(2) cleared claimed_ledger_correct [OF assms(1-3)] by (simp del: upt_Suc)
qed

definition example_ledger :: AccountLedger where
  "example_ledger = \<lparr> al_locked = 1000, al_unlocking = [],
     al_staked = \<lparr> sa_voting = 100, sa_build_and_earn = 50, sa_era = 5, sa_period = 1 \<rparr>,
     al_staked_future = Some \<lparr> sa_voting = 100, sa_build_and_earn = 100, sa_era = 6, sa_period = 1 \<rparr>,
     al_contract_stake_count = 1 \<rparr>"

definition example_period :: PeriodInfo where
  "example_period = \<lparr> pi_number = 1, pi_subperiod = BuildAndEarn, pi_next_subperiod_start_era = 30 \<rparr>"

lemma example_ledger_wf: "stake_wf example_ledger" "AccountLedger_earliest_staked_era example_ledger = Some 5"
  by (simp_all add: example_ledger_def stake_wf_def sa_ok_def StakeAmount_is_empty_def sa_leq_def u128_max_def
      AccountLedger_earliest_staked_era_def)

theorem claim_up_to_era_pairs_witness:
  "\<exists>it l'. AccountLedger_claim_up_to_era 8 None example_ledger = Ok (it, l')
    \<and> EraStakePairIter_collect it = Some [(5, 150), (6, 200), (7, 200), (8, 200)]
    \<and> AccountLedger_earliest_staked_era l' = Some 9"
proof -
  have "map (\<lambda>e. (e, stake_at example_ledger e)) [5..<Suc 8] = [(5, 150), (6, 200), (7, 200), (8, 200)]"
    by (simp add: example_ledger_def stake_at_def sa_sum_def)
  with claim_up_to_era_pairs [OF example_ledger_wf, of 8 None] show ?thesis
    by (simp add: period_ended_def u32_max_def del: upt_Suc) (metis option.inject)
qed

text \<open>C38: Claims compose: claiming up to one era and then up to a later one pays the same pairs and ends
  in the same ledger as claiming up to the later era at once.\<close>

theorem claim_up_to_era_compose:
  assumes "stake_wf l" and "AccountLedger_earliest_staked_era l = Some e0"
    and "e0 \<le> e1" and "e1 < e2" and "e2 < u32_max"
  shows "\<exists>it1 l1 it2 it l2 ps1 ps2.
      AccountLedger_claim_up_to_era e1 None l = Ok (it1, l1)
    \<and> AccountLedger_claim_up_to_era e2 period_end l1 = Ok (it2, l2)
    \<and> AccountLedger_claim_up_to_era e2 period_end l = Ok (it, l2)
    \<and> EraStakePairIter_collect it1 = Some ps1 \<and> EraStakePairIter_collect it2 = Some ps2
    \<and> EraStakePairIter_collect it = Some (ps1 @ ps2)"
proof -
  let ?l1 = "claimed_ledger e1 l"
  have e1: "e1 < u32_max" and e2: "e0 \<le> e2" "Suc e1 \<le> e2" using assms by auto
  note l1 = claimed_ledger_correct [OF assms(1-3)]
  obtain it1 where 1: "AccountLedger_claim_up_to_era e1 None l = Ok (it1, ?l1)"
    "EraStakePairIter_collect it1 = Some (map (\<lambda>e. (e, stake_at l e)) [e0..<Suc e1])"
    by (rule claim_up_to_era_eq [OF assms(1-3) e1, of None]) (simp add: period_ended_def)
  obtain it2 where 2: "AccountLedger_claim_up_to_era e2 period_end ?l1 =
      Ok (it2, if period_ended period_end e2 then cleared_ledger ?l1 else claimed_ledger e2 ?l1)"
    "EraStakePairIter_collect it2 = Some (map (\<lambda>e. (e, stake_at ?l1 e)) [Suc e1..<Suc e2])"
    by (rule claim_up_to_era_eq [OF l1(1,2) e2(2) assms(5)])
  obtain it where 3: "AccountLedger_claim_up_to_era e2 period_end l =
      Ok (it, if period_ended period_end e2 then cleared_ledger l else claimed_ledger e2 l)"
    "EraStakePairIter_collect it = Some (map (\<lambda>e. (e, stake_at l e)) [e0..<Suc e2])"
    by (rule claim_up_to_era_eq [OF assms(1,2) e2(1) assms(5)])
  have "cleared_ledger ?l1 = cleared_ledger l" "claimed_ledger e2 ?l1 = claimed_ledger e2 l"
    by (simp_all add: claimed_ledger_def cleared_ledger_def)
  moreover have "map (\<lambda>e. (e, stake_at ?l1 e)) [Suc e1..<Suc e2] = map (\<lambda>e. (e, stake_at l e)) [Suc e1..<Suc e2]"
    using l1(4) by (intro map_cong) auto
  moreover have "[e0..<Suc e2] = [e0..<Suc e1] @ [Suc e1..<Suc e2]"
    using assms e2 upt_add_eq_append [of e0 "Suc e1" "e2 - e1"] by (simp del: upt_Suc)
  ultimately show ?thesis using 1 2 3 by (auto simp del: upt_Suc)
qed

theorem claim_up_to_era_compose_witness:
  "\<exists>it1 l1 it2 it l2 ps1 ps2.
      AccountLedger_claim_up_to_era 6 None example_ledger = Ok (it1, l1)
    \<and> AccountLedger_claim_up_to_era 8 (Some 8) l1 = Ok (it2, l2)
    \<and> AccountLedger_claim_up_to_era 8 (Some 8) example_ledger = Ok (it, l2)
    \<and> EraStakePairIter_collect it1 = Some ps1 \<and> EraStakePairIter_collect it2 = Some ps2
    \<and> EraStakePairIter_collect it = Some (ps1 @ ps2)"
  by (rule claim_up_to_era_compose [OF example_ledger_wf]) (simp_all add: u32_max_def)

text \<open>C36: Staking refines the abstract ledger, the stake effective in each era: a successful stake adds the
  amount to every era after the current one and to no other, keeps the entries well formed, and never
  stakes more than is locked.\<close>

theorem add_stake_refines:
  assumes "stake_wf l" and "al_locked l \<le> u128_max" and "era < u32_max" and "0 < a"
    and "AccountLedger_add_stake_amount a era pinfo l = Ok l'"
  shows "stake_at l' = (\<lambda>e. stake_at l e + (if era < e then a else 0)) \<and> stake_wf l'
    \<and> AccountLedger_staked_amount l' (pi_number pinfo) = AccountLedger_staked_amount l (pi_number pinfo) + a
    \<and> AccountLedger_staked_amount l' (pi_number pinfo) \<le> al_locked l'"
proof -
  note add = add_stake_correct [OF assms(1,3,2,5,4)]
  obtain u where "AccountLedger_stake_unstake_argument_check l era pinfo = Ok u"
    by (rule add_stake_OkE [OF assms(1,5,4)])
  from staked_amount_checked [OF assms(1) this] add show ?thesis by auto
qed

theorem add_stake_refines_witness:
  "\<exists>l'. AccountLedger_add_stake_amount 70 5 example_period example_ledger = Ok l' \<and> stake_wf l'
    \<and> AccountLedger_staked_amount l' 1 = 270 \<and> stake_at l' 5 = 150 \<and> stake_at l' 6 = 270"
proof -
  let ?r = "AccountLedger_add_stake_amount 70 5 example_period example_ledger"
  let ?l' = "case ?r of Ok l \<Rightarrow> l | Err _ \<Rightarrow> example_ledger"
  have r: "?r = Ok ?l'"
    by (simp add: example_ledger_def example_period_def AccountLedger_add_stake_amount_def
        AccountLedger_stake_unstake_argument_check_def StakeAmount_is_empty_def AccountLedger_stakeable_amount_def
        AccountLedger_staked_amount_def AccountLedger_active_locked_amount_def StakeAmount_total_def sat_add_def
        u128_max_def Let_def)
  have p: "pi_number example_period = 1" "al_locked example_ledger \<le> u128_max"
    by (simp_all add: example_period_def example_ledger_def u128_max_def)
  have s: "stake_at example_ledger 5 = 150" "stake_at example_ledger 6 = 200" "AccountLedger_staked_amount example_ledger 1 = 200"
    by (simp_all add: example_ledger_def stake_at_def sa_sum_def AccountLedger_staked_amount_def StakeAmount_total_def
        sat_add_def u128_max_def)
  have "5 < u32_max" "0 < (70::nat)" by (simp_all add: u32_max_def)
  from add_stake_refines [OF example_ledger_wf(1) p(2) this r] r p(1) s show ?thesis by auto
qed

text \<open>C37: Unstaking refines the abstract ledger: a successful unstake takes the amount from every era in
  which the account has a stake, the current one included, keeps the entries well formed, and lowers the
  stake of the period by exactly the amount.\<close>

theorem unstake_refines:
  assumes "stake_wf l" and "0 < a" and "AccountLedger_unstake_amount a era pinfo l = Ok l'"
  shows "stake_at l' = (\<lambda>e. stake_at l e - a) \<and> stake_wf l'
    \<and> a \<le> AccountLedger_staked_amount l (pi_number pinfo)
    \<and> AccountLedger_staked_amount l' (pi_number pinfo) = AccountLedger_staked_amount l (pi_number pinfo) - a"
proof -
  note un = unstake_correct [OF assms(1,3,2)]
  obtain u where "AccountLedger_stake_unstake_argument_check l era pinfo = Ok u"
    by (rule unstake_OkE [OF assms(1,3,2)])
  from staked_amount_checked [OF assms(1) this] un show ?thesis by auto
qed

theorem unstake_refines_witness:
  "\<exists>l'. AccountLedger_unstake_amount 120 5 example_period example_ledger = Ok l' \<and> stake_wf l'
    \<and> AccountLedger_staked_amount l' 1 = 80 \<and> stake_at l' 5 = 30 \<and> stake_at l' 6 = 80"
proof -
  let ?r = "AccountLedger_unstake_amount 120 5 example_period example_ledger"
  let ?l' = "case ?r of Ok l \<Rightarrow> l | Err _ \<Rightarrow> example_ledger"
  have r: "?r = Ok ?l'"
    by (simp add: example_ledger_def example_period_def AccountLedger_unstake_amount_def
        AccountLedger_stake_unstake_argument_check_def StakeAmount_is_empty_def
        AccountLedger_staked_amount_def StakeAmount_total_def sat_add_def u128_max_def Let_def)
  have p: "pi_number example_period = 1" by (simp add: example_period_def)
  have s: "stake_at example_ledger 5 = 150" "stake_at example_ledger 6 = 200" "AccountLedger_staked_amount example_ledger 1 = 200"
    by (simp_all add: example_ledger_def stake_at_def sa_sum_def AccountLedger_staked_amount_def StakeAmount_total_def
        sat_add_def u128_max_def)
  have "0 < (120::nat)" by simp
  from unstake_refines [OF example_ledger_wf(1) this r] r p s show ?thesis by auto
qed

text \<open>Starting to unlock an amount: for a well-formed vector of chunks (sorted by block, none empty,
  within its capacity) the amount is added to the chunk of its block, or to a new chunk inserted in order;
  every other block keeps its amount. The one failure is a new block in a full vector.\<close>

lemma unlocking_chunk_insert:
  assumes "chunks_wf k (al_unlocking l)" and "0 < a" and "chunk_sum (al_unlocking l) + a \<le> u128_max"
  shows "if b \<in> uc_unlock_block ` set (al_unlocking l) \<or> length (al_unlocking l) < k
    then \<exists>l'. AccountLedger_add_unlocking_chunk k a b l = Ok l' \<and> chunks_wf k (al_unlocking l')
      \<and> (\<forall>b'. chunk_at (al_unlocking l') b' = chunk_at (al_unlocking l) b' + (if b' = b then a else 0))
      \<and> l' = l\<lparr>al_unlocking := al_unlocking l'\<rparr>
    else AccountLedger_add_unlocking_chunk k a b l = Err NoCapacity"
  using add_unlocking_chunk_correct [OF assms, of b] by (auto split: if_splits)

lemma unlocking_chunk_insert_example:
  "\<exists>l'. AccountLedger_add_unlocking_chunk 2 7 20
      (example_ledger\<lparr> al_unlocking := [\<lparr> uc_amount = 3, uc_unlock_block = 20 \<rparr>, \<lparr> uc_amount = 4, uc_unlock_block = 30 \<rparr>] \<rparr>) = Ok l'
    \<and> chunk_at (al_unlocking l') 20 = 10 \<and> chunk_at (al_unlocking l') 30 = 4"
proof -
  let ?l = "example_ledger\<lparr> al_unlocking := [\<lparr> uc_amount = 3, uc_unlock_block = 20 \<rparr>, \<lparr> uc_amount = 4, uc_unlock_block = 30 \<rparr>] \<rparr>"
  have "chunks_wf 2 (al_unlocking ?l)" "0 < (7::nat)" "chunk_sum (al_unlocking ?l) + 7 \<le> u128_max"
    by (simp_all add: chunks_wf_def u128_max_def)
  moreover have "chunk_at (al_unlocking ?l) 20 = 3" "chunk_at (al_unlocking ?l) 30 = 4" by (simp_all add: chunk_at_def)
  ultimately show ?thesis using unlocking_chunk_insert [of 2 ?l 7 20] by auto
qed

text \<open>Claiming unlocked chunks pays exactly the chunks whose block has come, removes them and no others,
  and splits the unlocking amount into what is paid and what stays.\<close>

lemma claim_unlocked_exact:
  assumes "chunks_wf k (al_unlocking l)" and "chunk_sum (al_unlocking l) \<le> u128_max"
    and "AccountLedger_claim_unlocked now l = (paid, l')"
  shows "paid = chunk_sum (filter (\<lambda>c. uc_unlock_block c \<le> now) (al_unlocking l))
    \<and> paid + AccountLedger_unlocking_amount l' = AccountLedger_unlocking_amount l
    \<and> chunks_wf k (al_unlocking l')
    \<and> (\<forall>b. chunk_at (al_unlocking l') b = (if b \<le> now then 0 else chunk_at (al_unlocking l) b))"
proof -
  let ?u = "al_unlocking l"
  let ?paid = "filter (\<lambda>c. uc_unlock_block c \<le> now) ?u" and ?kept = "filter (\<lambda>c. \<not> uc_unlock_block c \<le> now) ?u"
  have split: "chunk_sum ?paid + chunk_sum ?kept = chunk_sum ?u" by (rule chunk_sum_split)
  with assms(2,3) have l': "paid = chunk_sum ?paid" "al_unlocking l' = ?kept"
    by (auto simp: AccountLedger_claim_unlocked_def retain_locked_eq)
  show ?thesis
    using assms(1,2) split l' chunks_wf_filter [OF assms(1), of "\<lambda>c. \<not> uc_unlock_block c \<le> now"]
    by (simp add: unlocking_amount_eq chunk_at_after)
qed

end
