(* ===== verification/StakingInfo.thy ===== *)
theory StakingInfo
  imports Ledger
begin

text \<open>
  What a staker has staked on one contract (\<open>SingularStakingInfo\<close>) and what a contract has received from
  all of them (\<open>ContractStakeAmount\<close>), both of \<open>pallets/dapp-staking/src/types.rs\<close>. Both are kept lazily
  as at most two entries, read here as functions from eras to amounts (\<open>sing_at\<close>, \<open>contract_at\<close>): staking
  and unstaking are shown to change the two readings by the same amounts.
\<close>

section \<open>The stake of one staker on one contract\<close>

record SingularStakingInfo =
  si_previous_staked :: StakeAmount
  si_staked :: StakeAmount
  si_loyal_staker :: bool

definition SingularStakingInfo_default :: SingularStakingInfo where
  "SingularStakingInfo_default = \<lparr> si_previous_staked = StakeAmount_default, si_staked = StakeAmount_default,
     si_loyal_staker = False \<rparr>"

definition SingularStakingInfo_new :: "PeriodNumber \<Rightarrow> Subperiod \<Rightarrow> SingularStakingInfo" where
  "SingularStakingInfo_new period subperiod =
     \<lparr> si_previous_staked = StakeAmount_default, si_staked = StakeAmount_default\<lparr> sa_period := period \<rparr>,
       si_loyal_staker = (subperiod = Voting) \<rparr>"

definition SingularStakingInfo_stake ::
  "Balance \<Rightarrow> EraNumber \<Rightarrow> Subperiod \<Rightarrow> SingularStakingInfo \<Rightarrow> SingularStakingInfo" where
  "SingularStakingInfo_stake amount current_era subperiod i =
     (let previous = (si_staked i)\<lparr> sa_era := current_era \<rparr>;
          previous = (if StakeAmount_total previous = 0 then StakeAmount_default else previous)
      in i\<lparr> si_previous_staked := previous,
            si_staked := (StakeAmount_add amount subperiod (si_staked i))\<lparr> sa_era := u32_add current_era 1 \<rparr> \<rparr>)"

text \<open>Step 3 of \<open>unstake\<close>: the entry before the (new) last staked era.\<close>

definition SingularStakingInfo_unstake_previous :: "EraNumber \<Rightarrow> StakeAmount \<Rightarrow> StakeAmount \<Rightarrow> StakeAmount" where
  "SingularStakingInfo_unstake_previous previous_era staked_snapshot previous =
     (if sa_era staked_snapshot \<le> previous_era then staked_snapshot\<lparr> sa_era := previous_era \<rparr>
      else if \<not> StakeAmount_is_empty previous \<and> sa_era previous \<le> previous_era then previous\<lparr> sa_era := previous_era \<rparr>
      else StakeAmount_default)"

text \<open>Step 4: what the current era loses, and the pairs to report for it and for the last staked era.\<close>

definition SingularStakingInfo_unstake_pairs ::
  "EraNumber \<Rightarrow> StakeAmount \<Rightarrow> Balance \<Rightarrow> EraNumber \<Rightarrow> StakeAmount \<Rightarrow> StakeAmount \<times> (EraNumber \<times> Balance) list" where
  "SingularStakingInfo_unstake_pairs current_era staked_snapshot unstaked_amount staked_era previous =
     (let result = [(staked_era, unstaked_amount)]
      in if sa_era previous = current_era then
           (case checked_sub (StakeAmount_total staked_snapshot) (StakeAmount_total previous) of
              Some stake_delta \<Rightarrow>
                if unstaked_amount > stake_delta
                then let overflow_amount = unstaked_amount - stake_delta;
                         previous = StakeAmount_subtract overflow_amount previous
                     in (previous, (sa_era previous, overflow_amount) # result)
                else (previous, result)
            | None \<Rightarrow> (previous, result))
         else if staked_era = current_era
         then (previous, result @ [(u32_add staked_era 1, unstaked_amount)])
         else (previous, result))"

definition SingularStakingInfo_unstake ::
  "Balance \<Rightarrow> EraNumber \<Rightarrow> Subperiod \<Rightarrow> SingularStakingInfo \<Rightarrow> SingularStakingInfo \<times> (EraNumber \<times> Balance) list" where
  "SingularStakingInfo_unstake amount current_era subperiod i =
     (let staked_snapshot = si_staked i;
          staked = StakeAmount_subtract amount (si_staked i);
          unstaked_amount = sat_sub (StakeAmount_total staked_snapshot) (StakeAmount_total staked);
          staked = staked\<lparr> sa_era := max (sa_era staked) current_era \<rparr>;
          loyal_staker = (si_loyal_staker i \<and>
            (case subperiod of Voting \<Rightarrow> sa_voting staked \<noteq> 0
             | BuildAndEarn \<Rightarrow> sa_voting staked = sa_voting staked_snapshot));
          previous_era = sat_sub (sa_era staked) 1;
          previous = SingularStakingInfo_unstake_previous previous_era staked_snapshot (si_previous_staked i);
          (previous, result) = SingularStakingInfo_unstake_pairs current_era staked_snapshot unstaked_amount (sa_era staked) previous;
          previous = (if StakeAmount_is_empty previous then StakeAmount_default else previous);
          (staked, previous) = (if StakeAmount_is_empty staked then (StakeAmount_default, StakeAmount_default) else (staked, previous))
      in (\<lparr> si_previous_staked = previous, si_staked = staked, si_loyal_staker = loyal_staker \<rparr>, result))"

definition SingularStakingInfo_total_staked_amount :: "SingularStakingInfo \<Rightarrow> Balance" where
  "SingularStakingInfo_total_staked_amount i = StakeAmount_total (si_staked i)"

definition SingularStakingInfo_staked_amount :: "SingularStakingInfo \<Rightarrow> Subperiod \<Rightarrow> Balance" where
  "SingularStakingInfo_staked_amount i subperiod = StakeAmount_for_type (si_staked i) subperiod"

definition SingularStakingInfo_is_loyal :: "SingularStakingInfo \<Rightarrow> bool" where
  "SingularStakingInfo_is_loyal i \<longleftrightarrow> si_loyal_staker i"

definition SingularStakingInfo_period_number :: "SingularStakingInfo \<Rightarrow> PeriodNumber" where
  "SingularStakingInfo_period_number i = sa_period (si_staked i)"

definition SingularStakingInfo_era :: "SingularStakingInfo \<Rightarrow> EraNumber" where
  "SingularStakingInfo_era i = sa_era (si_staked i)"

definition SingularStakingInfo_is_empty :: "SingularStakingInfo \<Rightarrow> bool" where
  "SingularStakingInfo_is_empty i \<longleftrightarrow> StakeAmount_is_empty (si_staked i)"

section \<open>The stake of a contract\<close>

record ContractStakeAmount =
  cs_staked :: StakeAmount
  cs_staked_future :: "StakeAmount option"

definition ContractStakeAmount_default :: ContractStakeAmount where
  "ContractStakeAmount_default = \<lparr> cs_staked = StakeAmount_default, cs_staked_future = None \<rparr>"

definition ContractStakeAmount_is_empty :: "ContractStakeAmount \<Rightarrow> bool" where
  "ContractStakeAmount_is_empty c \<longleftrightarrow> StakeAmount_is_empty (cs_staked c) \<and> cs_staked_future c = None"

definition ContractStakeAmount_latest_stake_period :: "ContractStakeAmount \<Rightarrow> PeriodNumber option" where
  "ContractStakeAmount_latest_stake_period c =
     (case cs_staked_future c of Some stake_amount \<Rightarrow> Some (sa_period stake_amount)
      | None \<Rightarrow> if \<not> StakeAmount_is_empty (cs_staked c) then Some (sa_period (cs_staked c)) else None)"

definition ContractStakeAmount_latest_stake_era :: "ContractStakeAmount \<Rightarrow> EraNumber option" where
  "ContractStakeAmount_latest_stake_era c =
     (case cs_staked_future c of Some stake_amount \<Rightarrow> Some (sa_era stake_amount)
      | None \<Rightarrow> if \<not> StakeAmount_is_empty (cs_staked c) then Some (sa_era (cs_staked c)) else None)"

text \<open>The second arm of \<open>get\<close>, reached when there is no future entry or it starts after \<open>era\<close>.\<close>

definition ContractStakeAmount_get_current :: "ContractStakeAmount \<Rightarrow> EraNumber \<Rightarrow> PeriodNumber \<Rightarrow> StakeAmount option" where
  "ContractStakeAmount_get_current c era period =
     (if sa_era (cs_staked c) \<le> era \<and> sa_period (cs_staked c) = period then Some (cs_staked c) else None)"

definition ContractStakeAmount_get :: "ContractStakeAmount \<Rightarrow> EraNumber \<Rightarrow> PeriodNumber \<Rightarrow> StakeAmount option" where
  "ContractStakeAmount_get c era period =
     (let maybe_result = (case cs_staked_future c of
            Some staked_future \<Rightarrow>
              if sa_era staked_future \<le> era
              then (if sa_period staked_future = period then Some staked_future else None)
              else ContractStakeAmount_get_current c era period
          | None \<Rightarrow> ContractStakeAmount_get_current c era period)
      in map_option (\<lambda>result. result\<lparr> sa_era := era \<rparr>) maybe_result)"

definition ContractStakeAmount_active_entry :: "ContractStakeAmount \<Rightarrow> PeriodNumber \<Rightarrow> StakeAmount option" where
  "ContractStakeAmount_active_entry c active_period =
     (case cs_staked_future c of
        Some staked_future \<Rightarrow> if sa_period staked_future = active_period then Some staked_future
          else if sa_period (cs_staked c) = active_period then Some (cs_staked c) else None
      | None \<Rightarrow> if sa_period (cs_staked c) = active_period then Some (cs_staked c) else None)"

definition ContractStakeAmount_total_staked_amount :: "ContractStakeAmount \<Rightarrow> PeriodNumber \<Rightarrow> Balance" where
  "ContractStakeAmount_total_staked_amount c active_period =
     (case ContractStakeAmount_active_entry c active_period of Some s \<Rightarrow> StakeAmount_total s | None \<Rightarrow> 0)"

definition ContractStakeAmount_staked_amount :: "ContractStakeAmount \<Rightarrow> PeriodNumber \<Rightarrow> Subperiod \<Rightarrow> Balance" where
  "ContractStakeAmount_staked_amount c active_period subperiod =
     (case ContractStakeAmount_active_entry c active_period of Some s \<Rightarrow> StakeAmount_for_type s subperiod | None \<Rightarrow> 0)"

text \<open>The part of \<open>stake\<close> after the match: a new future entry on top of the current one.\<close>

definition ContractStakeAmount_new_future ::
  "Balance \<Rightarrow> PeriodInfo \<Rightarrow> EraNumber \<Rightarrow> ContractStakeAmount \<Rightarrow> ContractStakeAmount" where
  "ContractStakeAmount_new_future amount period_info stake_era c =
     (let base = (if sa_period (cs_staked c) = pi_number period_info then cs_staked c else StakeAmount_default);
          new_entry = (StakeAmount_add amount (pi_subperiod period_info) base)
            \<lparr> sa_era := stake_era, sa_period := pi_number period_info \<rparr>
      in \<lparr> cs_staked = (if sa_period (cs_staked c) < pi_number period_info then StakeAmount_default else cs_staked c),
           cs_staked_future = Some new_entry \<rparr>)"

definition ContractStakeAmount_stake ::
  "Balance \<Rightarrow> PeriodInfo \<Rightarrow> EraNumber \<Rightarrow> ContractStakeAmount \<Rightarrow> ContractStakeAmount" where
  "ContractStakeAmount_stake amount period_info current_era c =
     (let stake_era = u32_add current_era 1
      in case cs_staked_future c of
           Some stake_amount \<Rightarrow>
             if sa_era stake_amount = stake_era
             then c\<lparr> cs_staked_future := Some (StakeAmount_add amount (pi_subperiod period_info) stake_amount) \<rparr>
             else if sa_period stake_amount = pi_number period_info
             then ContractStakeAmount_new_future amount period_info stake_era
                    (c\<lparr> cs_staked := stake_amount\<lparr> sa_era := current_era \<rparr> \<rparr>)
             else ContractStakeAmount_new_future amount period_info stake_era c
         | None \<Rightarrow> ContractStakeAmount_new_future amount period_info stake_era c)"

text \<open>The three steps of \<open>unstake\<close>: alignment, the value updates, the cleanup.\<close>

definition ContractStakeAmount_align :: "PeriodInfo \<Rightarrow> EraNumber \<Rightarrow> ContractStakeAmount \<Rightarrow> ContractStakeAmount" where
  "ContractStakeAmount_align period_info current_era c =
     (let c = (case cs_staked_future c of
            Some stake_amount \<Rightarrow>
              if sa_era stake_amount \<le> current_era \<and> sa_period stake_amount = pi_number period_info
              then \<lparr> cs_staked = stake_amount\<lparr> sa_era := current_era \<rparr>, cs_staked_future = None \<rparr>
              else c
          | None \<Rightarrow> c)
      in if sa_era (cs_staked c) < current_era \<and> sa_period (cs_staked c) = pi_number period_info
         then c\<lparr> cs_staked := (cs_staked c)\<lparr> sa_era := current_era \<rparr> \<rparr>
         else c)"

definition ContractStakeAmount_unstake_pair :: "EraNumber \<times> Balance \<Rightarrow> ContractStakeAmount \<Rightarrow> ContractStakeAmount" where
  "ContractStakeAmount_unstake_pair pair c =
     (case pair of (era, amount) \<Rightarrow>
        if sa_era (cs_staked c) = era
        then c\<lparr> cs_staked := StakeAmount_subtract amount (cs_staked c) \<rparr>
        else (case cs_staked_future c of
                Some future_stake_amount \<Rightarrow>
                  if sa_era future_stake_amount = era
                  then c\<lparr> cs_staked_future := Some (StakeAmount_subtract amount future_stake_amount) \<rparr>
                  else c
              | None \<Rightarrow> c))"

definition ContractStakeAmount_cleanup :: "ContractStakeAmount \<Rightarrow> ContractStakeAmount" where
  "ContractStakeAmount_cleanup c =
     \<lparr> cs_staked = (if StakeAmount_is_empty (cs_staked c) then StakeAmount_default else cs_staked c),
       cs_staked_future = (case cs_staked_future c of
          Some stake_amount \<Rightarrow> if StakeAmount_is_empty stake_amount then None else Some stake_amount
        | None \<Rightarrow> None) \<rparr>"

definition ContractStakeAmount_unstake ::
  "(EraNumber \<times> Balance) list \<Rightarrow> PeriodInfo \<Rightarrow> EraNumber \<Rightarrow> ContractStakeAmount \<Rightarrow> ContractStakeAmount" where
  "ContractStakeAmount_unstake era_and_amount_pairs period_info current_era c =
     ContractStakeAmount_cleanup
       (fold ContractStakeAmount_unstake_pair era_and_amount_pairs (ContractStakeAmount_align period_info current_era c))"

section \<open>Reading the entries as stake per era\<close>

text \<open>\<open>sing_at\<close> is the amount a staker has on the contract in an era, from the two entries; \<open>sing_wf c\<close>
  holds of an entry last changed in era \<open>c\<close> or before.\<close>

definition sing_at :: "SingularStakingInfo \<Rightarrow> EraNumber \<Rightarrow> nat" where
  "sing_at i e = (if sa_era (si_staked i) \<le> e then sa_sum (si_staked i)
     else if sa_era (si_previous_staked i) \<le> e then sa_sum (si_previous_staked i) else 0)"

definition sing_wf :: "EraNumber \<Rightarrow> SingularStakingInfo \<Rightarrow> bool" where
  "sing_wf c i \<longleftrightarrow> sa_ok (si_staked i) \<and> sa_ok (si_previous_staked i) \<and> sa_era (si_staked i) \<le> Suc c
     \<and> (\<not> StakeAmount_is_empty (si_previous_staked i) \<longrightarrow> sa_era (si_previous_staked i) < sa_era (si_staked i))
     \<and> (sa_era (si_staked i) = Suc c \<longrightarrow> sa_sum (si_previous_staked i) \<le> sa_sum (si_staked i))"

text \<open>The amount some pairs report for the current era and, in every later era, for the next one.\<close>

definition pairs_at :: "(EraNumber \<times> Balance) list \<Rightarrow> EraNumber \<Rightarrow> nat" where
  "pairs_at ps e = sum_list (map snd (filter (\<lambda>p. fst p = e) ps))"

definition lost_at :: "EraNumber \<Rightarrow> (EraNumber \<times> Balance) list \<Rightarrow> EraNumber \<Rightarrow> nat" where
  "lost_at c ps e = pairs_at ps (min e (Suc c))"

definition contract_at :: "ContractStakeAmount \<Rightarrow> PeriodNumber \<Rightarrow> EraNumber \<Rightarrow> nat" where
  "contract_at c p e = (case ContractStakeAmount_get c e p of Some s \<Rightarrow> sa_sum s | None \<Rightarrow> 0)"

text \<open>A contract with stake in the active period \<open>p\<close>, last changed in era \<open>c\<close> or before.\<close>

definition contract_wf :: "PeriodNumber \<Rightarrow> EraNumber \<Rightarrow> ContractStakeAmount \<Rightarrow> bool" where
  "contract_wf p c k \<longleftrightarrow> sa_ok (cs_staked k)
     \<and> (if sa_period (cs_staked k) = p then sa_era (cs_staked k) \<le> c else sa_era (cs_staked k) < c \<and> sa_period (cs_staked k) < p)
     \<and> (case cs_staked_future k of None \<Rightarrow> True
        | Some f \<Rightarrow> sa_ok f \<and> (if sa_period f = p then sa_era f \<le> Suc c
                                 \<and> (sa_period (cs_staked k) = p \<longrightarrow> sa_era (cs_staked k) < sa_era f)
            else sa_era f \<le> c \<and> sa_period f < p \<and> sa_period (cs_staked k) \<noteq> p))"

lemma sing_wf_later: "sing_wf c i \<Longrightarrow> c < c' \<Longrightarrow> sing_wf c' i"
  by (auto simp: sing_wf_def)

lemma unstake_taken:
  assumes "sa_ok s"
  shows "StakeAmount_total s - StakeAmount_total (StakeAmount_subtract a s) = min a (sa_sum s)"
  using assms by (simp add: sa_total_eq)

lemma sing_stake_correct:
  assumes "sing_wf c i" and "sa_sum (si_staked i) + a \<le> u128_max" and "c < u32_max"
  shows "sing_wf c (SingularStakingInfo_stake a c sp i)"
    and "Suc c \<le> e \<Longrightarrow> sing_at (SingularStakingInfo_stake a c sp i) e = sing_at i e + a"
    and "sa_era (si_staked i) \<le> c \<Longrightarrow> sing_at (SingularStakingInfo_stake a c sp i) c = sing_at i c"
  using assms by (auto simp: SingularStakingInfo_stake_def Let_def sing_wf_def sing_at_def sa_sum_add sa_ok_add
      sa_is_empty_iff)

lemma pairs_at_simps [simp]:
  "pairs_at [] e = 0" "pairs_at ((e', a) # ps) e = (if e' = e then a else 0) + pairs_at ps e"
  by (simp_all add: pairs_at_def)

text \<open>The two shapes of an unstake: the last staked era is the current one or before (both eras lose the
  amount), or it is the next one (the current era loses what exceeds the growth).\<close>

lemma sing_unstake_past:
  assumes "sing_wf c i" and "sa_era (si_staked i) \<le> c" and "0 < c" and "c < u32_max"
  shows "\<exists>prev l. SingularStakingInfo_unstake a c sp i =
    (\<lparr> si_previous_staked = prev, si_staked =
        (if sa_sum (si_staked i) \<le> a then StakeAmount_default else (StakeAmount_subtract a (si_staked i))\<lparr> sa_era := c \<rparr>),
       si_loyal_staker = l \<rparr>,
     [(c, min a (sa_sum (si_staked i))), (Suc c, min a (sa_sum (si_staked i)))])
    \<and> sa_ok prev \<and> (\<not> StakeAmount_is_empty prev \<longrightarrow> sa_era prev < c \<and> a < sa_sum (si_staked i))"
proof -
  let ?prev = "SingularStakingInfo_unstake_previous (c - Suc 0) (si_staked i) (si_previous_staked i)"
  have ok: "sa_ok (si_staked i)" using assms(1) by (simp add: sing_wf_def)
  have prev: "sa_ok ?prev" "sa_era ?prev < c"
    using assms by (auto simp: SingularStakingInfo_unstake_previous_def sing_wf_def)
  have pairs: "SingularStakingInfo_unstake_pairs c (si_staked i) u c ?prev = (?prev, [(c, u), (Suc c, u)])" for u
    using prev(2) assms(4) by (simp add: SingularStakingInfo_unstake_pairs_def)
  show ?thesis
    using assms(2-4) prev
    by (simp add: SingularStakingInfo_unstake_def Let_def max_absorb2 unstake_taken [OF ok] pairs sa_is_empty_iff)
qed

lemma sing_unstake_next:
  fixes a :: Balance
  assumes "sing_wf c i" and "sa_era (si_staked i) = Suc c" and "0 < c"
  defines "s \<equiv> sa_sum (si_staked i)" and "q \<equiv> sa_sum (si_previous_staked i)"
  defines "u \<equiv> min a s"
  defines "x \<equiv> if q = 0 then 0 else u - (s - q)"
  shows "\<exists>prev l. SingularStakingInfo_unstake a c sp i =
    (\<lparr> si_previous_staked = prev, si_staked =
        (if s \<le> a then StakeAmount_default else StakeAmount_subtract a (si_staked i)), si_loyal_staker = l \<rparr>,
     (if x = 0 then [(Suc c, u)] else [(c, x), (Suc c, u)]))
    \<and> sa_ok prev \<and> sa_era prev \<le> c \<and> sa_sum prev = (if s \<le> a then 0 else q - x)"
proof -
  have ok: "sa_ok (si_staked i)" "sa_ok (si_previous_staked i)" and qs: "q \<le> s"
    and era: "q \<noteq> 0 \<Longrightarrow> sa_era (si_previous_staked i) \<le> c"
    using assms by (auto simp: sing_wf_def sa_is_empty_iff)
  define p where "p = SingularStakingInfo_unstake_previous c (si_staked i) (si_previous_staked i)"
  have p: "p = (if q = 0 then StakeAmount_default else (si_previous_staked i)\<lparr> sa_era := c \<rparr>)"
    using era assms(2) by (simp add: p_def SingularStakingInfo_unstake_previous_def sa_is_empty_iff q_def)
  have sq: "checked_sub (StakeAmount_total (si_staked i)) (StakeAmount_total (si_previous_staked i)) = Some (s - q)"
    using ok qs by (simp add: checked_sub_def sa_total_eq s_def q_def)
  have pairs: "SingularStakingInfo_unstake_pairs c (si_staked i) u (Suc c) p =
      (if x = 0 then (p, [(Suc c, u)]) else (StakeAmount_subtract x p, [(c, x), (Suc c, u)]))"
    using assms(3) sq by (auto simp: SingularStakingInfo_unstake_pairs_def p x_def Let_def)
  show ?thesis
    using assms(2) ok qs
    by (simp add: SingularStakingInfo_unstake_def Let_def max_absorb1 unstake_taken pairs sa_is_empty_iff
        flip: s_def u_def p_def) (auto simp: p q_def s_def u_def x_def sa_ok_sum sa_is_empty_iff)
qed

lemma sing_unstake_past_correct:
  assumes "sing_wf c i" and "0 < c" and "c < u32_max" and "SingularStakingInfo_unstake a c sp i = (i', ps)"
    and past: "sa_era (si_staked i) \<le> c"
  shows "sing_wf c i' \<and> (\<forall>e \<ge> c. sing_at i' e + lost_at c ps e = sing_at i e)
    \<and> pairs_at ps (Suc c) = min a (sing_at i (Suc c)) \<and> fst ` set ps = {c, Suc c}"
proof -
  from sing_unstake_past [OF assms(1) past assms(2,3), of a sp] assms(4) obtain prev l where
    i': "i' = \<lparr> si_previous_staked = prev, si_staked =
        (if sa_sum (si_staked i) \<le> a then StakeAmount_default else (StakeAmount_subtract a (si_staked i))\<lparr> sa_era := c \<rparr>),
       si_loyal_staker = l \<rparr>"
    and ps: "ps = [(c, min a (sa_sum (si_staked i))), (Suc c, min a (sa_sum (si_staked i)))]"
    and prev: "sa_ok prev" "StakeAmount_is_empty prev \<or> sa_era prev < c \<and> a < sa_sum (si_staked i)"
    by auto
  have "sing_wf c i'"
    using assms(1) prev by (auto simp: sing_wf_def i')
  moreover have "sing_at i' e + lost_at c ps e = sing_at i e" if "c \<le> e" for e
    using that past by (auto simp: sing_at_def i' ps lost_at_def min_def)
  moreover have "pairs_at ps (Suc c) = min a (sing_at i (Suc c))"
    using past by (simp add: ps sing_at_def)
  ultimately show ?thesis by (auto simp: ps)
qed

lemma sing_unstake_next_correct:
  assumes "sing_wf c i" and "0 < c" and "SingularStakingInfo_unstake a c sp i = (i', ps)"
    and nxt: "sa_era (si_staked i) = Suc c"
  shows "sing_wf c i' \<and> (\<forall>e \<ge> c. sing_at i' e + lost_at c ps e = sing_at i e)
    \<and> pairs_at ps (Suc c) = min a (sing_at i (Suc c)) \<and> fst ` set ps \<subseteq> {c, Suc c}"
proof -
  define s q where "s = sa_sum (si_staked i)" and "q = sa_sum (si_previous_staked i)"
  define u where "u = min a s"
  define x where "x = (if q = 0 then 0 else u - (s - q))"
  note sing_unstake_next [OF assms(1) nxt assms(2), of a sp, folded s_def q_def, folded u_def, folded x_def]
  with assms(3) obtain prev l where
    i': "i' = \<lparr> si_previous_staked = prev, si_staked =
        (if s \<le> a then StakeAmount_default else StakeAmount_subtract a (si_staked i)), si_loyal_staker = l \<rparr>"
    and ps: "ps = (if x = 0 then [(Suc c, u)] else [(c, x), (Suc c, u)])"
    and prev: "sa_ok prev" "sa_era prev \<le> c" "sa_sum prev = (if s \<le> a then 0 else q - x)"
    by auto
  have qs: "q \<le> s" and ok: "sa_ok (si_staked i)" and q: "q = 0 \<or> sa_era (si_previous_staked i) \<le> c"
    using assms(1) nxt by (auto simp: sing_wf_def s_def q_def sa_is_empty_iff)
  have "sing_wf c i'"
    using prev ok nxt qs by (auto simp: sing_wf_def i' sa_is_empty_iff x_def u_def simp flip: s_def)
  moreover have "sing_at i' e + lost_at c ps e = sing_at i e" if "c \<le> e" for e
  proof (cases "e = c")
    case True
    have "sing_at i c = q" using nxt q by (auto simp: sing_at_def q_def)
    moreover have "lost_at c ps c = x" by (simp add: lost_at_def ps)
    moreover have "sing_at i' c = (if s \<le> a then 0 else q - x)" using prev nxt by (simp add: sing_at_def i')
    ultimately show ?thesis using qs True by (auto simp: x_def u_def)
  next
    case False
    with that nxt show ?thesis
      by (simp add: sing_at_def i' lost_at_def ps min_absorb2 flip: s_def) (auto simp: u_def s_def)
  qed
  moreover have "pairs_at ps (Suc c) = min a (sing_at i (Suc c))"
    using nxt by (simp add: ps sing_at_def u_def s_def)
  ultimately show ?thesis by (auto simp: ps)
qed

lemma sing_unstake_correct:
  assumes "sing_wf c i" and "0 < c" and "c < u32_max" and "SingularStakingInfo_unstake a c sp i = (i', ps)"
  shows "sing_wf c i' \<and> (\<forall>e \<ge> c. sing_at i' e + lost_at c ps e = sing_at i e)
    \<and> pairs_at ps (Suc c) = min a (sing_at i (Suc c)) \<and> fst ` set ps \<subseteq> {c, Suc c}"
proof (cases "sa_era (si_staked i) \<le> c")
  case True
  from sing_unstake_past_correct [OF assms this] show ?thesis by auto
next
  case False
  then have "sa_era (si_staked i) = Suc c" using assms(1) by (simp add: sing_wf_def)
  from sing_unstake_next_correct [OF assms(1,2,4) this] show ?thesis .
qed

section \<open>The contract reading\<close>

lemma contract_at_unfold:
  "contract_at k p e = (case cs_staked_future k of
     Some f \<Rightarrow> if sa_era f \<le> e then (if sa_period f = p then sa_sum f else 0)
       else (if sa_era (cs_staked k) \<le> e \<and> sa_period (cs_staked k) = p then sa_sum (cs_staked k) else 0)
   | None \<Rightarrow> (if sa_era (cs_staked k) \<le> e \<and> sa_period (cs_staked k) = p then sa_sum (cs_staked k) else 0))"
  by (auto simp: contract_at_def ContractStakeAmount_get_def ContractStakeAmount_get_current_def Let_def
      split: option.split)

lemma contract_new_future_correct:
  fixes a :: Balance
  assumes "sa_ok (cs_staked k)" and "sa_period (cs_staked k) = pi_number P \<longrightarrow> sa_era (cs_staked k) \<le> c"
    and "sa_period (cs_staked k) \<le> pi_number P" and "0 < c" and "0 < pi_number P"
  defines "k' \<equiv> ContractStakeAmount_new_future a P (Suc c) k"
  defines "base \<equiv> if sa_period (cs_staked k) = pi_number P then sa_sum (cs_staked k) else 0"
  assumes fits: "base + a \<le> u128_max"
  shows "contract_wf (pi_number P) c k' \<and> contract_at k' (pi_number P) c = base
    \<and> (\<forall>e > c. contract_at k' (pi_number P) e = base + a)"
  using assms
  by (auto simp: k'_def base_def ContractStakeAmount_new_future_def Let_def contract_wf_def contract_at_unfold
      sa_sum_add sa_ok_add)

lemma contract_stake_correct:
  assumes wf: "contract_wf (pi_number P) c k" and "0 < c" and "c < u32_max" and "0 < pi_number P"
    and "contract_at k (pi_number P) (Suc c) + a \<le> u128_max"
  defines "k' \<equiv> ContractStakeAmount_stake a P c k"
  shows "contract_wf (pi_number P) c k' \<and> contract_at k' (pi_number P) c = contract_at k (pi_number P) c
    \<and> (\<forall>e > c. contract_at k' (pi_number P) e = contract_at k (pi_number P) e + a)"
proof (cases "cs_staked_future k")
  case None
  then have k': "k' = ContractStakeAmount_new_future a P (Suc c) k"
    using assms(3) by (simp add: k'_def ContractStakeAmount_stake_def)
  have "sa_ok (cs_staked k)" "sa_period (cs_staked k) \<le> pi_number P"
      "sa_period (cs_staked k) = pi_number P \<longrightarrow> sa_era (cs_staked k) \<le> c"
    using wf by (auto simp: contract_wf_def split: if_splits)
  with None assms(2-5) show ?thesis
    using contract_new_future_correct [of k P c a] by (auto simp: k' contract_at_unfold [of k])
next
  case (Some f)
  consider "sa_era f = Suc c" | "sa_era f \<le> c" "sa_period f = pi_number P" | "sa_era f \<le> c" "sa_period f < pi_number P"
    using wf Some by (fastforce simp: contract_wf_def split: if_splits)
  then show ?thesis
  proof cases
    case 1
    then have "sa_period f = pi_number P" using wf Some by (auto simp: contract_wf_def split: if_splits)
    with 1 wf Some assms(2-5) show ?thesis
      by (auto simp: k'_def ContractStakeAmount_stake_def contract_wf_def contract_at_unfold sa_sum_add sa_ok_add)
  next
    case 2
    let ?k = "k\<lparr> cs_staked := f\<lparr> sa_era := c \<rparr> \<rparr>"
    have "contract_wf (pi_number P) c k' \<and> contract_at k' (pi_number P) c = sa_sum f
        \<and> (\<forall>e > c. contract_at k' (pi_number P) e = sa_sum f + a)"
      using 2 wf Some assms(2-5) contract_new_future_correct [of ?k P c a]
      by (simp add: k'_def ContractStakeAmount_stake_def contract_wf_def [of _ _ k] contract_at_unfold [of k])
    with 2 Some show ?thesis by (simp add: contract_at_unfold [of k])
  next
    case 3
    then have k': "k' = ContractStakeAmount_new_future a P (Suc c) k"
      using Some assms(3) by (simp add: k'_def ContractStakeAmount_stake_def)
    have "sa_ok (cs_staked k)" "sa_period (cs_staked k) < pi_number P"
      using 3 wf Some by (auto simp: contract_wf_def split: if_splits)
    with 3 Some assms(2-5) show ?thesis
      using contract_new_future_correct [of k P c a] by (simp add: k' contract_at_unfold [of k])
  qed
qed

lemma contract_align_correct:
  assumes wf: "contract_wf (pi_number P) c k" and "0 < c"
  defines "k' \<equiv> ContractStakeAmount_align P c k"
  shows "c \<le> e \<Longrightarrow> contract_at k' (pi_number P) e = contract_at k (pi_number P) e"
    and "contract_wf (pi_number P) c k'"
    and "case cs_staked_future k' of Some f \<Rightarrow> sa_period f = pi_number P \<longrightarrow> sa_era f = Suc c | None \<Rightarrow> True"
    and "sa_period (cs_staked k') = pi_number P \<longrightarrow> sa_era (cs_staked k') = c"
  using assms
  by (auto simp: k'_def ContractStakeAmount_align_def Let_def contract_wf_def contract_at_unfold split: option.splits if_splits)

text \<open>An aligned contract: its entries of the active period are the current and the next era. Only then do
  the pairs of an unstake meet them.\<close>

definition has_future :: "PeriodNumber \<Rightarrow> ContractStakeAmount \<Rightarrow> bool" where
  "has_future p k \<longleftrightarrow> (case cs_staked_future k of Some f \<Rightarrow> sa_period f = p | None \<Rightarrow> False)"

definition contract_aligned :: "PeriodNumber \<Rightarrow> EraNumber \<Rightarrow> ContractStakeAmount \<Rightarrow> bool" where
  "contract_aligned p c k \<longleftrightarrow> contract_wf p c k
     \<and> (sa_period (cs_staked k) = p \<longrightarrow> sa_era (cs_staked k) = c)
     \<and> (case cs_staked_future k of Some f \<Rightarrow> sa_period f = p \<longrightarrow> sa_era f = Suc c | None \<Rightarrow> True)"

lemma contract_align_aligned:
  assumes "contract_wf (pi_number P) c k" and "0 < c"
  shows "contract_aligned (pi_number P) c (ContractStakeAmount_align P c k)"
  using contract_align_correct [OF assms] by (simp add: contract_aligned_def)

lemma contract_align_future:
  assumes "contract_wf (pi_number P) c k"
  shows "has_future (pi_number P) (ContractStakeAmount_align P c k)
    \<longleftrightarrow> has_future (pi_number P) k \<and> ContractStakeAmount_latest_stake_era k = Some (Suc c)"
proof (cases "cs_staked_future k")
  case None
  then show ?thesis by (simp add: has_future_def ContractStakeAmount_align_def)
next
  case (Some f)
  have "sa_period f = pi_number P \<Longrightarrow> sa_era f \<le> Suc c" using assms Some by (simp add: contract_wf_def)
  with Some show ?thesis
    by (auto simp: has_future_def ContractStakeAmount_align_def ContractStakeAmount_latest_stake_era_def)
qed

lemma aligned_at:
  assumes "contract_aligned p c k"
  shows "contract_at k p c = (if sa_period (cs_staked k) = p then sa_sum (cs_staked k) else 0)"
    and "c < e \<Longrightarrow> contract_at k p e = (if has_future p k then sa_sum (the (cs_staked_future k)) else contract_at k p c)"
proof -
  have st: "sa_period (cs_staked k) = p \<longrightarrow> sa_era (cs_staked k) = c" using assms by (simp add: contract_aligned_def)
  have fu: "sa_era f \<le> Suc c \<and> (if sa_period f = p then sa_era f = Suc c else sa_era f \<le> c \<and> sa_period (cs_staked k) \<noteq> p)"
    if "cs_staked_future k = Some f" for f
    using assms that by (auto simp: contract_aligned_def contract_wf_def split: if_splits)
  show "contract_at k p c = (if sa_period (cs_staked k) = p then sa_sum (cs_staked k) else 0)"
    using st fu by (cases "cs_staked_future k") (auto simp: contract_at_unfold split: if_splits)
  then show "c < e \<Longrightarrow> contract_at k p e = (if has_future p k then sa_sum (the (cs_staked_future k)) else contract_at k p c)"
    using st fu by (cases "cs_staked_future k") (auto simp: contract_at_unfold has_future_def split: if_splits)
qed

lemma contract_pair_cases:
  assumes al: "contract_aligned p c k" and q: "e \<in> {c, Suc c}"
  obtains (current) "sa_period (cs_staked k) = p" "e = c"
      "ContractStakeAmount_unstake_pair (e, a) k = k\<lparr> cs_staked := StakeAmount_subtract a (cs_staked k) \<rparr>"
  | (future) f where "cs_staked_future k = Some f" "sa_period f = p" "e = Suc c"
      "ContractStakeAmount_unstake_pair (e, a) k = k\<lparr> cs_staked_future := Some (StakeAmount_subtract a f) \<rparr>"
  | (stale) f where "cs_staked_future k = Some f" "sa_period f \<noteq> p" "e = c" "sa_period (cs_staked k) \<noteq> p"
      "ContractStakeAmount_unstake_pair (e, a) k = k\<lparr> cs_staked_future := Some (StakeAmount_subtract a f) \<rparr>"
  | (none) "ContractStakeAmount_unstake_pair (e, a) k = k"
      "e = c \<and> sa_period (cs_staked k) \<noteq> p \<or> e = Suc c \<and> \<not> has_future p k"
proof (cases "sa_era (cs_staked k) = e")
  case True
  then have "sa_period (cs_staked k) = p" "e = c"
    using al q by (auto simp: contract_aligned_def contract_wf_def split: if_splits)
  with True show thesis by (intro current) (auto simp: ContractStakeAmount_unstake_pair_def)
next
  case ne: False
  show thesis
  proof (cases "cs_staked_future k")
    case None
    with ne al q show thesis
      by (intro none) (auto simp: ContractStakeAmount_unstake_pair_def contract_aligned_def has_future_def)
  next
    case (Some f)
    have f: "if sa_period f = p then sa_era f = Suc c else sa_era f \<le> c \<and> sa_period (cs_staked k) \<noteq> p"
      using al Some by (auto simp: contract_aligned_def contract_wf_def split: if_splits)
    have c: "sa_period (cs_staked k) = p \<longrightarrow> e = Suc c"
      using al q ne by (auto simp: contract_aligned_def)
    show thesis
    proof (cases "sa_era f = e")
      case True
      then have "ContractStakeAmount_unstake_pair (e, a) k = k\<lparr> cs_staked_future := Some (StakeAmount_subtract a f) \<rparr>"
        using ne Some by (simp add: ContractStakeAmount_unstake_pair_def)
      with True Some f q show thesis by (cases "sa_period f = p") (auto intro: future stale)
    next
      case False
      with ne Some f q c show thesis
        by (intro none) (auto simp: ContractStakeAmount_unstake_pair_def has_future_def split: if_splits)
    qed
  qed
qed

lemma contract_pair_correct:
  assumes al: "contract_aligned p c k" and q: "fst q \<in> {c, Suc c}"
  defines "k' \<equiv> ContractStakeAmount_unstake_pair q k"
  shows "contract_aligned p c k' \<and> has_future p k' = has_future p k
    \<and> contract_at k' p c = contract_at k p c - pairs_at [q] c
    \<and> (\<forall>e > c. contract_at k' p e = contract_at k p e - pairs_at [q] (if has_future p k then Suc c else c))"
proof (cases q)
  case (Pair e a)
  from al q [unfolded Pair fst_conv] show ?thesis
  proof (cases rule: contract_pair_cases [where a = a])
    case current
    then have al': "contract_aligned p c k'" "has_future p k' = has_future p k"
      using al by (auto simp: k'_def Pair contract_aligned_def contract_wf_def has_future_def split: option.splits if_splits)
    show ?thesis using current al' by (simp add: aligned_at [OF al] aligned_at [OF al'(1)]) (simp add: k'_def Pair)
  next
    case future
    then have al': "contract_aligned p c k'" "has_future p k' = has_future p k" "has_future p k"
      using al by (auto simp: k'_def Pair contract_aligned_def contract_wf_def has_future_def split: option.splits if_splits)
    show ?thesis using future al' by (simp add: aligned_at [OF al] aligned_at [OF al'(1)]) (simp add: k'_def Pair)
  next
    case stale
    then have al': "contract_aligned p c k'" "has_future p k' = has_future p k" "\<not> has_future p k"
      using al by (auto simp: k'_def Pair contract_aligned_def contract_wf_def has_future_def split: option.splits if_splits)
    show ?thesis using stale al' by (simp add: aligned_at [OF al] aligned_at [OF al'(1)]) (simp add: k'_def Pair)
  next
    case none
    then show ?thesis using al by (auto simp: k'_def Pair aligned_at [OF al])
  qed
qed

lemma contract_pairs_correct:
  assumes "contract_aligned p c k" and "fst ` set ps \<subseteq> {c, Suc c}"
  defines "k' \<equiv> fold ContractStakeAmount_unstake_pair ps k"
  shows "contract_aligned p c k' \<and> has_future p k' = has_future p k
    \<and> contract_at k' p c = contract_at k p c - pairs_at ps c
    \<and> (\<forall>e > c. contract_at k' p e = contract_at k p e - pairs_at ps (if has_future p k then Suc c else c))"
  using assms(1,2) unfolding k'_def
proof (induction ps arbitrary: k)
  case (Cons q ps)
  let ?k = "ContractStakeAmount_unstake_pair q k"
  have q: "fst q \<in> {c, Suc c}" and ps: "fst ` set ps \<subseteq> {c, Suc c}" using Cons.prems(2) by auto
  have split: "pairs_at (q # ps) e = pairs_at [q] e + pairs_at ps e" for e by (cases q) simp
  note step = contract_pair_correct [OF Cons.prems(1) q]
  then have "contract_aligned p c ?k" by simp
  from Cons.IH [OF this ps] step show ?case by (simp only: fold_simps split) simp
qed simp

lemma contract_cleanup_correct:
  assumes "contract_aligned p c k" and "0 < c" and "0 < p" and "contract_at k p c \<le> contract_at k p (Suc c)"
  shows "contract_wf p c (ContractStakeAmount_cleanup k)"
    and "c \<le> e \<Longrightarrow> contract_at (ContractStakeAmount_cleanup k) p e = contract_at k p e"
  using assms
  by (auto simp: ContractStakeAmount_cleanup_def contract_aligned_def contract_wf_def contract_at_unfold sa_is_empty_iff
      split: option.splits if_splits)

lemma lost_at_simps [simp]: "lost_at c ps c = pairs_at ps c" "c < e \<Longrightarrow> lost_at c ps e = pairs_at ps (Suc c)"
  by (simp_all add: lost_at_def min_def Suc_le_eq [symmetric] le_antisym)

lemma sing_at_later: "sing_wf c i \<Longrightarrow> c < e \<Longrightarrow> sing_at i e = sing_at i (Suc c)"
  by (simp add: sing_wf_def sing_at_def)

lemma contract_at_later: "contract_wf p c k \<Longrightarrow> c < e \<Longrightarrow> contract_at k p e = contract_at k p (Suc c)"
  by (auto simp: contract_wf_def contract_at_unfold split: option.splits if_splits)

lemma contract_unstake_correct:
  assumes wf: "contract_wf (pi_number P) c k" and pos: "0 < c" "0 < pi_number P"
    and ps: "fst ` set ps \<subseteq> {c, Suc c}"
    and same: "\<not> (has_future (pi_number P) k \<and> ContractStakeAmount_latest_stake_era k = Some (Suc c))
      \<Longrightarrow> pairs_at ps c = pairs_at ps (Suc c)"
    and grow: "contract_at k (pi_number P) c - pairs_at ps c \<le> contract_at k (pi_number P) (Suc c) - pairs_at ps (Suc c)"
  defines "k' \<equiv> ContractStakeAmount_unstake ps P c k"
  shows "contract_wf (pi_number P) c k'"
    and "c \<le> e \<Longrightarrow> contract_at k' (pi_number P) e = contract_at k (pi_number P) e - lost_at c ps e"
proof -
  let ?p = "pi_number P" and ?a = "ContractStakeAmount_align P c k"
  let ?f = "fold ContractStakeAmount_unstake_pair ps ?a"
  note al = contract_align_aligned [OF wf pos(1)]
  note f = contract_pairs_correct [OF al ps]
  have later: "pairs_at ps (if has_future ?p ?a then Suc c else c) = pairs_at ps (Suc c)"
    using same by (simp add: contract_align_future [OF wf])
  have at: "contract_at ?f ?p e = contract_at k ?p e - lost_at c ps e" if "c \<le> e" for e
    using f that contract_align_correct(1) [OF wf pos(1) that] by (cases "e = c") (auto simp: later)
  have "contract_at ?f ?p c \<le> contract_at ?f ?p (Suc c)"
    using grow by (simp add: at)
  with f pos have *: "contract_wf ?p c (ContractStakeAmount_cleanup ?f)"
      "c \<le> e \<Longrightarrow> contract_at (ContractStakeAmount_cleanup ?f) ?p e = contract_at ?f ?p e"
    using contract_cleanup_correct [of ?p c ?f] by auto
  from * at show "contract_wf ?p c k'" "c \<le> e \<Longrightarrow> contract_at k' ?p e = contract_at k ?p e - lost_at c ps e"
    by (simp_all add: k'_def ContractStakeAmount_unstake_def)
qed

section \<open>Properties\<close>

definition example_info :: SingularStakingInfo where
  "example_info = SingularStakingInfo_stake 50 5 BuildAndEarn
     (SingularStakingInfo_stake 100 3 Voting (SingularStakingInfo_new 1 Voting))"

definition example_build :: PeriodInfo where
  "example_build = \<lparr> pi_number = 1, pi_subperiod = BuildAndEarn, pi_next_subperiod_start_era = 20 \<rparr>"

definition example_contract :: ContractStakeAmount where
  "example_contract = ContractStakeAmount_stake 50 example_build 5
     (ContractStakeAmount_stake 130 (example_build\<lparr> pi_subperiod := Voting \<rparr>) 3 ContractStakeAmount_default)"

lemmas example_stake_defs = example_info_def example_build_def example_contract_def SingularStakingInfo_new_def
  SingularStakingInfo_stake_def ContractStakeAmount_stake_def ContractStakeAmount_new_future_def
  ContractStakeAmount_default_def StakeAmount_default_def StakeAmount_add_def StakeAmount_total_def sat_add_def
  u128_max_def u32_max_def

text \<open>Staking on a contract: for a contract with entries up to the current era, the stake the contract
  reads for the current era is unchanged and for every later era it grows by exactly the amount.\<close>

lemma contract_stake_refines:
  assumes "contract_wf (pi_number P) c k" and "0 < c" and "c < u32_max" and "0 < pi_number P"
    and "contract_at k (pi_number P) (Suc c) + a \<le> u128_max" and "c \<le> e"
  shows "contract_wf (pi_number P) c (ContractStakeAmount_stake a P c k)
    \<and> contract_at (ContractStakeAmount_stake a P c k) (pi_number P) e
      = contract_at k (pi_number P) e + (if e = c then 0 else a)"
  using contract_stake_correct [OF assms(1-5)] assms(6) by (cases "e = c") auto

text \<open>C7: Unstaking keeps the staker's entry and the contract's entry in step: the pairs the staker's entry
  returns, applied to the contract, lower the contract's stake in the current and in every later era by
  exactly what the staker's own stake falls in that era, whether the stake was made earlier or only counts
  from the next era, and both entries stay well formed.\<close>

theorem unstake_keeps_contract_in_step:
  assumes "sing_wf c i" and "contract_wf (pi_number P) c k" and "0 < c" and "c < u32_max" and "0 < pi_number P"
    and "sing_at i c \<le> contract_at k (pi_number P) c" and "sing_at i (Suc c) \<le> contract_at k (pi_number P) (Suc c)"
    and "contract_at k (pi_number P) c - sing_at i c \<le> contract_at k (pi_number P) (Suc c) - sing_at i (Suc c)"
    and "SingularStakingInfo_era i = Suc c \<Longrightarrow> has_future (pi_number P) k \<and> ContractStakeAmount_latest_stake_era k = Some (Suc c)"
    and "SingularStakingInfo_unstake a c (pi_subperiod P) i = (i', ps)" and "c \<le> e"
  shows "contract_at (ContractStakeAmount_unstake ps P c k) (pi_number P) e + sing_at i e
      = contract_at k (pi_number P) e + sing_at i' e
    \<and> pairs_at ps (Suc c) = min a (sing_at i (Suc c))
    \<and> sing_wf c i' \<and> contract_wf (pi_number P) c (ContractStakeAmount_unstake ps P c k)"
proof -
  let ?p = "pi_number P"
  have s: "sing_wf c i'" "\<And>e. c \<le> e \<Longrightarrow> sing_at i' e + lost_at c ps e = sing_at i e"
      "pairs_at ps (Suc c) = min a (sing_at i (Suc c))" "fst ` set ps \<subseteq> {c, Suc c}"
    using sing_unstake_correct [OF assms(1,3,4,10)] by auto
  have era: "SingularStakingInfo_era i \<le> Suc c" using assms(1) by (simp add: sing_wf_def SingularStakingInfo_era_def)
  have same: "pairs_at ps c = pairs_at ps (Suc c)" if "\<not> (has_future ?p k \<and> ContractStakeAmount_latest_stake_era k = Some (Suc c))"
  proof -
    have "SingularStakingInfo_era i \<noteq> Suc c" using that assms(9) by blast
    then have "sa_era (si_staked i) \<le> c" using era by (simp add: SingularStakingInfo_era_def)
    from sing_unstake_past [OF assms(1) this assms(3,4), of a "pi_subperiod P"] assms(10) show ?thesis by auto
  qed
  have "sing_at i' c \<le> sing_at i' (Suc c)"
    using s(1) by (auto simp: sing_wf_def sing_at_def sa_is_empty_iff split: if_splits)
  then have grow: "contract_at k ?p c - pairs_at ps c \<le> contract_at k ?p (Suc c) - pairs_at ps (Suc c)"
    using assms(6-8) s(2) [of c] s(2) [of "Suc c"] by simp
  note k = contract_unstake_correct [OF assms(2,3,5) s(4) same grow]
  have "sing_at i e \<le> contract_at k ?p e"
    using assms(6,7,11) sing_at_later [OF assms(1), of e] contract_at_later [OF assms(2), of e] by (cases "e = c") auto
  then show ?thesis using k s(2) [OF assms(11)] s(1,3) assms(11) by auto
qed

theorem unstake_keeps_contract_in_step_witness:
  "(case SingularStakingInfo_unstake 80 5 BuildAndEarn example_info of (i', ps) \<Rightarrow>
     contract_at (ContractStakeAmount_unstake ps example_build 5 example_contract) 1 5 = 100
     \<and> contract_at (ContractStakeAmount_unstake ps example_build 5 example_contract) 1 8 = 100)"
proof -
  obtain i' ps where r: "SingularStakingInfo_unstake 80 5 (pi_subperiod example_build) example_info = (i', ps)"
    by (cases "SingularStakingInfo_unstake 80 5 (pi_subperiod example_build) example_info")
  have i: "sing_wf 5 example_info" "sing_at example_info 5 = 100" "sing_at example_info 6 = 150" "sing_at example_info 8 = 150"
    by (simp_all add: example_stake_defs sing_wf_def sing_at_def sa_ok_def sa_sum_def StakeAmount_is_empty_def)
  have k: "contract_wf (pi_number example_build) 5 example_contract" "contract_at example_contract 1 5 = 130"
      "contract_at example_contract 1 6 = 180" "contract_at example_contract 1 8 = 180"
    by (simp_all add: example_stake_defs contract_wf_def contract_at_unfold sa_ok_def sa_sum_def)
  have f: "has_future (pi_number example_build) example_contract \<and> ContractStakeAmount_latest_stake_era example_contract = Some (Suc 5)"
    by (simp add: example_stake_defs has_future_def ContractStakeAmount_latest_stake_era_def)
  have P: "pi_number example_build = 1" "pi_subperiod example_build = BuildAndEarn" by (simp_all add: example_build_def)
  have i': "sing_at i' 5 = 70 \<and> sing_at i' 8 = 70"
    using r by (auto simp: P example_stake_defs sing_at_def sa_sum_def SingularStakingInfo_unstake_def Let_def
        SingularStakingInfo_unstake_previous_def SingularStakingInfo_unstake_pairs_def checked_sub_def
        StakeAmount_subtract_def StakeAmount_is_empty_def)
  show ?thesis
    using unstake_keeps_contract_in_step [OF i(1) k(1) _ _ _ _ _ _ f r, of 5]
      unstake_keeps_contract_in_step [OF i(1) k(1) _ _ _ _ _ _ f r, of 8] i k i' r P
    by (simp add: u32_max_def)
qed

text \<open>Operations on a staker's entry, in the order they are made.\<close>

datatype StakeOp = OpStake Balance EraNumber | OpUnstake Balance EraNumber

fun apply_stake_op :: "Subperiod \<Rightarrow> StakeOp \<Rightarrow> SingularStakingInfo \<Rightarrow> SingularStakingInfo" where
  "apply_stake_op sp (OpStake a e) i = SingularStakingInfo_stake a e sp i"
| "apply_stake_op sp (OpUnstake a e) i = fst (SingularStakingInfo_unstake a e sp i)"

lemma unstake_fields:
  "fst (SingularStakingInfo_unstake a c sp i) = \<lparr> si_previous_staked = p, si_staked = s, si_loyal_staker = l \<rparr> \<Longrightarrow>
   sa_voting s = sa_voting (StakeAmount_subtract a (si_staked i))
   \<and> l = (si_loyal_staker i \<and> (case sp of Voting \<Rightarrow> sa_voting s \<noteq> 0 | BuildAndEarn \<Rightarrow> sa_voting s = sa_voting (si_staked i)))"
  by (auto simp: SingularStakingInfo_unstake_def Let_def StakeAmount_is_empty_def split: prod.splits if_splits Subperiod.splits)

lemma loyal_step:
  assumes "si_loyal_staker (apply_stake_op BuildAndEarn opn i)"
  shows "si_loyal_staker i \<and> sa_voting (si_staked (apply_stake_op BuildAndEarn opn i)) = sa_voting (si_staked i)"
proof (cases opn)
  case (OpStake a e)
  with assms show ?thesis by (simp add: SingularStakingInfo_stake_def Let_def StakeAmount_add_def)
next
  case (OpUnstake a e)
  obtain p s l where "fst (SingularStakingInfo_unstake a e BuildAndEarn i) = \<lparr> si_previous_staked = p, si_staked = s, si_loyal_staker = l \<rparr>"
    by (cases "fst (SingularStakingInfo_unstake a e BuildAndEarn i)") auto
  from unstake_fields [OF this] this OpUnstake assms show ?thesis by simp
qed

text \<open>A bonus-eligible (loyal) staker has kept every token of the voting subperiod: after any sequence of
  stakes and unstakes in the build and earn subperiod an entry is loyal only when it was loyal before and its
  voting stake is exactly what it was at the start.\<close>

lemma loyal_keeps_voting_stake:
  assumes "SingularStakingInfo_is_loyal (fold (apply_stake_op BuildAndEarn) ops i)"
  shows "SingularStakingInfo_is_loyal i
    \<and> SingularStakingInfo_staked_amount (fold (apply_stake_op BuildAndEarn) ops i) Voting = SingularStakingInfo_staked_amount i Voting"
  using assms
proof (induction ops arbitrary: i)
  case (Cons opn ops)
  from Cons.IH Cons.prems loyal_step [of opn i] show ?case
    by (simp add: SingularStakingInfo_is_loyal_def SingularStakingInfo_staked_amount_def StakeAmount_for_type_def)
qed simp

lemma loyal_keeps_voting_stake_example:
  "SingularStakingInfo_staked_amount (fold (apply_stake_op BuildAndEarn) [OpStake 7 6, OpUnstake 30 8] example_info) Voting = 100"
proof -
  have "SingularStakingInfo_is_loyal (fold (apply_stake_op BuildAndEarn) [OpStake 7 6, OpUnstake 30 8] example_info)"
    by (simp add: example_stake_defs SingularStakingInfo_is_loyal_def SingularStakingInfo_unstake_def Let_def
        SingularStakingInfo_unstake_previous_def SingularStakingInfo_unstake_pairs_def StakeAmount_subtract_def StakeAmount_is_empty_def)
  from loyal_keeps_voting_stake [OF this] show ?thesis
    by (simp add: example_stake_defs SingularStakingInfo_staked_amount_def StakeAmount_for_type_def)
qed


end
