(* ===== verification/EraRewards.thy ===== *)
theory EraRewards
  imports StakeTypes
begin

text \<open>
  The reward history of \<open>pallets/dapp-staking/src/types.rs\<close>: the reward pools of an era (\<open>EraReward\<close>),
  the spans of consecutive eras they are stored in (\<open>EraRewardSpan\<close>), the tier rewards of the dApps of an
  era (\<open>DAppTierRewards\<close>) and the marker of the history cleanup. A span is an append-only log read by
  era; the locale \<open>era_log\<close> is the contract its clients rely on.
\<close>

section \<open>Era rewards\<close>

record EraReward =
  er_staker_reward_pool :: Balance
  er_staked :: Balance
  er_dapp_reward_pool :: Balance

datatype EraRewardSpanError = SpanInvalidEra | SpanNoCapacity

record EraRewardSpan =
  sp_span :: "EraReward list"
  sp_first_era :: EraNumber
  sp_last_era :: EraNumber

definition EraRewardSpan_new :: EraRewardSpan where
  "EraRewardSpan_new = \<lparr> sp_span = [], sp_first_era = 0, sp_last_era = 0 \<rparr>"

definition EraRewardSpan_len :: "EraRewardSpan \<Rightarrow> nat" where
  "EraRewardSpan_len s = length (sp_span s)"

definition EraRewardSpan_is_empty :: "EraRewardSpan \<Rightarrow> bool" where
  "EraRewardSpan_is_empty s \<longleftrightarrow> sp_span s = []"

definition EraRewardSpan_push ::
  "nat \<Rightarrow> EraNumber \<Rightarrow> EraReward \<Rightarrow> EraRewardSpan \<Rightarrow> (EraRewardSpan, EraRewardSpanError) result" where
  "EraRewardSpan_push cap era era_reward s =
     (if sp_span s = [] then
        and_then (map_err (\<lambda>_. SpanNoCapacity) (try_push cap era_reward (sp_span s)))
          (\<lambda>span. Ok \<lparr> sp_span = span, sp_first_era = era, sp_last_era = era \<rparr>)
      else if era \<noteq> u32_add (sp_last_era s) 1 then Err SpanInvalidEra
      else and_then (map_err (\<lambda>_. SpanNoCapacity) (try_push cap era_reward (sp_span s)))
          (\<lambda>span. Ok (s\<lparr> sp_span := span, sp_last_era := era \<rparr>)))"

definition EraRewardSpan_get :: "EraRewardSpan \<Rightarrow> EraNumber \<Rightarrow> EraReward option" where
  "EraRewardSpan_get s era =
     (case checked_sub era (sp_first_era s) of
        Some index \<Rightarrow> if index < length (sp_span s) then Some (sp_span s ! index) else None
      | None \<Rightarrow> None)"

text \<open>A span is well formed when it holds one entry for each era from its first to its last.\<close>

definition span_wf :: "nat \<Rightarrow> EraRewardSpan \<Rightarrow> bool" where
  "span_wf cap s \<longleftrightarrow> length (sp_span s) \<le> cap
     \<and> (sp_span s \<noteq> [] \<longrightarrow> sp_last_era s + 1 = sp_first_era s + length (sp_span s))"

text \<open>What the clients of the history need of a log of eras: eras are appended one after the other, and
  reading gives back what was appended.\<close>

locale era_log =
  fixes new :: 's and push :: "nat \<Rightarrow> 'v \<Rightarrow> 's \<Rightarrow> ('s, 'e) result" and get :: "'s \<Rightarrow> nat \<Rightarrow> 'v option"
    and invar :: "'s \<Rightarrow> bool" and len :: "'s \<Rightarrow> nat" and last_era :: "'s \<Rightarrow> nat" and cap :: nat
  assumes invar_new: "invar new" and get_new: "get new e = None" and len_new: "len new = 0"
    and push_invar: "invar s \<Longrightarrow> e < u32_max \<Longrightarrow> push e v s = Ok s' \<Longrightarrow> invar s'"
    and push_len: "push e v s = Ok s' \<Longrightarrow> len s' = Suc (len s) \<and> last_era s' = e"
    and push_get: "invar s \<Longrightarrow> push e v s = Ok s' \<Longrightarrow> get s' x = (if x = e then Some v else get s x)"
    and push_Ok_iff: "(\<exists>s'. push e v s = Ok s') \<longleftrightarrow> len s < cap \<and> (len s = 0 \<or> e = u32_add (last_era s) 1)"
begin

fun push_all :: "nat \<Rightarrow> 'v list \<Rightarrow> 's \<Rightarrow> ('s, 'e) result" where
  "push_all e [] s = Ok s"
| "push_all e (v # vs) s = and_then (push e v s) (push_all (Suc e) vs)"

lemma push_all_get:
  assumes "invar s" and "len s + length vs \<le> cap" and "len s = 0 \<or> e = u32_add (last_era s) 1"
    and "e + length vs \<le> u32_max"
  shows "\<exists>s'. push_all e vs s = Ok s' \<and> invar s' \<and> len s' = len s + length vs
    \<and> (\<forall>x. get s' x = (if e \<le> x \<and> x < e + length vs then Some (vs ! (x - e)) else get s x))"
  using assms
proof (induction vs arbitrary: e s)
  case (Cons v vs)
  have "\<exists>s1. push e v s = Ok s1" using Cons.prems by (subst push_Ok_iff) auto
  then obtain s1 where s1: "push e v s = Ok s1" ..
  note l1 = push_len [OF s1]
  have "invar s1" using push_invar [OF Cons.prems(1) _ s1] Cons.prems(4) by simp
  moreover have "Suc e = u32_add (last_era s1) 1" using l1 Cons.prems(4) by simp
  ultimately obtain s' where s': "push_all (Suc e) vs s1 = Ok s'" "invar s'" "len s' = len s1 + length vs"
      "\<forall>x. get s' x = (if Suc e \<le> x \<and> x < Suc e + length vs then Some (vs ! (x - Suc e)) else get s1 x)"
    using Cons.IH [of s1 "Suc e"] Cons.prems(2,4) l1 by (metis add_Suc_shift length_Cons)
  have "get s' x = (if e \<le> x \<and> x < e + length (v # vs) then Some ((v # vs) ! (x - e)) else get s x)" for x
    using s'(4) push_get [OF Cons.prems(1) s1, of x] by (cases "x = e") (simp_all add: nth_Cons' less_eq_Suc_le)
  then show ?case using s1 s' l1 by simp
qed auto

end

lemma try_push_Ok_iff: "try_push cap x xs = Ok ys \<longleftrightarrow> length xs < cap \<and> ys = xs @ [x]"
  by (auto simp: try_push_def)

lemma span_push_Ok:
  assumes "EraRewardSpan_push cap e v s = Ok s'"
  shows "length (sp_span s) < cap" "sp_span s' = sp_span s @ [v]" "sp_last_era s' = e"
    "sp_first_era s' = (if sp_span s = [] then e else sp_first_era s)"
    "sp_span s \<noteq> [] \<Longrightarrow> e = u32_add (sp_last_era s) 1"
  using assms by (auto simp: EraRewardSpan_push_def and_then_Ok_iff try_push_Ok_iff split: if_splits)

lemma span_push_get:
  assumes "span_wf cap s" and "EraRewardSpan_push cap e v s = Ok s'" and "sp_span s \<noteq> [] \<longrightarrow> sp_last_era s < u32_max"
  shows "EraRewardSpan_get s' x = (if x = e then Some v else EraRewardSpan_get s x)"
  using assms(1,3) span_push_Ok [OF assms(2)]
  by (auto simp: EraRewardSpan_get_def span_wf_def checked_sub_def nth_append not_less)

lemma span_push_Ok_iff:
  "(\<exists>s'. EraRewardSpan_push cap e v s = Ok s') \<longleftrightarrow>
     length (sp_span s) < cap \<and> (length (sp_span s) = 0 \<or> e = u32_add (sp_last_era s) 1)"
  by (auto simp: EraRewardSpan_push_def try_push_def)

text \<open>Eras do not reach the end of their width: the invariant of the log includes it.\<close>

definition span_invar :: "nat \<Rightarrow> EraRewardSpan \<Rightarrow> bool" where
  "span_invar cap s \<longleftrightarrow> span_wf cap s \<and> (sp_span s \<noteq> [] \<longrightarrow> sp_last_era s < u32_max)"

interpretation span: era_log EraRewardSpan_new "EraRewardSpan_push cap" EraRewardSpan_get "span_invar cap"
  EraRewardSpan_len sp_last_era cap
proof
  fix e v s s' x
  show "span_invar cap EraRewardSpan_new" "EraRewardSpan_get EraRewardSpan_new e = None" "EraRewardSpan_len EraRewardSpan_new = 0"
    by (simp_all add: span_invar_def span_wf_def EraRewardSpan_new_def EraRewardSpan_get_def EraRewardSpan_len_def checked_sub_def)
  show "(\<exists>s'. EraRewardSpan_push cap e v s = Ok s') \<longleftrightarrow>
      EraRewardSpan_len s < cap \<and> (EraRewardSpan_len s = 0 \<or> e = u32_add (sp_last_era s) 1)"
    unfolding EraRewardSpan_len_def by (rule span_push_Ok_iff)
  assume p: "EraRewardSpan_push cap e v s = Ok s'"
  show "EraRewardSpan_len s' = Suc (EraRewardSpan_len s) \<and> sp_last_era s' = e"
    using span_push_Ok [OF p] by (simp add: EraRewardSpan_len_def)
  assume i: "span_invar cap s"
  show "EraRewardSpan_get s' x = (if x = e then Some v else EraRewardSpan_get s x)"
    using span_push_get [OF _ p] i by (simp add: span_invar_def)
  assume "e < u32_max"
  then show "span_invar cap s'"
    using span_push_Ok [OF p] i by (cases "sp_span s = []") (auto simp: span_invar_def span_wf_def)
qed

section \<open>Tier rewards of the dApps of an era\<close>

record DAppTierRewards =
  dt_dapps :: "(DAppId, RankedTier) smap"
  dt_rewards :: "Balance list"
  dt_period :: PeriodNumber
  dt_rank_rewards :: "Balance list"

definition DAppTierRewards_default :: DAppTierRewards where
  "DAppTierRewards_default = \<lparr> dt_dapps = [], dt_rewards = [], dt_period = 0, dt_rank_rewards = [] \<rparr>"

definition try_from_bounded :: "nat \<Rightarrow> 'a list \<Rightarrow> ('a list, unit) result" where
  "try_from_bounded cap xs = (if length xs \<le> cap then Ok xs else Err ())"

definition DAppTierRewards_new ::
  "nat \<Rightarrow> nat \<Rightarrow> (DAppId, RankedTier) smap \<Rightarrow> Balance list \<Rightarrow> PeriodNumber \<Rightarrow> Balance list \<Rightarrow> (DAppTierRewards, unit) result" where
  "DAppTierRewards_new max_dapps number_of_tiers dapps rewards period rank_rewards =
     and_then (try_from_bounded max_dapps dapps) (\<lambda>dapps.
     and_then (try_from_bounded number_of_tiers rewards) (\<lambda>rewards.
     and_then (try_from_bounded number_of_tiers rank_rewards) (\<lambda>rank_rewards.
     Ok \<lparr> dt_dapps = dapps, dt_rewards = rewards, dt_period = period, dt_rank_rewards = rank_rewards \<rparr>)))"

datatype DAppTierError = NoDAppInTiers | InternalError

definition nth_or_zero :: "Balance list \<Rightarrow> nat \<Rightarrow> Balance" where
  "nth_or_zero xs n = (if n < length xs then xs ! n else 0)"

definition DAppTierRewards_try_claim ::
  "DAppId \<Rightarrow> DAppTierRewards \<Rightarrow> ((Balance \<times> RankedTier) \<times> DAppTierRewards, DAppTierError) result" where
  "DAppTierRewards_try_claim dapp_id d =
     and_then (ok_or NoDAppInTiers (sm_get (dt_dapps d) dapp_id)) (\<lambda>ranked_tier.
       let d = d\<lparr> dt_dapps := sm_remove (dt_dapps d) dapp_id \<rparr>;
           (tier_id, rank) = RankedTier_deconstruct ranked_tier;
           amount = nth_or_zero (dt_rewards d) (unat tier_id);
           reward_per_rank = nth_or_zero (dt_rank_rewards d) (unat tier_id);
           additional_reward = u128_mul reward_per_rank (unat rank);
           amount = u128_add amount additional_reward
       in Ok ((amount, ranked_tier), d))"

section \<open>Cleanup marker\<close>

record CleanupMarker =
  cm_era_reward_index :: EraNumber
  cm_dapp_tiers_index :: EraNumber
  cm_oldest_valid_era :: EraNumber

definition CleanupMarker_default :: CleanupMarker where
  "CleanupMarker_default = \<lparr> cm_era_reward_index = 0, cm_dapp_tiers_index = 0, cm_oldest_valid_era = 0 \<rparr>"

definition CleanupMarker_has_pending_cleanups :: "CleanupMarker \<Rightarrow> bool" where
  "CleanupMarker_has_pending_cleanups m \<longleftrightarrow>
     cm_era_reward_index m \<noteq> cm_oldest_valid_era m \<or> cm_dapp_tiers_index m \<noteq> cm_oldest_valid_era m"

text \<open>What one dApp is entitled to under an assignment, and the payouts of a sequence of claims.\<close>

definition dapp_entitlement :: "DAppTierRewards \<Rightarrow> DAppId \<Rightarrow> nat" where
  "dapp_entitlement d i = (case sm_get (dt_dapps d) i of None \<Rightarrow> 0
     | Some rt \<Rightarrow> u128_add (nth_or_zero (dt_rewards d) (unat (RankedTier_tier rt)))
         (u128_mul (nth_or_zero (dt_rank_rewards d) (unat (RankedTier_tier rt))) (unat (RankedTier_rank rt))))"

fun claim_dapps :: "DAppId list \<Rightarrow> DAppTierRewards \<Rightarrow> nat \<times> DAppTierRewards" where
  "claim_dapps [] d = (0, d)"
| "claim_dapps (i # is) d = (case DAppTierRewards_try_claim i d of
     Ok ((a, _), d) \<Rightarrow> (case claim_dapps is d of (t, d) \<Rightarrow> (a + t, d))
   | Err _ \<Rightarrow> claim_dapps is d)"

lemma try_claim_eq:
  "DAppTierRewards_try_claim i d = (case sm_get (dt_dapps d) i of None \<Rightarrow> Err NoDAppInTiers
     | Some rt \<Rightarrow> Ok ((dapp_entitlement d i, rt), d\<lparr> dt_dapps := sm_remove (dt_dapps d) i \<rparr>))"
  by (simp add: DAppTierRewards_try_claim_def dapp_entitlement_def RankedTier_deconstruct_def Let_def split: option.split)

lemma entitlement_removed:
  "sm_invar (dt_dapps d) \<Longrightarrow> dapp_entitlement (d\<lparr> dt_dapps := sm_remove (dt_dapps d) i \<rparr>) j = (if j = i then 0 else dapp_entitlement d j)"
  by (simp add: dapp_entitlement_def split: option.split)

section \<open>Properties\<close>

text \<open>The reward history of consecutive eras is read back exactly: pushing the rewards of eras
  \<open>e, e + 1, ...\<close> into an empty span succeeds within its capacity, and afterwards every one of these eras
  reads its own entry and every other era reads nothing.\<close>

lemma span_history_roundtrip:
  assumes "length vs \<le> cap" and "e + length vs \<le> u32_max"
  shows "\<exists>s. span.push_all cap e vs EraRewardSpan_new = Ok s \<and> EraRewardSpan_len s = length vs
    \<and> (\<forall>x. EraRewardSpan_get s x = (if e \<le> x \<and> x < e + length vs then Some (vs ! (x - e)) else None))"
  using span.push_all_get [of cap EraRewardSpan_new vs e] assms
  by (auto simp: span.invar_new span.get_new span.len_new)

lemma span_history_roundtrip_example:
  "\<exists>s. span.push_all 8 6 [\<lparr> er_staker_reward_pool = 1, er_staked = 2, er_dapp_reward_pool = 3 \<rparr>,
        \<lparr> er_staker_reward_pool = 4, er_staked = 5, er_dapp_reward_pool = 6 \<rparr>] EraRewardSpan_new = Ok s
    \<and> EraRewardSpan_get s 7 = Some \<lparr> er_staker_reward_pool = 4, er_staked = 5, er_dapp_reward_pool = 6 \<rparr>"
  using span_history_roundtrip [of "[\<lparr> er_staker_reward_pool = 1, er_staked = 2, er_dapp_reward_pool = 3 \<rparr>,
        \<lparr> er_staker_reward_pool = 4, er_staked = 5, er_dapp_reward_pool = 6 \<rparr>]" 8 6]
  by (auto simp: u32_max_def)

text \<open>C14: A dApp's tier reward is paid once: whatever sequence of claims is made against the rewards of an era,
  with repetitions and unknown dApps, the total paid is the sum of the entitlements of the distinct dApps
  named, and a further claim by any of them is refused.\<close>

theorem dapp_rewards_paid_once:
  assumes "sm_invar (dt_dapps d)" and "claim_dapps is d = (paid, d')"
  shows "paid = (\<Sum>i \<in> set is. dapp_entitlement d i)
    \<and> (\<forall>i \<in> set is. DAppTierRewards_try_claim i d' = Err NoDAppInTiers)"
proof -
  have "paid = (\<Sum>i \<in> set is. dapp_entitlement d i) \<and> sm_invar (dt_dapps d')
    \<and> (\<forall>i. sm_get (dt_dapps d') i = (if i \<in> set is then None else sm_get (dt_dapps d) i))"
    using assms
  proof (induction "is" arbitrary: d paid)
    case (Cons i "is")
    show ?case
    proof (cases "sm_get (dt_dapps d) i")
      case None
      with Cons show ?thesis
        by (auto simp: try_claim_eq sum.insert_if dapp_entitlement_def insert_absorb)
    next
      case (Some rt)
      let ?d = "d\<lparr> dt_dapps := sm_remove (dt_dapps d) i \<rparr>"
      obtain t where t: "claim_dapps is ?d = (t, d')" "paid = dapp_entitlement d i + t"
        using Cons.prems(2) Some by (auto simp: try_claim_eq split: prod.splits)
      have inv: "sm_invar (dt_dapps ?d)" using Cons.prems(1) by simp
      have "(\<Sum>j \<in> set is. dapp_entitlement ?d j) = (\<Sum>j \<in> set is - {i}. dapp_entitlement d j)"
        using Cons.prems(1) by (intro sum.mono_neutral_cong_right) (auto simp: entitlement_removed)
      moreover have "(\<Sum>j \<in> set (i # is). dapp_entitlement d j) = dapp_entitlement d i + (\<Sum>j \<in> set is - {i}. dapp_entitlement d j)"
        by (simp add: sum.insert_remove)
      ultimately show ?thesis using Cons.IH [OF inv t(1)] t(2) Cons.prems(1) by auto
    qed
  qed simp
  then show ?thesis by (auto simp: try_claim_eq)
qed

theorem dapp_rewards_paid_once_witness:
  "(case claim_dapps [4, 9, 4] \<lparr> dt_dapps = [(4, RankedTier 0x31)], dt_rewards = [100, 50], dt_period = 1, dt_rank_rewards = [3, 2] \<rparr> of
     (paid, d') \<Rightarrow> paid = 56 \<and> DAppTierRewards_try_claim 4 d' = Err NoDAppInTiers)"
proof -
  let ?d = "\<lparr> dt_dapps = [(4, RankedTier 0x31)], dt_rewards = [100, 50], dt_period = 1, dt_rank_rewards = [3, 2] \<rparr>"
  obtain paid d' where r: "claim_dapps [4, 9, 4] ?d = (paid, d')" by (cases "claim_dapps [4, 9, 4] ?d")
  have "dapp_entitlement ?d 4 = 56" "dapp_entitlement ?d 9 = 0"
    by (simp_all add: dapp_entitlement_def sm_get_def nth_or_zero_def MAX_RANK_def sat_mul_def sat_add_def u128_max_def)
  moreover have "set [4, 9, 4] = {4, 9 :: nat}" by auto
  moreover have "sm_invar (dt_dapps ?d)" by (simp add: sm_invar_def)
  note dapp_rewards_paid_once [OF this r]
  ultimately show ?thesis unfolding r by simp
qed

end
