(* ===== verification/Tiers.thy ===== *)
theory Tiers
  imports EraRewards
begin

text \<open>
  Tier parameters and the tier configuration derived from them (\<open>pallets/dapp-staking/src/types.rs\<close>): the
  validity checks and \<open>calculate_new\<close>, which sets the number of slots of each tier from the price of the
  native currency and moves the entry thresholds against the number of slots.
\<close>

datatype TierThreshold =
  FixedPercentage (th_required_percentage: nat)
| DynamicPercentage (th_percentage: nat) (th_minimum_required_percentage: nat)

definition TierThreshold_threshold :: "Arith \<Rightarrow> TierThreshold \<Rightarrow> Balance \<Rightarrow> Balance" where
  "TierThreshold_threshold A t total_issuance =
     (case t of
        DynamicPercentage percentage _ \<Rightarrow> pt_mul (ar_perbill A) percentage total_issuance
      | FixedPercentage required_percentage \<Rightarrow> pt_mul (ar_perbill A) required_percentage total_issuance)"

record TierParameters =
  tp_reward_portion :: "nat list"
  tp_slot_distribution :: "nat list"
  tp_tier_thresholds :: "TierThreshold list"

text \<open>The sum of a vector of \<open>Permill\<close>, \<open>None\<close> when it exceeds one whole.\<close>

definition permill_sum :: "Arith \<Rightarrow> nat list \<Rightarrow> nat option" where
  "permill_sum A ps =
     foldl (\<lambda>acc p. case acc of None \<Rightarrow> None | Some a \<Rightarrow> pt_checked_add (ar_permill A) a p) (Some 0) ps"

definition TierParameters_is_valid :: "Arith \<Rightarrow> nat \<Rightarrow> TierParameters \<Rightarrow> bool" where
  "TierParameters_is_valid A number_of_tiers p =
     (if permill_sum A (tp_reward_portion p) = None then False
      else if permill_sum A (tp_slot_distribution p) = None then False
      else number_of_tiers = length (tp_reward_portion p)
        \<and> number_of_tiers = length (tp_slot_distribution p)
        \<and> number_of_tiers = length (tp_tier_thresholds p))"

record TiersConfiguration =
  tc_slots_per_tier :: "nat list"
  tc_reward_portion :: "nat list"
  tc_tier_thresholds :: "Balance list"

definition TiersConfiguration_default :: TiersConfiguration where
  "TiersConfiguration_default = \<lparr> tc_slots_per_tier = [], tc_reward_portion = [], tc_tier_thresholds = [] \<rparr>"

definition TiersConfiguration_is_valid :: "nat \<Rightarrow> TiersConfiguration \<Rightarrow> bool" where
  "TiersConfiguration_is_valid number_of_tiers c \<longleftrightarrow>
     number_of_tiers = length (tc_slots_per_tier c)
     \<and> number_of_tiers = length (tc_reward_portion c)
     \<and> number_of_tiers = length (tc_tier_thresholds c)"

text \<open>The sum of \<open>u16\<close> values wraps in a release build.\<close>

definition TiersConfiguration_total_number_of_slots :: "TiersConfiguration \<Rightarrow> nat" where
  "TiersConfiguration_total_number_of_slots c = sum_list (tc_slots_per_tier c) mod 2 ^ 16"

text \<open>\<open>BoundedVec::try_from(xs).unwrap_or_default()\<close>.\<close>

definition bounded_or_default :: "nat \<Rightarrow> 'a list \<Rightarrow> 'a list" where
  "bounded_or_default cap xs = (if length xs \<le> cap then xs else [])"

text \<open>\<open>%delta_threshold\<close> and the new threshold of one tier, for the numbers of slots at the new and at the
  base price.\<close>

definition delta_threshold :: "Arith \<Rightarrow> nat \<Rightarrow> nat \<Rightarrow> nat" where
  "delta_threshold A new_number_of_slots base_number_of_slots =
     (if new_number_of_slots \<ge> base_number_of_slots
      then fp_from_rational (ar_fixed A) (new_number_of_slots - base_number_of_slots) new_number_of_slots
      else fp_from_rational (ar_fixed A) (base_number_of_slots - new_number_of_slots) new_number_of_slots)"

definition adjusted_threshold :: "Arith \<Rightarrow> nat \<Rightarrow> nat \<Rightarrow> Balance \<Rightarrow> Balance" where
  "adjusted_threshold A new_number_of_slots base_number_of_slots amount =
     (let delta = delta_threshold A new_number_of_slots base_number_of_slots
      in if new_number_of_slots \<ge> base_number_of_slots
         then sat_sub amount (fp_saturating_mul_int (ar_fixed A) u128_max delta amount)
         else u128_add amount (fp_saturating_mul_int (ar_fixed A) u128_max delta amount))"

definition new_threshold :: "Arith \<Rightarrow> nat \<Rightarrow> nat \<Rightarrow> Balance \<Rightarrow> TierThreshold \<Rightarrow> Balance" where
  "new_threshold A new_number_of_slots base_number_of_slots total_issuance t =
     (case t of
        DynamicPercentage percentage minimum_required_percentage \<Rightarrow>
          max (adjusted_threshold A new_number_of_slots base_number_of_slots (pt_mul (ar_perbill A) percentage total_issuance))
              (pt_mul (ar_perbill A) minimum_required_percentage total_issuance)
      | FixedPercentage required_percentage \<Rightarrow> pt_mul (ar_perbill A) required_percentage total_issuance)"

definition TiersConfiguration_calculate_new ::
  "Arith \<Rightarrow> nat \<Rightarrow> (nat \<Rightarrow> nat) \<Rightarrow> nat \<Rightarrow> TiersConfiguration \<Rightarrow> TierParameters \<Rightarrow> nat \<Rightarrow> Balance \<Rightarrow> TiersConfiguration" where
  "TiersConfiguration_calculate_new A number_of_tiers number_of_slots base_price c params native_price total_issuance =
     (let base_number_of_slots = max (number_of_slots base_price) 1;
          new_number_of_slots = max (number_of_slots native_price) 1;
          new_slots_per_tier = bounded_or_default number_of_tiers
            (map (\<lambda>percent. saturated_into u16_max (pt_mul (ar_permill A) percent new_number_of_slots)) (tp_slot_distribution params));
          new_tier_thresholds = bounded_or_default number_of_tiers
            (map (new_threshold A new_number_of_slots base_number_of_slots total_issuance) (tp_tier_thresholds params))
      in \<lparr> tc_slots_per_tier = new_slots_per_tier,
           tc_reward_portion = tp_reward_portion params,
           tc_tier_thresholds = new_tier_thresholds \<rparr>)"

section \<open>Lemmas\<close>

context arith
begin

lemma permill_sum_None: "permill_sum A ps = None \<longleftrightarrow> permill_acc < sum_list ps"
  by (auto simp: permill_sum_def pm.fold_checked_add)

lemma valid_iff:
  "TierParameters_is_valid A n p \<longleftrightarrow> sum_list (tp_reward_portion p) \<le> permill_acc
     \<and> sum_list (tp_slot_distribution p) \<le> permill_acc
     \<and> length (tp_reward_portion p) = n \<and> length (tp_slot_distribution p) = n \<and> length (tp_tier_thresholds p) = n"
  by (auto simp: TierParameters_is_valid_def permill_sum_None)

text \<open>The two directions of the adjustment: the error of the fixed-point quotient, and the rounding down of
  its product.\<close>

lemma delta_bounds:
  fixes n k amount :: nat
  defines "d \<equiv> fp_from_rational (ar_fixed A) k n"
  defines "m \<equiv> fp_saturating_mul_int (ar_fixed A) u128_max d amount"
  assumes "0 < n"
  shows "m * n * fixed_div \<le> k * amount * fixed_div + n * amount"
    and "m < u128_max \<Longrightarrow> k * amount * fixed_div \<le> m * n * fixed_div + n * (amount + fixed_div)"
proof -
  have up: "d * n \<le> k * fixed_div + n" and low: "k * fixed_div \<le> d * n + n"
    using fx.from_rational_up [OF assms(3), of k] fx.from_rational_low [OF assms(3), of k] by (simp_all add: d_def)
  have "m * fixed_div * n \<le> d * amount * n"
    using fx.mul_int_down [of u128_max d amount] by (simp add: m_def)
  also have "\<dots> = d * n * amount" by simp
  also have "\<dots> \<le> (k * fixed_div + n) * amount" using up by (rule mult_right_mono) simp
  finally show "m * n * fixed_div \<le> k * amount * fixed_div + n * amount" by (simp add: algebra_simps)
  assume "m < u128_max"
  then have fl: "d * amount \<le> (m + 1) * fixed_div"
    using fx.mul_int_floor [of u128_max d amount] by (simp add: m_def)
  have "k * fixed_div * amount \<le> (d * n + n) * amount" using low by (rule mult_right_mono) simp
  also have "\<dots> = d * amount * n + n * amount" by (simp add: algebra_simps)
  also have "\<dots> \<le> (m + 1) * fixed_div * n + n * amount" using mult_right_mono [OF fl, of n] by simp
  finally show "k * amount * fixed_div \<le> m * n * fixed_div + n * (amount + fixed_div)" by (simp add: algebra_simps)
qed

lemma adjusted_down:
  assumes "base \<le> n" and "0 < n" and "amount \<le> u128_max"
  defines "t \<equiv> adjusted_threshold A n base amount"
  shows "amount * base * fixed_div \<le> t * n * fixed_div + n * amount"
    and "t * n * fixed_div \<le> amount * base * fixed_div + n * (amount + fixed_div)"
    and "t \<le> amount"
proof -
  obtain k where n: "n = base + k" using assms(1) le_Suc_ex by blast
  define m where "m = fp_saturating_mul_int (ar_fixed A) u128_max (fp_from_rational (ar_fixed A) k n) amount"
  have t: "t = amount - m"
    using n by (simp add: t_def adjusted_threshold_def delta_threshold_def m_def)
  have m: "m \<le> amount"
    unfolding m_def by (rule fx.mul_int_le_self, rule fx.from_rational_le_one) (use assms(2) n in auto)
  have tn: "t * n * fixed_div + m * n * fixed_div = amount * base * fixed_div + k * amount * fixed_div"
  proof -
    have "(t + m) * n * fixed_div = amount * n * fixed_div" using m by (simp add: t)
    then show ?thesis by (simp add: n algebra_simps)
  qed
  note b = delta_bounds [OF assms(2), of k amount, folded m_def]
  show "amount * base * fixed_div \<le> t * n * fixed_div + n * amount" using tn b(1) by linarith
  show "t * n * fixed_div \<le> amount * base * fixed_div + n * (amount + fixed_div)"
  proof (cases "m < u128_max")
    case True
    with tn b(2) show ?thesis by linarith
  next
    case False
    with m assms(3) have "t = 0" by (simp add: t)
    then show ?thesis by simp
  qed
  show "t \<le> amount" by (simp add: t)
qed

lemma adjusted_up:
  assumes "n < base" and "0 < n" and "amount * (base + 1) < u128_max"
  defines "t \<equiv> adjusted_threshold A n base amount"
  shows "t * n * fixed_div \<le> amount * base * fixed_div + n * amount"
    and "amount * base * fixed_div \<le> t * n * fixed_div + n * (amount + fixed_div)"
    and "amount \<le> t"
proof -
  obtain k where base: "base = n + k" using assms(1) less_imp_add_positive by blast
  define m where "m = fp_saturating_mul_int (ar_fixed A) u128_max (fp_from_rational (ar_fixed A) k n) amount"
  note b = delta_bounds [OF assms(2), of k amount, folded m_def]
  have "m * n * fixed_div \<le> (k + n) * amount * fixed_div"
    using b(1) by (rule order_trans) (simp add: fixed_div_def algebra_simps)
  then have "m * n \<le> (k + n) * amount" by (simp add: fixed_div_def)
  with assms(2) have "m \<le> amount * base" by (metis base add.commute le_mult_posD(2) mult.commute)
  with assms(3) have fits: "amount + m < u128_max" by (simp add: algebra_simps)
  have t: "t = amount + m"
    using base assms(1) fits by (simp add: t_def adjusted_threshold_def delta_threshold_def m_def sat_add_exact)
  have tn: "t * n * fixed_div = amount * n * fixed_div + m * n * fixed_div"
    by (simp add: t algebra_simps)
  have ab: "amount * base * fixed_div = amount * n * fixed_div + k * amount * fixed_div" by (simp add: base algebra_simps)
  show "t * n * fixed_div \<le> amount * base * fixed_div + n * amount" using tn ab b(1) by linarith
  show "amount * base * fixed_div \<le> t * n * fixed_div + n * (amount + fixed_div)" using tn ab b(2) fits by linarith
  show "amount \<le> t" by (simp add: t)
qed

lemma slots_sum:
  assumes "sum_list (tp_slot_distribution p) \<le> permill_acc"
  shows "2 * (\<Sum>s\<leftarrow>tp_slot_distribution p. saturated_into u16_max (pt_mul (ar_permill A) s n)) \<le> 2 * n + length (tp_slot_distribution p)"
proof -
  have "(\<Sum>s\<leftarrow>tp_slot_distribution p. saturated_into u16_max (pt_mul (ar_permill A) s n))
      \<le> (\<Sum>s\<leftarrow>tp_slot_distribution p. pt_mul (ar_permill A) s n)"
    by (rule sum_list_mono) (simp add: saturated_into_def)
  with pm.sum_mul_le [OF assms, of n] show ?thesis by simp
qed

end

section \<open>Properties\<close>

text \<open>A new tier configuration from valid parameters is valid, and its slots do not exceed the number of
  slots at the price by more than half a slot for each tier: rounding every share to the nearest slot is the
  only way to exceed it. When that total fits 16 bits the reported total is exact.\<close>

lemma calculate_new_slots:
  assumes "arith A" and "TierParameters_is_valid A nt params"
  shows "let c' = TiersConfiguration_calculate_new A nt slots base c params price issuance in
    TiersConfiguration_is_valid nt c' \<and> 2 * sum_list (tc_slots_per_tier c') \<le> 2 * max (slots price) 1 + nt
    \<and> (max (slots price) 1 + nt \<le> u16_max \<longrightarrow>
        TiersConfiguration_total_number_of_slots c' = sum_list (tc_slots_per_tier c'))"
proof -
  let ?c = "TiersConfiguration_calculate_new A nt slots base c params price issuance"
  note v = assms(2) [unfolded arith.valid_iff [OF assms(1)]]
  have len: "TiersConfiguration_is_valid nt ?c"
    using v by (simp add: TiersConfiguration_is_valid_def TiersConfiguration_calculate_new_def Let_def bounded_or_default_def)
  have le: "2 * sum_list (tc_slots_per_tier ?c) \<le> 2 * max (slots price) 1 + nt"
    using v arith.slots_sum [OF assms(1), of params "max (slots price) 1"]
    by (simp add: TiersConfiguration_calculate_new_def Let_def bounded_or_default_def)
  then have "TiersConfiguration_total_number_of_slots ?c = sum_list (tc_slots_per_tier ?c)"
    if "max (slots price) 1 + nt \<le> u16_max"
    using that by (simp add: TiersConfiguration_total_number_of_slots_def u16_max_def)
  with len le show ?thesis by (simp add: Let_def)
qed

definition example_params :: TierParameters where
  "example_params = \<lparr> tp_reward_portion = [400000, 300000, 200000, 100000],
     tp_slot_distribution = [100000, 200000, 300000, 400000],
     tp_tier_thresholds = [DynamicPercentage 30000000 20000000, DynamicPercentage 20000000 10000000,
       DynamicPercentage 10000000 5000000, FixedPercentage 1000000] \<rparr>"

lemma calculate_new_slots_example:
  "TiersConfiguration_is_valid 4 (TiersConfiguration_calculate_new exact_arith 4
     (StandardTierSlots_number_of_slots exact_fixed_point) (5 * 10 ^ 16) TiersConfiguration_default example_params (10 ^ 17) 1000000)"
proof -
  have "TierParameters_is_valid exact_arith 4 example_params"
    by (simp add: ea.valid_iff example_params_def permill_acc_def)
  from calculate_new_slots [OF ea.arith_axioms this] show ?thesis by (simp add: Let_def)
qed

text \<open>The threshold of a dynamic tier moves inversely to the number of slots: up to the error of the
  fixed-point quotient and one unit of rounding, threshold times new slots equals base amount times base
  slots. It is at most the base amount when there are more slots and at least the base amount when there are
  fewer.\<close>

lemma dynamic_threshold_inverse:
  assumes "arith A" and "0 < n" and "amount * (base + 1) < u128_max"
  shows "let t = adjusted_threshold A n base amount in
    amount * base * fixed_div \<le> t * n * fixed_div + n * (amount + fixed_div)
    \<and> t * n * fixed_div \<le> amount * base * fixed_div + n * (amount + fixed_div)
    \<and> (if base \<le> n then t \<le> amount else amount \<le> t)"
proof (cases "base \<le> n")
  case True
  have "amount \<le> u128_max" using assms(3) by (simp add: algebra_simps)
  from arith.adjusted_down [OF assms(1) True assms(2) this] True show ?thesis
    by (simp add: Let_def algebra_simps)
next
  case False
  then have "n < base" by simp
  from arith.adjusted_up [OF assms(1) this assms(2,3)] False show ?thesis
    by (simp add: Let_def algebra_simps)
qed

lemma dynamic_threshold_inverse_example:
  "adjusted_threshold exact_arith 150 100 30000 \<le> 30000 \<and> 30000 \<le> adjusted_threshold exact_arith 50 100 30000"
  using dynamic_threshold_inverse [OF ea.arith_axioms, of 150 30000 100]
    dynamic_threshold_inverse [OF ea.arith_axioms, of 50 30000 100]
  by (simp add: u128_max_def Let_def)

text \<open>No new threshold of a dynamic tier falls below its minimum percentage of the total issuance, and the
  threshold of a fixed tier is its percentage of the issuance, whatever the price.\<close>

lemma thresholds_respect_minimum:
  assumes "length (tp_tier_thresholds params) \<le> nt" and "i < length (tp_tier_thresholds params)"
  shows "let c' = TiersConfiguration_calculate_new A nt slots base c params price issuance in
    case tp_tier_thresholds params ! i of
      DynamicPercentage p m \<Rightarrow> pt_mul (ar_perbill A) m issuance \<le> tc_tier_thresholds c' ! i
    | FixedPercentage p \<Rightarrow> tc_tier_thresholds c' ! i = pt_mul (ar_perbill A) p issuance"
  using assms(1,2)
  by (simp add: TiersConfiguration_calculate_new_def Let_def bounded_or_default_def new_threshold_def
      split: TierThreshold.split)

end
