(* ===== verification/Pallet.thy ===== *)
theory Pallet
  imports StakingInfo Tiers Frame
begin

text \<open>
  The dApp staking pallet (\<open>pallets/dapp-staking/src/lib.rs\<close>): its configuration, errors, events and
  storage, the genesis build, and the internal functions its calls share. The storage is one record;
  \<open>pl_env\<close> is the state of everything outside the pallet (balances, inflation, prices), which the pallet
  reaches only through the operations of \<open>Runtime\<close>. A call returns the new state or an error; on an error
  the caller keeps the old state, as FRAME rolls a failed call back.
\<close>

section \<open>Configuration and runtime interface\<close>

record ('acc, 'sc) Config =
  cf_cycle :: CycleConfiguration
  cf_arith :: Arith
  cf_number_of_slots :: "nat \<Rightarrow> nat"
  cf_base_native_currency_price :: nat
  cf_era_reward_span_length :: nat
  cf_reward_retention_in_periods :: PeriodNumber
  cf_max_number_of_contracts :: nat
  cf_max_unlocking_chunks :: nat
  cf_minimum_locked_amount :: Balance
  cf_unlocking_period :: EraNumber
  cf_max_number_of_staked_contracts :: nat
  cf_minimum_stake_amount :: Balance
  cf_number_of_tiers :: nat
  cf_ranking_enabled :: bool
  cf_is_register_origin :: "'acc RawOrigin \<Rightarrow> bool"
  cf_is_unregister_origin :: "'acc RawOrigin \<Rightarrow> bool"
  cf_is_manager_origin :: "'acc RawOrigin \<Rightarrow> bool"
  cf_sort_by_stake :: "(DAppId \<times> Balance) list \<Rightarrow> (DAppId \<times> Balance) list"
  cf_clear_prefix :: "nat \<Rightarrow> ('acc \<times> 'sc) list \<Rightarrow> ('acc \<times> 'sc) list"

text \<open>The other pallets: the currency, the reward handler, the price provider, the account check and the
  observers. \<open>cf_sort_by_stake\<close> is \<open>sort_unstable_by\<close> in descending order of the amount, whose order of
  equal elements is unspecified; \<open>cf_clear_prefix\<close> says which keys a bounded \<open>clear_prefix\<close> removes.\<close>

record ('acc, 'x) Runtime =
  rt_total_balance :: "'x \<Rightarrow> 'acc \<Rightarrow> Balance"
  rt_total_issuance :: "'x \<Rightarrow> Balance"
  rt_set_freeze :: "'acc \<Rightarrow> Balance \<Rightarrow> 'x \<Rightarrow> ('x, unit) result"
  rt_thaw :: "'acc \<Rightarrow> 'x \<Rightarrow> ('x, unit) result"
  rt_allowed_to_stake :: "'x \<Rightarrow> 'acc \<Rightarrow> bool"
  rt_average_price :: "'x \<Rightarrow> nat"
  rt_staker_and_dapp_reward_pools :: "'x \<Rightarrow> Balance \<Rightarrow> Balance \<times> Balance"
  rt_bonus_reward_pool :: "'x \<Rightarrow> Balance"
  rt_payout_reward :: "'acc \<Rightarrow> Balance \<Rightarrow> 'x \<Rightarrow> ('x, unit) result"
  rt_block_before_new_era :: "EraNumber \<Rightarrow> 'x \<Rightarrow> 'x"

datatype Error = Disabled | ContractAlreadyExists | ExceededMaxNumberOfContracts | NewDAppIdUnavailable
  | ContractNotFound | OriginNotOwner | ZeroAmount | LockedAmountBelowThreshold
  | AccountNotAvailableForDappStaking | TooManyUnlockingChunks | RemainingStakePreventsFullUnlock
  | NoUnlockedChunksToClaim | NoUnlockingChunks | UnavailableStakeFunds | UnclaimedRewards
  | InternalStakeError | InsufficientStakeAmount | PeriodEndsInNextEra | UnstakeFromPastPeriod
  | UnstakeAmountTooLarge | NoStakingInfo | InternalUnstakeError | RewardExpired | RewardPayoutFailed
  | NoClaimableRewards | InternalClaimStakerError | NotEligibleForBonusReward | InternalClaimBonusError
  | InvalidClaimEra | NoDAppTierInfo | InternalClaimDAppError | ContractStillActive
  | TooManyStakedContracts | NoExpiredEntries | ForceNotAllowed

type_synonym DispatchError = "Error dispatch_error"

datatype ('acc, 'sc) Event =
  MaintenanceMode bool
| NewEra EraNumber
| NewSubperiod Subperiod PeriodNumber
| DAppRegistered 'acc 'sc DAppId
| DAppRewardDestinationUpdated 'sc "'acc option"
| DAppOwnerChanged 'sc 'acc
| DAppUnregistered 'sc EraNumber
| Locked 'acc Balance
| Unlocking 'acc Balance
| ClaimedUnlocked 'acc Balance
| Relock 'acc Balance
| Stake 'acc 'sc Balance
| Unstake 'acc 'sc Balance
| Reward 'acc EraNumber Balance
| BonusReward 'acc 'sc PeriodNumber Balance
| DAppReward 'acc 'sc TierId Rank EraNumber Balance
| UnstakeFromUnregistered 'acc 'sc Balance
| ExpiredEntriesRemoved 'acc nat
| Forced ForcingType

section \<open>Storage\<close>

record ('acc, 'sc, 'x) Storage =
  pl_active_protocol_state :: ProtocolState
  pl_next_dapp_id :: DAppId
  pl_integrated_dapps :: "('sc, 'acc DAppInfo) smap"
  pl_ledger :: "('acc, AccountLedger) smap"
  pl_staker_info :: "('acc \<times> 'sc, SingularStakingInfo) smap"
  pl_contract_stake :: "(DAppId, ContractStakeAmount) smap"
  pl_current_era_info :: EraInfo
  pl_era_rewards :: "(EraNumber, EraRewardSpan) smap"
  pl_period_end :: "(PeriodNumber, PeriodEndInfo) smap"
  pl_static_tier_params :: TierParameters
  pl_tier_config :: TiersConfiguration
  pl_dapp_tiers :: "(EraNumber, DAppTierRewards) smap"
  pl_history_cleanup_marker :: CleanupMarker
  pl_safeguard :: bool
  pl_events :: "('acc, 'sc) Event list"
  pl_block_number :: BlockNumber
  pl_env :: 'x

text \<open>The storage before genesis: every value has its default.\<close>

definition TierParameters_default :: TierParameters where
  "TierParameters_default = \<lparr> tp_reward_portion = [], tp_slot_distribution = [], tp_tier_thresholds = [] \<rparr>"

definition empty_storage :: "'x \<Rightarrow> ('acc, 'sc, 'x) Storage" where
  "empty_storage x = \<lparr> pl_active_protocol_state = ProtocolState_default, pl_next_dapp_id = 0,
     pl_integrated_dapps = [], pl_ledger = [], pl_staker_info = [], pl_contract_stake = [],
     pl_current_era_info = EraInfo_default, pl_era_rewards = [], pl_period_end = [],
     pl_static_tier_params = TierParameters_default, pl_tier_config = TiersConfiguration_default,
     pl_dapp_tiers = [], pl_history_cleanup_marker = CleanupMarker_default, pl_safeguard = True,
     pl_events = [], pl_block_number = 0, pl_env = x \<rparr>"

definition deposit_event :: "('acc, 'sc) Event \<Rightarrow> ('acc, 'sc, 'x) Storage \<Rightarrow> ('acc, 'sc, 'x) Storage" where
  "deposit_event ev s = s\<lparr> pl_events := pl_events s @ [ev] \<rparr>"

section \<open>Genesis\<close>

record GenesisConfig =
  gc_reward_portion :: "nat list"
  gc_slot_distribution :: "nat list"
  gc_tier_thresholds :: "TierThreshold list"
  gc_slots_per_tier :: "nat list"
  gc_safeguard :: "bool option"

text \<open>\<open>from_percent(n)\<close> is \<open>n\<close> hundredths of the accuracy, at most one whole.\<close>

definition permill_from_percent :: "nat \<Rightarrow> nat" where
  "permill_from_percent n = min n 100 * (permill_acc div 100)"

definition perbill_from_percent :: "nat \<Rightarrow> nat" where
  "perbill_from_percent n = min n 100 * (perbill_acc div 100)"

definition GenesisConfig_default :: "nat \<Rightarrow> GenesisConfig" where
  "GenesisConfig_default num_tiers = \<lparr>
     gc_reward_portion = replicate num_tiers (permill_from_percent (100 div num_tiers)),
     gc_slot_distribution = replicate num_tiers (permill_from_percent (100 div num_tiers)),
     gc_tier_thresholds = map (\<lambda>i. FixedPercentage (perbill_from_percent i)) (rev [0..<num_tiers]),
     gc_slots_per_tier = replicate num_tiers 100,
     gc_safeguard = None \<rparr>"

definition blocks_per_voting_period :: "('acc, 'sc) Config \<Rightarrow> BlockNumber" where
  "blocks_per_voting_period C = u32_mul (blocks_per_era (cf_cycle C)) (eras_per_voting_subperiod (cf_cycle C))"

text \<open>The build; \<open>None\<close> where it panics: a vector of the wrong length, invalid parameters, an overflow.\<close>

definition GenesisConfig_build ::
  "('acc, 'sc) Config \<Rightarrow> ('acc, 'x) Runtime \<Rightarrow> GenesisConfig \<Rightarrow> ('acc, 'sc, 'x) Storage \<Rightarrow> ('acc, 'sc, 'x) Storage option" where
  "GenesisConfig_build C R g s =
     (let n = cf_number_of_tiers C;
          tier_params = \<lparr> tp_reward_portion = gc_reward_portion g, tp_slot_distribution = gc_slot_distribution g,
            tp_tier_thresholds = gc_tier_thresholds g \<rparr>;
          total_issuance = rt_total_issuance R (pl_env s);
          tier_config = \<lparr> tc_slots_per_tier = gc_slots_per_tier g, tc_reward_portion = gc_reward_portion g,
            tc_tier_thresholds = map (\<lambda>t. TierThreshold_threshold (cf_arith C) t total_issuance) (gc_tier_thresholds g) \<rparr>
      in if length (gc_reward_portion g) > n \<or> length (gc_slot_distribution g) > n \<or> length (gc_tier_thresholds g) > n then None
         else if \<not> TierParameters_is_valid (cf_arith C) n tier_params then None
         else if length (gc_slots_per_tier g) > n then None
         else if \<not> TiersConfiguration_is_valid n tier_config then None
         else case checked_add u32_max (blocks_per_voting_period C) 1 of
           None \<Rightarrow> None
         | Some next_era_start \<Rightarrow>
             Some (s\<lparr> pl_active_protocol_state := \<lparr> ps_era = 1, ps_next_era_start = next_era_start,
                        ps_period_info = \<lparr> pi_number = 1, pi_subperiod = Voting, pi_next_subperiod_start_era = 2 \<rparr>,
                        ps_maintenance = False \<rparr>,
                      pl_static_tier_params := tier_params,
                      pl_tier_config := tier_config,
                      pl_safeguard := (case gc_safeguard g of Some b \<Rightarrow> b | None \<Rightarrow> pl_safeguard s) \<rparr>))"

text \<open>The sanity checks of \<open>integrity_test\<close>.\<close>

definition integrity_test :: "('acc, 'sc) Config \<Rightarrow> bool" where
  "integrity_test C \<longleftrightarrow> cf_era_reward_span_length C > 0 \<and> cf_reward_retention_in_periods C > 0
     \<and> cf_max_number_of_contracts C > 0 \<and> cf_max_unlocking_chunks C > 0 \<and> cf_unlocking_period C > 0
     \<and> cf_max_number_of_staked_contracts C > 0
     \<and> cf_minimum_locked_amount C > 0 \<and> cf_minimum_stake_amount C > 0
     \<and> cf_minimum_locked_amount C \<ge> cf_minimum_stake_amount C
     \<and> periods_per_cycle (cf_cycle C) > 0 \<and> eras_per_voting_subperiod (cf_cycle C) > 0
     \<and> eras_per_build_and_earn_subperiod (cf_cycle C) > 0 \<and> blocks_per_era (cf_cycle C) > 0"

section \<open>Internal functions\<close>

definition is_staker :: "'acc \<Rightarrow> ('acc, 'sc, 'x) Storage \<Rightarrow> bool" where
  "is_staker account s \<longleftrightarrow> sm_contains (pl_ledger s) account"

definition ensure_pallet_enabled :: "('acc, 'sc, 'x) Storage \<Rightarrow> (unit, DispatchError) result" where
  "ensure_pallet_enabled s = (if ps_maintenance (pl_active_protocol_state s) then Err (Module Disabled) else Ok ())"

definition ledger_of :: "'acc \<Rightarrow> ('acc, 'sc, 'x) Storage \<Rightarrow> AccountLedger" where
  "ledger_of account s = sm_get_or AccountLedger_default (pl_ledger s) account"

definition contract_stake_of :: "DAppId \<Rightarrow> ('acc, 'sc, 'x) Storage \<Rightarrow> ContractStakeAmount" where
  "contract_stake_of dapp_id s = sm_get_or ContractStakeAmount_default (pl_contract_stake s) dapp_id"

definition update_ledger ::
  "('acc, 'x) Runtime \<Rightarrow> 'acc \<Rightarrow> AccountLedger \<Rightarrow> ('acc, 'sc, 'x) Storage \<Rightarrow> (('acc, 'sc, 'x) Storage, DispatchError) result" where
  "update_ledger R account l s =
     (if AccountLedger_is_empty l then
        and_then (map_err (\<lambda>_. CurrencyError) (rt_thaw R account (pl_env s))) (\<lambda>x.
          Ok (s\<lparr> pl_ledger := sm_remove (pl_ledger s) account, pl_env := x \<rparr>))
      else
        and_then (map_err (\<lambda>_. CurrencyError) (rt_set_freeze R account (AccountLedger_total_locked_amount l) (pl_env s))) (\<lambda>x.
          Ok (s\<lparr> pl_ledger := sm_put (pl_ledger s) account l, pl_env := x \<rparr>)))"

definition era_reward_span_index :: "('acc, 'sc) Config \<Rightarrow> EraNumber \<Rightarrow> EraNumber" where
  "era_reward_span_index C era = sat_sub era (era mod cf_era_reward_span_length C)"

definition oldest_claimable_period :: "('acc, 'sc) Config \<Rightarrow> PeriodNumber \<Rightarrow> PeriodNumber" where
  "oldest_claimable_period C current_period = sat_sub current_period (cf_reward_retention_in_periods C)"

definition unlocking_period :: "('acc, 'sc) Config \<Rightarrow> BlockNumber" where
  "unlocking_period C = u32_mul (blocks_per_era (cf_cycle C)) (cf_unlocking_period C)"

definition set_maintenance_mode :: "bool \<Rightarrow> ('acc, 'sc, 'x) Storage \<Rightarrow> ('acc, 'sc, 'x) Storage" where
  "set_maintenance_mode enabled s =
     deposit_event (MaintenanceMode enabled)
       (s\<lparr> pl_active_protocol_state := (pl_active_protocol_state s)\<lparr> ps_maintenance := enabled \<rparr> \<rparr>)"

definition SafeModeNotify_entered :: "('acc, 'sc, 'x) Storage \<Rightarrow> ('acc, 'sc, 'x) Storage" where
  "SafeModeNotify_entered s = set_maintenance_mode True s"

definition SafeModeNotify_exited :: "('acc, 'sc, 'x) Storage \<Rightarrow> ('acc, 'sc, 'x) Storage" where
  "SafeModeNotify_exited s = set_maintenance_mode False s"

definition notify_block_before_new_era ::
  "('acc, 'x) Runtime \<Rightarrow> ProtocolState \<Rightarrow> ('acc, 'sc, 'x) Storage \<Rightarrow> ('acc, 'sc, 'x) Storage" where
  "notify_block_before_new_era R protocol_state s =
     s\<lparr> pl_env := rt_block_before_new_era R (u32_add (ps_era protocol_state) 1) (pl_env s) \<rparr>"

section \<open>Sorting\<close>

text \<open>What the assignment needs of \<open>sort_unstable_by\<close>: a permutation in descending order of the amounts.
  The order of equal amounts is left open.\<close>

locale stake_sort =
  fixes sort_desc :: "(nat \<times> nat) list \<Rightarrow> (nat \<times> nat) list"
  assumes sort_mset: "mset (sort_desc xs) = mset xs"
    and sort_sorted: "sorted_wrt (\<lambda>p q. snd q \<le> snd p) (sort_desc xs)"
begin

lemma sort_set [simp]: "set (sort_desc xs) = set xs"
  using sort_mset by (metis set_mset_mset)

lemma sort_distinct: "distinct (map fst (sort_desc xs)) = distinct (map fst xs)"
  using sort_mset by (metis mset_eq_imp_distinct_iff mset_map)

end

definition sort_by_stake_stable :: "(nat \<times> nat) list \<Rightarrow> (nat \<times> nat) list" where
  "sort_by_stake_stable xs = rev (sort_key snd xs)"

interpretation ss: stake_sort sort_by_stake_stable
proof
  fix xs :: "(nat \<times> nat) list"
  show "mset (sort_by_stake_stable xs) = mset xs" by (simp add: sort_by_stake_stable_def)
  show "sorted_wrt (\<lambda>p q. snd q \<le> snd p) (sort_by_stake_stable xs)"
    using sorted_sort_key [of snd xs] by (simp add: sort_by_stake_stable_def sorted_wrt_rev sorted_map)
qed

section \<open>A concrete instance\<close>

text \<open>A configuration and a runtime with every parameter instantiated, for concrete runs.\<close>

definition example_config :: "(nat, nat) Config" where
  "example_config = \<lparr> cf_cycle = local_cycle, cf_arith = exact_arith,
     cf_number_of_slots = StandardTierSlots_number_of_slots exact_fixed_point,
     cf_base_native_currency_price = 5 * 10 ^ 16, cf_era_reward_span_length = 8,
     cf_reward_retention_in_periods = 2, cf_max_number_of_contracts = 10, cf_max_unlocking_chunks = 5,
     cf_minimum_locked_amount = 10, cf_unlocking_period = 2, cf_max_number_of_staked_contracts = 3,
     cf_minimum_stake_amount = 3, cf_number_of_tiers = 4, cf_ranking_enabled = True,
     cf_is_register_origin = (\<lambda>o'. o' = Root), cf_is_unregister_origin = (\<lambda>o'. o' = Root),
     cf_is_manager_origin = (\<lambda>o'. o' = Root), cf_sort_by_stake = sort_by_stake_stable,
     cf_clear_prefix = (\<lambda>limit keys. take limit keys) \<rparr>"

definition example_runtime :: "(nat, unit) Runtime" where
  "example_runtime = \<lparr> rt_total_balance = (\<lambda>_ _. 10000), rt_total_issuance = (\<lambda>_. 1000000),
     rt_set_freeze = (\<lambda>_ _ x. Ok x), rt_thaw = (\<lambda>_ x. Ok x), rt_allowed_to_stake = (\<lambda>_ _. True),
     rt_average_price = (\<lambda>_. 5 * 10 ^ 16), rt_staker_and_dapp_reward_pools = (\<lambda>_ _. (1000, 500)),
     rt_bonus_reward_pool = (\<lambda>_. 300), rt_payout_reward = (\<lambda>_ _ x. Ok x),
     rt_block_before_new_era = (\<lambda>_ x. x) \<rparr>"

end
