(* ===== verification/Calls.thy ===== *)
theory Calls
  imports Pallet
begin

text \<open>
  The dispatchable calls of the dApp staking pallet (\<open>pallets/dapp-staking/src/lib.rs\<close>), each a function
  from the origin, the arguments and the storage to the new storage or an error, with the guards and the
  writes in the order of the code.
\<close>

type_synonym ('acc, 'sc, 'x) dispatch_result = "(('acc, 'sc, 'x) Storage, DispatchError) result"

section \<open>Management of the dApps\<close>

definition maintenance_mode ::
  "('acc, 'sc) Config \<Rightarrow> 'acc RawOrigin \<Rightarrow> bool \<Rightarrow> ('acc, 'sc, 'x) Storage \<Rightarrow> ('acc, 'sc, 'x) dispatch_result" where
  "maintenance_mode C origin enabled s =
     and_then (ensure_origin (cf_is_manager_origin C) origin) (\<lambda>_. Ok (set_maintenance_mode enabled s))"

definition register ::
  "('acc, 'sc) Config \<Rightarrow> 'acc RawOrigin \<Rightarrow> 'acc \<Rightarrow> 'sc \<Rightarrow> ('acc, 'sc, 'x) Storage \<Rightarrow> ('acc, 'sc, 'x) dispatch_result" where
  "register C origin owner smart_contract s =
     and_then (ensure_pallet_enabled s) (\<lambda>_.
     and_then (ensure_origin (cf_is_register_origin C) origin) (\<lambda>_.
     and_then (ensure (\<not> sm_contains (pl_integrated_dapps s) smart_contract) (Module ContractAlreadyExists)) (\<lambda>_.
     and_then (ensure (length (pl_integrated_dapps s) < cf_max_number_of_contracts C) (Module ExceededMaxNumberOfContracts)) (\<lambda>_.
     let dapp_id = pl_next_dapp_id s in
     and_then (ensure (dapp_id < u16_max) (Module NewDAppIdUnavailable)) (\<lambda>_.
     Ok (deposit_event (DAppRegistered owner smart_contract dapp_id)
       (s\<lparr> pl_integrated_dapps := sm_put (pl_integrated_dapps s) smart_contract
              \<lparr> di_owner = owner, di_id = dapp_id, di_reward_beneficiary = None \<rparr>,
           pl_next_dapp_id := u16_add dapp_id 1 \<rparr>)))))))"

definition set_dapp_reward_beneficiary ::
  "'acc RawOrigin \<Rightarrow> 'sc \<Rightarrow> 'acc option \<Rightarrow> ('acc, 'sc, 'x) Storage \<Rightarrow> ('acc, 'sc, 'x) dispatch_result" where
  "set_dapp_reward_beneficiary origin smart_contract beneficiary s =
     and_then (ensure_pallet_enabled s) (\<lambda>_.
     and_then (ensure_signed origin) (\<lambda>dev_account.
     and_then (ok_or (Module ContractNotFound) (sm_get (pl_integrated_dapps s) smart_contract)) (\<lambda>dapp_info.
     and_then (ensure (di_owner dapp_info = dev_account) (Module OriginNotOwner)) (\<lambda>_.
     Ok (deposit_event (DAppRewardDestinationUpdated smart_contract beneficiary)
       (s\<lparr> pl_integrated_dapps := sm_put (pl_integrated_dapps s) smart_contract
             (dapp_info\<lparr> di_reward_beneficiary := beneficiary \<rparr>) \<rparr>))))))"

definition set_dapp_owner ::
  "'acc RawOrigin \<Rightarrow> 'sc \<Rightarrow> 'acc \<Rightarrow> ('acc, 'sc, 'x) Storage \<Rightarrow> ('acc, 'sc, 'x) dispatch_result" where
  "set_dapp_owner origin smart_contract new_owner s =
     and_then (ensure_pallet_enabled s) (\<lambda>_.
     and_then (ensure_signed_or_root origin) (\<lambda>origin.
     and_then (ok_or (Module ContractNotFound) (sm_get (pl_integrated_dapps s) smart_contract)) (\<lambda>dapp_info.
     and_then (case origin of Some caller \<Rightarrow> ensure (di_owner dapp_info = caller) (Module OriginNotOwner) | None \<Rightarrow> Ok ()) (\<lambda>_.
     Ok (deposit_event (DAppOwnerChanged smart_contract new_owner)
       (s\<lparr> pl_integrated_dapps := sm_put (pl_integrated_dapps s) smart_contract
             (dapp_info\<lparr> di_owner := new_owner \<rparr>) \<rparr>))))))"

definition unregister ::
  "('acc, 'sc) Config \<Rightarrow> 'acc RawOrigin \<Rightarrow> 'sc \<Rightarrow> ('acc, 'sc, 'x) Storage \<Rightarrow> ('acc, 'sc, 'x) dispatch_result" where
  "unregister C origin smart_contract s =
     and_then (ensure_pallet_enabled s) (\<lambda>_.
     and_then (ensure_origin (cf_is_unregister_origin C) origin) (\<lambda>_.
     and_then (ok_or (Module ContractNotFound) (sm_get (pl_integrated_dapps s) smart_contract)) (\<lambda>dapp_info.
     let s = s\<lparr> pl_contract_stake := sm_remove (pl_contract_stake s) (di_id dapp_info),
                pl_integrated_dapps := sm_remove (pl_integrated_dapps s) smart_contract \<rparr>;
         current_era = ps_era (pl_active_protocol_state s)
     in Ok (deposit_event (DAppUnregistered smart_contract current_era) s))))"

section \<open>Locking and unlocking\<close>

definition lock ::
  "('acc, 'sc) Config \<Rightarrow> ('acc, 'x) Runtime \<Rightarrow> 'acc RawOrigin \<Rightarrow> Balance \<Rightarrow> ('acc, 'sc, 'x) Storage \<Rightarrow> ('acc, 'sc, 'x) dispatch_result" where
  "lock C R origin amount s =
     and_then (ensure_pallet_enabled s) (\<lambda>_.
     and_then (ensure_signed origin) (\<lambda>account.
     let l = ledger_of account s;
         is_new_account = AccountLedger_is_empty l in
     and_then (if is_new_account
               then ensure (rt_allowed_to_stake R (pl_env s) account) (Module AccountNotAvailableForDappStaking)
               else Ok ()) (\<lambda>_.
     let available_balance = sat_sub (rt_total_balance R (pl_env s) account) (AccountLedger_total_locked_amount l);
         amount_to_lock = min available_balance amount in
     and_then (ensure (amount_to_lock \<noteq> 0) (Module ZeroAmount)) (\<lambda>_.
     let l = AccountLedger_add_lock_amount amount_to_lock l in
     and_then (ensure (AccountLedger_active_locked_amount l \<ge> cf_minimum_locked_amount C) (Module LockedAmountBelowThreshold)) (\<lambda>_.
     and_then (update_ledger R account l s) (\<lambda>s.
     Ok (deposit_event (Locked account amount_to_lock)
       (s\<lparr> pl_current_era_info := EraInfo_add_locked amount_to_lock (pl_current_era_info s) \<rparr>))))))))"

text \<open>The amount \<open>unlock\<close> takes: at most what is not staked, and everything when less than the minimum
  would stay locked.\<close>

definition amount_to_unlock :: "('acc, 'sc) Config \<Rightarrow> PeriodNumber \<Rightarrow> Balance \<Rightarrow> AccountLedger \<Rightarrow> (Balance, DispatchError) result" where
  "amount_to_unlock C period amount l =
     (let available_for_unlocking = AccountLedger_unlockable_amount l period;
          amount_to_unlock = min available_for_unlocking amount;
          remaining_amount = sat_sub (AccountLedger_active_locked_amount l) amount_to_unlock
      in if remaining_amount < cf_minimum_locked_amount C
         then and_then (ensure (AccountLedger_staked_amount l period = 0) (Module RemainingStakePreventsFullUnlock))
                (\<lambda>_. Ok (AccountLedger_active_locked_amount l))
         else Ok amount_to_unlock)"

definition unlock ::
  "('acc, 'sc) Config \<Rightarrow> ('acc, 'x) Runtime \<Rightarrow> 'acc RawOrigin \<Rightarrow> Balance \<Rightarrow> ('acc, 'sc, 'x) Storage \<Rightarrow> ('acc, 'sc, 'x) dispatch_result" where
  "unlock C R origin amount s =
     and_then (ensure_pallet_enabled s) (\<lambda>_.
     and_then (ensure_signed origin) (\<lambda>account.
     let state = pl_active_protocol_state s;
         l = ledger_of account s in
     and_then (amount_to_unlock C (pi_number (ps_period_info state)) amount l) (\<lambda>amount_to_unlock.
     and_then (ensure (amount_to_unlock \<noteq> 0) (Module ZeroAmount)) (\<lambda>_.
     let l = AccountLedger_subtract_lock_amount amount_to_unlock l;
         unlock_block = u32_add (pl_block_number s) (unlocking_period C) in
     and_then (map_err (\<lambda>_. Module TooManyUnlockingChunks)
                (AccountLedger_add_unlocking_chunk (cf_max_unlocking_chunks C) amount_to_unlock unlock_block l)) (\<lambda>l.
     and_then (update_ledger R account l s) (\<lambda>s.
     Ok (deposit_event (Unlocking account amount_to_unlock)
       (s\<lparr> pl_current_era_info := EraInfo_unlocking_started amount_to_unlock (pl_current_era_info s) \<rparr>))))))))"

text \<open>\<open>StakerInfo::clear_prefix\<close>: the keys of one account, at most \<open>limit\<close> of them.\<close>

definition clear_staker_info ::
  "('acc, 'sc) Config \<Rightarrow> 'acc \<Rightarrow> nat \<Rightarrow> ('acc, 'sc, 'x) Storage \<Rightarrow> ('acc, 'sc, 'x) Storage" where
  "clear_staker_info C account limit s =
     (let keys = filter (\<lambda>k. fst k = account) (map fst (sm_iter (pl_staker_info s)))
      in s\<lparr> pl_staker_info := fold (\<lambda>k m. sm_remove m k) (cf_clear_prefix C limit keys) (pl_staker_info s) \<rparr>)"

definition internal_claim_unlocked ::
  "('acc, 'sc) Config \<Rightarrow> ('acc, 'x) Runtime \<Rightarrow> 'acc \<Rightarrow> ('acc, 'sc, 'x) Storage \<Rightarrow> ('acc, 'sc, 'x) dispatch_result" where
  "internal_claim_unlocked C R account s =
     (let (amount, l) = AccountLedger_claim_unlocked (pl_block_number s) (ledger_of account s) in
      and_then (ensure (amount > 0) (Module NoUnlockedChunksToClaim)) (\<lambda>_.
      let s = (if AccountLedger_is_empty l then clear_staker_info C account (al_contract_stake_count l) s else s) in
      and_then (update_ledger R account l s) (\<lambda>s.
      Ok (deposit_event (ClaimedUnlocked account amount)
        (s\<lparr> pl_current_era_info := EraInfo_unlocking_removed amount (pl_current_era_info s) \<rparr>)))))"

definition claim_unlocked ::
  "('acc, 'sc) Config \<Rightarrow> ('acc, 'x) Runtime \<Rightarrow> 'acc RawOrigin \<Rightarrow> ('acc, 'sc, 'x) Storage \<Rightarrow> ('acc, 'sc, 'x) dispatch_result" where
  "claim_unlocked C R origin s =
     and_then (ensure_pallet_enabled s) (\<lambda>_.
     and_then (ensure_signed origin) (\<lambda>account. internal_claim_unlocked C R account s))"

definition relock_unlocking ::
  "('acc, 'sc) Config \<Rightarrow> ('acc, 'x) Runtime \<Rightarrow> 'acc RawOrigin \<Rightarrow> ('acc, 'sc, 'x) Storage \<Rightarrow> ('acc, 'sc, 'x) dispatch_result" where
  "relock_unlocking C R origin s =
     and_then (ensure_pallet_enabled s) (\<lambda>_.
     and_then (ensure_signed origin) (\<lambda>account.
     let l = ledger_of account s in
     and_then (ensure (al_unlocking l \<noteq> []) (Module NoUnlockingChunks)) (\<lambda>_.
     let (amount, l) = AccountLedger_consume_unlocking_chunks l;
         l = AccountLedger_add_lock_amount amount l in
     and_then (ensure (AccountLedger_active_locked_amount l \<ge> cf_minimum_locked_amount C) (Module LockedAmountBelowThreshold)) (\<lambda>_.
     and_then (update_ledger R account l s) (\<lambda>s.
     Ok (deposit_event (Relock account amount)
       (s\<lparr> pl_current_era_info := EraInfo_unlocking_removed amount (EraInfo_add_locked amount (pl_current_era_info s)) \<rparr>)))))))"

text \<open>The two calls kept for legacy wallets.\<close>

definition unbond_and_unstake ::
  "('acc, 'sc) Config \<Rightarrow> ('acc, 'x) Runtime \<Rightarrow> 'acc RawOrigin \<Rightarrow> 'sc \<Rightarrow> Balance \<Rightarrow> ('acc, 'sc, 'x) Storage \<Rightarrow> ('acc, 'sc, 'x) dispatch_result" where
  "unbond_and_unstake C R origin contract_id value s = unlock C R origin value s"

definition withdraw_unbonded ::
  "('acc, 'sc) Config \<Rightarrow> ('acc, 'x) Runtime \<Rightarrow> 'acc RawOrigin \<Rightarrow> ('acc, 'sc, 'x) Storage \<Rightarrow> ('acc, 'sc, 'x) dispatch_result" where
  "withdraw_unbonded C R origin s = claim_unlocked C R origin s"

section \<open>Staking and unstaking\<close>

definition stake_error :: "AccountLedgerError \<Rightarrow> DispatchError" where
  "stake_error err = (case err of
       InvalidPeriod \<Rightarrow> Module UnclaimedRewards
     | InvalidEra \<Rightarrow> Module UnclaimedRewards
     | AccountLedgerError.UnavailableStakeFunds \<Rightarrow> Module Error.UnavailableStakeFunds
     | _ \<Rightarrow> Module InternalStakeError)"

text \<open>The staking entry a new stake is added to, and whether it is a new one.\<close>

definition staking_info_for_stake ::
  "ProtocolState \<Rightarrow> PeriodNumber \<Rightarrow> SingularStakingInfo option \<Rightarrow> (SingularStakingInfo \<times> bool, DispatchError) result" where
  "staking_info_for_stake protocol_state threshold_period entry =
     (let fresh = Ok (SingularStakingInfo_new (ProtocolState_period_number protocol_state) (ProtocolState_subperiod protocol_state), True)
      in case entry of
           Some staking_info \<Rightarrow>
             if SingularStakingInfo_period_number staking_info = ProtocolState_period_number protocol_state
             then Ok (staking_info, False)
             else if SingularStakingInfo_period_number staking_info \<ge> threshold_period \<and> SingularStakingInfo_is_loyal staking_info
             then Err (Module UnclaimedRewards)
             else fresh
         | None \<Rightarrow> fresh)"

definition stake ::
  "('acc, 'sc) Config \<Rightarrow> ('acc, 'x) Runtime \<Rightarrow> 'acc RawOrigin \<Rightarrow> 'sc \<Rightarrow> Balance \<Rightarrow> ('acc, 'sc, 'x) Storage \<Rightarrow> ('acc, 'sc, 'x) dispatch_result" where
  "stake C R origin smart_contract amount s =
     and_then (ensure_pallet_enabled s) (\<lambda>_.
     and_then (ensure_signed origin) (\<lambda>account.
     and_then (ensure (amount > 0) (Module ZeroAmount)) (\<lambda>_.
     and_then (ok_or (Module ContractNotFound) (sm_get (pl_integrated_dapps s) smart_contract)) (\<lambda>dapp_info.
     let protocol_state = pl_active_protocol_state s;
         current_era = ps_era protocol_state in
     and_then (ensure (\<not> PeriodInfo_is_next_period (ps_period_info protocol_state) (u32_add current_era 1)) (Module PeriodEndsInNextEra)) (\<lambda>_.
     let threshold_period = oldest_claimable_period C (ProtocolState_period_number protocol_state);
         l = snd (AccountLedger_maybe_cleanup_expired threshold_period (ledger_of account s)) in
     and_then (map_err stake_error (AccountLedger_add_stake_amount amount current_era (ps_period_info protocol_state) l)) (\<lambda>l.
     and_then (staking_info_for_stake protocol_state threshold_period (sm_get (pl_staker_info s) (account, smart_contract))) (\<lambda>(info, is_new_entry).
     let info = SingularStakingInfo_stake amount current_era (ProtocolState_subperiod protocol_state) info in
     and_then (ensure (SingularStakingInfo_total_staked_amount info \<ge> cf_minimum_stake_amount C) (Module InsufficientStakeAmount)) (\<lambda>_.
     let l = (if is_new_entry then l\<lparr> al_contract_stake_count := u32_add (al_contract_stake_count l) 1 \<rparr> else l) in
     and_then (if is_new_entry
               then ensure (al_contract_stake_count l \<le> cf_max_number_of_staked_contracts C) (Module TooManyStakedContracts)
               else Ok ()) (\<lambda>_.
     let contract_stake_info = ContractStakeAmount_stake amount (ps_period_info protocol_state) current_era (contract_stake_of (di_id dapp_info) s);
         s = s\<lparr> pl_current_era_info := EraInfo_add_stake_amount amount (ProtocolState_subperiod protocol_state) (pl_current_era_info s) \<rparr> in
     and_then (update_ledger R account l s) (\<lambda>s.
     Ok (deposit_event (Stake account smart_contract amount)
       (s\<lparr> pl_staker_info := sm_put (pl_staker_info s) (account, smart_contract) info,
           pl_contract_stake := sm_put (pl_contract_stake s) (di_id dapp_info) contract_stake_info \<rparr>))))))))))))"

definition unstake_error :: "AccountLedgerError \<Rightarrow> DispatchError" where
  "unstake_error err = (case err of
       InvalidPeriod \<Rightarrow> Module UnclaimedRewards
     | InvalidEra \<Rightarrow> Module UnclaimedRewards
     | UnstakeAmountLargerThanStake \<Rightarrow> Module UnstakeAmountTooLarge
     | _ \<Rightarrow> Module InternalUnstakeError)"

text \<open>Step 1: the reduced entry of the staker, what is really unstaked (everything when the rest would fall below
  the minimum) and the pairs to take from the contract.\<close>

definition unstake_staking_info ::
  "('acc, 'sc) Config \<Rightarrow> ProtocolState \<Rightarrow> Balance \<Rightarrow> SingularStakingInfo option \<Rightarrow>
     (SingularStakingInfo \<times> Balance \<times> (EraNumber \<times> Balance) list, DispatchError) result" where
  "unstake_staking_info C protocol_state amount maybe_info =
     and_then (ok_or (Module NoStakingInfo) maybe_info) (\<lambda>staking_info.
     and_then (ensure (SingularStakingInfo_period_number staking_info = ProtocolState_period_number protocol_state) (Module UnstakeFromPastPeriod)) (\<lambda>_.
     and_then (ensure (SingularStakingInfo_total_staked_amount staking_info \<ge> amount) (Module UnstakeAmountTooLarge)) (\<lambda>_.
     let amount = (if sat_sub (SingularStakingInfo_total_staked_amount staking_info) amount < cf_minimum_stake_amount C
                   then SingularStakingInfo_total_staked_amount staking_info else amount);
         (staking_info, era_and_amount_pairs) = SingularStakingInfo_unstake amount (ps_era protocol_state) (ProtocolState_subperiod protocol_state) staking_info
     in Ok (staking_info, amount, era_and_amount_pairs))))"

definition unstake ::
  "('acc, 'sc) Config \<Rightarrow> ('acc, 'x) Runtime \<Rightarrow> 'acc RawOrigin \<Rightarrow> 'sc \<Rightarrow> Balance \<Rightarrow> ('acc, 'sc, 'x) Storage \<Rightarrow> ('acc, 'sc, 'x) dispatch_result" where
  "unstake C R origin smart_contract amount s =
     and_then (ensure_pallet_enabled s) (\<lambda>_.
     and_then (ensure_signed origin) (\<lambda>account.
     and_then (ensure (amount > 0) (Module ZeroAmount)) (\<lambda>_.
     and_then (ok_or (Module ContractNotFound) (sm_get (pl_integrated_dapps s) smart_contract)) (\<lambda>dapp_info.
     let protocol_state = pl_active_protocol_state s;
         current_era = ps_era protocol_state;
         l = ledger_of account s in
     and_then (unstake_staking_info C protocol_state amount (sm_get (pl_staker_info s) (account, smart_contract))) (\<lambda>(new_staking_info, amount, era_and_amount_pairs).
     and_then (map_err unstake_error (AccountLedger_unstake_amount amount current_era (ps_period_info protocol_state) l)) (\<lambda>l.
     let contract_stake_info = ContractStakeAmount_unstake era_and_amount_pairs (ps_period_info protocol_state) current_era
           (contract_stake_of (di_id dapp_info) s);
         s = s\<lparr> pl_current_era_info := EraInfo_unstake_amount amount (pl_current_era_info s),
                pl_contract_stake := sm_put (pl_contract_stake s) (di_id dapp_info) contract_stake_info \<rparr>;
         l = (if SingularStakingInfo_is_empty new_staking_info
              then l\<lparr> al_contract_stake_count := sat_sub (al_contract_stake_count l) 1 \<rparr> else l);
         s = s\<lparr> pl_staker_info := (if SingularStakingInfo_is_empty new_staking_info
              then sm_remove (pl_staker_info s) (account, smart_contract)
              else sm_put (pl_staker_info s) (account, smart_contract) new_staking_info) \<rparr> in
     and_then (update_ledger R account l s) (\<lambda>s.
     Ok (deposit_event (Unstake account smart_contract amount) s))))))))"

definition unregistered_error :: "AccountLedgerError \<Rightarrow> DispatchError" where
  "unregistered_error err = (case err of
       InvalidPeriod \<Rightarrow> Module UnclaimedRewards
     | InvalidEra \<Rightarrow> Module UnclaimedRewards
     | _ \<Rightarrow> Module InternalUnstakeError)"

definition unstake_from_unregistered ::
  "('acc, 'x) Runtime \<Rightarrow> 'acc RawOrigin \<Rightarrow> 'sc \<Rightarrow> ('acc, 'sc, 'x) Storage \<Rightarrow> ('acc, 'sc, 'x) dispatch_result" where
  "unstake_from_unregistered R origin smart_contract s =
     and_then (ensure_pallet_enabled s) (\<lambda>_.
     and_then (ensure_signed origin) (\<lambda>account.
     and_then (ensure (\<not> sm_contains (pl_integrated_dapps s) smart_contract) (Module ContractStillActive)) (\<lambda>_.
     let protocol_state = pl_active_protocol_state s;
         current_era = ps_era protocol_state in
     and_then (ok_or (Module NoStakingInfo) (sm_get (pl_staker_info s) (account, smart_contract))) (\<lambda>info.
     and_then (ensure (SingularStakingInfo_period_number info = ProtocolState_period_number protocol_state) (Module UnstakeFromPastPeriod)) (\<lambda>_.
     let amount = SingularStakingInfo_total_staked_amount info in
     and_then (map_err unregistered_error
                (AccountLedger_unstake_amount amount current_era (ps_period_info protocol_state) (ledger_of account s))) (\<lambda>l.
     let s = s\<lparr> pl_current_era_info := EraInfo_unstake_amount amount (pl_current_era_info s) \<rparr> in
     and_then (update_ledger R account l s) (\<lambda>s.
     Ok (deposit_event (UnstakeFromUnregistered account smart_contract amount)
       (s\<lparr> pl_staker_info := sm_remove (pl_staker_info s) (account, smart_contract) \<rparr>)))))))))"

section \<open>Claiming rewards\<close>

text \<open>The loop over the claimed eras: the rewards and their saturating sum, or an error when an era has no
  entry in the span. The pairs come from the iterator; a claim whose iterator never stops has the value
  \<open>None\<close>.\<close>

fun staker_rewards_loop ::
  "Arith \<Rightarrow> EraRewardSpan \<Rightarrow> (EraNumber \<times> Balance) list \<Rightarrow> (EraNumber \<times> Balance) list \<Rightarrow> Balance \<Rightarrow>
     ((EraNumber \<times> Balance) list \<times> Balance, DispatchError) result" where
  "staker_rewards_loop A era_rewards [] rewards reward_sum = Ok (rewards, reward_sum)"
| "staker_rewards_loop A era_rewards ((era, amount) # pairs) rewards reward_sum =
     and_then (ok_or (Module InternalClaimStakerError) (EraRewardSpan_get era_rewards era)) (\<lambda>era_reward.
       if amount = 0 \<or> er_staked era_reward = 0 then staker_rewards_loop A era_rewards pairs rewards reward_sum
       else
         let staker_reward = pt_mul (ar_perbill A) (pt_from_rational (ar_perbill A) amount (er_staked era_reward)) (er_staker_reward_pool era_reward)
         in staker_rewards_loop A era_rewards pairs (rewards @ [(era, staker_reward)]) (u128_add reward_sum staker_reward))"

definition claim_error :: "AccountLedgerError \<Rightarrow> DispatchError" where
  "claim_error err = (case err of NothingToClaim \<Rightarrow> Module NoClaimableRewards | _ \<Rightarrow> Module InternalClaimStakerError)"

text \<open>The last era of the period the rewards of which can be claimed, and the end of the period when it is over.\<close>

definition claim_period ::
  "PeriodNumber \<Rightarrow> ('acc, 'sc, 'x) Storage \<Rightarrow> (EraNumber \<times> EraNumber option, DispatchError) result" where
  "claim_period staked_period s =
     (let protocol_state = pl_active_protocol_state s
      in if staked_period = ProtocolState_period_number protocol_state
         then Ok (sat_sub (ps_era protocol_state) 1, None)
         else ok_or (Module InternalClaimStakerError)
           (map_option (\<lambda>info. (pe_final_era info, Some (pe_final_era info))) (sm_get (pl_period_end s) staked_period)))"

definition internal_claim_staker_rewards_for ::
  "('acc, 'sc) Config \<Rightarrow> ('acc, 'x) Runtime \<Rightarrow> 'acc \<Rightarrow> ('acc, 'sc, 'x) Storage \<Rightarrow> ('acc, 'sc, 'x) dispatch_result option" where
  "internal_claim_staker_rewards_for C R account s =
     (let l = ledger_of account s;
          protocol_state = pl_active_protocol_state s;
          claim = and_then (ok_or (Module NoClaimableRewards) (AccountLedger_staked_period l)) (\<lambda>staked_period.
            and_then (ensure (staked_period \<ge> oldest_claimable_period C (ProtocolState_period_number protocol_state)) (Module RewardExpired)) (\<lambda>_.
            and_then (ok_or (Module InternalClaimStakerError) (AccountLedger_earliest_staked_era l)) (\<lambda>earliest_staked_era.
            and_then (ok_or (Module NoClaimableRewards) (sm_get (pl_era_rewards s) (era_reward_span_index C earliest_staked_era))) (\<lambda>era_rewards.
            and_then (claim_period staked_period s) (\<lambda>(last_period_era, period_end).
            let last_claim_era = min (sp_last_era era_rewards) last_period_era in
            and_then (map_err claim_error (AccountLedger_claim_up_to_era last_claim_era period_end l)) (\<lambda>(rewards_iter, l).
            Ok (era_rewards, rewards_iter, l)))))))
      in case claim of
           Err e \<Rightarrow> Some (Err e)
         | Ok (era_rewards, rewards_iter, l) \<Rightarrow>
             map_option (\<lambda>pairs.
               and_then (staker_rewards_loop (cf_arith C) era_rewards pairs [] 0) (\<lambda>(rewards, reward_sum).
               and_then (map_err (\<lambda>_. Module RewardPayoutFailed) (rt_payout_reward R account reward_sum (pl_env s))) (\<lambda>x.
               and_then (update_ledger R account l (s\<lparr> pl_env := x \<rparr>)) (\<lambda>s.
               Ok (fold (\<lambda>(era, reward). deposit_event (Reward account era reward)) rewards s)))))
               (EraStakePairIter_collect rewards_iter))"

definition claim_staker_rewards ::
  "('acc, 'sc) Config \<Rightarrow> ('acc, 'x) Runtime \<Rightarrow> 'acc RawOrigin \<Rightarrow> ('acc, 'sc, 'x) Storage \<Rightarrow> ('acc, 'sc, 'x) dispatch_result option" where
  "claim_staker_rewards C R origin s =
     (case and_then (ensure_pallet_enabled s) (\<lambda>_. ensure_signed origin) of
        Err e \<Rightarrow> Some (Err e)
      | Ok account \<Rightarrow> internal_claim_staker_rewards_for C R account s)"

definition claim_staker_rewards_for ::
  "('acc, 'sc) Config \<Rightarrow> ('acc, 'x) Runtime \<Rightarrow> 'acc RawOrigin \<Rightarrow> 'acc \<Rightarrow> ('acc, 'sc, 'x) Storage \<Rightarrow> ('acc, 'sc, 'x) dispatch_result option" where
  "claim_staker_rewards_for C R origin account s =
     (case and_then (ensure_pallet_enabled s) (\<lambda>_. ensure_signed origin) of
        Err e \<Rightarrow> Some (Err e)
      | Ok _ \<Rightarrow> internal_claim_staker_rewards_for C R account s)"

text \<open>\<open>Ledger::mutate\<close> of a map with a default writes the entry back even when there was none.\<close>

definition internal_claim_bonus_reward_for ::
  "('acc, 'sc) Config \<Rightarrow> ('acc, 'x) Runtime \<Rightarrow> 'acc \<Rightarrow> 'sc \<Rightarrow> ('acc, 'sc, 'x) Storage \<Rightarrow> ('acc, 'sc, 'x) dispatch_result" where
  "internal_claim_bonus_reward_for C R account smart_contract s =
     and_then (ok_or (Module NoClaimableRewards) (sm_get (pl_staker_info s) (account, smart_contract))) (\<lambda>staker_info.
     let protocol_state = pl_active_protocol_state s;
         staked_period = SingularStakingInfo_period_number staker_info in
     and_then (ensure (staked_period < ProtocolState_period_number protocol_state) (Module NoClaimableRewards)) (\<lambda>_.
     and_then (ensure (SingularStakingInfo_is_loyal staker_info) (Module NotEligibleForBonusReward)) (\<lambda>_.
     and_then (ensure (SingularStakingInfo_period_number staker_info \<ge> oldest_claimable_period C (ProtocolState_period_number protocol_state))
                (Module RewardExpired)) (\<lambda>_.
     and_then (ok_or (Module InternalClaimBonusError) (sm_get (pl_period_end s) staked_period)) (\<lambda>period_end_info.
     and_then (ensure (pe_total_vp_stake period_end_info \<noteq> 0) (Module InternalClaimBonusError)) (\<lambda>_.
     let eligible_amount = SingularStakingInfo_staked_amount staker_info Voting;
         bonus_reward = pt_mul (ar_perbill (cf_arith C))
           (pt_from_rational (ar_perbill (cf_arith C)) eligible_amount (pe_total_vp_stake period_end_info))
           (pe_bonus_reward_pool period_end_info) in
     and_then (map_err (\<lambda>_. Module RewardPayoutFailed) (rt_payout_reward R account bonus_reward (pl_env s))) (\<lambda>x.
     let l = ledger_of account s in
     Ok (deposit_event (BonusReward account smart_contract staked_period bonus_reward)
       (s\<lparr> pl_env := x,
           pl_staker_info := sm_remove (pl_staker_info s) (account, smart_contract),
           pl_ledger := sm_put (pl_ledger s) account
             (l\<lparr> al_contract_stake_count := sat_sub (al_contract_stake_count l) 1 \<rparr>) \<rparr>)))))))))"

definition claim_bonus_reward ::
  "('acc, 'sc) Config \<Rightarrow> ('acc, 'x) Runtime \<Rightarrow> 'acc RawOrigin \<Rightarrow> 'sc \<Rightarrow> ('acc, 'sc, 'x) Storage \<Rightarrow> ('acc, 'sc, 'x) dispatch_result" where
  "claim_bonus_reward C R origin smart_contract s =
     and_then (ensure_pallet_enabled s) (\<lambda>_.
     and_then (ensure_signed origin) (\<lambda>account. internal_claim_bonus_reward_for C R account smart_contract s))"

definition claim_bonus_reward_for ::
  "('acc, 'sc) Config \<Rightarrow> ('acc, 'x) Runtime \<Rightarrow> 'acc RawOrigin \<Rightarrow> 'acc \<Rightarrow> 'sc \<Rightarrow> ('acc, 'sc, 'x) Storage \<Rightarrow> ('acc, 'sc, 'x) dispatch_result" where
  "claim_bonus_reward_for C R origin account smart_contract s =
     and_then (ensure_pallet_enabled s) (\<lambda>_.
     and_then (ensure_signed origin) (\<lambda>_. internal_claim_bonus_reward_for C R account smart_contract s))"

definition dapp_claim_error :: "DAppTierError \<Rightarrow> DispatchError" where
  "dapp_claim_error err = (case err of NoDAppInTiers \<Rightarrow> Module NoClaimableRewards | _ \<Rightarrow> Module InternalClaimDAppError)"

definition claim_dapp_reward ::
  "('acc, 'sc) Config \<Rightarrow> ('acc, 'x) Runtime \<Rightarrow> 'acc RawOrigin \<Rightarrow> 'sc \<Rightarrow> EraNumber \<Rightarrow> ('acc, 'sc, 'x) Storage \<Rightarrow> ('acc, 'sc, 'x) dispatch_result" where
  "claim_dapp_reward C R origin smart_contract era s =
     and_then (ensure_pallet_enabled s) (\<lambda>_.
     and_then (ensure_signed origin) (\<lambda>_.
     and_then (ok_or (Module ContractNotFound) (sm_get (pl_integrated_dapps s) smart_contract)) (\<lambda>dapp_info.
     let protocol_state = pl_active_protocol_state s in
     and_then (ensure (era < ps_era protocol_state) (Module InvalidClaimEra)) (\<lambda>_.
     and_then (ok_or (Module NoDAppTierInfo) (sm_get (pl_dapp_tiers s) era)) (\<lambda>tiers.
     and_then (ensure (dt_period tiers \<ge> oldest_claimable_period C (ProtocolState_period_number protocol_state)) (Module RewardExpired)) (\<lambda>_.
     and_then (map_err dapp_claim_error (DAppTierRewards_try_claim (di_id dapp_info) tiers)) (\<lambda>((amount, ranked_tier), tiers).
     let (tier_id, rank) = RankedTier_deconstruct ranked_tier;
         beneficiary = DAppInfo_reward_beneficiary dapp_info in
     and_then (map_err (\<lambda>_. Module RewardPayoutFailed) (rt_payout_reward R beneficiary amount (pl_env s))) (\<lambda>x.
     Ok (deposit_event (DAppReward beneficiary smart_contract tier_id rank era amount)
       (s\<lparr> pl_env := x, pl_dapp_tiers := sm_put (pl_dapp_tiers s) era tiers \<rparr>))))))))))"

section \<open>Cleanup and forcing\<close>

definition expired_entry :: "PeriodNumber \<Rightarrow> PeriodNumber \<Rightarrow> SingularStakingInfo \<Rightarrow> bool" where
  "expired_entry current_period threshold_period info \<longleftrightarrow>
     SingularStakingInfo_period_number info < current_period \<and> \<not> SingularStakingInfo_is_loyal info
     \<or> SingularStakingInfo_period_number info < threshold_period"

definition cleanup_expired_entries ::
  "('acc, 'sc) Config \<Rightarrow> ('acc, 'x) Runtime \<Rightarrow> 'acc RawOrigin \<Rightarrow> ('acc, 'sc, 'x) Storage \<Rightarrow> ('acc, 'sc, 'x) dispatch_result" where
  "cleanup_expired_entries C R origin s =
     and_then (ensure_pallet_enabled s) (\<lambda>_.
     and_then (ensure_signed origin) (\<lambda>account.
     let current_period = ProtocolState_period_number (pl_active_protocol_state s);
         threshold_period = oldest_claimable_period C current_period;
         to_be_deleted = map fst (filter (\<lambda>e. fst (fst e) = account \<and> expired_entry current_period threshold_period (snd e))
           (sm_iter (pl_staker_info s)));
         entries_to_delete = length to_be_deleted in
     and_then (ensure (entries_to_delete \<noteq> 0) (Module NoExpiredEntries)) (\<lambda>_.
     let s = s\<lparr> pl_staker_info := fold (\<lambda>k m. sm_remove m k) to_be_deleted (pl_staker_info s) \<rparr>;
         l = ledger_of account s;
         l = l\<lparr> al_contract_stake_count := sat_sub (al_contract_stake_count l) (saturated_into u32_max entries_to_delete) \<rparr>;
         l = snd (AccountLedger_maybe_cleanup_expired threshold_period l) in
     and_then (update_ledger R account l s) (\<lambda>s.
     Ok (deposit_event (ExpiredEntriesRemoved account (saturated_into u16_max entries_to_delete)) s)))))"

definition force ::
  "('acc, 'x) Runtime \<Rightarrow> 'acc RawOrigin \<Rightarrow> ForcingType \<Rightarrow> ('acc, 'sc, 'x) Storage \<Rightarrow> ('acc, 'sc, 'x) dispatch_result" where
  "force R origin forcing_type s =
     and_then (ensure_pallet_enabled s) (\<lambda>_.
     and_then (ensure_root origin) (\<lambda>_.
     and_then (ensure (\<not> pl_safeguard s) (Module ForceNotAllowed)) (\<lambda>_.
     let state = (pl_active_protocol_state s)\<lparr> ps_next_era_start := u32_add (pl_block_number s) 1 \<rparr>;
         state = (case forcing_type of
             ForceEra \<Rightarrow> state
           | ForceSubperiod \<Rightarrow> state\<lparr> ps_period_info := (ps_period_info state)
               \<lparr> pi_next_subperiod_start_era := u32_add (ps_era state) 1 \<rparr> \<rparr>);
         s = notify_block_before_new_era R state s in
     Ok (deposit_event (Forced forcing_type) (s\<lparr> pl_active_protocol_state := state \<rparr>)))))"

end
