(* ===== verification/TierAssignment.thy ===== *)
theory TierAssignment
  imports Pallet
begin

text \<open>
  The assignment of dApps to tiers and the rewards of each tier
  (\<open>get_dapp_tier_assignment_and_rewards\<close> in \<open>pallets/dapp-staking/src/lib.rs\<close>). The loop over the tiers is
  shown to cut the sorted list of stakes into consecutive blocks, one for each tier (\<open>tier_blocks\<close>); what the
  assignment guarantees and the bound on the rewards are read off the blocks.
\<close>

section \<open>The assignment\<close>

text \<open>Step 1: the dApps with stake in the era.\<close>

definition staked_dapps ::
  "EraNumber \<Rightarrow> PeriodNumber \<Rightarrow> (DAppId, ContractStakeAmount) smap \<Rightarrow> (DAppId \<times> Balance) list" where
  "staked_dapps era period m =
     concat (map (\<lambda>(dapp_id, stake_amount).
       case ContractStakeAmount_get stake_amount era period of
         Some stake_amount \<Rightarrow> if StakeAmount_total stake_amount \<noteq> 0 then [(dapp_id, StakeAmount_total stake_amount)] else []
       | None \<Rightarrow> []) (sm_iter m))"

text \<open>Step 3: the reward of one slot of each tier.\<close>

definition tier_rewards_of :: "Arith \<Rightarrow> TiersConfiguration \<Rightarrow> Balance \<Rightarrow> Balance list" where
  "tier_rewards_of A tier_config dapp_reward_pool =
     map (\<lambda>(percent, slots). if slots = 0 then 0 else pt_mul (ar_permill A) percent dapp_reward_pool div slots)
       (zip (tc_reward_portion tier_config) (tc_slots_per_tier tier_config))"

text \<open>Step 4: the dApps that enter one tier, their ranks, and the reward of one rank.\<close>

definition tier_candidates :: "nat \<Rightarrow> Balance \<Rightarrow> nat \<Rightarrow> (DAppId \<times> Balance) list \<Rightarrow> (DAppId \<times> Balance) list" where
  "tier_candidates tier_capacity lower_bound assigned dapp_stakes =
     take tier_capacity (takeWhile (\<lambda>(_, amount). amount \<ge> lower_bound) (drop assigned dapp_stakes))"

definition ranked_tier_of :: "bool \<Rightarrow> nat \<Rightarrow> Balance \<Rightarrow> Balance \<Rightarrow> Balance \<Rightarrow> RankedTier" where
  "ranked_tier_of ranking_enabled tier_id lower_bound upper_bound staked_amount =
     (let rank = (if ranking_enabled then find_rank lower_bound upper_bound staked_amount else 0)
      in RankedTier_new_saturated (of_nat tier_id) rank)"

definition fill_tier :: "bool \<Rightarrow> nat \<Rightarrow> Balance \<Rightarrow> Balance \<Rightarrow> (DAppId \<times> Balance) list \<Rightarrow> (DAppId, RankedTier) smap" where
  "fill_tier ranking_enabled tier_id lower_bound upper_bound candidates =
     fold (\<lambda>(dapp_id, staked_amount) filled_slots.
       sm_put filled_slots dapp_id (ranked_tier_of ranking_enabled tier_id lower_bound upper_bound staked_amount)) candidates []"

definition reward_per_rank_of :: "nat \<Rightarrow> Balance \<Rightarrow> (DAppId, RankedTier) smap \<Rightarrow> Balance" where
  "reward_per_rank_of tier_capacity tier_reward filled_slots =
     (let ranks_sum = foldl (\<lambda>accum x. u32_add accum (unat (RankedTier_rank (snd x)))) 0 (sm_iter filled_slots)
      in if ranks_sum = 0 then 0
         else
           let empty_slots = sat_sub tier_capacity (length filled_slots mod 2 ^ 16);
               remaining_reward = u128_mul tier_reward empty_slots;
               reward_per_rank = tier_reward div unat MAX_RANK;
               expected_reward_for_ranks = u128_mul reward_per_rank ranks_sum;
               reward_for_ranks = min expected_reward_for_ranks remaining_reward
           in reward_for_ranks div ranks_sum)"

definition append_map :: "('k, 'v) smap \<Rightarrow> ('k, 'v) smap \<Rightarrow> ('k, 'v) smap" where
  "append_map m n = fold (\<lambda>(k, v) m. sm_put m k v) (sm_iter n) m"

fun assign_tiers ::
  "bool \<Rightarrow> Balance list \<Rightarrow> (DAppId \<times> Balance) list \<Rightarrow> nat \<Rightarrow> (nat \<times> Balance) list \<Rightarrow> Balance \<Rightarrow>
     (DAppId, RankedTier) smap \<Rightarrow> Balance list \<Rightarrow> (DAppId, RankedTier) smap \<times> Balance list" where
  "assign_tiers ranking_enabled tier_rewards dapp_stakes tier_id [] upper_bound dapp_tiers rank_rewards = (dapp_tiers, rank_rewards)"
| "assign_tiers ranking_enabled tier_rewards dapp_stakes tier_id ((tier_capacity, lower_bound) # tiers) upper_bound dapp_tiers rank_rewards =
     (let candidates = tier_candidates tier_capacity lower_bound (length dapp_tiers) dapp_stakes;
          filled_slots = fill_tier ranking_enabled tier_id lower_bound upper_bound candidates;
          reward_per_rank = reward_per_rank_of tier_capacity (nth_or_zero tier_rewards tier_id) filled_slots
      in assign_tiers ranking_enabled tier_rewards dapp_stakes (tier_id + 1) tiers lower_bound
           (append_map dapp_tiers filled_slots) (rank_rewards @ [reward_per_rank]))"

definition get_dapp_tier_assignment_and_rewards ::
  "('acc, 'sc) Config \<Rightarrow> EraNumber \<Rightarrow> PeriodNumber \<Rightarrow> Balance \<Rightarrow> ('acc, 'sc, 'x) Storage \<Rightarrow> DAppTierRewards \<times> nat" where
  "get_dapp_tier_assignment_and_rewards C era period dapp_reward_pool s =
     (let counter = saturated_into u16_max (length (sm_iter (pl_contract_stake s)));
          dapp_stakes = cf_sort_by_stake C (staked_dapps era period (pl_contract_stake s));
          tier_config = pl_tier_config s;
          tier_rewards = tier_rewards_of (cf_arith C) tier_config dapp_reward_pool;
          (dapp_tiers, rank_rewards) = assign_tiers (cf_ranking_enabled C) tier_rewards dapp_stakes 0
            (zip (tc_slots_per_tier tier_config) (tc_tier_thresholds tier_config)) 0 [] []
      in (case DAppTierRewards_new (cf_max_number_of_contracts C) (cf_number_of_tiers C) dapp_tiers tier_rewards period rank_rewards of
            Ok d \<Rightarrow> d
          | Err _ \<Rightarrow> DAppTierRewards_default,
          counter))"

definition get_dapp_tier_assignment :: "('acc, 'sc) Config \<Rightarrow> ('acc, 'sc, 'x) Storage \<Rightarrow> (DAppId, RankedTier) smap" where
  "get_dapp_tier_assignment C s =
     (let protocol_state = pl_active_protocol_state s
      in dt_dapps (fst (get_dapp_tier_assignment_and_rewards C (ps_era protocol_state) (ProtocolState_period_number protocol_state) 0 s)))"

section \<open>Blocks\<close>

text \<open>The specification: each tier takes from what the tiers above it left, in order, the dApps that reach its
  threshold, up to its capacity.\<close>

fun tier_blocks :: "(nat \<times> nat) list \<Rightarrow> (nat \<times> nat) list \<Rightarrow> (nat \<times> nat) list list" where
  "tier_blocks xs [] = []"
| "tier_blocks xs ((cap, lower) # tiers) =
     (let b = take cap (takeWhile (\<lambda>(_, amount). lower \<le> amount) xs) in b # tier_blocks (drop (length b) xs) tiers)"

lemma take_takeWhile_eq: "take n (takeWhile P xs) = take (min n (length (takeWhile P xs))) xs"
  by (metis min.commute takeWhile_eq_take take_take)

lemma take_takeWhile_drop: "take n (takeWhile P xs) @ drop (length (take n (takeWhile P xs))) xs = xs"
proof -
  have "length (takeWhile P xs) \<le> length xs" by (rule length_takeWhile_le)
  then show ?thesis by (simp add: take_takeWhile_eq [of n P xs] min_def)
qed

lemma tier_blocks_length [simp]: "length (tier_blocks xs tiers) = length tiers"
  by (induction xs tiers rule: tier_blocks.induct) (simp_all add: Let_def)

lemma tier_blocks_prefix: "\<exists>rest. concat (tier_blocks xs tiers) @ rest = xs"
proof (induction xs tiers rule: tier_blocks.induct)
  case (2 xs cap lower tiers)
  let ?b = "take cap (takeWhile (\<lambda>(_, amount). lower \<le> amount) xs)"
  from "2.IH" [OF refl] obtain rest where "concat (tier_blocks (drop (length ?b) xs) tiers) @ rest = drop (length ?b) xs" ..
  then have "concat (tier_blocks xs ((cap, lower) # tiers)) @ rest = ?b @ drop (length ?b) xs"
    by (simp only: tier_blocks.simps Let_def concat.simps append_assoc)
  then show ?case by (metis take_takeWhile_drop)
qed simp

lemma sm_put_fresh: "k \<notin> fst ` set m \<Longrightarrow> sm_put m k v = m @ [(k, v)]"
  unfolding sm_put_def by (induction m) auto

lemma fold_put_fresh:
  "distinct (map fst xs) \<Longrightarrow> fst ` set xs \<inter> fst ` set m = {} \<Longrightarrow> fold (\<lambda>(k, v) m. sm_put m k v) xs m = m @ xs"
proof (induction xs arbitrary: m)
  case (Cons x xs)
  obtain k v where x: "x = (k, v)" by (cases x)
  with Cons.prems have "sm_put m k v = m @ [(k, v)]" by (intro sm_put_fresh) auto
  with Cons.IH [of "m @ [(k, v)]"] Cons.prems x show ?case by auto
qed simp

lemma fill_tier_eq:
  assumes "distinct (map fst b)"
  shows "fill_tier rk tid lo ub b = map (\<lambda>(i, a). (i, ranked_tier_of rk tid lo ub a)) b"
proof -
  let ?f = "\<lambda>(i, a). (i, ranked_tier_of rk tid lo ub a)"
  have "fill_tier rk tid lo ub b = fold (\<lambda>(k, v) m. sm_put m k v) (map ?f b) []"
    unfolding fill_tier_def fold_map by (rule fold_cong) auto
  also have "\<dots> = [] @ map ?f b"
    by (rule fold_put_fresh) (use assms in \<open>simp_all add: comp_def case_prod_beta\<close>)
  finally show ?thesis by simp
qed

text \<open>The entries and the rank rewards that the blocks stand for.\<close>

fun tier_entries :: "bool \<Rightarrow> nat \<Rightarrow> nat \<Rightarrow> (nat \<times> nat) list \<Rightarrow> (nat \<times> nat) list list \<Rightarrow> (nat \<times> RankedTier) list list" where
  "tier_entries rk tid ub ((cap, lo) # tiers) (b # bs) =
     map (\<lambda>(i, a). (i, ranked_tier_of rk tid lo ub a)) b # tier_entries rk (tid + 1) lo tiers bs"
| "tier_entries rk tid ub _ _ = []"

fun tier_rank_rewards :: "Balance list \<Rightarrow> nat \<Rightarrow> (nat \<times> nat) list \<Rightarrow> (nat \<times> RankedTier) list list \<Rightarrow> nat list" where
  "tier_rank_rewards tr tid ((cap, lo) # tiers) (es # ess) =
     reward_per_rank_of cap (nth_or_zero tr tid) es # tier_rank_rewards tr (tid + 1) tiers ess"
| "tier_rank_rewards tr tid _ _ = []"

lemma assign_tiers_blocks:
  fixes D :: "(DAppId, RankedTier) smap"
  assumes "distinct (map fst L)" and "map fst D = map fst (take (length D) L)" and "length D \<le> length L"
  shows "assign_tiers rk tr L tid tiers ub D rr =
    (D @ concat (tier_entries rk tid ub tiers (tier_blocks (drop (length D) L) tiers)),
     rr @ tier_rank_rewards tr tid tiers (tier_entries rk tid ub tiers (tier_blocks (drop (length D) L) tiers)))"
  using assms(2,3)
proof (induction tiers arbitrary: tid ub D rr)
  case (Cons t tiers)
  obtain cap lo where t: "t = (cap, lo)" by (cases t)
  define b where "b = take cap (takeWhile (\<lambda>(_, amount). lo \<le> amount) (drop (length D) L))"
  define es where "es = map (\<lambda>(i, a). (i, ranked_tier_of rk tid lo ub a)) b"
  have bL: "b = take (length b) (drop (length D) L)" and lb: "length b \<le> length L - length D"
    unfolding b_def by (subst take_takeWhile_eq, simp add: min_def length_takeWhile_le le_trans [OF length_takeWhile_le])+
  have keys: "map fst es = map fst b" by (simp add: es_def comp_def case_prod_beta)
  have Db: "map fst (D @ es) = map fst (take (length D + length b) L)"
    using Cons.prems by (subst take_add) (simp add: keys flip: bL)
  have dist: "distinct (map fst (D @ es))"
    unfolding Db using assms(1) by (metis distinct_take take_map)
  have "distinct (map fst b)" using dist keys by simp
  then have fill: "fill_tier rk tid lo ub b = es" by (simp add: fill_tier_eq es_def)
  have app: "append_map D es = D @ es"
    using dist unfolding append_map_def sm_iter_def by (intro fold_put_fresh) auto
  have "assign_tiers rk tr L (tid + 1) tiers lo (D @ es) (rr @ [reward_per_rank_of cap (nth_or_zero tr tid) es]) =
      ((D @ es) @ concat (tier_entries rk (tid + 1) lo tiers (tier_blocks (drop (length (D @ es)) L) tiers)),
       (rr @ [reward_per_rank_of cap (nth_or_zero tr tid) es]) @ tier_rank_rewards tr (tid + 1) tiers
         (tier_entries rk (tid + 1) lo tiers (tier_blocks (drop (length (D @ es)) L) tiers)))"
    using Db lb Cons.prems(2) by (intro Cons.IH) (simp_all add: es_def)
  moreover have "drop (length b) (drop (length D) L) = drop (length (D @ es)) L" by (simp add: es_def add.commute)
  ultimately show ?case
    by (simp add: t tier_candidates_def fill app Let_def flip: b_def es_def)
qed simp

lemma tier_entries_nth:
  assumes "t < length tiers" and "length bs = length tiers"
  shows "tier_entries rk tid ub tiers bs ! t = map (\<lambda>(i, a). (i, ranked_tier_of rk (tid + t) (snd (tiers ! t))
      (if t = 0 then ub else snd (tiers ! (t - 1))) a)) (bs ! t)"
    and "length (tier_entries rk tid ub tiers bs) = length tiers"
  using assms
proof (induction rk tid ub tiers bs arbitrary: t rule: tier_entries.induct)
  case (1 rk tid ub cap lo tiers b bs)
  { case 1
    with "1.IH"(1) [of "t - 1"] show ?case by (cases t) (auto simp: nth_Cons') }
  { case 2
    with "1.IH"(2) [of 0] show ?case by (cases tiers) auto }
qed auto

lemma block_bounds:
  assumes "t < length tiers"
  shows "length (tier_blocks xs tiers ! t) \<le> fst (tiers ! t)"
    and "p \<in> set (tier_blocks xs tiers ! t) \<Longrightarrow> snd (tiers ! t) \<le> snd p"
  using assms
proof (induction xs tiers arbitrary: t rule: tier_blocks.induct)
  case (2 xs cap lower tiers)
  { case 1
    with "2.IH"(1) [OF refl, of "t - 1"] show ?case by (cases t) (auto simp: Let_def) }
  { case 2
    with "2.IH"(2) [OF refl, of "t - 1"] show ?case
      by (cases t) (auto simp: Let_def dest!: in_set_takeD set_takeWhileD) }
qed auto

lemma takeWhile_sorted_desc:
  "sorted_wrt (\<lambda>p q. snd q \<le> snd p) xs \<Longrightarrow> p \<in> set xs \<Longrightarrow> lo \<le> snd p \<Longrightarrow>
    p \<in> set (takeWhile (\<lambda>(_, amount). (lo :: nat) \<le> amount) xs)"
  by (induction xs) (auto simp: case_prod_beta)

lemma block_full:
  assumes "sorted_wrt (\<lambda>p q. snd q \<le> snd p) xs" and "p \<in> set xs" and "p \<notin> set (concat (tier_blocks xs tiers))"
    and "t < length tiers" and "snd (tiers ! t) \<le> snd p"
  shows "length (tier_blocks xs tiers ! t) = fst (tiers ! t)"
  using assms
proof (induction xs tiers arbitrary: t rule: tier_blocks.induct)
  case (2 xs cap lower tiers)
  define b where "b = take cap (takeWhile (\<lambda>(_, amount). lower \<le> amount) xs)"
  have xs: "b @ drop (length b) xs = xs" unfolding b_def by (rule take_takeWhile_drop)
  have notin: "p \<notin> set b" "p \<notin> set (concat (tier_blocks (drop (length b) xs) tiers))"
    using "2.prems"(3) by (simp_all add: Let_def flip: b_def)
  show ?case
  proof (cases t)
    case 0
    have "p \<in> set (takeWhile (\<lambda>(_, amount). lower \<le> amount) xs)"
      using "2.prems" 0 by (intro takeWhile_sorted_desc) auto
    then have "length b = cap" using notin(1) unfolding b_def by (metis length_take min_def nle_le take_all)
    with 0 show ?thesis by (simp add: Let_def flip: b_def)
  next
    case (Suc t')
    have "p \<in> set (drop (length b) xs)" using xs notin(1) "2.prems"(2) by (metis Un_iff set_append)
    moreover have "sorted_wrt (\<lambda>p q. snd q \<le> snd p) (drop (length b) xs)"
      using "2.prems"(1) by (rule sorted_wrt_drop)
    ultimately show ?thesis
      using "2.IH" [OF b_def, of t'] notin(2) "2.prems"(4,5) Suc by (simp add: Let_def flip: b_def)
  qed
qed simp

lemma block_order:
  assumes "sorted_wrt (\<lambda>p q. snd q \<le> snd p) xs" and "t1 < t2" and "t2 < length tiers"
    and "p \<in> set (tier_blocks xs tiers ! t1)" and "q \<in> set (tier_blocks xs tiers ! t2)"
  shows "snd q \<le> snd p"
proof -
  obtain rest where "concat (tier_blocks xs tiers) @ rest = xs" using tier_blocks_prefix by blast
  then have "sorted_wrt (\<lambda>p q. snd q \<le> snd p) (concat (tier_blocks xs tiers))"
    using assms(1) by (metis sorted_wrt_append)
  moreover have "sorted_wrt R (concat yss) \<Longrightarrow> t1 < t2 \<Longrightarrow> t2 < length yss \<Longrightarrow> p \<in> set (yss ! t1) \<Longrightarrow> q \<in> set (yss ! t2) \<Longrightarrow> R p q"
    for R :: "nat \<times> nat \<Rightarrow> nat \<times> nat \<Rightarrow> bool" and yss t1 t2
  proof (induction yss arbitrary: t1 t2)
    case (Cons ys yss)
    then obtain t2' where t2: "t2 = Suc t2'" by (cases t2) auto
    show ?case
    proof (cases t1)
      case 0
      with Cons.prems t2 have "p \<in> set ys" "q \<in> set (concat yss)" by (auto intro: nth_mem)
      with Cons.prems(1) show ?thesis by (auto simp: sorted_wrt_append)
    next
      case (Suc t1')
      with Cons t2 show ?thesis by (auto simp: sorted_wrt_append)
    qed
  qed simp
  ultimately show ?thesis using assms(2-5) by fastforce
qed

lemma ranked_tier_of_tier: "tid \<le> 15 \<Longrightarrow> unat (RankedTier_tier (ranked_tier_of rk tid lo ub a)) = tid"
proof -
  assume tid: "tid \<le> 15"
  then have u: "unat (of_nat tid :: 8 word) = tid" by (simp add: unat_of_nat)
  then have "(of_nat tid :: 8 word) \<le> 0xf" using tid by (simp add: word_le_nat_alt)
  then show ?thesis
    using u RankedTier_new_saturated_deconstruct [of "of_nat tid" "if rk then find_rank lo ub a else 0"]
    by (simp add: ranked_tier_of_def RankedTier_deconstruct_def Let_def)
qed

lemma RankedTier_rank_le: "RankedTier_rank rt \<le> MAX_RANK"
  by (cases rt) simp

section \<open>The stakes that enter the assignment\<close>

definition dapp_stake :: "EraNumber \<Rightarrow> PeriodNumber \<Rightarrow> (DAppId, ContractStakeAmount) smap \<Rightarrow> DAppId \<Rightarrow> Balance" where
  "dapp_stake era period m i = (case sm_get m i of None \<Rightarrow> 0 | Some k \<Rightarrow>
     (case ContractStakeAmount_get k era period of Some a \<Rightarrow> StakeAmount_total a | None \<Rightarrow> 0))"

lemma staked_dapps_Cons:
  "staked_dapps era period ((i, k) # m) =
    (case ContractStakeAmount_get k era period of
       Some a \<Rightarrow> if StakeAmount_total a \<noteq> 0 then [(i, StakeAmount_total a)] else [] | None \<Rightarrow> []) @ staked_dapps era period m"
  by (simp add: staked_dapps_def sm_iter_def)

lemma staked_dapps_keys: "fst ` set (staked_dapps era period m) \<subseteq> fst ` set m"
  by (auto simp: staked_dapps_def sm_iter_def split: option.splits if_splits intro: rev_image_eqI)

lemma staked_dapps_distinct: "sm_invar m \<Longrightarrow> distinct (map fst (staked_dapps era period m))"
proof (induction m)
  case (Cons e m)
  obtain i k where e: "e = (i, k)" by (cases e)
  have "i \<notin> fst ` set (staked_dapps era period m)"
    using staked_dapps_keys [of era period m] Cons.prems e by (auto simp: sm_invar_def)
  with Cons e show ?case by (auto simp: staked_dapps_Cons sm_invar_def split: option.split)
qed (simp add: staked_dapps_def sm_iter_def)

lemma staked_dapps_iff:
  "sm_invar m \<Longrightarrow> (i, a) \<in> set (staked_dapps era period m) \<longleftrightarrow> a \<noteq> 0 \<and> a = dapp_stake era period m i"
proof (induction m)
  case (Cons e m)
  obtain j k where e: "e = (j, k)" by (cases e)
  have inv: "sm_invar m" "j \<notin> fst ` set m" using Cons.prems e by (auto simp: sm_invar_def)
  show ?case
  proof (cases "i = j")
    case True
    then have "(i, a) \<notin> set (staked_dapps era period m)"
      using staked_dapps_keys [of era period m] inv(2) by force
    with True e show ?thesis by (auto simp: staked_dapps_Cons dapp_stake_def sm_get_def simp del: sa_total_0_iff split: option.split)
  next
    case False
    then have "dapp_stake era period (e # m) i = dapp_stake era period m i" by (simp add: e dapp_stake_def sm_get_def)
    with False Cons.IH [OF inv(1)] e show ?thesis by (auto simp: staked_dapps_Cons split: option.split)
  qed
qed (auto simp: staked_dapps_def sm_iter_def dapp_stake_def sm_get_def)

lemma staked_dapps_length: "length (staked_dapps era period m) \<le> length m"
  by (induction m) (auto simp: staked_dapps_Cons staked_dapps_def sm_iter_def split: option.split)

section \<open>Rewards\<close>

lemma ranks_sum_eq:
  assumes "length es \<le> u16_max"
  shows "foldl (\<lambda>accum x. u32_add accum (unat (RankedTier_rank (snd x)))) 0 es = (\<Sum>e\<leftarrow>es. unat (RankedTier_rank (snd e)))"
proof -
  have le: "unat (RankedTier_rank rt) \<le> 10" for rt
    using RankedTier_rank_le [of rt] by (simp add: MAX_RANK_def word_le_nat_alt)
  have "(\<Sum>e\<leftarrow>es. unat (RankedTier_rank (snd e))) \<le> 10 * length es"
    by (induction es) (auto intro: add_mono le)
  with assms have "0 + sum_list (map (\<lambda>e. unat (RankedTier_rank (snd e))) es) \<le> u32_max"
    by (simp add: u16_max_def u32_max_def)
  from fold_sat_add [OF this] show ?thesis by (simp add: foldl_map)
qed

text \<open>One tier pays at most its capacity times the reward of a slot: what the ranks add comes from the slots
  left empty.\<close>

lemma tier_payout_le:
  assumes "length es \<le> cap" and "cap \<le> u16_max"
  shows "(\<Sum>e\<leftarrow>es. rw + reward_per_rank_of cap rw es * unat (RankedTier_rank (snd e))) \<le> cap * rw"
proof -
  define rs where "rs = (\<Sum>e\<leftarrow>es. unat (RankedTier_rank (snd e)))"
  have fold: "foldl (\<lambda>accum x. u32_add accum (unat (RankedTier_rank (snd x)))) 0 es = rs"
    using ranks_sum_eq [of es] assms by (simp add: rs_def)
  have len: "length es mod 2 ^ 16 = length es" using assms by (simp add: u16_max_def)
  have "reward_per_rank_of cap rw es * rs \<le> rw * (cap - length es)"
  proof (cases "rs = 0")
    case False
    have "reward_per_rank_of cap rw es \<le> u128_mul rw (cap - length es) div rs"
      using False len by (auto simp: reward_per_rank_of_def fold sm_iter_def Let_def intro: div_le_mono)
    then have "reward_per_rank_of cap rw es * rs \<le> u128_mul rw (cap - length es) div rs * rs" by (rule mult_le_mono1)
    also have "\<dots> \<le> u128_mul rw (cap - length es)" by simp
    also have "\<dots> \<le> rw * (cap - length es)" by (simp add: sat_mul_def)
    finally show ?thesis .
  qed simp
  moreover have "(\<Sum>e\<leftarrow>es. rw + r * unat (RankedTier_rank (snd e))) = length es * rw + r * rs" for r
    by (simp add: sum_list_addf sum_list_const_mult sum_list_triv rs_def)
  moreover have "length es * rw + rw * (cap - length es) = cap * rw"
    using assms(1) by (metis add_mult_distrib le_add_diff_inverse mult.commute)
  ultimately show ?thesis by (metis add_left_mono)
qed

lemma tier_rank_rewards_nth:
  assumes "t < length tiers" and "length ess = length tiers"
  shows "tier_rank_rewards tr tid tiers ess ! t = reward_per_rank_of (fst (tiers ! t)) (nth_or_zero tr (tid + t)) (ess ! t)"
  using assms
proof (induction tr tid tiers ess arbitrary: t rule: tier_rank_rewards.induct)
  case (1 tr tid cap lo tiers es ess)
  from "1.IH" [of "t - 1"] "1.prems" show ?case by (cases t) auto
qed auto

lemma tier_rank_rewards_length: "length ess = length tiers \<Longrightarrow> length (tier_rank_rewards tr tid tiers ess) = length tiers"
  by (induction tr tid tiers ess rule: tier_rank_rewards.induct) auto

text \<open>The assignment of the pallet in terms of the blocks.\<close>

definition pallet_blocks :: "('acc, 'sc) Config \<Rightarrow> EraNumber \<Rightarrow> PeriodNumber \<Rightarrow> ('acc, 'sc, 'x) Storage \<Rightarrow> (nat \<times> nat) list list" where
  "pallet_blocks C era period s = tier_blocks (cf_sort_by_stake C (staked_dapps era period (pl_contract_stake s)))
     (zip (tc_slots_per_tier (pl_tier_config s)) (tc_tier_thresholds (pl_tier_config s)))"

text \<open>What the theorems assume of a state: a sorting function, a map with distinct keys within the bound on
  contracts, and a tier configuration with the configured number of tiers, at most 16 as a tier takes four bits.\<close>

definition assignable :: "('acc, 'sc) Config \<Rightarrow> ('acc, 'sc, 'x) Storage \<Rightarrow> bool" where
  "assignable C s \<longleftrightarrow> stake_sort (cf_sort_by_stake C) \<and> sm_invar (pl_contract_stake s)
     \<and> length (pl_contract_stake s) \<le> cf_max_number_of_contracts C
     \<and> TiersConfiguration_is_valid (cf_number_of_tiers C) (pl_tier_config s) \<and> cf_number_of_tiers C \<le> 16
     \<and> (\<forall>n \<in> set (tc_slots_per_tier (pl_tier_config s)). n \<le> u16_max)"

lemma blocks_distinct:
  assumes "assignable C s"
  shows "distinct (map fst (concat (pallet_blocks C era period s)))"
proof -
  let ?L = "cf_sort_by_stake C (staked_dapps era period (pl_contract_stake s))"
  have "distinct (map fst ?L)"
    using assms by (simp add: assignable_def stake_sort.sort_distinct staked_dapps_distinct)
  moreover obtain rest where "concat (pallet_blocks C era period s) @ rest = ?L"
    unfolding pallet_blocks_def using tier_blocks_prefix by blast
  ultimately show ?thesis by (metis distinct_append map_append)
qed

lemma assignment_eq:
  fixes pool :: Balance and era :: EraNumber and period :: PeriodNumber
  assumes "assignable C s"
  defines "tiers \<equiv> zip (tc_slots_per_tier (pl_tier_config s)) (tc_tier_thresholds (pl_tier_config s))"
    and "tr \<equiv> tier_rewards_of (cf_arith C) (pl_tier_config s) pool"
  defines "ess \<equiv> tier_entries (cf_ranking_enabled C) 0 0 tiers (pallet_blocks C era period s)"
  shows "fst (get_dapp_tier_assignment_and_rewards C era period pool s) =
    \<lparr> dt_dapps = concat ess, dt_rewards = tr, dt_period = period, dt_rank_rewards = tier_rank_rewards tr 0 tiers ess \<rparr>"
    and "length tiers = cf_number_of_tiers C" and "length ess = cf_number_of_tiers C"
proof -
  let ?m = "pl_contract_stake s"
  let ?L = "cf_sort_by_stake C (staked_dapps era period ?m)"
  have dL: "distinct (map fst ?L)" and lenL: "length ?L \<le> cf_max_number_of_contracts C"
    using assms(1) staked_dapps_length [of era period ?m] stake_sort.sort_mset [of "cf_sort_by_stake C", THEN mset_eq_length]
    by (auto simp: assignable_def stake_sort.sort_distinct staked_dapps_distinct)
  have v: "length (tc_slots_per_tier (pl_tier_config s)) = cf_number_of_tiers C"
      "length (tc_reward_portion (pl_tier_config s)) = cf_number_of_tiers C"
      "length (tc_tier_thresholds (pl_tier_config s)) = cf_number_of_tiers C"
    using assms(1) by (auto simp: assignable_def TiersConfiguration_is_valid_def)
  then show lt: "length tiers = cf_number_of_tiers C" by (simp add: tiers_def)
  have lb: "length (pallet_blocks C era period s) = length tiers" by (simp add: pallet_blocks_def tiers_def)
  show le: "length ess = cf_number_of_tiers C"
    using tier_entries_nth(2) [of 0 tiers] lb lt by (cases tiers) (auto simp: ess_def)
  have "map (map fst) ess = map (map fst) (pallet_blocks C era period s)"
    by (rule nth_equalityI) (use lb lt le in \<open>auto simp: ess_def tier_entries_nth comp_def case_prod_beta\<close>)
  then have "map fst (concat ess) = map fst (concat (pallet_blocks C era period s))" by (metis map_concat)
  moreover obtain rest where "concat (pallet_blocks C era period s) @ rest = ?L"
    unfolding pallet_blocks_def using tier_blocks_prefix by blast
  ultimately have "length (concat ess) \<le> length ?L" by (metis length_append length_map le_add1)
  with lenL have fits: "length (concat ess) \<le> cf_max_number_of_contracts C" by simp
  have "assign_tiers (cf_ranking_enabled C) tr ?L 0 tiers 0 [] [] = (concat ess, tier_rank_rewards tr 0 tiers ess)"
    using assign_tiers_blocks [OF dL, of "[]" "cf_ranking_enabled C" tr 0 tiers 0 "[]"]
    by (simp add: ess_def pallet_blocks_def flip: tiers_def)
  moreover have "length tr = cf_number_of_tiers C" using v by (simp add: tr_def tier_rewards_of_def)
  moreover have "length (tier_rank_rewards tr 0 tiers ess) = cf_number_of_tiers C" using le lt by (simp add: tier_rank_rewards_length)
  ultimately show "fst (get_dapp_tier_assignment_and_rewards C era period pool s) =
    \<lparr> dt_dapps = concat ess, dt_rewards = tr, dt_period = period, dt_rank_rewards = tier_rank_rewards tr 0 tiers ess \<rparr>"
    using fits
    by (simp add: get_dapp_tier_assignment_and_rewards_def Let_def DAppTierRewards_new_def try_from_bounded_def
        flip: tiers_def tr_def)
qed

definition tier_of :: "DAppTierRewards \<Rightarrow> DAppId \<Rightarrow> nat option" where
  "tier_of d i = map_option (\<lambda>rt. unat (RankedTier_tier rt)) (sm_get (dt_dapps d) i)"

lemma entries_keys:
  assumes "assignable C s"
  shows "distinct (map fst (concat (tier_entries (cf_ranking_enabled C) 0 0
      (zip (tc_slots_per_tier (pl_tier_config s)) (tc_tier_thresholds (pl_tier_config s))) (pallet_blocks C era period s))))"
proof -
  let ?tiers = "zip (tc_slots_per_tier (pl_tier_config s)) (tc_tier_thresholds (pl_tier_config s))"
  let ?ess = "tier_entries (cf_ranking_enabled C) 0 0 ?tiers (pallet_blocks C era period s)"
  have len: "length ?ess = length (pallet_blocks C era period s)" "length (pallet_blocks C era period s) = length ?tiers"
    using assignment_eq(2) [OF assms] assignment_eq(3) [OF assms, of era period] by (auto simp: pallet_blocks_def)
  have "map (map fst) ?ess = map (map fst) (pallet_blocks C era period s)"
    by (rule nth_equalityI) (use len in \<open>auto simp: tier_entries_nth comp_def case_prod_beta\<close>)
  then have "map fst (concat ?ess) = map fst (concat (pallet_blocks C era period s))" by (metis map_concat)
  with blocks_distinct [OF assms] show ?thesis by simp
qed

lemma sum_list_map_concat: "sum_list (map f (concat xss)) = (\<Sum>xs\<leftarrow>xss. sum_list (map f xs) :: nat)"
  by (induction xss) auto

lemma in_concat_nth: "x \<in> set (concat yss) \<longleftrightarrow> (\<exists>u < length yss. x \<in> set (yss ! u))"
  by (auto simp: set_conv_nth [of yss])

lemma tier_of_iff:
  fixes pool :: Balance and era :: EraNumber and period :: PeriodNumber
  assumes "assignable C s"
  defines "d \<equiv> fst (get_dapp_tier_assignment_and_rewards C era period pool s)"
  shows "tier_of d i = Some t \<longleftrightarrow> t < cf_number_of_tiers C \<and> i \<in> fst ` set (pallet_blocks C era period s ! t)"
proof -
  let ?tiers = "zip (tc_slots_per_tier (pl_tier_config s)) (tc_tier_thresholds (pl_tier_config s))"
  let ?bs = "pallet_blocks C era period s"
  let ?ess = "tier_entries (cf_ranking_enabled C) 0 0 ?tiers ?bs"
  have len: "length ?tiers = cf_number_of_tiers C" "length ?ess = cf_number_of_tiers C" "length ?bs = length ?tiers"
    using assignment_eq(2) [OF assms(1)] assignment_eq(3) [OF assms(1), of era period] by (auto simp: pallet_blocks_def)
  have d: "sm_get (dt_dapps d) j = Some rt \<longleftrightarrow> (j, rt) \<in> set (concat ?ess)" for j rt
    using entries_keys [OF assms(1), of era period] by (simp add: d_def assignment_eq(1) [OF assms(1)] sm_get_def)
  have nt: "u < length ?tiers \<Longrightarrow> u \<le> 15" for u using assms(1) len(1) unfolding assignable_def by linarith
  have mem: "(j, rt) \<in> set (concat ?ess) \<longleftrightarrow> (\<exists>u a. u < length ?tiers \<and> (j, a) \<in> set (?bs ! u)
      \<and> rt = ranked_tier_of (cf_ranking_enabled C) u (snd (?tiers ! u)) (if u = 0 then 0 else snd (?tiers ! (u - 1))) a)" for j rt
  proof -
    have "(j, rt) \<in> set (?ess ! u) \<longleftrightarrow> (\<exists>a. (j, a) \<in> set (?bs ! u)
        \<and> rt = ranked_tier_of (cf_ranking_enabled C) u (snd (?tiers ! u)) (if u = 0 then 0 else snd (?tiers ! (u - 1))) a)"
      if "u < length ?tiers" for u
      unfolding tier_entries_nth(1) [OF that len(3)] by auto
    then show ?thesis unfolding in_concat_nth len(1,2) by blast
  qed
  show ?thesis
  proof
    assume "tier_of d i = Some t"
    then obtain rt where "(i, rt) \<in> set (concat ?ess)" "t = unat (RankedTier_tier rt)"
      by (auto simp: tier_of_def d simp del: set_concat)
    then show "t < cf_number_of_tiers C \<and> i \<in> fst ` set (?bs ! t)"
      unfolding mem using nt len(1) by (auto simp: ranked_tier_of_tier simp del: length_zip intro: rev_image_eqI)
  next
    assume t: "t < cf_number_of_tiers C \<and> i \<in> fst ` set (?bs ! t)"
    then obtain a where "(i, a) \<in> set (?bs ! t)" by auto
    then have "(i, ranked_tier_of (cf_ranking_enabled C) t (snd (?tiers ! t)) (if t = 0 then 0 else snd (?tiers ! (t - 1))) a)
        \<in> set (concat ?ess)"
      using t len(1) unfolding mem by (intro exI [of _ t] exI [of _ a]) simp
    note iffD2 [OF d this]
    moreover have "t \<le> 15" using nt [of t] t unfolding len(1) by blast
    ultimately show "tier_of d i = Some t" by (simp add: tier_of_def ranked_tier_of_tier)
  qed
qed

lemma block_stake:
  assumes "assignable C s" and "t < cf_number_of_tiers C" and "(i, a) \<in> set (pallet_blocks C era period s ! t)"
  shows "a = dapp_stake era period (pl_contract_stake s) i" "a \<noteq> 0"
proof -
  let ?L = "cf_sort_by_stake C (staked_dapps era period (pl_contract_stake s))"
  have "length (pallet_blocks C era period s) = cf_number_of_tiers C"
    using assignment_eq(2) [OF assms(1)] by (simp add: pallet_blocks_def)
  then have "(i, a) \<in> set (concat (pallet_blocks C era period s))" using assms(2,3) by (auto intro: nth_mem)
  moreover obtain rest where "concat (pallet_blocks C era period s) @ rest = ?L"
    unfolding pallet_blocks_def using tier_blocks_prefix by blast
  ultimately have "(i, a) \<in> set ?L" by (metis Un_iff set_append)
  then have "(i, a) \<in> set (staked_dapps era period (pl_contract_stake s))"
    using assms(1) by (simp add: assignable_def stake_sort.sort_set)
  then show "a = dapp_stake era period (pl_contract_stake s) i" "a \<noteq> 0"
    using assms(1) by (simp_all add: staked_dapps_iff assignable_def)
qed

lemma tier_card:
  fixes pool :: Balance and era :: EraNumber and period :: PeriodNumber
  assumes "assignable C s" and "t < cf_number_of_tiers C"
  defines "d \<equiv> fst (get_dapp_tier_assignment_and_rewards C era period pool s)"
  shows "card {i. tier_of d i = Some t} = length (pallet_blocks C era period s ! t)"
proof -
  have "{i. tier_of d i = Some t} = set (map fst (pallet_blocks C era period s ! t))"
    using assms(2) by (auto simp: d_def tier_of_iff [OF assms(1)])
  moreover have "length (pallet_blocks C era period s) = cf_number_of_tiers C"
    using assignment_eq(2) [OF assms(1)] by (simp add: pallet_blocks_def)
  then have "pallet_blocks C era period s ! t \<in> set (pallet_blocks C era period s)" using assms(2) by simp
  then have "distinct (map fst (pallet_blocks C era period s ! t))"
    using blocks_distinct [OF assms(1), of era period] by (simp add: map_concat distinct_concat_iff)
  ultimately show ?thesis by (metis distinct_card length_map)
qed

lemma entries_payout:
  fixes pool :: Balance and era :: EraNumber and period :: PeriodNumber
  assumes "assignable C s" and "t < cf_number_of_tiers C"
  defines "d \<equiv> fst (get_dapp_tier_assignment_and_rewards C era period pool s)"
    and "ess \<equiv> tier_entries (cf_ranking_enabled C) 0 0
      (zip (tc_slots_per_tier (pl_tier_config s)) (tc_tier_thresholds (pl_tier_config s))) (pallet_blocks C era period s)"
  shows "(\<Sum>e\<leftarrow>ess ! t. dapp_entitlement d (fst e)) \<le> pt_mul (ar_permill (cf_arith C)) (tc_reward_portion (pl_tier_config s) ! t) pool"
proof -
  let ?c = "pl_tier_config s"
  let ?tiers = "zip (tc_slots_per_tier ?c) (tc_tier_thresholds ?c)"
  let ?tr = "tier_rewards_of (cf_arith C) ?c pool"
  let ?cap = "tc_slots_per_tier ?c ! t" and ?rw = "?tr ! t"
  have v: "length (tc_slots_per_tier ?c) = cf_number_of_tiers C" "length (tc_reward_portion ?c) = cf_number_of_tiers C"
      "length (tc_tier_thresholds ?c) = cf_number_of_tiers C" "cf_number_of_tiers C \<le> 16"
    using assms(1) by (auto simp: assignable_def TiersConfiguration_is_valid_def)
  have lb: "length (pallet_blocks C era period s) = length ?tiers" by (simp add: pallet_blocks_def)
  have t: "t < length ?tiers" "t \<le> 15" "t < length ?tr" using assms(2) v by (auto simp: tier_rewards_of_def)
  have d: "d = \<lparr> dt_dapps = concat ess, dt_rewards = ?tr, dt_period = period, dt_rank_rewards = tier_rank_rewards ?tr 0 ?tiers ess \<rparr>"
    and le: "length ess = cf_number_of_tiers C"
    unfolding d_def ess_def using assignment_eq(1,3) [OF assms(1)] by auto
  have rr: "nth_or_zero (dt_rank_rewards d) t = reward_per_rank_of ?cap ?rw (ess ! t)"
    using t le v by (simp add: d nth_or_zero_def tier_rank_rewards_length tier_rank_rewards_nth)
  have ent: "dapp_entitlement d (fst e) \<le> ?rw + reward_per_rank_of ?cap ?rw (ess ! t) * unat (RankedTier_rank (snd e))"
    if e: "e \<in> set (ess ! t)" for e
  proof -
    have "e \<in> set (concat ess)" using e t le v by (auto simp: in_concat_nth)
    then have "sm_get (dt_dapps d) (fst e) = Some (snd e)"
      using entries_keys [OF assms(1), of era period] by (simp add: d sm_get_def flip: ess_def)
    moreover have "unat (RankedTier_tier (snd e)) = t"
      using e t(2) unfolding ess_def tier_entries_nth(1) [OF t(1) lb] by (auto simp: ranked_tier_of_tier)
    ultimately show ?thesis
      using t(3) by (simp add: dapp_entitlement_def rr) (simp add: d nth_or_zero_def sat_add_def sat_mul_def min_le_iff_disj)
  qed
  have "length (ess ! t) \<le> ?cap" "?cap \<le> u16_max"
    using block_bounds(1) [OF t(1), of "cf_sort_by_stake C (staked_dapps era period (pl_contract_stake s))"] assms(1,2) v
    unfolding ess_def tier_entries_nth(1) [OF t(1) lb] by (auto simp: pallet_blocks_def assignable_def)
  note payout = tier_payout_le [OF this, of ?rw]
  have "(\<Sum>e\<leftarrow>ess ! t. dapp_entitlement d (fst e)) \<le>
      (\<Sum>e\<leftarrow>ess ! t. ?rw + reward_per_rank_of ?cap ?rw (ess ! t) * unat (RankedTier_rank (snd e)))"
    by (rule sum_list_mono) (rule ent)
  also note payout
  also have "?cap * ?rw \<le> pt_mul (ar_permill (cf_arith C)) (tc_reward_portion ?c ! t) pool"
    using assms(2) v by (simp add: tier_rewards_of_def)
  finally show ?thesis .
qed

section \<open>Properties\<close>

definition tier_example :: "(nat, nat, unit) Storage" where
  "tier_example = (empty_storage ())\<lparr>
     pl_contract_stake := [(0, ContractStakeAmount_stake 500 example_build 3 ContractStakeAmount_default),
       (1, ContractStakeAmount_stake 90 example_build 3 ContractStakeAmount_default),
       (2, ContractStakeAmount_stake 20 example_build 3 ContractStakeAmount_default)],
     pl_tier_config := \<lparr> tc_slots_per_tier = [1, 1, 2, 3], tc_reward_portion = [400000, 300000, 200000, 100000],
       tc_tier_thresholds = [300, 100, 50, 10] \<rparr> \<rparr>"

lemma tier_example_assignable: "assignable example_config tier_example"
  by (simp add: assignable_def tier_example_def example_config_def ss.stake_sort_axioms sm_invar_def
      TiersConfiguration_is_valid_def empty_storage_def u16_max_def)

text \<open>C6: The tier assignment of an era: every dApp in a tier has stake that reaches the threshold of the tier;
  a tier has at most as many dApps as slots; a dApp left without a tier although its stake reaches the
  threshold of some tier was left out only because that tier is full; and a dApp of a higher tier never has
  less stake than one of a lower tier. The order of dApps with equal stake is left to the sort.\<close>

theorem tier_assignment_sound:
  assumes "assignable C s"
  shows "let d = fst (get_dapp_tier_assignment_and_rewards C era period pool s);
      st = dapp_stake era period (pl_contract_stake s); n = cf_number_of_tiers C;
      slots = tc_slots_per_tier (pl_tier_config s); threshold = tc_tier_thresholds (pl_tier_config s) in
    (\<forall>i t. tier_of d i = Some t \<longrightarrow> t < n \<and> threshold ! t \<le> st i \<and> 0 < st i)
    \<and> (\<forall>t < n. card {i. tier_of d i = Some t} \<le> slots ! t)
    \<and> (\<forall>i t. 0 < st i \<and> tier_of d i = None \<and> t < n \<and> threshold ! t \<le> st i \<longrightarrow> card {i. tier_of d i = Some t} = slots ! t)
    \<and> (\<forall>i j t u. tier_of d i = Some t \<and> tier_of d j = Some u \<and> t < u \<longrightarrow> st j \<le> st i)"
proof -
  let ?d = "fst (get_dapp_tier_assignment_and_rewards C era period pool s)"
  let ?m = "pl_contract_stake s"
  let ?st = "dapp_stake era period ?m" and ?bs = "pallet_blocks C era period s"
  let ?L = "cf_sort_by_stake C (staked_dapps era period ?m)"
  let ?slots = "tc_slots_per_tier (pl_tier_config s)" and ?thr = "tc_tier_thresholds (pl_tier_config s)"
  let ?tiers = "zip ?slots ?thr"
  have v: "length ?slots = cf_number_of_tiers C" "length ?thr = cf_number_of_tiers C"
    using assms by (auto simp: assignable_def TiersConfiguration_is_valid_def)
  have sorted: "sorted_wrt (\<lambda>p q. snd q \<le> snd p) ?L" using assms by (simp add: assignable_def stake_sort.sort_sorted)
  have tier: "\<exists>a. t < cf_number_of_tiers C \<and> (i, ?st i) \<in> set (?bs ! t) \<and> 0 < ?st i" if ti: "tier_of ?d i = Some t" for i t
  proof -
    obtain a where "t < cf_number_of_tiers C" "(i, a) \<in> set (?bs ! t)"
      using ti by (auto simp: tier_of_iff [OF assms])
    with block_stake [OF assms this] show ?thesis by auto
  qed
  have 1: "t < cf_number_of_tiers C \<and> ?thr ! t \<le> ?st i \<and> 0 < ?st i" if "tier_of ?d i = Some t" for i t
    using tier [OF that] block_bounds(2) [of t ?tiers "(i, ?st i)" ?L] v by (auto simp: pallet_blocks_def)
  have 2: "card {i. tier_of ?d i = Some t} \<le> ?slots ! t" if "t < cf_number_of_tiers C" for t
    using block_bounds(1) [of t ?tiers ?L] v that by (simp add: tier_card [OF assms that] pallet_blocks_def)
  have 3: "card {i. tier_of ?d i = Some t} = ?slots ! t"
    if i: "0 < ?st i" "tier_of ?d i = None" and t: "t < cf_number_of_tiers C" "?thr ! t \<le> ?st i" for i t
  proof -
    have "(i, ?st i) \<in> set ?L"
      using assms i(1) by (simp add: assignable_def stake_sort.sort_set staked_dapps_iff)
    moreover have "(i, ?st i) \<notin> set (concat ?bs)"
    proof
      assume "(i, ?st i) \<in> set (concat ?bs)"
      then obtain u where "u < length ?bs" "(i, ?st i) \<in> set (?bs ! u)" by (auto simp: in_concat_nth simp del: set_concat)
      then have "tier_of ?d i = Some u" using v by (auto simp: tier_of_iff [OF assms] pallet_blocks_def intro: rev_image_eqI)
      with i(2) show False by simp
    qed
    ultimately show ?thesis
      using block_full [OF sorted, of "(i, ?st i)" ?tiers t] v t by (simp add: tier_card [OF assms t(1)] pallet_blocks_def)
  qed
  have 4: "?st j \<le> ?st i" if "tier_of ?d i = Some t" "tier_of ?d j = Some u" "t < u" for i j t u
    using tier [OF that(1)] tier [OF that(2)] block_order [OF sorted that(3), of ?tiers "(i, ?st i)" "(j, ?st j)"] v
    by (auto simp: pallet_blocks_def)
  from 1 2 3 4 show ?thesis unfolding Let_def by blast
qed

theorem tier_assignment_sound_witness:
  "(let d = fst (get_dapp_tier_assignment_and_rewards example_config 4 1 1000 tier_example) in
     (\<forall>t < 4. card {i. tier_of d i = Some t} \<le> tc_slots_per_tier (pl_tier_config tier_example) ! t))"
proof -
  have n: "cf_number_of_tiers example_config = 4" by (simp add: example_config_def)
  show ?thesis using tier_assignment_sound [OF tier_example_assignable, of 4 1 1000] unfolding Let_def n by blast
qed

text \<open>C2: The dApp rewards of an era stay within the pool: whatever the stakes, the thresholds and the ranks,
  everything that all dApps of the assignment can claim together is at most the reward pool and half a unit
  for each tier, which comes from rounding each tier's portion to the nearest unit.\<close>

theorem dapp_rewards_within_pool:
  assumes "assignable C s" and "arith (cf_arith C)"
    and "sum_list (tc_reward_portion (pl_tier_config s)) \<le> permill_acc"
  shows "let d = fst (get_dapp_tier_assignment_and_rewards C era period pool s) in
    2 * (\<Sum>e\<leftarrow>sm_iter (dt_dapps d). dapp_entitlement d (fst e)) \<le> 2 * pool + cf_number_of_tiers C"
proof -
  let ?c = "pl_tier_config s"
  let ?d = "fst (get_dapp_tier_assignment_and_rewards C era period pool s)"
  let ?ess = "tier_entries (cf_ranking_enabled C) 0 0 (zip (tc_slots_per_tier ?c) (tc_tier_thresholds ?c)) (pallet_blocks C era period s)"
  let ?n = "cf_number_of_tiers C" and ?mul = "\<lambda>p. pt_mul (ar_permill (cf_arith C)) p pool"
  have n: "length ?ess = ?n" "length (tc_reward_portion ?c) = ?n"
    using assignment_eq(3) [OF assms(1), of era period] assms(1) by (auto simp: assignable_def TiersConfiguration_is_valid_def)
  have "(\<Sum>e\<leftarrow>sm_iter (dt_dapps ?d). dapp_entitlement ?d (fst e)) = (\<Sum>es\<leftarrow>?ess. \<Sum>e\<leftarrow>es. dapp_entitlement ?d (fst e))"
  proof -
    have "dt_dapps ?d = concat ?ess" by (simp add: assignment_eq(1) [OF assms(1)])
    then show ?thesis by (simp only: sm_iter_def sum_list_map_concat)
  qed
  also have "\<dots> = (\<Sum>t < ?n. \<Sum>e\<leftarrow>?ess ! t. dapp_entitlement ?d (fst e))"
    using n(1) by (simp add: sum_list_sum_nth atLeast0LessThan)
  also have "\<dots> \<le> (\<Sum>t < ?n. ?mul (tc_reward_portion ?c ! t))"
    by (rule sum_mono) (rule entries_payout [OF assms(1)], simp)
  also have "\<dots> = (\<Sum>p\<leftarrow>tc_reward_portion ?c. ?mul p)"
    using n(2) by (simp add: sum_list_sum_nth atLeast0LessThan)
  finally show ?thesis
    using per_thing.sum_mul_le [OF arith.permill_laws [OF assms(2)] assms(3), of pool] n(2) by (simp add: Let_def)
qed

theorem dapp_rewards_within_pool_witness:
  "(let d = fst (get_dapp_tier_assignment_and_rewards example_config 4 1 1000 tier_example) in
     2 * (\<Sum>e\<leftarrow>sm_iter (dt_dapps d). dapp_entitlement d (fst e)) \<le> 2 * 1000 + 4)"
proof -
  have "arith (cf_arith example_config)" by (simp add: example_config_def ea.arith_axioms)
  moreover have "sum_list (tc_reward_portion (pl_tier_config tier_example)) \<le> permill_acc"
    by (simp add: tier_example_def permill_acc_def)
  ultimately show ?thesis
    using dapp_rewards_within_pool [OF tier_example_assignable, of 4 1 1000] by (simp add: example_config_def Let_def)
qed

end
