(* ===== verification/EraHandler.thy ===== *)
theory EraHandler
  imports TierAssignment
begin

text \<open>
  The hooks of the dApp staking pallet (\<open>pallets/dapp-staking/src/lib.rs\<close>): the transition of eras,
  subperiods and periods at the start of a block (\<open>era_and_period_handler\<close>), the marker of expired
  history, and the cleanup of one expired entry in an idle block. Weights are not modelled; whether the
  remaining weight allows a cleanup is an argument.
\<close>

section \<open>The hooks\<close>

definition update_cleanup_marker ::
  "('acc, 'sc) Config \<Rightarrow> PeriodNumber \<Rightarrow> ('acc, 'sc, 'x) Storage \<Rightarrow> ('acc, 'sc, 'x) Storage" where
  "update_cleanup_marker C new_period_number s =
     (case checked_sub new_period_number (u32_add (cf_reward_retention_in_periods C) 1) of
        Some latest_expired_period \<Rightarrow>
          if latest_expired_period \<noteq> 0 then
            (case sm_get (pl_period_end s) latest_expired_period of
               Some period_end_info \<Rightarrow>
                 s\<lparr> pl_period_end := sm_remove (pl_period_end s) latest_expired_period,
                    pl_history_cleanup_marker := (pl_history_cleanup_marker s)
                      \<lparr> cm_oldest_valid_era := u32_add (pe_final_era period_end_info) 1 \<rparr> \<rparr>
             | None \<Rightarrow> s)
          else s
      | None \<Rightarrow> s)"

text \<open>The change of subperiod or era, without the writes that follow it: the new protocol state and era
  information, the event of a new subperiod and the rewards of the era that ends.\<close>

definition voting_ends ::
  "('acc, 'sc) Config \<Rightarrow> BlockNumber \<Rightarrow> ('acc, 'sc, 'x) Storage \<Rightarrow>
     ('acc, 'sc, 'x) Storage \<times> ProtocolState \<times> EraInfo \<times> ('acc, 'sc) Event option \<times> EraReward" where
  "voting_ends C now s =
     (let protocol_state = pl_active_protocol_state s;
          era_info = pl_current_era_info s;
          next_era = u32_add (ps_era protocol_state) 1;
          era_reward = \<lparr> er_staker_reward_pool = 0, er_staked = EraInfo_total_staked_amount era_info, er_dapp_reward_pool = 0 \<rparr>;
          next_subperiod_start_era = u32_add next_era (eras_per_build_and_earn_subperiod (cf_cycle C));
          build_and_earn_start_block = u32_add now (blocks_per_era (cf_cycle C));
          protocol_state = ProtocolState_advance_to_next_subperiod next_subperiod_start_era build_and_earn_start_block protocol_state;
          era_info = EraInfo_migrate_to_next_era (Some (ProtocolState_subperiod protocol_state)) era_info
      in (s, protocol_state, era_info,
          Some (NewSubperiod (ProtocolState_subperiod protocol_state) (ProtocolState_period_number protocol_state)), era_reward))"

definition build_and_earn_era_ends ::
  "('acc, 'sc) Config \<Rightarrow> ('acc, 'x) Runtime \<Rightarrow> BlockNumber \<Rightarrow> ('acc, 'sc, 'x) Storage \<Rightarrow>
     ('acc, 'sc, 'x) Storage \<times> ProtocolState \<times> EraInfo \<times> ('acc, 'sc) Event option \<times> EraReward" where
  "build_and_earn_era_ends C R now s =
     (let protocol_state = pl_active_protocol_state s;
          era_info = pl_current_era_info s;
          current_era = ps_era protocol_state;
          next_era = u32_add current_era 1;
          staked = EraInfo_total_staked_amount era_info;
          (staker_reward_pool, dapp_reward_pool) = rt_staker_and_dapp_reward_pools R (pl_env s) staked;
          era_reward = \<lparr> er_staker_reward_pool = staker_reward_pool, er_staked = staked, er_dapp_reward_pool = dapp_reward_pool \<rparr>;
          dapp_tier_rewards = fst (get_dapp_tier_assignment_and_rewards C current_era (ProtocolState_period_number protocol_state) dapp_reward_pool s);
          s = s\<lparr> pl_dapp_tiers := sm_put (pl_dapp_tiers s) current_era dapp_tier_rewards \<rparr>
      in if PeriodInfo_is_next_period (ps_period_info protocol_state) next_era then
           let bonus_reward_pool = rt_bonus_reward_pool R (pl_env s);
               s = s\<lparr> pl_period_end := sm_put (pl_period_end s) (ProtocolState_period_number protocol_state)
                 \<lparr> pe_bonus_reward_pool = bonus_reward_pool, pe_total_vp_stake = EraInfo_staked_amount era_info Voting,
                   pe_final_era = current_era \<rparr> \<rparr>;
               next_subperiod_start_era = u32_add next_era 1;
               next_era_start_block = u32_add now (blocks_per_voting_period C);
               protocol_state = ProtocolState_advance_to_next_subperiod next_subperiod_start_era next_era_start_block protocol_state;
               era_info = EraInfo_migrate_to_next_era (Some (ProtocolState_subperiod protocol_state)) era_info;
               s = update_cleanup_marker C (ProtocolState_period_number protocol_state) s
           in (s, protocol_state, era_info,
               Some (NewSubperiod (ProtocolState_subperiod protocol_state) (ProtocolState_period_number protocol_state)), era_reward)
         else
           let next_era_start_block = u32_add now (blocks_per_era (cf_cycle C));
               protocol_state = ProtocolState_set_next_era_start next_era_start_block protocol_state;
               era_info = EraInfo_migrate_to_next_era None era_info
           in (s, protocol_state, era_info, None, era_reward))"

text \<open>A failed push is only logged; the span is written back as it was left, with its last era already moved
  when the span had no room (\<open>push\<close> sets the eras before it pushes).\<close>

definition span_after_push :: "nat \<Rightarrow> EraNumber \<Rightarrow> EraReward \<Rightarrow> EraRewardSpan \<Rightarrow> EraRewardSpan" where
  "span_after_push cap era era_reward span =
     (case EraRewardSpan_push cap era era_reward span of
        Ok span \<Rightarrow> span
      | Err SpanInvalidEra \<Rightarrow> span
      | Err SpanNoCapacity \<Rightarrow> (if sp_span span = [] then span\<lparr> sp_first_era := era, sp_last_era := era \<rparr> else span\<lparr> sp_last_era := era \<rparr>))"

text \<open>The writes that follow: the protocol state, the era information, the reward history, the tier
  configuration when the new one is valid, and the events.\<close>

definition start_new_era ::
  "('acc, 'sc) Config \<Rightarrow> ('acc, 'x) Runtime \<Rightarrow> EraNumber \<Rightarrow>
     ('acc, 'sc, 'x) Storage \<times> ProtocolState \<times> EraInfo \<times> ('acc, 'sc) Event option \<times> EraReward \<Rightarrow> ('acc, 'sc, 'x) Storage" where
  "start_new_era C R current_era ended =
     (let (s, protocol_state, era_info, maybe_period_event, era_reward) = ended;
          next_era = u32_add current_era 1;
          era_span_index = era_reward_span_index C current_era;
          span = sm_get_or EraRewardSpan_new (pl_era_rewards s) era_span_index;
          s = s\<lparr> pl_active_protocol_state := protocol_state\<lparr> ps_era := next_era \<rparr>,
                 pl_current_era_info := era_info,
                 pl_era_rewards := sm_put (pl_era_rewards s) era_span_index
                   (span_after_push (cf_era_reward_span_length C) current_era era_reward span) \<rparr>;
          new_tier_config = TiersConfiguration_calculate_new (cf_arith C) (cf_number_of_tiers C) (cf_number_of_slots C)
            (cf_base_native_currency_price C) (pl_tier_config s) (pl_static_tier_params s)
            (rt_average_price R (pl_env s)) (rt_total_issuance R (pl_env s));
          s = (if TiersConfiguration_is_valid (cf_number_of_tiers C) new_tier_config
               then s\<lparr> pl_tier_config := new_tier_config \<rparr> else s);
          s = deposit_event (NewEra next_era) s
      in case maybe_period_event of Some period_event \<Rightarrow> deposit_event period_event s | None \<Rightarrow> s)"

definition era_and_period_handler ::
  "('acc, 'sc) Config \<Rightarrow> ('acc, 'x) Runtime \<Rightarrow> BlockNumber \<Rightarrow> ('acc, 'sc, 'x) Storage \<Rightarrow> ('acc, 'sc, 'x) Storage" where
  "era_and_period_handler C R now s =
     (let protocol_state = pl_active_protocol_state s
      in if ps_maintenance protocol_state then s
         else
           let s = (if ps_next_era_start protocol_state = u32_add now 1 then notify_block_before_new_era R protocol_state s else s)
           in if \<not> ProtocolState_is_new_era protocol_state now then s
              else start_new_era C R (ps_era protocol_state)
                (case ProtocolState_subperiod protocol_state of
                   Voting \<Rightarrow> voting_ends C now s
                 | BuildAndEarn \<Rightarrow> build_and_earn_era_ends C R now s))"

definition on_initialize ::
  "('acc, 'sc) Config \<Rightarrow> ('acc, 'x) Runtime \<Rightarrow> BlockNumber \<Rightarrow> ('acc, 'sc, 'x) Storage \<Rightarrow> ('acc, 'sc, 'x) Storage" where
  "on_initialize C R now s = era_and_period_handler C R now s"

text \<open>Step 1 of the cleanup: one expired span.\<close>

definition cleanup_era_reward :: "('acc, 'sc) Config \<Rightarrow> ('acc, 'sc, 'x) Storage \<Rightarrow> ('acc, 'sc, 'x) Storage" where
  "cleanup_era_reward C s =
     (let m = pl_history_cleanup_marker s;
          skip = m\<lparr> cm_era_reward_index := u32_add (cm_era_reward_index m) (cf_era_reward_span_length C) \<rparr>
      in if cm_era_reward_index m < cm_oldest_valid_era m then
           (case sm_get (pl_era_rewards s) (cm_era_reward_index m) of
              Some era_reward \<Rightarrow>
                if sp_last_era era_reward < cm_oldest_valid_era m
                then s\<lparr> pl_era_rewards := sm_remove (pl_era_rewards s) (cm_era_reward_index m), pl_history_cleanup_marker := skip \<rparr>
                else s
            | None \<Rightarrow> s\<lparr> pl_history_cleanup_marker := skip \<rparr>)
         else s)"

definition cleanup_dapp_tiers :: "('acc, 'sc, 'x) Storage \<Rightarrow> ('acc, 'sc, 'x) Storage" where
  "cleanup_dapp_tiers s =
     (let m = pl_history_cleanup_marker s
      in if cm_dapp_tiers_index m < cm_oldest_valid_era m
         then s\<lparr> pl_dapp_tiers := sm_remove (pl_dapp_tiers s) (cm_dapp_tiers_index m),
                 pl_history_cleanup_marker := m\<lparr> cm_dapp_tiers_index := u32_add (cm_dapp_tiers_index m) 1 \<rparr> \<rparr>
         else s)"

definition expired_entry_cleanup ::
  "('acc, 'sc) Config \<Rightarrow> bool \<Rightarrow> ('acc, 'sc, 'x) Storage \<Rightarrow> ('acc, 'sc, 'x) Storage" where
  "expired_entry_cleanup C enough_weight s =
     (if \<not> enough_weight then s
      else if \<not> CleanupMarker_has_pending_cleanups (pl_history_cleanup_marker s) then s
      else cleanup_dapp_tiers (cleanup_era_reward C s))"

definition on_idle :: "('acc, 'sc) Config \<Rightarrow> bool \<Rightarrow> ('acc, 'sc, 'x) Storage \<Rightarrow> ('acc, 'sc, 'x) Storage" where
  "on_idle C enough_weight s = expired_entry_cleanup C enough_weight s"

end
