(* ===== verification/Machine.thy ===== *)
theory Machine
  imports Calls EraHandler
begin

text \<open>
  The dApp staking pallet as a state machine: its dispatchable calls as one datatype with a dispatcher, the
  hooks of a block, and the steps that take the storage from one state to the next, including any change of
  the other pallets' state between them. The checks of \<open>try_state\<close> (\<open>pallets/dapp-staking/src/lib.rs\<close>)
  are predicates of a state.
\<close>

section \<open>Calls and steps\<close>

datatype ('acc, 'sc) Call =
  Call_maintenance_mode bool
| Call_register 'acc 'sc
| Call_set_dapp_reward_beneficiary 'sc "'acc option"
| Call_set_dapp_owner 'sc 'acc
| Call_unbond_and_unstake 'sc Balance
| Call_withdraw_unbonded
| Call_unregister 'sc
| Call_lock Balance
| Call_unlock Balance
| Call_claim_unlocked
| Call_relock_unlocking
| Call_stake 'sc Balance
| Call_unstake 'sc Balance
| Call_claim_staker_rewards
| Call_claim_bonus_reward 'sc
| Call_claim_dapp_reward 'sc EraNumber
| Call_unstake_from_unregistered 'sc
| Call_cleanup_expired_entries
| Call_force ForcingType
| Call_claim_staker_rewards_for 'acc
| Call_claim_bonus_reward_for 'acc 'sc

definition dispatch ::
  "('acc, 'sc) Config \<Rightarrow> ('acc, 'x) Runtime \<Rightarrow> 'acc RawOrigin \<Rightarrow> ('acc, 'sc) Call \<Rightarrow> ('acc, 'sc, 'x) Storage \<Rightarrow> ('acc, 'sc, 'x) dispatch_result option" where
  "dispatch C R origin c s = (case c of
       Call_maintenance_mode enabled \<Rightarrow> Some (maintenance_mode C origin enabled s)
     | Call_register owner sc \<Rightarrow> Some (register C origin owner sc s)
     | Call_set_dapp_reward_beneficiary sc b \<Rightarrow> Some (set_dapp_reward_beneficiary origin sc b s)
     | Call_set_dapp_owner sc owner \<Rightarrow> Some (set_dapp_owner origin sc owner s)
     | Call_unbond_and_unstake sc amount \<Rightarrow> Some (unbond_and_unstake C R origin sc amount s)
     | Call_withdraw_unbonded \<Rightarrow> Some (withdraw_unbonded C R origin s)
     | Call_unregister sc \<Rightarrow> Some (unregister C origin sc s)
     | Call_lock amount \<Rightarrow> Some (lock C R origin amount s)
     | Call_unlock amount \<Rightarrow> Some (unlock C R origin amount s)
     | Call_claim_unlocked \<Rightarrow> Some (claim_unlocked C R origin s)
     | Call_relock_unlocking \<Rightarrow> Some (relock_unlocking C R origin s)
     | Call_stake sc amount \<Rightarrow> Some (stake C R origin sc amount s)
     | Call_unstake sc amount \<Rightarrow> Some (unstake C R origin sc amount s)
     | Call_claim_staker_rewards \<Rightarrow> claim_staker_rewards C R origin s
     | Call_claim_bonus_reward sc \<Rightarrow> Some (claim_bonus_reward C R origin sc s)
     | Call_claim_dapp_reward sc era \<Rightarrow> Some (claim_dapp_reward C R origin sc era s)
     | Call_unstake_from_unregistered sc \<Rightarrow> Some (unstake_from_unregistered R origin sc s)
     | Call_cleanup_expired_entries \<Rightarrow> Some (cleanup_expired_entries C R origin s)
     | Call_force forcing_type \<Rightarrow> Some (force R origin forcing_type s)
     | Call_claim_staker_rewards_for account \<Rightarrow> claim_staker_rewards_for C R origin account s
     | Call_claim_bonus_reward_for account sc \<Rightarrow> Some (claim_bonus_reward_for C R origin account sc s))"

text \<open>One step: a call that succeeds, the start of the next block, an idle block's cleanup, entering or
  leaving safe mode, or a change outside the pallet. A failed call changes nothing.\<close>

inductive pallet_step :: "('acc, 'sc) Config \<Rightarrow> ('acc, 'x) Runtime \<Rightarrow> ('acc, 'sc, 'x) Storage \<Rightarrow> ('acc, 'sc, 'x) Storage \<Rightarrow> bool"
  for C R where
  step_call: "dispatch C R origin c s = Some (Ok s') \<Longrightarrow> pallet_step C R s s'"
| step_block: "s' = on_initialize C R (Suc (pl_block_number s)) (s\<lparr> pl_block_number := Suc (pl_block_number s) \<rparr>) \<Longrightarrow> pallet_step C R s s'"
| step_idle: "s' = on_idle C enough_weight s \<Longrightarrow> pallet_step C R s s'"
| step_safe_mode: "s' = (if entered then SafeModeNotify_entered s else SafeModeNotify_exited s) \<Longrightarrow> pallet_step C R s s'"
| step_env: "s' = s\<lparr> pl_env := x \<rparr> \<Longrightarrow> pallet_step C R s s'"

text \<open>The bounds under which the pallet runs: the funds locked by all accounts fit a balance, and the era
  and the period have not reached the end of their width.\<close>

definition locked_funds :: "('acc, 'sc, 'x) Storage \<Rightarrow> nat" where
  "locked_funds s = sm_sum (\<lambda>l. al_locked l + chunk_sum (al_unlocking l)) (pl_ledger s)"

definition within_bounds :: "('acc, 'sc, 'x) Storage \<Rightarrow> bool" where
  "within_bounds s \<longleftrightarrow> locked_funds s \<le> u128_max \<and> ps_era (pl_active_protocol_state s) < u32_max
     \<and> ProtocolState_period_number (pl_active_protocol_state s) < u32_max"

inductive reachable :: "('acc, 'sc) Config \<Rightarrow> ('acc, 'x) Runtime \<Rightarrow> ('acc, 'sc, 'x) Storage \<Rightarrow> bool" for C R where
  reach_genesis: "GenesisConfig_build C R g (empty_storage x) = Some s \<Longrightarrow> reachable C R s"
| reach_step: "reachable C R s \<Longrightarrow> pallet_step C R s s' \<Longrightarrow> within_bounds s' \<Longrightarrow> reachable C R s'"

section \<open>The state checks of the pallet\<close>

definition try_state_ledger_entry :: "('acc, 'sc) Config \<Rightarrow> PeriodNumber \<Rightarrow> AccountLedger \<Rightarrow> bool" where
  "try_state_ledger_entry C period l \<longleftrightarrow>
     (let account_stake = AccountLedger_staked_amount l period in
      length (al_unlocking l) \<le> cf_max_unlocking_chunks C
      \<and> \<not> (account_stake > 0 \<and> account_stake < cf_minimum_stake_amount C)
      \<and> \<not> (AccountLedger_active_locked_amount l > 0 \<and> AccountLedger_active_locked_amount l < cf_minimum_locked_amount C)
      \<and> al_contract_stake_count l \<le> cf_max_number_of_staked_contracts C)"

definition try_state_ledger :: "('acc, 'sc) Config \<Rightarrow> ('acc, 'sc, 'x) Storage \<Rightarrow> bool" where
  "try_state_ledger C s \<longleftrightarrow>
     (let period = ProtocolState_period_number (pl_active_protocol_state s);
          era_info = pl_current_era_info s;
          ls = map snd (sm_iter (pl_ledger s)) in
      (\<forall>l \<in> set ls. try_state_ledger_entry C period l)
      \<and> sum_list (map (\<lambda>l. AccountLedger_staked_amount l period) ls) = EraInfo_total_staked_amount_next_era era_info
      \<and> sum_list (map AccountLedger_active_locked_amount ls) = ei_total_locked era_info
      \<and> sum_list (map AccountLedger_unlocking_amount ls) = ei_unlocking era_info)"

definition try_state_next_dapp_id :: "('acc, 'sc, 'x) Storage \<Rightarrow> bool" where
  "try_state_next_dapp_id s \<longleftrightarrow> length (pl_integrated_dapps s) mod 2 ^ 16 \<le> pl_next_dapp_id s
     \<and> length (sm_iter (pl_contract_stake s)) mod 2 ^ 16 \<le> pl_next_dapp_id s"

definition try_state_integrated_dapps :: "('acc, 'sc) Config \<Rightarrow> ('acc, 'sc, 'x) Storage \<Rightarrow> bool" where
  "try_state_integrated_dapps C s \<longleftrightarrow> length (pl_integrated_dapps s) \<le> cf_max_number_of_contracts C"

definition try_state_tiers :: "('acc, 'sc) Config \<Rightarrow> ('acc, 'sc, 'x) Storage \<Rightarrow> bool" where
  "try_state_tiers C s \<longleftrightarrow>
     (let n = cf_number_of_tiers C; p = pl_static_tier_params s; c = pl_tier_config s in
      n = length (tp_slot_distribution p) \<and> n = length (tp_reward_portion p) \<and> n = length (tp_tier_thresholds p)
      \<and> n = length (tc_slots_per_tier c) \<and> n = length (tc_reward_portion c) \<and> n = length (tc_tier_thresholds c))"

definition try_state_protocol :: "('acc, 'sc, 'x) Storage \<Rightarrow> bool" where
  "try_state_protocol s \<longleftrightarrow>
     (let protocol_state = pl_active_protocol_state s in
      length (sm_iter (pl_period_end s)) < pi_number (ps_period_info protocol_state)
      \<and> ps_era protocol_state \<noteq> 0
      \<and> pl_block_number s \<le> ps_next_era_start protocol_state)"

definition try_state_contract_stake :: "('acc, 'sc) Config \<Rightarrow> ('acc, 'sc, 'x) Storage \<Rightarrow> bool" where
  "try_state_contract_stake C s \<longleftrightarrow>
     (let period = ProtocolState_period_number (pl_active_protocol_state s) in
      \<forall>(_, k) \<in> set (sm_iter (pl_contract_stake s)).
        \<not> (ContractStakeAmount_total_staked_amount k period > 0 \<and> ContractStakeAmount_total_staked_amount k period < cf_minimum_stake_amount C))"

definition try_state_era_rewards :: "('acc, 'sc) Config \<Rightarrow> ('acc, 'sc, 'x) Storage \<Rightarrow> bool" where
  "try_state_era_rewards C s \<longleftrightarrow>
     (\<forall>(era, _) \<in> set (sm_iter (pl_dapp_tiers s)). \<exists>(_, span) \<in> set (sm_iter (pl_era_rewards s)). sp_first_era span \<le> era \<and> era \<le> sp_last_era span)
     \<and> (\<forall>(_, span) \<in> set (sm_iter (pl_era_rewards s)). EraRewardSpan_len span \<le> cf_era_reward_span_length C)"

definition do_try_state :: "('acc, 'sc) Config \<Rightarrow> ('acc, 'sc, 'x) Storage \<Rightarrow> bool" where
  "do_try_state C s \<longleftrightarrow> try_state_protocol s \<and> try_state_next_dapp_id s \<and> try_state_integrated_dapps C s
     \<and> try_state_tiers C s \<and> try_state_ledger C s \<and> try_state_contract_stake C s \<and> try_state_era_rewards C s"

end
