(* ===== verification/Invariants.thy ===== *)
theory Invariants
  imports Machine
begin

text \<open>
  The invariant of the dApp staking storage. The totals of the current era are the sums over all account
  ledgers; the stake of an account's ledger in the active period is the sum of its stakes on the contracts;
  every ledger and every staking entry respects the limits of the configuration. Each call and each hook
  keeps it, so it holds in every reachable state, and with it the pallet's own check of its ledgers.
\<close>

section \<open>The invariant\<close>

definition ledger_ok :: "('acc, 'sc) Config \<Rightarrow> PeriodNumber \<Rightarrow> AccountLedger \<Rightarrow> bool" where
  "ledger_ok C p l \<longleftrightarrow> chunks_wf (cf_max_unlocking_chunks C) (al_unlocking l) \<and> stake_wf l
     \<and> AccountLedger_staked_amount l p \<le> al_locked l
     \<and> sa_period (al_staked l) \<le> p \<and> (\<forall>f. al_staked_future l = Some f \<longrightarrow> sa_period f \<le> p)
     \<and> (al_locked l = 0 \<or> cf_minimum_locked_amount C \<le> al_locked l)
     \<and> al_contract_stake_count l \<le> cf_max_number_of_staked_contracts C"

definition info_ok :: "('acc, 'sc) Config \<Rightarrow> PeriodNumber \<Rightarrow> SingularStakingInfo \<Rightarrow> bool" where
  "info_ok C p i \<longleftrightarrow> sa_ok (si_staked i) \<and> SingularStakingInfo_period_number i \<le> p
     \<and> (SingularStakingInfo_period_number i = p \<longrightarrow> cf_minimum_stake_amount C \<le> sa_sum (si_staked i))"

text \<open>What an entry counts for in the stake of account \<open>a\<close> in period \<open>p\<close>.\<close>

definition info_amount :: "'acc \<Rightarrow> PeriodNumber \<Rightarrow> ('acc \<times> 'sc) \<times> SingularStakingInfo \<Rightarrow> nat" where
  "info_amount a p e = (if fst (fst e) = a \<and> SingularStakingInfo_period_number (snd e) = p then sa_sum (si_staked (snd e)) else 0)"

definition info_sum :: "'acc \<Rightarrow> PeriodNumber \<Rightarrow> ('acc \<times> 'sc, SingularStakingInfo) smap \<Rightarrow> nat" where
  "info_sum a p m = (\<Sum>e\<leftarrow>sm_iter m. info_amount a p e)"

abbreviation period_of :: "('acc, 'sc, 'x) Storage \<Rightarrow> PeriodNumber" where
  "period_of s \<equiv> ProtocolState_period_number (pl_active_protocol_state s)"

definition staking_inv :: "('acc, 'sc) Config \<Rightarrow> ('acc, 'sc, 'x) Storage \<Rightarrow> bool" where
  "staking_inv C s \<longleftrightarrow> sm_invar (pl_ledger s) \<and> sm_invar (pl_staker_info s)
     \<and> (\<forall>a l. sm_get (pl_ledger s) a = Some l \<longrightarrow> ledger_ok C (period_of s) l)
     \<and> (\<forall>k i. sm_get (pl_staker_info s) k = Some i \<longrightarrow> info_ok C (period_of s) i)
     \<and> (\<forall>a. AccountLedger_staked_amount (ledger_of a s) (period_of s) = info_sum a (period_of s) (pl_staker_info s))
     \<and> locked_funds s \<le> u128_max
     \<and> sm_sum al_locked (pl_ledger s) = ei_total_locked (pl_current_era_info s)
     \<and> sm_sum (\<lambda>l. chunk_sum (al_unlocking l)) (pl_ledger s) = ei_unlocking (pl_current_era_info s)
     \<and> sm_sum (\<lambda>l. AccountLedger_staked_amount l (period_of s)) (pl_ledger s) = sa_sum (ei_next_stake_amount (pl_current_era_info s))
     \<and> (\<forall>q i. sm_get (pl_period_end s) q = Some i \<longrightarrow> pe_final_era i < ps_era (pl_active_protocol_state s))
     \<and> sm_invar (pl_period_end s) \<and> 0 < period_of s \<and> ps_era (pl_active_protocol_state s) < u32_max"

lemma staking_invD:
  assumes "staking_inv C s"
  shows "sm_invar (pl_ledger s)" "sm_invar (pl_staker_info s)"
    "sm_get (pl_ledger s) a = Some l \<Longrightarrow> ledger_ok C (period_of s) l"
    "sm_get (pl_staker_info s) k = Some i \<Longrightarrow> info_ok C (period_of s) i"
    "AccountLedger_staked_amount (ledger_of a s) (period_of s) = info_sum a (period_of s) (pl_staker_info s)"
    "locked_funds s \<le> u128_max"
    "sm_sum al_locked (pl_ledger s) = ei_total_locked (pl_current_era_info s)"
    "sm_sum (\<lambda>l. chunk_sum (al_unlocking l)) (pl_ledger s) = ei_unlocking (pl_current_era_info s)"
    "sm_sum (\<lambda>l. AccountLedger_staked_amount l (period_of s)) (pl_ledger s) = sa_sum (ei_next_stake_amount (pl_current_era_info s))"
    "sm_get (pl_period_end s) q = Some pe \<Longrightarrow> pe_final_era pe < ps_era (pl_active_protocol_state s)"
    "sm_invar (pl_period_end s)" "0 < period_of s" "ps_era (pl_active_protocol_state s) < u32_max"
  using assms unfolding staking_inv_def by blast+

section \<open>Shared lemmas\<close>

lemma default_ledger_simps [simp]:
  "al_locked AccountLedger_default = 0" "al_unlocking AccountLedger_default = []"
  "al_staked AccountLedger_default = StakeAmount_default" "al_staked_future AccountLedger_default = None"
  "al_contract_stake_count AccountLedger_default = 0" "AccountLedger_is_empty AccountLedger_default"
  "AccountLedger_staked_amount AccountLedger_default p = 0"
  by (simp_all add: AccountLedger_default_def AccountLedger_is_empty_def AccountLedger_staked_amount_def)

lemma ledger_ok_default [simp]: "ledger_ok C p AccountLedger_default"
  by (simp add: ledger_ok_def stake_wf_def)

lemma ledger_of_ok: "staking_inv C s \<Longrightarrow> ledger_ok C (period_of s) (ledger_of a s)"
  by (auto simp: ledger_of_def sm_get_or_def dest: staking_invD(3) split: option.split)

lemma sm_sum_mono: "(\<And>l. f l \<le> g l) \<Longrightarrow> sm_sum f m \<le> (sm_sum g m :: nat)"
  unfolding sm_sum_def by (rule sum_list_mono) simp

lemma sm_sum_add: "sm_sum (\<lambda>l. f l + g l) m = sm_sum f m + sm_sum g m"
  by (simp add: sm_sum_def sum_list_addf)

lemma sm_sum_le_mem:
  "sm_invar m \<Longrightarrow> (\<And>k l. sm_get m k = Some l \<Longrightarrow> f l \<le> g l) \<Longrightarrow> sm_sum f m \<le> (sm_sum g m :: nat)"
  unfolding sm_sum_def by (rule sum_list_mono) (metis prod.collapse sm.get_Some_iff)

lemma locked_funds_eq: "locked_funds s = sm_sum al_locked (pl_ledger s) + sm_sum (\<lambda>l. chunk_sum (al_unlocking l)) (pl_ledger s)"
  by (simp add: locked_funds_def sm_sum_add)

lemma ledger_fits:
  assumes "staking_inv C s"
  shows "al_locked (ledger_of a s) + chunk_sum (al_unlocking (ledger_of a s)) \<le> u128_max"
proof (cases "sm_get (pl_ledger s) a")
  case None
  then show ?thesis by (simp add: ledger_of_def sm_get_or_def)
next
  case (Some l)
  from sm_sum_ge_entry [OF staking_invD(1) [OF assms] this, of "\<lambda>l. al_locked l + chunk_sum (al_unlocking l)"]
  show ?thesis using Some staking_invD(6) [OF assms] by (simp add: ledger_of_def sm_get_or_def locked_funds_def)
qed

lemma empty_ledger_zero:
  "AccountLedger_is_empty l \<Longrightarrow> al_locked l = 0" "AccountLedger_is_empty l \<Longrightarrow> al_unlocking l = []"
  "AccountLedger_is_empty l \<Longrightarrow> AccountLedger_staked_amount l p = 0"
  by (auto simp: AccountLedger_is_empty_def AccountLedger_staked_amount_def)

text \<open>The entry of one account after a write: removed when the ledger is empty.\<close>

definition ledger_written :: "('acc, 'sc, 'x) Storage \<Rightarrow> 'acc \<Rightarrow> AccountLedger \<Rightarrow> ('acc, AccountLedger) smap \<Rightarrow> bool" where
  "ledger_written s a l m \<longleftrightarrow> m = sm_put (pl_ledger s) a l \<or> AccountLedger_is_empty l \<and> m = sm_remove (pl_ledger s) a"

lemma update_ledger_Ok:
  assumes "update_ledger R a l s = Ok s'"
  obtains m x where "ledger_written s a l m" "s' = s\<lparr> pl_ledger := m, pl_env := x \<rparr>"
  using assms by (auto simp: update_ledger_def ledger_written_def and_then_Ok_iff split: if_splits)

lemma written_sum:
  assumes "sm_invar (pl_ledger s)" and "ledger_written s a l m"
    and "f AccountLedger_default = 0" and "AccountLedger_is_empty l \<Longrightarrow> f l = 0"
  shows "sm_sum f m + f (ledger_of a s) = sm_sum f (pl_ledger s) + f l"
proof (cases "sm_get (pl_ledger s) a")
  case None
  then show ?thesis
    using assms sm_sum_put [OF assms(1), of f a l] sm_sum_remove [OF assms(1), of f a]
    by (auto simp: ledger_written_def ledger_of_def sm_get_or_def)
next
  case (Some l0)
  then show ?thesis
    using assms sm_sum_put [OF assms(1), of f a l] sm_sum_remove [OF assms(1), of f a]
    by (auto simp: ledger_written_def ledger_of_def sm_get_or_def)
qed

lemma written_get:
  assumes "sm_invar (pl_ledger s)" and "ledger_written s a l m"
  shows "sm_invar m" and "sm_get m b = (if b = a then (if sm_get m a = None then None else Some l) else sm_get (pl_ledger s) b)"
    and "sm_get m a = None \<Longrightarrow> AccountLedger_is_empty l"
  using assms by (auto simp: ledger_written_def)

text \<open>The one argument all calls share: a write of one account's ledger keeps the invariant when the ledger
  is well formed, the totals move by the same amounts, and the staking entries of that account add up.\<close>

lemma inv_ledger_update:
  assumes inv: "staking_inv C s" and w: "ledger_written s a l' (pl_ledger s')"
    and ok: "ledger_ok C (period_of s) l'"
    and same: "pl_active_protocol_state s' = pl_active_protocol_state s" "pl_period_end s' = pl_period_end s"
    and infos: "sm_invar (pl_staker_info s')" "\<And>k i. sm_get (pl_staker_info s') k = Some i \<Longrightarrow> info_ok C (period_of s) i"
      "info_sum a (period_of s) (pl_staker_info s') = AccountLedger_staked_amount l' (period_of s)"
      "\<And>b. b \<noteq> a \<Longrightarrow> info_sum b (period_of s) (pl_staker_info s') = info_sum b (period_of s) (pl_staker_info s)"
    and locked: "ei_total_locked (pl_current_era_info s') + al_locked (ledger_of a s) = ei_total_locked (pl_current_era_info s) + al_locked l'"
    and unlocking: "ei_unlocking (pl_current_era_info s') + chunk_sum (al_unlocking (ledger_of a s)) = ei_unlocking (pl_current_era_info s) + chunk_sum (al_unlocking l')"
    and staked: "sa_sum (ei_next_stake_amount (pl_current_era_info s')) + AccountLedger_staked_amount (ledger_of a s) (period_of s)
      = sa_sum (ei_next_stake_amount (pl_current_era_info s)) + AccountLedger_staked_amount l' (period_of s)"
    and funds: "locked_funds s' \<le> u128_max"
  shows "staking_inv C s'"
proof -
  let ?p = "period_of s"
  note D = staking_invD [OF inv]
  note sum = written_sum [OF D(1) w]
  note get = written_get [OF D(1) w]
  have 1: "ledger_ok C ?p l" if "sm_get (pl_ledger s') b = Some l" for b l
    using that get(2) [of b] ok D(3) by (auto split: if_splits)
  have 2: "AccountLedger_staked_amount (ledger_of b s') ?p = info_sum b ?p (pl_staker_info s')" for b
  proof (cases "b = a")
    case True
    then show ?thesis
      using get(2) [of a] get(3) infos(3) empty_ledger_zero(3) [of l' ?p]
      by (auto simp: ledger_of_def sm_get_or_def split: option.split)
  next
    case False
    then have "ledger_of b s' = ledger_of b s" using get(2) [of b] by (simp add: ledger_of_def sm_get_or_def)
    with D(5) [of b] infos(4) [OF False] show ?thesis by simp
  qed
  have 3: "sm_sum al_locked (pl_ledger s') = ei_total_locked (pl_current_era_info s')"
    using sum [of al_locked] empty_ledger_zero(1) [of l'] locked D(7) by simp
  have 4: "sm_sum (\<lambda>l. chunk_sum (al_unlocking l)) (pl_ledger s') = ei_unlocking (pl_current_era_info s')"
    using sum [of "\<lambda>l. chunk_sum (al_unlocking l)"] empty_ledger_zero(2) [of l'] unlocking D(8) by simp
  have 5: "sm_sum (\<lambda>l. AccountLedger_staked_amount l ?p) (pl_ledger s') = sa_sum (ei_next_stake_amount (pl_current_era_info s'))"
    using sum [of "\<lambda>l. AccountLedger_staked_amount l ?p"] empty_ledger_zero(3) [of l' ?p] staked D(9) by simp
  show ?thesis
    unfolding staking_inv_def same using get(1) infos(1,2) 1 2 3 4 5 funds D(10-13) by auto
qed

text \<open>The common case: the staking entries and the account's stake do not change.\<close>

lemma inv_ledger_update_locks:
  assumes inv: "staking_inv C s" and w: "ledger_written s a l' (pl_ledger s')"
    and ok: "ledger_ok C (period_of s) l'"
    and same: "pl_active_protocol_state s' = pl_active_protocol_state s" "pl_period_end s' = pl_period_end s"
      "pl_staker_info s' = pl_staker_info s" "sa_sum (ei_next_stake_amount (pl_current_era_info s')) = sa_sum (ei_next_stake_amount (pl_current_era_info s))"
      "AccountLedger_staked_amount l' (period_of s) = AccountLedger_staked_amount (ledger_of a s) (period_of s)"
    and locked: "ei_total_locked (pl_current_era_info s') + al_locked (ledger_of a s) = ei_total_locked (pl_current_era_info s) + al_locked l'"
    and unlocking: "ei_unlocking (pl_current_era_info s') + chunk_sum (al_unlocking (ledger_of a s)) = ei_unlocking (pl_current_era_info s) + chunk_sum (al_unlocking l')"
    and funds: "locked_funds s' \<le> u128_max"
  shows "staking_inv C s'"
  using staking_invD [OF inv] same locked unlocking
  by (intro inv_ledger_update [OF inv w ok same(1,2) _ _ _ _ _ _ _ funds]) auto

lemma totals_ge:
  assumes "staking_inv C s"
  shows "al_locked (ledger_of a s) \<le> ei_total_locked (pl_current_era_info s)"
    and "chunk_sum (al_unlocking (ledger_of a s)) \<le> ei_unlocking (pl_current_era_info s)"
    and "AccountLedger_staked_amount (ledger_of a s) (period_of s) \<le> sa_sum (ei_next_stake_amount (pl_current_era_info s))"
    and "ei_total_locked (pl_current_era_info s) + ei_unlocking (pl_current_era_info s) = locked_funds s"
    and "sa_sum (ei_next_stake_amount (pl_current_era_info s)) \<le> ei_total_locked (pl_current_era_info s)"
proof -
  note D = staking_invD [OF assms]
  have "f (ledger_of a s) \<le> sm_sum f (pl_ledger s)" if "f AccountLedger_default = 0" for f :: "AccountLedger \<Rightarrow> nat"
    using that sm_sum_ge_entry [OF D(1), of a] by (auto simp: ledger_of_def sm_get_or_def split: option.split)
  from this [of al_locked] this [of "\<lambda>l. chunk_sum (al_unlocking l)"] this [of "\<lambda>l. AccountLedger_staked_amount l (period_of s)"]
  show "al_locked (ledger_of a s) \<le> ei_total_locked (pl_current_era_info s)"
    "chunk_sum (al_unlocking (ledger_of a s)) \<le> ei_unlocking (pl_current_era_info s)"
    "AccountLedger_staked_amount (ledger_of a s) (period_of s) \<le> sa_sum (ei_next_stake_amount (pl_current_era_info s))"
    by (simp_all add: D(7,8,9))
  show "ei_total_locked (pl_current_era_info s) + ei_unlocking (pl_current_era_info s) = locked_funds s"
    by (simp add: locked_funds_eq D(7,8))
  show "sa_sum (ei_next_stake_amount (pl_current_era_info s)) \<le> ei_total_locked (pl_current_era_info s)"
    unfolding D(7,9) [symmetric] by (rule sm_sum_le_mem [OF D(1)]) (auto dest: D(3) simp: ledger_ok_def)
qed

text \<open>Calls that touch neither the ledgers nor the totals.\<close>

lemma inv_frame:
  assumes "staking_inv C s" and "pl_ledger s' = pl_ledger s" "pl_staker_info s' = pl_staker_info s"
    "pl_current_era_info s' = pl_current_era_info s" "pl_period_end s' = pl_period_end s"
    "period_of s' = period_of s" "ps_era (pl_active_protocol_state s') = ps_era (pl_active_protocol_state s)"
  shows "staking_inv C s'"
  using assms by (simp add: staking_inv_def ledger_of_def locked_funds_def)

section \<open>Locking and unlocking\<close>

text \<open>A balance of the currency fits its type.\<close>

definition runtime_ok :: "('acc, 'x) Runtime \<Rightarrow> bool" where
  "runtime_ok R \<longleftrightarrow> (\<forall>x a. rt_total_balance R x a \<le> u128_max)"

lemma ensure_pallet_enabled_Ok [simp]: "ensure_pallet_enabled s = Ok u \<longleftrightarrow> \<not> ps_maintenance (pl_active_protocol_state s)"
  by (simp add: ensure_pallet_enabled_def)

lemma staked_amount_lock [simp]:
  "AccountLedger_staked_amount (l\<lparr> al_locked := n \<rparr>) p = AccountLedger_staked_amount l p"
  "AccountLedger_staked_amount (l\<lparr> al_unlocking := cs \<rparr>) p = AccountLedger_staked_amount l p"
  "AccountLedger_staked_amount (l\<lparr> al_contract_stake_count := k \<rparr>) p = AccountLedger_staked_amount l p"
  by (simp_all add: AccountLedger_staked_amount_def split: option.split)

lemma stake_wf_lock [simp]:
  "stake_wf (l\<lparr> al_locked := n \<rparr>) = stake_wf l" "stake_wf (l\<lparr> al_unlocking := cs \<rparr>) = stake_wf l"
  "stake_wf (l\<lparr> al_contract_stake_count := k \<rparr>) = stake_wf l"
  by (simp_all add: stake_wf_def cong: option.case_cong)

lemma total_locked_eq:
  "al_locked l + chunk_sum (al_unlocking l) \<le> u128_max \<Longrightarrow> AccountLedger_total_locked_amount l = al_locked l + chunk_sum (al_unlocking l)"
  by (simp add: AccountLedger_total_locked_amount_def AccountLedger_active_locked_amount_def unlocking_amount_eq sat_add_exact)

lemma lock_OkE:
  assumes "lock C R origin amount s = Ok s'"
  obtains a amt m x ev where "amt = min (rt_total_balance R (pl_env s) a - AccountLedger_total_locked_amount (ledger_of a s)) amount"
    "amt \<noteq> 0" "cf_minimum_locked_amount C \<le> u128_add (al_locked (ledger_of a s)) amt"
    "ledger_written s a (AccountLedger_add_lock_amount amt (ledger_of a s)) m"
    "s' = s\<lparr> pl_ledger := m, pl_env := x, pl_current_era_info := EraInfo_add_locked amt (pl_current_era_info s), pl_events := ev \<rparr>"
    "origin = Signed a"
proof -
  from assms obtain a s1 where signed: "origin = Signed a" and up: "update_ledger R a (AccountLedger_add_lock_amount
        (min (rt_total_balance R (pl_env s) a - AccountLedger_total_locked_amount (ledger_of a s)) amount) (ledger_of a s)) s = Ok s1"
    and rest: "min (rt_total_balance R (pl_env s) a - AccountLedger_total_locked_amount (ledger_of a s)) amount \<noteq> 0"
      "cf_minimum_locked_amount C \<le> u128_add (al_locked (ledger_of a s)) (min (rt_total_balance R (pl_env s) a - AccountLedger_total_locked_amount (ledger_of a s)) amount)"
      "s' = deposit_event (Locked a (min (rt_total_balance R (pl_env s) a - AccountLedger_total_locked_amount (ledger_of a s)) amount))
        (s1\<lparr> pl_current_era_info := EraInfo_add_locked (min (rt_total_balance R (pl_env s) a - AccountLedger_total_locked_amount (ledger_of a s)) amount) (pl_current_era_info s1) \<rparr>)"
    by (auto simp: lock_def and_then_Ok_iff Let_def AccountLedger_active_locked_amount_def AccountLedger_add_lock_amount_def)
  from up show thesis
    by (rule update_ledger_Ok) (use signed rest that in \<open>auto simp: deposit_event_def\<close>)
qed

lemma lock_inv:
  assumes inv: "staking_inv C s" and ok: "lock C R origin amount s = Ok s'" and funds: "locked_funds s' \<le> u128_max"
    and R: "runtime_ok R"
  shows "staking_inv C s'"
proof -
  from ok obtain a amt m x ev where amt: "amt = min (rt_total_balance R (pl_env s) a - AccountLedger_total_locked_amount (ledger_of a s)) amount"
    "amt \<noteq> 0" "cf_minimum_locked_amount C \<le> u128_add (al_locked (ledger_of a s)) amt"
    and w: "ledger_written s a (AccountLedger_add_lock_amount amt (ledger_of a s)) m"
    and s': "s' = s\<lparr> pl_ledger := m, pl_env := x, pl_current_era_info := EraInfo_add_locked amt (pl_current_era_info s), pl_events := ev \<rparr>"
    by (rule lock_OkE) blast
  let ?l = "ledger_of a s" and ?l' = "AccountLedger_add_lock_amount amt (ledger_of a s)"
  note lok = ledger_of_ok [OF inv, of a]
  have "rt_total_balance R (pl_env s) a \<le> u128_max" using R by (simp add: runtime_ok_def)
  then have fits: "al_locked ?l + amt \<le> u128_max"
    using amt(1,2) by (auto simp: total_locked_eq [OF ledger_fits [OF inv]])
  then have l': "?l' = ?l\<lparr> al_locked := al_locked ?l + amt \<rparr>" by (simp add: AccountLedger_add_lock_amount_def sat_add_exact)
  have sum: "sm_sum al_locked m + al_locked ?l = sm_sum al_locked (pl_ledger s) + al_locked ?l'"
    using empty_ledger_zero(1) by (intro written_sum [OF staking_invD(1) [OF inv] w]) auto
  have "ei_total_locked (pl_current_era_info s) + amt \<le> u128_max"
    using sum funds by (simp add: s' locked_funds_eq l' staking_invD(7) [OF inv])
  then have ei: "u128_add (ei_total_locked (pl_current_era_info s)) amt = ei_total_locked (pl_current_era_info s) + amt"
    by (rule sat_add_exact)
  show ?thesis
  proof (rule inv_ledger_update_locks [OF inv _ _ _ _ _ _ _ _ _ funds])
    show "ledger_written s a ?l' (pl_ledger s')" using w by (simp add: s')
    show "ledger_ok C (period_of s) ?l'" using lok amt(3) fits by (auto simp: ledger_ok_def l' sat_add_exact)
  qed (simp_all add: s' l' ei EraInfo_add_locked_def)
qed

lemma amount_to_unlock_Ok:
  assumes "amount_to_unlock C p amount l = Ok u"
  shows "u \<le> al_locked l" "al_locked l - u = 0 \<or> cf_minimum_locked_amount C \<le> al_locked l - u"
    "AccountLedger_staked_amount l p \<le> al_locked l \<longrightarrow> AccountLedger_staked_amount l p \<le> al_locked l - u"
  using assms
  by (auto simp: amount_to_unlock_def Let_def AccountLedger_active_locked_amount_def AccountLedger_unlockable_amount_def
      and_then_Ok_iff min_def split: if_splits)

lemma unlock_OkE:
  assumes "unlock C R origin amount s = Ok s'"
  obtains a u l1 m x ev where "u \<noteq> 0" "amount_to_unlock C (period_of s) amount (ledger_of a s) = Ok u"
    "AccountLedger_add_unlocking_chunk (cf_max_unlocking_chunks C) u (u32_add (pl_block_number s) (unlocking_period C))
      ((ledger_of a s)\<lparr> al_locked := al_locked (ledger_of a s) - u \<rparr>) = Ok l1"
    "ledger_written s a l1 m"
    "s' = s\<lparr> pl_ledger := m, pl_env := x, pl_current_era_info := EraInfo_unlocking_started u (pl_current_era_info s), pl_events := ev \<rparr>"
proof -
  from assms obtain a u l1 s1 where "amount_to_unlock C (period_of s) amount (ledger_of a s) = Ok u" "u \<noteq> 0"
      "AccountLedger_add_unlocking_chunk (cf_max_unlocking_chunks C) u (u32_add (pl_block_number s) (unlocking_period C))
        ((ledger_of a s)\<lparr> al_locked := al_locked (ledger_of a s) - u \<rparr>) = Ok l1"
      and up: "update_ledger R a l1 s = Ok s1"
      and s': "s' = deposit_event (Unlocking a u) (s1\<lparr> pl_current_era_info := EraInfo_unlocking_started u (pl_current_era_info s1) \<rparr>)"
    by (auto simp: unlock_def and_then_Ok_iff Let_def AccountLedger_subtract_lock_amount_def ProtocolState_period_number_def)
  moreover from up obtain m x where "ledger_written s a l1 m" "s1 = s\<lparr> pl_ledger := m, pl_env := x \<rparr>" by (rule update_ledger_Ok)
  ultimately show thesis by (intro that) (auto simp: deposit_event_def)
qed

lemma unlock_inv:
  assumes inv: "staking_inv C s" and ok: "unlock C R origin amount s = Ok s'"
  shows "staking_inv C s'"
proof -
  from ok obtain a u l1 m x ev where u0: "u \<noteq> 0" and am: "amount_to_unlock C (period_of s) amount (ledger_of a s) = Ok u"
    and ch: "AccountLedger_add_unlocking_chunk (cf_max_unlocking_chunks C) u (u32_add (pl_block_number s) (unlocking_period C))
      ((ledger_of a s)\<lparr> al_locked := al_locked (ledger_of a s) - u \<rparr>) = Ok l1"
    and w: "ledger_written s a l1 m"
    and s': "s' = s\<lparr> pl_ledger := m, pl_env := x, pl_current_era_info := EraInfo_unlocking_started u (pl_current_era_info s), pl_events := ev \<rparr>"
    by (rule unlock_OkE)
  let ?l = "ledger_of a s"
  note u = u0 amount_to_unlock_Ok(1,2) [OF am] and st = amount_to_unlock_Ok(3) [OF am]
  note lok = ledger_of_ok [OF inv, of a] and D = staking_invD [OF inv]
  have wf: "chunks_wf (cf_max_unlocking_chunks C) (al_unlocking (?l\<lparr> al_locked := al_locked ?l - u \<rparr>))"
    "0 < u" "chunk_sum (al_unlocking (?l\<lparr> al_locked := al_locked ?l - u \<rparr>)) + u \<le> u128_max"
    using lok u ledger_fits [OF inv, of a] by (auto simp: ledger_ok_def)
  from add_unlocking_chunk_correct [OF wf, of "u32_add (pl_block_number s) (unlocking_period C)"] ch
  have l1: "chunks_wf (cf_max_unlocking_chunks C) (al_unlocking l1)" "chunk_sum (al_unlocking l1) = chunk_sum (al_unlocking ?l) + u"
    "l1 = (?l\<lparr> al_locked := al_locked ?l - u \<rparr>)\<lparr> al_unlocking := al_unlocking l1 \<rparr>"
    by (auto split: if_splits)
  have eq: "al_locked l1 = al_locked ?l - u" "al_staked l1 = al_staked ?l" "al_staked_future l1 = al_staked_future ?l"
      "al_contract_stake_count l1 = al_contract_stake_count ?l"
      "AccountLedger_staked_amount l1 p = AccountLedger_staked_amount ?l p" "stake_wf l1 = stake_wf ?l" for p
    by (subst l1(3), simp)+
  have tot: "u \<le> ei_total_locked (pl_current_era_info s)" "ei_unlocking (pl_current_era_info s) + u \<le> u128_max"
    using totals_ge(1-3) [OF inv, of a] totals_ge(4) [OF inv] D(6) u(2) by linarith+
  have sum: "sm_sum f m + f ?l = sm_sum f (pl_ledger s) + f l1" if "f = (\<lambda>l. al_locked l + chunk_sum (al_unlocking l))" for f
    unfolding that using empty_ledger_zero(1,2) by (intro written_sum [OF D(1) w]) auto
  have funds: "locked_funds s' \<le> u128_max"
    using sum [OF refl] D(6) l1(2) eq(1) u(2) by (simp add: locked_funds_def s')
  show ?thesis
  proof (rule inv_ledger_update_locks [OF inv _ _ _ _ _ _ _ _ _ funds])
    show "ledger_written s a l1 (pl_ledger s')" using w by (simp add: s')
    show "ledger_ok C (period_of s) l1" using lok l1(1) st u by (auto simp: ledger_ok_def eq)
  qed (use u l1(2) tot in \<open>simp_all add: s' eq EraInfo_unlocking_started_def sat_add_exact\<close>)
qed

lemma consume_eq:
  "chunk_sum (al_unlocking l) \<le> u128_max \<Longrightarrow> AccountLedger_consume_unlocking_chunks l = (chunk_sum (al_unlocking l), l\<lparr> al_unlocking := [] \<rparr>)"
  by (simp add: AccountLedger_consume_unlocking_chunks_def fold_chunks)

lemma relock_inv:
  assumes inv: "staking_inv C s" and ok: "relock_unlocking C R origin s = Ok s'"
  shows "staking_inv C s'"
proof -
  from ok obtain a where origin: "origin = Signed a" by (auto simp: relock_unlocking_def and_then_Ok_iff)
  let ?l = "ledger_of a s"
  let ?n = "chunk_sum (al_unlocking ?l)"
  let ?l' = "?l\<lparr> al_unlocking := [], al_locked := al_locked ?l + ?n \<rparr>"
  note lok = ledger_of_ok [OF inv, of a] and D = staking_invD [OF inv] and fits = ledger_fits [OF inv, of a]
  have l': "AccountLedger_add_lock_amount ?n (?l\<lparr> al_unlocking := [] \<rparr>) = ?l'"
    using fits by (simp add: AccountLedger_add_lock_amount_def sat_add_exact)
  have consume: "AccountLedger_consume_unlocking_chunks ?l = (?n, ?l\<lparr> al_unlocking := [] \<rparr>)" using fits by (intro consume_eq) simp
  from ok obtain s1 where min: "cf_minimum_locked_amount C \<le> al_locked ?l'" and up: "update_ledger R a ?l' s = Ok s1"
    and s': "s' = deposit_event (Relock a ?n) (s1\<lparr> pl_current_era_info := EraInfo_unlocking_removed ?n (EraInfo_add_locked ?n (pl_current_era_info s1)) \<rparr>)"
    by (auto simp: relock_unlocking_def origin and_then_Ok_iff Let_def consume l' AccountLedger_active_locked_amount_def)
  from up obtain m x where w: "ledger_written s a ?l' m" and s1: "s1 = s\<lparr> pl_ledger := m, pl_env := x \<rparr>" by (rule update_ledger_Ok)
  have tot: "?n \<le> ei_unlocking (pl_current_era_info s)" "ei_total_locked (pl_current_era_info s) + ?n \<le> u128_max"
    using totals_ge(2) [OF inv, of a] totals_ge(4) [OF inv] D(6) by linarith+
  have "sm_sum f m + f ?l = sm_sum f (pl_ledger s) + f ?l'" if "f = (\<lambda>l. al_locked l + chunk_sum (al_unlocking l))" for f
    unfolding that using empty_ledger_zero(1,2) [of ?l'] by (intro written_sum [OF D(1) w]) auto
  from this [OF refl] have funds: "locked_funds s' \<le> u128_max" using D(6) by (simp add: locked_funds_def s' s1 deposit_event_def)
  show ?thesis
  proof (rule inv_ledger_update_locks [OF inv _ _ _ _ _ _ _ _ _ funds])
    show "ledger_written s a ?l' (pl_ledger s')" using w by (simp add: s' s1 deposit_event_def)
    show "ledger_ok C (period_of s) ?l'" using lok min by (auto simp: ledger_ok_def)
  qed (use tot in \<open>simp_all add: s' s1 deposit_event_def EraInfo_unlocking_removed_def EraInfo_add_locked_def sat_add_exact\<close>)
qed

text \<open>Removing staking entries.\<close>

lemma fold_remove_get:
  "sm_invar m \<Longrightarrow> sm_invar (fold (\<lambda>k m. sm_remove m k) ks m)
    \<and> sm_get (fold (\<lambda>k m. sm_remove m k) ks m) j = (if j \<in> set ks then None else sm_get m j)"
  by (induction ks arbitrary: m) auto

lemma info_sum_put:
  "sm_invar m \<Longrightarrow> info_sum a p (sm_put m k v) + (case sm_get m k of None \<Rightarrow> 0 | Some w \<Rightarrow> info_amount a p (k, w)) = info_sum a p m + info_amount a p (k, v)"
  using sm.sum_put [of m "info_amount a p" k v] by (simp add: info_sum_def)

lemma info_sum_remove:
  "sm_invar m \<Longrightarrow> info_sum a p (sm_remove m k) + (case sm_get m k of None \<Rightarrow> 0 | Some w \<Rightarrow> info_amount a p (k, w)) = info_sum a p m"
  using sm.sum_remove [of m "info_amount a p" k] by (simp add: info_sum_def)

lemma info_sum_fold_remove:
  assumes "sm_invar m" and "\<And>k w. k \<in> set ks \<Longrightarrow> sm_get m k = Some w \<Longrightarrow> info_amount a p (k, w) = 0"
  shows "info_sum a p (fold (\<lambda>k m. sm_remove m k) ks m) = info_sum a p m"
  using assms
proof (induction ks arbitrary: m)
  case (Cons k ks)
  have "info_sum a p (sm_remove m k) = info_sum a p m"
    using info_sum_remove [OF Cons.prems(1), of a p k] Cons.prems(2) [of k] by (auto split: option.splits)
  moreover have "info_sum a p (fold (\<lambda>k m. sm_remove m k) ks (sm_remove m k)) = info_sum a p (sm_remove m k)"
    using Cons.prems by (intro Cons.IH) (auto split: if_splits)
  ultimately show ?case by simp
qed simp

lemma info_sum_ge: "sm_invar m \<Longrightarrow> sm_get m k = Some w \<Longrightarrow> info_amount a p (k, w) \<le> info_sum a p m"
  using info_sum_remove [of m a p k] by (metis le_add2 option.simps(5))

text \<open>What the code relies on of a bounded \<open>clear_prefix\<close>: it removes keys with that prefix only.\<close>

definition config_ok :: "('acc, 'sc) Config \<Rightarrow> bool" where
  "config_ok C \<longleftrightarrow> (\<forall>n ks. set (cf_clear_prefix C n ks) \<subseteq> set ks) \<and> 0 < cf_minimum_stake_amount C"

lemma claim_unlocked_inv:
  assumes inv: "staking_inv C s" and ok: "internal_claim_unlocked C R a s = Ok s'" and C: "config_ok C"
  shows "staking_inv C s'"
proof -
  let ?l = "ledger_of a s" and ?p = "period_of s"
  note lok = ledger_of_ok [OF inv, of a] and D = staking_invD [OF inv] and fits = ledger_fits [OF inv, of a]
  obtain n l1 where cl: "AccountLedger_claim_unlocked (pl_block_number s) ?l = (n, l1)" by (cases "AccountLedger_claim_unlocked (pl_block_number s) ?l")
  define kept where "kept = filter (\<lambda>c. \<not> uc_unlock_block c \<le> pl_block_number s) (al_unlocking ?l)"
  have split: "n + chunk_sum kept = chunk_sum (al_unlocking ?l)" and l1: "l1 = ?l\<lparr> al_unlocking := kept \<rparr>"
    using cl fits chunk_sum_split [of "\<lambda>c. uc_unlock_block c \<le> pl_block_number s" "al_unlocking ?l"]
    by (auto simp: AccountLedger_claim_unlocked_def retain_locked_eq kept_def)
  define s0 where "s0 = (if AccountLedger_is_empty l1 then clear_staker_info C a (al_contract_stake_count l1) s else s)"
  from ok cl obtain s1 where up: "update_ledger R a l1 s0 = Ok s1"
    and s': "s' = deposit_event (ClaimedUnlocked a n) (s1\<lparr> pl_current_era_info := EraInfo_unlocking_removed n (pl_current_era_info s1) \<rparr>)"
    by (auto simp: internal_claim_unlocked_def and_then_Ok_iff Let_def s0_def)
  have s0: "s0 = s\<lparr> pl_staker_info := pl_staker_info s0 \<rparr>" by (simp add: s0_def clear_staker_info_def Let_def)
  from up obtain m x where w0: "ledger_written s0 a l1 m" and s1: "s1 = s0\<lparr> pl_ledger := m, pl_env := x \<rparr>" by (rule update_ledger_Ok)
  have w: "ledger_written s a l1 m" using w0 by (subst (asm) s0) (simp add: ledger_written_def)
  have st: "AccountLedger_staked_amount l1 ?p = AccountLedger_staked_amount ?l ?p" by (simp add: l1)
  obtain ks where ks: "pl_staker_info s0 = fold (\<lambda>k m. sm_remove m k) ks (pl_staker_info s)" "\<forall>k \<in> set ks. fst k = a"
      "ks \<noteq> [] \<longrightarrow> AccountLedger_is_empty l1"
  proof (cases "AccountLedger_is_empty l1")
    case True
    let ?keys = "filter (\<lambda>k. fst k = a) (map fst (sm_iter (pl_staker_info s)))"
    have "set (cf_clear_prefix C (al_contract_stake_count l1) ?keys) \<subseteq> set ?keys" using C unfolding config_ok_def by blast
    with True show ?thesis
      by (intro that [of "cf_clear_prefix C (al_contract_stake_count l1) ?keys"]) (auto simp: s0_def clear_staker_info_def Let_def)
  qed (use that [of "[]"] in \<open>simp add: s0_def\<close>)
  have zero: "info_amount b ?p (k, i) = 0" if "k \<in> set ks" "sm_get (pl_staker_info s) k = Some i" for b k i
  proof (cases "b = a")
    case True
    from that(1) ks(3) have "AccountLedger_is_empty l1" by auto
    with empty_ledger_zero(3) [of l1 ?p] D(5) [of a] st have "info_sum a ?p (pl_staker_info s) = 0" by simp
    with info_sum_ge [OF D(2) that(2), of a ?p] True show ?thesis by simp
  next
    case False
    with that(1) ks(2) show ?thesis by (simp add: info_amount_def)
  qed
  have infos: "info_sum b ?p (pl_staker_info s0) = info_sum b ?p (pl_staker_info s)" for b
    unfolding ks(1) by (rule info_sum_fold_remove [OF D(2)]) (rule zero)
  have tot: "n \<le> ei_unlocking (pl_current_era_info s)" using totals_ge(2) [OF inv, of a] split by linarith
  have sum: "sm_sum f m + f ?l = sm_sum f (pl_ledger s) + f l1" if "f = (\<lambda>l. al_locked l + chunk_sum (al_unlocking l))" for f
    unfolding that using empty_ledger_zero(1,2) [of l1] by (intro written_sum [OF D(1) w]) auto
  have fields: "pl_ledger s' = m" "pl_staker_info s' = pl_staker_info s0" "pl_active_protocol_state s' = pl_active_protocol_state s"
      "pl_period_end s' = pl_period_end s" "pl_current_era_info s' = EraInfo_unlocking_removed n (pl_current_era_info s)"
    by (simp_all add: s' s1 deposit_event_def) (simp_all add: s0_def clear_staker_info_def Let_def)
  have funds: "locked_funds s' \<le> u128_max" using sum [OF refl] D(6) split by (simp add: locked_funds_def fields l1)
  show ?thesis
  proof (rule inv_ledger_update [OF inv _ _ fields(3,4) _ _ _ _ _ _ _ funds])
    show "ledger_written s a l1 (pl_ledger s')" using w by (simp add: fields)
    show "ledger_ok C ?p l1" using lok by (auto simp: ledger_ok_def l1 kept_def chunks_wf_filter)
    show "sm_invar (pl_staker_info s')" unfolding fields ks(1) using fold_remove_get [OF D(2)] by blast
    show "info_ok C ?p i" if "sm_get (pl_staker_info s') k = Some i" for k i
      using that fold_remove_get [OF D(2), of ks k] D(4) by (auto simp: fields ks(1) split: if_splits)
  qed (use D(5) infos tot split in \<open>auto simp: fields st EraInfo_unlocking_removed_def l1\<close>)
qed

end
