(* ===== verification/StakeSteps.thy ===== *)
theory StakeSteps
  imports Invariants
begin

text \<open>
  The calls that move stake keep the invariant: \<open>stake\<close>, \<open>unstake\<close>, \<open>unstake_from_unregistered\<close>, the claims of
  staker and bonus rewards, and \<open>cleanup_expired_entries\<close>. Each proof first reads off what a successful call
  wrote and then applies the shared lemma on the write of one ledger.
\<close>

section \<open>Staking\<close>

lemma staked_period_None: "AccountLedger_staked_period l = None \<Longrightarrow> stake_wf l \<Longrightarrow> AccountLedger_staked_amount l p = 0"
  by (auto simp: AccountLedger_staked_period_def AccountLedger_staked_amount_def split: if_splits option.splits)

lemma staked_period_other:
  "AccountLedger_staked_period l = Some q \<Longrightarrow> stake_wf l \<Longrightarrow> q \<noteq> p \<Longrightarrow> AccountLedger_staked_amount l p = 0"
  by (auto simp: AccountLedger_staked_period_def AccountLedger_staked_amount_def stake_wf_def split: if_splits option.splits)

lemma cleanup_expired_ok:
  assumes "ledger_ok C p l" and "thr \<le> p"
  defines "l' \<equiv> snd (AccountLedger_maybe_cleanup_expired thr l)"
  shows "ledger_ok C p l'" "AccountLedger_staked_amount l' p = AccountLedger_staked_amount l p"
    "al_locked l' = al_locked l" "al_unlocking l' = al_unlocking l" "al_contract_stake_count l' = al_contract_stake_count l"
proof -
  show "al_locked l' = al_locked l" "al_unlocking l' = al_unlocking l" "al_contract_stake_count l' = al_contract_stake_count l"
    by (simp_all add: l'_def AccountLedger_maybe_cleanup_expired_def split: option.split)
  have eq: "l' = l \<or> (l' = cleared_ledger l \<and> AccountLedger_staked_amount l p = 0)"
    using assms staked_period_other [of l _ p]
    by (auto simp: l'_def AccountLedger_maybe_cleanup_expired_def cleared_ledger_def ledger_ok_def split: option.split)
  then show "AccountLedger_staked_amount l' p = AccountLedger_staked_amount l p" by auto
  from eq assms(1) show "ledger_ok C p l'"
    by (auto simp: ledger_ok_def) (auto simp: cleared_ledger_def)
qed

lemma add_stake_periods:
  assumes "AccountLedger_add_stake_amount a era pinfo l = Ok l'"
    and "sa_period (al_staked l) \<le> pi_number pinfo" "\<forall>f. al_staked_future l = Some f \<longrightarrow> sa_period f \<le> pi_number pinfo"
  shows "sa_period (al_staked l') \<le> pi_number pinfo" "\<forall>f. al_staked_future l' = Some f \<longrightarrow> sa_period f \<le> pi_number pinfo"
  using assms by (auto simp: AccountLedger_add_stake_amount_def Let_def split: if_splits result.splits option.splits)

lemma add_stake_ledger_ok:
  assumes ok: "ledger_ok C (pi_number pinfo) l" and add: "AccountLedger_add_stake_amount a era pinfo l = Ok l'"
    and a: "0 < a" and era: "era < u32_max" and fits: "al_locked l \<le> u128_max"
  shows "ledger_ok C (pi_number pinfo) l'"
    "AccountLedger_staked_amount l' (pi_number pinfo) = AccountLedger_staked_amount l (pi_number pinfo) + a"
    "al_locked l' = al_locked l" "al_unlocking l' = al_unlocking l" "al_contract_stake_count l' = al_contract_stake_count l"
proof -
  have wf: "stake_wf l" using ok by (simp add: ledger_ok_def)
  note c = add_stake_correct [OF wf era fits add a]
  have eq: "al_locked l' = al_locked l" "al_unlocking l' = al_unlocking l" "al_contract_stake_count l' = al_contract_stake_count l"
    by (subst c(4), simp)+
  obtain u where "AccountLedger_stake_unstake_argument_check l era pinfo = Ok u" by (rule add_stake_OkE [OF wf add a])
  from staked_amount_checked [OF wf this] c
  show st: "AccountLedger_staked_amount l' (pi_number pinfo) = AccountLedger_staked_amount l (pi_number pinfo) + a" by simp
  show "ledger_ok C (pi_number pinfo) l'"
    using ok c(1,5,6) add_stake_periods [OF add] eq by (simp add: ledger_ok_def)
  from eq show "al_locked l' = al_locked l" "al_unlocking l' = al_unlocking l"
    "al_contract_stake_count l' = al_contract_stake_count l" .
qed

lemma stake_OkE:
  assumes "stake C R origin sc amount s = Ok s'"
  obtains a d l1 info is_new l2 m x ev where "0 < amount"
    "AccountLedger_add_stake_amount amount (ps_era (pl_active_protocol_state s)) (ps_period_info (pl_active_protocol_state s))
      (snd (AccountLedger_maybe_cleanup_expired (oldest_claimable_period C (period_of s)) (ledger_of a s))) = Ok l1"
    "staking_info_for_stake (pl_active_protocol_state s) (oldest_claimable_period C (period_of s)) (sm_get (pl_staker_info s) (a, sc)) = Ok (info, is_new)"
    "cf_minimum_stake_amount C \<le> SingularStakingInfo_total_staked_amount
      (SingularStakingInfo_stake amount (ps_era (pl_active_protocol_state s)) (ProtocolState_subperiod (pl_active_protocol_state s)) info)"
    "l2 = (if is_new then l1\<lparr> al_contract_stake_count := u32_add (al_contract_stake_count l1) 1 \<rparr> else l1)"
    "is_new \<longrightarrow> al_contract_stake_count l2 \<le> cf_max_number_of_staked_contracts C"
    "ledger_written s a l2 m" "sm_get (pl_integrated_dapps s) sc = Some d"
    "s' = s\<lparr> pl_current_era_info := EraInfo_add_stake_amount amount (ProtocolState_subperiod (pl_active_protocol_state s)) (pl_current_era_info s),
        pl_ledger := m, pl_env := x,
        pl_staker_info := sm_put (pl_staker_info s) (a, sc)
          (SingularStakingInfo_stake amount (ps_era (pl_active_protocol_state s)) (ProtocolState_subperiod (pl_active_protocol_state s)) info),
        pl_contract_stake := sm_put (pl_contract_stake s) (di_id d) (ContractStakeAmount_stake amount (ps_period_info (pl_active_protocol_state s))
          (ps_era (pl_active_protocol_state s)) (contract_stake_of (di_id d) s)),
        pl_events := ev \<rparr>" "origin = Signed a"
proof -
  let ?ps = "pl_active_protocol_state s"
  let ?thr = "oldest_claimable_period C (period_of s)"
  let ?ei = "EraInfo_add_stake_amount amount (ProtocolState_subperiod ?ps) (pl_current_era_info s)"
  let ?stake = "SingularStakingInfo_stake amount (ps_era ?ps) (ProtocolState_subperiod ?ps)"
  from assms obtain a d l1 info is_new s1 where
      "origin = Signed a" "0 < amount" "sm_get (pl_integrated_dapps s) sc = Some d"
      "AccountLedger_add_stake_amount amount (ps_era ?ps) (ps_period_info ?ps) (snd (AccountLedger_maybe_cleanup_expired ?thr (ledger_of a s))) = Ok l1"
      "staking_info_for_stake ?ps ?thr (sm_get (pl_staker_info s) (a, sc)) = Ok (info, is_new)"
      "cf_minimum_stake_amount C \<le> SingularStakingInfo_total_staked_amount (?stake info)"
    and count: "(if is_new then ensure (al_contract_stake_count (if is_new then l1\<lparr> al_contract_stake_count := u32_add (al_contract_stake_count l1) 1 \<rparr> else l1)
          \<le> cf_max_number_of_staked_contracts C) (Module TooManyStakedContracts) else Ok ()) = Ok ()"
    and up: "update_ledger R a (if is_new then l1\<lparr> al_contract_stake_count := u32_add (al_contract_stake_count l1) 1 \<rparr> else l1)
        (s\<lparr> pl_current_era_info := ?ei \<rparr>) = Ok s1"
    and s': "s' = deposit_event (Stake a sc amount) (s1\<lparr> pl_staker_info := sm_put (pl_staker_info s1) (a, sc) (?stake info),
          pl_contract_stake := sm_put (pl_contract_stake s1) (di_id d) (ContractStakeAmount_stake amount (ps_period_info ?ps) (ps_era ?ps) (contract_stake_of (di_id d) s)) \<rparr>)"
    by (clarsimp simp: stake_def Let_def and_then_Ok_iff simp del: if_split)
  moreover from up obtain m x where "ledger_written (s\<lparr> pl_current_era_info := ?ei \<rparr>) a (if is_new then l1\<lparr> al_contract_stake_count := u32_add (al_contract_stake_count l1) 1 \<rparr> else l1) m"
    and "s1 = (s\<lparr> pl_current_era_info := ?ei \<rparr>)\<lparr> pl_ledger := m, pl_env := x \<rparr>" by (rule update_ledger_Ok)
  ultimately show thesis
    by (intro that [where a = a and d = d and m = m and x = x and is_new = is_new])
      (simp_all add: deposit_event_def ledger_written_def split: if_splits)
qed

lemma staking_info_for_stake_Ok:
  assumes "staking_info_for_stake ps thr e = Ok (info, is_new)"
  shows "e = Some info \<and> \<not> is_new \<and> SingularStakingInfo_period_number info = ProtocolState_period_number ps
    \<or> is_new \<and> info = SingularStakingInfo_new (ProtocolState_period_number ps) (ProtocolState_subperiod ps)
      \<and> (\<forall>i. e = Some i \<longrightarrow> SingularStakingInfo_period_number i \<noteq> ProtocolState_period_number ps)"
  using assms by (auto simp: staking_info_for_stake_def Let_def split: option.splits if_splits)

lemma sing_stake_fields:
  assumes "sa_sum (si_staked i) + a \<le> u128_max"
  shows "sa_sum (si_staked (SingularStakingInfo_stake a c sp i)) = sa_sum (si_staked i) + a"
    "sa_ok (si_staked (SingularStakingInfo_stake a c sp i))"
    "SingularStakingInfo_period_number (SingularStakingInfo_stake a c sp i) = SingularStakingInfo_period_number i"
  using assms by (simp_all add: SingularStakingInfo_stake_def Let_def sa_sum_add sa_ok_add SingularStakingInfo_period_number_def)

lemma stake_inv:
  assumes inv: "staking_inv C s" and ok: "stake C R origin sc amount s = Ok s'"
  shows "staking_inv C s'"
proof -
  let ?ps = "pl_active_protocol_state s" and ?p = "period_of s"
  let ?stake = "SingularStakingInfo_stake amount (ps_era ?ps) (ProtocolState_subperiod ?ps)"
  from ok obtain a d l1 info is_new l2 m x ev where amt: "0 < amount"
    and add: "AccountLedger_add_stake_amount amount (ps_era ?ps) (ps_period_info ?ps)
      (snd (AccountLedger_maybe_cleanup_expired (oldest_claimable_period C ?p) (ledger_of a s))) = Ok l1"
    and info: "staking_info_for_stake ?ps (oldest_claimable_period C ?p) (sm_get (pl_staker_info s) (a, sc)) = Ok (info, is_new)"
    and min: "cf_minimum_stake_amount C \<le> SingularStakingInfo_total_staked_amount (?stake info)"
    and l2: "l2 = (if is_new then l1\<lparr> al_contract_stake_count := u32_add (al_contract_stake_count l1) 1 \<rparr> else l1)"
    and count: "is_new \<longrightarrow> al_contract_stake_count l2 \<le> cf_max_number_of_staked_contracts C"
    and w: "ledger_written s a l2 m" and dapp: "sm_get (pl_integrated_dapps s) sc = Some d"
    and s': "s' = s\<lparr> pl_current_era_info := EraInfo_add_stake_amount amount (ProtocolState_subperiod ?ps) (pl_current_era_info s),
        pl_ledger := m, pl_env := x,
        pl_staker_info := sm_put (pl_staker_info s) (a, sc) (?stake info),
        pl_contract_stake := sm_put (pl_contract_stake s) (di_id d) (ContractStakeAmount_stake amount (ps_period_info ?ps)
          (ps_era ?ps) (contract_stake_of (di_id d) s)), pl_events := ev \<rparr>"
    by (rule stake_OkE) blast
  let ?l = "ledger_of a s"
  note D = staking_invD [OF inv] and lok = ledger_of_ok [OF inv, of a] and fits = ledger_fits [OF inv, of a]
  have pn: "pi_number (ps_period_info ?ps) = ?p" by (simp add: ProtocolState_period_number_def)
  have thr: "oldest_claimable_period C ?p \<le> ?p" by (simp add: oldest_claimable_period_def)
  note cl = cleanup_expired_ok [OF lok thr]
  note l1 = add_stake_ledger_ok [of C "ps_period_info ?ps", unfolded pn, OF cl(1) add amt D(13)]
  have fits1: "al_locked ?l \<le> u128_max" using fits by simp
  have l1: "ledger_ok C ?p l1" "AccountLedger_staked_amount l1 ?p = AccountLedger_staked_amount ?l ?p + amount"
    "al_locked l1 = al_locked ?l" "al_unlocking l1 = al_unlocking ?l"
    using l1 fits1 by (simp_all add: cl)
  have l2ok: "ledger_ok C ?p l2" and l2eq: "AccountLedger_staked_amount l2 ?p = AccountLedger_staked_amount ?l ?p + amount"
      "al_locked l2 = al_locked ?l" "al_unlocking l2 = al_unlocking ?l"
    using l1 count by (auto simp: l2 ledger_ok_def)
  have room: "AccountLedger_staked_amount ?l ?p + amount \<le> u128_max"
    using l2ok l2eq fits1 by (simp add: ledger_ok_def)
  have old: "(case sm_get (pl_staker_info s) (a, sc) of None \<Rightarrow> 0 | Some i \<Rightarrow> info_amount a ?p ((a, sc), i)) = sa_sum (si_staked info)"
    and per: "SingularStakingInfo_period_number info = ?p"
    using staking_info_for_stake_Ok [OF info]
    by (auto simp: info_amount_def SingularStakingInfo_new_def SingularStakingInfo_period_number_def sa_sum_def split: option.splits)
  have "sa_sum (si_staked info) \<le> info_sum a ?p (pl_staker_info s)"
    using old info_sum_ge [OF D(2), of "(a, sc)" _ a ?p] by (auto split: option.splits)
  then have "sa_sum (si_staked info) + amount \<le> u128_max" using room D(5) [of a] by simp
  note si = sing_stake_fields [OF this, of "ps_era ?ps" "ProtocolState_subperiod ?ps"]
  have iok: "info_ok C ?p (?stake info)"
    using si min per by (simp add: info_ok_def SingularStakingInfo_total_staked_amount_def sa_total_eq)
  have isum: "info_sum b ?p (sm_put (pl_staker_info s) (a, sc) (?stake info)) = info_sum b ?p (pl_staker_info s) + (if b = a then amount else 0)" for b
    using info_sum_put [OF D(2), of b ?p "(a, sc)" "?stake info"] old si per
    by (auto simp: info_amount_def split: option.splits if_splits)
  have "\<not> AccountLedger_is_empty l2" using empty_ledger_zero(3) [of l2 ?p] l2eq amt by auto
  then have sums: "sm_sum f m + f ?l = sm_sum f (pl_ledger s) + f l2" if "f AccountLedger_default = 0" for f
    by (intro written_sum [OF D(1) w]) (use that in simp_all)
  have get: "ledger_ok C ?p l" if "sm_get m b = Some l" for b l
    using that written_get(2) [OF D(1) w, of b] l2ok D(3) by (auto split: if_splits)
  have "sm_sum (\<lambda>l. AccountLedger_staked_amount l ?p) m \<le> sm_sum al_locked m"
    by (rule sm_sum_le_mem [OF written_get(1) [OF D(1) w]]) (auto dest: get simp: ledger_ok_def)
  then have next_fits: "sa_sum (ei_next_stake_amount (pl_current_era_info s)) + amount \<le> u128_max"
    using sums [of "\<lambda>l. AccountLedger_staked_amount l ?p"] sums [of al_locked] l2eq D(6-9)
    by (simp add: locked_funds_eq)
  have funds: "locked_funds s' \<le> u128_max"
    using sums [of "\<lambda>l. al_locked l + chunk_sum (al_unlocking l)"] D(6) l2eq by (simp add: locked_funds_def s')
  show ?thesis
  proof (rule inv_ledger_update [OF inv _ l2ok _ _ _ _ _ _ _ _ _ funds])
    show "info_ok C ?p i" if "sm_get (pl_staker_info s') k = Some i" for k i
      using that D(2,4) iok by (auto simp: s' split: if_splits)
  qed (use w D(2) isum D(5) [of a] l2eq next_fits in \<open>auto simp: s' EraInfo_add_stake_amount_def sa_sum_add\<close>)
qed

section \<open>Unstaking\<close>

lemma unstake_ledger_ok:
  assumes ok: "ledger_ok C (pi_number pinfo) l" and un: "AccountLedger_unstake_amount u era pinfo l = Ok l'" and u: "0 < u"
  shows "ledger_ok C (pi_number pinfo) l'" "AccountLedger_staked_amount l' (pi_number pinfo) + u = AccountLedger_staked_amount l (pi_number pinfo)"
    "al_locked l' = al_locked l" "al_unlocking l' = al_unlocking l" "al_contract_stake_count l' = al_contract_stake_count l"
proof -
  have wf: "stake_wf l" using ok by (simp add: ledger_ok_def)
  note c = unstake_correct [OF wf un u]
  have eq: "al_locked l' = al_locked l" "al_unlocking l' = al_unlocking l" "al_contract_stake_count l' = al_contract_stake_count l"
    by (subst c(5), simp)+
  obtain v where chk: "AccountLedger_stake_unstake_argument_check l era pinfo = Ok v"
    and l': "l' = l\<lparr> al_staked := (if sa_sum (al_staked l) \<le> u then StakeAmount_default else StakeAmount_subtract u (al_staked l)),
        al_staked_future := (case al_staked_future l of None \<Rightarrow> None
          | Some f \<Rightarrow> if sa_sum f \<le> u then None else Some (StakeAmount_subtract u f)) \<rparr>"
    by (rule unstake_OkE [OF wf un u])
  show st: "AccountLedger_staked_amount l' (pi_number pinfo) + u = AccountLedger_staked_amount l (pi_number pinfo)"
    using staked_amount_checked [OF wf chk] c by simp
  have "sa_period (al_staked l') \<le> pi_number pinfo" "\<forall>f. al_staked_future l' = Some f \<longrightarrow> sa_period f \<le> pi_number pinfo"
    using ok by (auto simp: ledger_ok_def l' split: option.splits)
  then show "ledger_ok C (pi_number pinfo) l'" using ok c(1) st eq by (simp add: ledger_ok_def)
  from eq show "al_locked l' = al_locked l" "al_unlocking l' = al_unlocking l" "al_contract_stake_count l' = al_contract_stake_count l" .
qed

text \<open>What \<open>unstake\<close> and \<open>unstake_from_unregistered\<close> share: the entry loses what the ledger and the era lose.\<close>

lemma inv_unstake:
  assumes inv: "staking_inv C s" and entry: "sm_get (pl_staker_info s) (a, sc) = Some i" "SingularStakingInfo_period_number i = period_of s"
    and u: "0 < u" "u \<le> sa_sum (si_staked i)"
    and un: "AccountLedger_unstake_amount u (ps_era (pl_active_protocol_state s)) (ps_period_info (pl_active_protocol_state s)) (ledger_of a s) = Ok l1"
    and l2: "l2 = l1\<lparr> al_contract_stake_count := k \<rparr>" "k \<le> al_contract_stake_count l1"
    and w: "ledger_written s a l2 (pl_ledger s')"
    and same: "pl_active_protocol_state s' = pl_active_protocol_state s" "pl_period_end s' = pl_period_end s"
    and ei: "pl_current_era_info s' = EraInfo_unstake_amount u (pl_current_era_info s)"
    and infos: "u = sa_sum (si_staked i) \<and> pl_staker_info s' = sm_remove (pl_staker_info s) (a, sc)
      \<or> info_ok C (period_of s) i' \<and> SingularStakingInfo_period_number i' = period_of s \<and> sa_sum (si_staked i') + u = sa_sum (si_staked i)
        \<and> pl_staker_info s' = sm_put (pl_staker_info s) (a, sc) i'"
  shows "staking_inv C s'"
proof -
  let ?l = "ledger_of a s" and ?p = "period_of s"
  note D = staking_invD [OF inv] and lok = ledger_of_ok [OF inv, of a]
  have pn: "pi_number (ps_period_info (pl_active_protocol_state s)) = ?p" by (simp add: ProtocolState_period_number_def)
  note l1 = unstake_ledger_ok [of C "ps_period_info (pl_active_protocol_state s)", unfolded pn, OF lok un u(1)]
  have l2ok: "ledger_ok C ?p l2" and l2eq: "AccountLedger_staked_amount l2 ?p + u = AccountLedger_staked_amount ?l ?p"
      "al_locked l2 = al_locked ?l" "al_unlocking l2 = al_unlocking ?l"
    using l1 l2 by (auto simp: ledger_ok_def)
  have inf: "info_sum b ?p (pl_staker_info s') + (if b = a then u else 0) = info_sum b ?p (pl_staker_info s)" for b
    using infos entry info_sum_remove [OF D(2), of b ?p "(a, sc)"] info_sum_put [OF D(2), of b ?p "(a, sc)" i'] u
    by (auto simp: info_amount_def)
  have "sm_sum f (pl_ledger s') + f ?l = sm_sum f (pl_ledger s) + f l2" if "f = (\<lambda>l. al_locked l + chunk_sum (al_unlocking l))" for f
    unfolding that using empty_ledger_zero(1,2) [of l2] by (intro written_sum [OF D(1) w]) auto
  from this [OF refl] have funds: "locked_funds s' \<le> u128_max" using D(6) l2eq by (simp add: locked_funds_def)
  have tot: "AccountLedger_staked_amount ?l ?p \<le> sa_sum (ei_next_stake_amount (pl_current_era_info s))" by (rule totals_ge(3) [OF inv])
  show ?thesis
  proof (rule inv_ledger_update [OF inv w l2ok same _ _ _ _ _ _ _ funds])
    show "sm_invar (pl_staker_info s')" using infos D(2) by auto
    show "info_ok C ?p j" if "sm_get (pl_staker_info s') k = Some j" for k j
      using that infos D(2) D(4) [of k] by (auto split: if_splits)
    show "info_sum a ?p (pl_staker_info s') = AccountLedger_staked_amount l2 ?p" using inf [of a] D(5) [of a] l2eq(1) by simp
    show "info_sum b ?p (pl_staker_info s') = info_sum b ?p (pl_staker_info s)" if "b \<noteq> a" for b using inf [of b] that by simp
  qed (use l2eq tot in \<open>simp_all add: ei EraInfo_unstake_amount_def\<close>)
qed

lemma sing_unstake_fields:
  assumes "SingularStakingInfo_unstake u c sp i = (i', ps)" "sa_ok (si_staked i)"
  shows "sa_sum (si_staked i') = sa_sum (si_staked i) - u" "sa_ok (si_staked i')"
    "u < sa_sum (si_staked i) \<longrightarrow> SingularStakingInfo_period_number i' = SingularStakingInfo_period_number i"
  using assms
  by (auto simp: SingularStakingInfo_unstake_def Let_def SingularStakingInfo_period_number_def sa_is_empty_iff split: prod.splits if_splits)

lemma unstake_staking_info_Ok:
  assumes "unstake_staking_info C ps amount e = Ok (i', u, pairs)" "0 < amount"
  obtains i where "e = Some i" "SingularStakingInfo_period_number i = ProtocolState_period_number ps" "amount \<le> StakeAmount_total (si_staked i)"
    "u = (if StakeAmount_total (si_staked i) - amount < cf_minimum_stake_amount C then StakeAmount_total (si_staked i) else amount)"
    "SingularStakingInfo_unstake u (ps_era ps) (ProtocolState_subperiod ps) i = (i', pairs)"
  using assms
  by (clarsimp simp: unstake_staking_info_def Let_def and_then_Ok_iff SingularStakingInfo_total_staked_amount_def
      simp del: if_split split: prod.split_asm cong: if_cong) (metis surj_pair)

lemma unstake_call_OkE:
  assumes "unstake C R origin sc amount s = Ok s'"
  obtains a d u i' pairs l1 s1 where "0 < amount" "sm_get (pl_integrated_dapps s) sc = Some d"
    "unstake_staking_info C (pl_active_protocol_state s) amount (sm_get (pl_staker_info s) (a, sc)) = Ok (i', u, pairs)"
    "AccountLedger_unstake_amount u (ps_era (pl_active_protocol_state s)) (ps_period_info (pl_active_protocol_state s)) (ledger_of a s) = Ok l1"
    "update_ledger R a (if SingularStakingInfo_is_empty i' then l1\<lparr> al_contract_stake_count := al_contract_stake_count l1 - 1 \<rparr> else l1)
       (s\<lparr> pl_current_era_info := EraInfo_unstake_amount u (pl_current_era_info s),
          pl_contract_stake := sm_put (pl_contract_stake s) (di_id d) (ContractStakeAmount_unstake pairs (ps_period_info (pl_active_protocol_state s))
            (ps_era (pl_active_protocol_state s)) (contract_stake_of (di_id d) s)),
          pl_staker_info := (if SingularStakingInfo_is_empty i' then sm_remove (pl_staker_info s) (a, sc) else sm_put (pl_staker_info s) (a, sc) i') \<rparr>) = Ok s1"
    "s' = deposit_event (Unstake a sc u) s1" "origin = Signed a"
  using assms
  by (clarsimp simp: unstake_def Let_def and_then_Ok_iff simp del: if_split cong: if_cong)

lemma unstake_inv:
  assumes inv: "staking_inv C s" and ok: "unstake C R origin sc amount s = Ok s'"
  shows "staking_inv C s'"
proof -
  let ?ps = "pl_active_protocol_state s"
  from ok obtain a d u i' pairs l1 s1 where amt: "0 < amount" and dapp: "sm_get (pl_integrated_dapps s) sc = Some d"
    and info: "unstake_staking_info C ?ps amount (sm_get (pl_staker_info s) (a, sc)) = Ok (i', u, pairs)"
    and un: "AccountLedger_unstake_amount u (ps_era ?ps) (ps_period_info ?ps) (ledger_of a s) = Ok l1"
    and up: "update_ledger R a (if SingularStakingInfo_is_empty i' then l1\<lparr> al_contract_stake_count := al_contract_stake_count l1 - 1 \<rparr> else l1)
       (s\<lparr> pl_current_era_info := EraInfo_unstake_amount u (pl_current_era_info s),
          pl_contract_stake := sm_put (pl_contract_stake s) (di_id d) (ContractStakeAmount_unstake pairs (ps_period_info ?ps)
            (ps_era ?ps) (contract_stake_of (di_id d) s)),
          pl_staker_info := (if SingularStakingInfo_is_empty i' then sm_remove (pl_staker_info s) (a, sc) else sm_put (pl_staker_info s) (a, sc) i') \<rparr>) = Ok s1"
    and s': "s' = deposit_event (Unstake a sc u) s1"
    by (rule unstake_call_OkE) blast
  from info amt obtain i where entry: "sm_get (pl_staker_info s) (a, sc) = Some i" "SingularStakingInfo_period_number i = period_of s"
    and le: "amount \<le> StakeAmount_total (si_staked i)"
    and u: "u = (if StakeAmount_total (si_staked i) - amount < cf_minimum_stake_amount C then StakeAmount_total (si_staked i) else amount)"
    and si: "SingularStakingInfo_unstake u (ps_era ?ps) (ProtocolState_subperiod ?ps) i = (i', pairs)"
    by (rule unstake_staking_info_Ok)
  have iok: "info_ok C (period_of s) i" using staking_invD(4) [OF inv entry(1)] .
  then have ok_i: "sa_ok (si_staked i)" by (simp add: info_ok_def)
  note f = sing_unstake_fields [OF si ok_i] and tot = sa_total_eq [OF ok_i]
  have u': "0 < u" "u \<le> sa_sum (si_staked i)" "u = sa_sum (si_staked i) \<or> cf_minimum_stake_amount C \<le> sa_sum (si_staked i) - u"
    using amt le u tot by auto
  let ?k = "if SingularStakingInfo_is_empty i' then al_contract_stake_count l1 - 1 else al_contract_stake_count l1"
  let ?l2 = "l1\<lparr> al_contract_stake_count := ?k \<rparr>"
  have l2: "(if SingularStakingInfo_is_empty i' then l1\<lparr> al_contract_stake_count := al_contract_stake_count l1 - 1 \<rparr> else l1) = ?l2" by simp
  from up [unfolded l2] obtain m x where w: "ledger_written s a ?l2 m" and s1: "pl_ledger s1 = m"
      "pl_current_era_info s1 = EraInfo_unstake_amount u (pl_current_era_info s)"
      "pl_staker_info s1 = (if SingularStakingInfo_is_empty i' then sm_remove (pl_staker_info s) (a, sc) else sm_put (pl_staker_info s) (a, sc) i')"
      "pl_active_protocol_state s1 = ?ps" "pl_period_end s1 = pl_period_end s"
    by (rule update_ledger_Ok) (simp add: ledger_written_def)
  have info': "u = sa_sum (si_staked i) \<and> pl_staker_info s' = sm_remove (pl_staker_info s) (a, sc)
      \<or> info_ok C (period_of s) i' \<and> SingularStakingInfo_period_number i' = period_of s \<and> sa_sum (si_staked i') + u = sa_sum (si_staked i)
        \<and> pl_staker_info s' = sm_put (pl_staker_info s) (a, sc) i'"
    using f u' iok entry(2) by (auto simp: s' s1 deposit_event_def SingularStakingInfo_is_empty_def sa_is_empty_iff info_ok_def)
  show ?thesis
    by (rule inv_unstake [OF inv entry u'(1,2) un refl _ _ _ _ _ info']) (use w in \<open>simp_all add: s' s1 deposit_event_def\<close>)
qed

lemma unstake_from_unregistered_inv:
  assumes inv: "staking_inv C s" and ok: "unstake_from_unregistered R origin sc s = Ok s'" and C: "config_ok C"
  shows "staking_inv C s'"
proof -
  let ?ps = "pl_active_protocol_state s"
  from ok obtain a i l1 s1 where entry: "sm_get (pl_staker_info s) (a, sc) = Some i" "SingularStakingInfo_period_number i = period_of s"
    and un: "AccountLedger_unstake_amount (StakeAmount_total (si_staked i)) (ps_era ?ps) (ps_period_info ?ps) (ledger_of a s) = Ok l1"
    and up: "update_ledger R a l1 (s\<lparr> pl_current_era_info := EraInfo_unstake_amount (StakeAmount_total (si_staked i)) (pl_current_era_info s) \<rparr>) = Ok s1"
    and s': "s' = deposit_event (UnstakeFromUnregistered a sc (StakeAmount_total (si_staked i)))
       (s1\<lparr> pl_staker_info := sm_remove (pl_staker_info s1) (a, sc) \<rparr>)"
    by (auto simp: unstake_from_unregistered_def Let_def and_then_Ok_iff SingularStakingInfo_total_staked_amount_def)
  have "info_ok C (period_of s) i" using staking_invD(4) [OF inv entry(1)] .
  then have tot: "StakeAmount_total (si_staked i) = sa_sum (si_staked i)" and pos: "0 < sa_sum (si_staked i)"
    using C entry(2) by (auto simp: info_ok_def sa_total_eq config_ok_def)
  from up obtain m x where w: "ledger_written s a l1 m" and s1: "s1 = s\<lparr> pl_current_era_info := EraInfo_unstake_amount (sa_sum (si_staked i)) (pl_current_era_info s),
      pl_ledger := m, pl_env := x \<rparr>"
    unfolding tot by (rule update_ledger_Ok) (auto simp: ledger_written_def)
  have l1: "l1 = l1\<lparr> al_contract_stake_count := al_contract_stake_count l1 \<rparr>" by simp
  show ?thesis
    by (rule inv_unstake [OF inv entry pos order_refl un [unfolded tot] l1 order_refl, of _ i])
      (use w in \<open>simp_all add: s' s1 deposit_event_def\<close>)
qed

section \<open>Claims and cleanup\<close>

lemma claimed_staked_amount: "stake_wf l \<Longrightarrow> AccountLedger_staked_amount (claimed_ledger era l) p = AccountLedger_staked_amount l p"
  by (auto simp: claimed_ledger_def AccountLedger_staked_amount_def stake_wf_def split: option.splits)

lemma ledger_ok_stakeI:
  assumes "ledger_ok C p l" "al_locked l' = al_locked l" "al_unlocking l' = al_unlocking l"
    "al_contract_stake_count l' \<le> al_contract_stake_count l" "stake_wf l'" "sa_period (al_staked l') \<le> p"
    "\<forall>g. al_staked_future l' = Some g \<longrightarrow> sa_period g \<le> p" "AccountLedger_staked_amount l' p \<le> AccountLedger_staked_amount l p"
  shows "ledger_ok C p l'"
  using assms by (auto simp: ledger_ok_def)

lemma claim_ledger_ok:
  assumes ok: "ledger_ok C p l" and e0: "AccountLedger_earliest_staked_era l = Some e0" and q: "AccountLedger_staked_period l = Some q"
    and claim: "AccountLedger_claim_up_to_era era pe l = Ok (it, l')" and era: "era < u32_max"
    and past: "pe \<noteq> None \<longrightarrow> q \<noteq> p"
  shows "ledger_ok C p l'" "AccountLedger_staked_amount l' p = AccountLedger_staked_amount l p"
    "al_locked l' = al_locked l" "al_unlocking l' = al_unlocking l"
proof -
  have wf: "stake_wf l" using ok by (simp add: ledger_ok_def)
  have le: "e0 \<le> era" using claim claim_too_early [OF e0, of era pe] by (cases "era < e0") auto
  have l': "l' = (if period_ended pe era then cleared_ledger l else claimed_ledger era l)"
    by (rule claim_up_to_era_eq [OF wf e0 le era, of pe]) (use claim in auto)
  show "al_locked l' = al_locked l" "al_unlocking l' = al_unlocking l" by (simp_all add: l' cleared_ledger_def claimed_ledger_def)
  show st: "AccountLedger_staked_amount l' p = AccountLedger_staked_amount l p"
    using past staked_period_other [OF q wf] claimed_staked_amount [OF wf] by (auto simp: l' period_ended_def split: option.splits)
  show "ledger_ok C p l'"
  proof (cases "period_ended pe era")
    case True
    with st show ?thesis by (intro ledger_ok_stakeI [OF ok]) (auto simp: l' cleared_ledger_def stake_wf_def)
  next
    case False
    then have "l' = claimed_ledger era l" by (simp add: l')
    with st ok claimed_ledger_correct(1) [OF wf e0 le] show ?thesis
      by (intro ledger_ok_stakeI [OF ok]) (simp_all add: claimed_ledger_def ledger_ok_def split: option.split)
  qed
qed

lemma claim_staker_OkE:
  assumes "internal_claim_staker_rewards_for C R a s = Some (Ok s')"
  obtains q e0 span last pe it l' rewards x s1 where
    "AccountLedger_staked_period (ledger_of a s) = Some q" "AccountLedger_earliest_staked_era (ledger_of a s) = Some e0"
    "sm_get (pl_era_rewards s) (era_reward_span_index C e0) = Some span" "claim_period q s = Ok (last, pe)"
    "AccountLedger_claim_up_to_era (min (sp_last_era span) last) pe (ledger_of a s) = Ok (it, l')"
    "update_ledger R a l' (s\<lparr> pl_env := x \<rparr>) = Ok s1"
    "s' = fold (\<lambda>(era, reward). deposit_event (Reward a era reward)) rewards s1"
  using assms
  by (auto simp: internal_claim_staker_rewards_for_def Let_def and_then_Ok_iff split: result.splits prod.splits)

lemma fold_events:
  "pl_ledger (fold (\<lambda>(era, reward). deposit_event (Reward a era reward)) rs s) = pl_ledger s"
  "pl_staker_info (fold (\<lambda>(era, reward). deposit_event (Reward a era reward)) rs s) = pl_staker_info s"
  "pl_current_era_info (fold (\<lambda>(era, reward). deposit_event (Reward a era reward)) rs s) = pl_current_era_info s"
  "pl_active_protocol_state (fold (\<lambda>(era, reward). deposit_event (Reward a era reward)) rs s) = pl_active_protocol_state s"
  "pl_period_end (fold (\<lambda>(era, reward). deposit_event (Reward a era reward)) rs s) = pl_period_end s"
  by (induction rs arbitrary: s) (auto simp: deposit_event_def)

lemma inv_ledger_same_funds:
  assumes inv: "staking_inv C s" and w: "ledger_written s a l' (pl_ledger s')" and ok: "ledger_ok C (period_of s) l'"
    and same: "pl_active_protocol_state s' = pl_active_protocol_state s" "pl_period_end s' = pl_period_end s" "pl_current_era_info s' = pl_current_era_info s"
    and eq: "AccountLedger_staked_amount l' (period_of s) = AccountLedger_staked_amount (ledger_of a s) (period_of s)"
      "al_locked l' = al_locked (ledger_of a s)" "al_unlocking l' = al_unlocking (ledger_of a s)"
    and infos: "sm_invar (pl_staker_info s')" "\<And>k i. sm_get (pl_staker_info s') k = Some i \<Longrightarrow> info_ok C (period_of s) i"
      "\<And>b. info_sum b (period_of s) (pl_staker_info s') = info_sum b (period_of s) (pl_staker_info s)"
  shows "staking_inv C s'"
proof -
  note D = staking_invD [OF inv]
  have "sm_sum f (pl_ledger s') + f (ledger_of a s) = sm_sum f (pl_ledger s) + f l'" if "f = (\<lambda>l. al_locked l + chunk_sum (al_unlocking l))" for f
    unfolding that using empty_ledger_zero(1,2) [of l'] by (intro written_sum [OF D(1) w]) auto
  from this [OF refl] have "locked_funds s' \<le> u128_max" using D(6) eq by (simp add: locked_funds_def)
  then show ?thesis
    using D(5) [of a] by (intro inv_ledger_update [OF inv w ok same(1,2) infos(1,2)]) (simp_all add: same(3) infos(3) eq)
qed

lemma claim_staker_inv:
  assumes inv: "staking_inv C s" and ok: "internal_claim_staker_rewards_for C R a s = Some (Ok s')"
  shows "staking_inv C s'"
proof -
  from ok obtain q e0 span last pe it l' rewards x s1 where
      q: "AccountLedger_staked_period (ledger_of a s) = Some q" and e0: "AccountLedger_earliest_staked_era (ledger_of a s) = Some e0"
    and span: "sm_get (pl_era_rewards s) (era_reward_span_index C e0) = Some span" and last: "claim_period q s = Ok (last, pe)"
    and claim: "AccountLedger_claim_up_to_era (min (sp_last_era span) last) pe (ledger_of a s) = Ok (it, l')"
    and up: "update_ledger R a l' (s\<lparr> pl_env := x \<rparr>) = Ok s1"
    and s': "s' = fold (\<lambda>(era, reward). deposit_event (Reward a era reward)) rewards s1"
    by (rule claim_staker_OkE)
  note D = staking_invD [OF inv]
  have lim: "last < u32_max" and past: "pe \<noteq> None \<longrightarrow> q \<noteq> period_of s"
    using last D(13) by (auto simp: claim_period_def Let_def and_then_Ok_iff split: if_splits dest: D(10))
  have era: "min (sp_last_era span) last < u32_max" using lim by simp
  note l' = claim_ledger_ok [OF ledger_of_ok [OF inv] e0 q claim era past]
  from up obtain m y where w: "ledger_written s a l' m" and s1: "s1 = s\<lparr> pl_ledger := m, pl_env := y \<rparr>"
    by (rule update_ledger_Ok) (simp add: ledger_written_def)
  show ?thesis
    by (rule inv_ledger_same_funds [OF inv _ l'(1) _ _ _ l'(2-4)]) (use w D(2,4) in \<open>simp_all add: s' fold_events s1\<close>)
qed

lemma bonus_inv:
  assumes inv: "staking_inv C s" and ok: "internal_claim_bonus_reward_for C R a sc s = Ok s'"
  shows "staking_inv C s'"
proof -
  let ?l = "ledger_of a s"
  from ok obtain i x ev where entry: "sm_get (pl_staker_info s) (a, sc) = Some i" and past: "SingularStakingInfo_period_number i < period_of s"
    and s': "s' = s\<lparr> pl_env := x, pl_staker_info := sm_remove (pl_staker_info s) (a, sc),
        pl_ledger := sm_put (pl_ledger s) a (?l\<lparr> al_contract_stake_count := al_contract_stake_count ?l - 1 \<rparr>), pl_events := ev \<rparr>"
    by (clarsimp simp: internal_claim_bonus_reward_for_def Let_def and_then_Ok_iff deposit_event_def)
  note D = staking_invD [OF inv]
  have "info_sum b (period_of s) (sm_remove (pl_staker_info s) (a, sc)) = info_sum b (period_of s) (pl_staker_info s)" for b
    using info_sum_remove [OF D(2), of b "period_of s" "(a, sc)"] entry past by (simp add: info_amount_def)
  moreover have "ledger_ok C (period_of s) (?l\<lparr> al_contract_stake_count := al_contract_stake_count ?l - 1 \<rparr>)"
    using ledger_of_ok [OF inv, of a] by (auto simp: ledger_ok_def)
  ultimately show ?thesis
    by (intro inv_ledger_same_funds [OF inv, of a "?l\<lparr> al_contract_stake_count := al_contract_stake_count ?l - 1 \<rparr>"])
      (use D(2) D(4) in \<open>auto simp: s' ledger_written_def split: if_splits\<close>)
qed

lemma cleanup_entries_inv:
  assumes inv: "staking_inv C s" and ok: "cleanup_expired_entries C R origin s = Ok s'"
  shows "staking_inv C s'"
proof -
  let ?thr = "oldest_claimable_period C (period_of s)"
  from ok obtain a where origin: "origin = Signed a" by (auto simp: cleanup_expired_entries_def and_then_Ok_iff)
  define dead where "dead = map fst (filter (\<lambda>e. fst (fst e) = a \<and> expired_entry (period_of s) ?thr (snd e)) (sm_iter (pl_staker_info s)))"
  define l0 where "l0 = (ledger_of a s)\<lparr> al_contract_stake_count := al_contract_stake_count (ledger_of a s) - saturated_into u32_max (length dead) \<rparr>"
  let ?l = "snd (AccountLedger_maybe_cleanup_expired ?thr l0)"
  let ?m = "fold (\<lambda>k m. sm_remove m k) dead (pl_staker_info s)"
  from ok origin obtain s1 where up: "update_ledger R a ?l (s\<lparr> pl_staker_info := ?m \<rparr>) = Ok s1"
    and s': "s' = deposit_event (ExpiredEntriesRemoved a (saturated_into u16_max (length dead))) s1"
    by (auto simp: cleanup_expired_entries_def Let_def and_then_Ok_iff dead_def l0_def ledger_of_def)
  note D = staking_invD [OF inv]
  have thr: "?thr \<le> period_of s" by (simp add: oldest_claimable_period_def)
  have "ledger_ok C (period_of s) l0" using ledger_of_ok [OF inv, of a] by (auto simp: ledger_ok_def l0_def)
  note cl = cleanup_expired_ok [OF this thr]
  from up obtain m x where w: "ledger_written s a ?l m" and s1: "s1 = s\<lparr> pl_staker_info := ?m, pl_ledger := m, pl_env := x \<rparr>"
    by (rule update_ledger_Ok) (simp add: ledger_written_def)
  have old: "info_amount b (period_of s) (k, i) = 0" if "k \<in> set dead" "sm_get (pl_staker_info s) k = Some i" for b k i
  proof -
    from that(1) obtain j where "(k, j) \<in> set (sm_iter (pl_staker_info s))" and j: "expired_entry (period_of s) ?thr j"
      by (auto simp: dead_def)
    then have "sm_get (pl_staker_info s) k = Some j" by (simp add: sm.get_Some_iff [OF D(2)])
    with that(2) j have "expired_entry (period_of s) ?thr i" by simp
    then show ?thesis using thr by (auto simp: info_amount_def expired_entry_def)
  qed
  note rem = fold_remove_get [OF D(2), of dead]
  show ?thesis
  proof (rule inv_ledger_same_funds [OF inv _ cl(1), of a])
    show "sm_invar (pl_staker_info s')" using rem by (simp add: s' s1 deposit_event_def)
    show "info_ok C (period_of s) i" if "sm_get (pl_staker_info s') k = Some i" for k i
      using that rem [of k] D(4) [of k] by (auto simp: s' s1 deposit_event_def split: if_splits)
    show "info_sum b (period_of s) (pl_staker_info s') = info_sum b (period_of s) (pl_staker_info s)" for b
      using info_sum_fold_remove [OF D(2), of dead b "period_of s"] old by (simp add: s' s1 deposit_event_def)
    show "ledger_written s a ?l (pl_ledger s')" using w by (simp add: s' s1 deposit_event_def)
  qed (simp_all add: s' s1 deposit_event_def cl(2-4), simp_all add: l0_def)
qed

end
