(* ===== verification/EraSteps.thy ===== *)
theory EraSteps
  imports StakeSteps
begin

text \<open>
  What the hooks do to the protocol. The change of the protocol state in a block depends on nothing but the
  protocol state itself and the configuration, so it is stated as a function of its own; the era handler
  computes it, keeps the ledgers and the staking entries, and keeps the invariant of the storage.
\<close>

section \<open>The protocol state in a block\<close>

definition era_changes :: "BlockNumber \<Rightarrow> ProtocolState \<Rightarrow> bool" where
  "era_changes now ps \<longleftrightarrow> \<not> ps_maintenance ps \<and> ps_next_era_start ps \<le> now"

definition period_changes :: "BlockNumber \<Rightarrow> ProtocolState \<Rightarrow> bool" where
  "period_changes now ps \<longleftrightarrow> era_changes now ps \<and> pi_subperiod (ps_period_info ps) = BuildAndEarn
     \<and> pi_next_subperiod_start_era (ps_period_info ps) \<le> u32_add (ps_era ps) 1"

definition next_protocol_state :: "('acc, 'sc) Config \<Rightarrow> BlockNumber \<Rightarrow> ProtocolState \<Rightarrow> ProtocolState" where
  "next_protocol_state C now ps =
     (if \<not> era_changes now ps then ps
      else let era' = u32_add (ps_era ps) 1; p = ps_period_info ps in
        if pi_subperiod p = Voting then
          ps\<lparr> ps_era := era', ps_next_era_start := u32_add now (blocks_per_era (cf_cycle C)),
              ps_period_info := \<lparr> pi_number = pi_number p, pi_subperiod = BuildAndEarn,
                pi_next_subperiod_start_era = u32_add era' (eras_per_build_and_earn_subperiod (cf_cycle C)) \<rparr> \<rparr>
        else if pi_next_subperiod_start_era p \<le> era' then
          ps\<lparr> ps_era := era', ps_next_era_start := u32_add now (blocks_per_voting_period C),
              ps_period_info := \<lparr> pi_number = u32_add (pi_number p) 1, pi_subperiod = Voting,
                pi_next_subperiod_start_era = u32_add era' 1 \<rparr> \<rparr>
        else ps\<lparr> ps_era := era', ps_next_era_start := u32_add now (blocks_per_era (cf_cycle C)) \<rparr>)"

lemma update_cleanup_marker_frame [simp]:
  "pl_active_protocol_state (update_cleanup_marker C n s) = pl_active_protocol_state s"
  "pl_ledger (update_cleanup_marker C n s) = pl_ledger s" "pl_staker_info (update_cleanup_marker C n s) = pl_staker_info s"
  "pl_current_era_info (update_cleanup_marker C n s) = pl_current_era_info s" "pl_env (update_cleanup_marker C n s) = pl_env s"
  "pl_era_rewards (update_cleanup_marker C n s) = pl_era_rewards s" "pl_dapp_tiers (update_cleanup_marker C n s) = pl_dapp_tiers s"
  "pl_integrated_dapps (update_cleanup_marker C n s) = pl_integrated_dapps s" "pl_next_dapp_id (update_cleanup_marker C n s) = pl_next_dapp_id s"
  "pl_contract_stake (update_cleanup_marker C n s) = pl_contract_stake s" "pl_block_number (update_cleanup_marker C n s) = pl_block_number s"
  "pl_static_tier_params (update_cleanup_marker C n s) = pl_static_tier_params s" "pl_tier_config (update_cleanup_marker C n s) = pl_tier_config s"
  by (simp_all add: update_cleanup_marker_def split: option.split)

lemma deposit_event_frame [simp]:
  "pl_active_protocol_state (deposit_event e s) = pl_active_protocol_state s"
  "pl_ledger (deposit_event e s) = pl_ledger s" "pl_staker_info (deposit_event e s) = pl_staker_info s"
  "pl_current_era_info (deposit_event e s) = pl_current_era_info s" "pl_period_end (deposit_event e s) = pl_period_end s"
  "pl_era_rewards (deposit_event e s) = pl_era_rewards s" "pl_dapp_tiers (deposit_event e s) = pl_dapp_tiers s"
  "pl_integrated_dapps (deposit_event e s) = pl_integrated_dapps s" "pl_next_dapp_id (deposit_event e s) = pl_next_dapp_id s"
  "pl_contract_stake (deposit_event e s) = pl_contract_stake s" "pl_block_number (deposit_event e s) = pl_block_number s"
  "pl_history_cleanup_marker (deposit_event e s) = pl_history_cleanup_marker s"
  "pl_static_tier_params (deposit_event e s) = pl_static_tier_params s" "pl_tier_config (deposit_event e s) = pl_tier_config s"
  by (simp_all add: deposit_event_def)

text \<open>The two ends of an era, field by field.\<close>

lemmas era_end_defs = voting_ends_def build_and_earn_era_ends_def Let_def case_prod_unfold protocol_defs

lemma handler_idle:
  assumes "\<not> era_changes now (pl_active_protocol_state s)"
  shows "era_and_period_handler C R now s = s \<or> era_and_period_handler C R now s = notify_block_before_new_era R (pl_active_protocol_state s) s"
proof -
  from assms have "ps_maintenance (pl_active_protocol_state s) \<or> \<not> ProtocolState_is_new_era (pl_active_protocol_state s) now"
    by (simp add: era_changes_def ProtocolState_is_new_era_def)
  then show ?thesis by (elim disjE) (simp_all add: era_and_period_handler_def Let_def)
qed

lemma notify_frame [simp]:
  "pl_active_protocol_state (notify_block_before_new_era R ps s) = pl_active_protocol_state s"
  "pl_ledger (notify_block_before_new_era R ps s) = pl_ledger s" "pl_staker_info (notify_block_before_new_era R ps s) = pl_staker_info s"
  "pl_current_era_info (notify_block_before_new_era R ps s) = pl_current_era_info s" "pl_period_end (notify_block_before_new_era R ps s) = pl_period_end s"
  "pl_era_rewards (notify_block_before_new_era R ps s) = pl_era_rewards s" "pl_dapp_tiers (notify_block_before_new_era R ps s) = pl_dapp_tiers s"
  "pl_contract_stake (notify_block_before_new_era R ps s) = pl_contract_stake s" "pl_block_number (notify_block_before_new_era R ps s) = pl_block_number s"
  by (simp_all add: notify_block_before_new_era_def)

text \<open>What no hook writes.\<close>

definition registry_part where
  "registry_part s = (pl_integrated_dapps s, pl_next_dapp_id s, pl_contract_stake s, pl_static_tier_params s, pl_block_number s)"

text \<open>An era change, as one state with the part that ends the era named.\<close>

definition era_end :: "('acc, 'sc) Config \<Rightarrow> ('acc, 'x) Runtime \<Rightarrow> BlockNumber \<Rightarrow> ('acc, 'sc, 'x) Storage \<Rightarrow>
    ('acc, 'sc, 'x) Storage \<times> ProtocolState \<times> EraInfo \<times> ('acc, 'sc) Event option \<times> EraReward" where
  "era_end C R now s = (case ProtocolState_subperiod (pl_active_protocol_state s) of
     Voting \<Rightarrow> voting_ends C now s | BuildAndEarn \<Rightarrow> build_and_earn_era_ends C R now s)"

lemma handler_era_change:
  assumes "era_changes now (pl_active_protocol_state s)"
  obtains s0 s1 ps' ei' ev rew where "s0 = s \<or> s0 = notify_block_before_new_era R (pl_active_protocol_state s) s"
    "era_end C R now s0 = (s1, ps', ei', ev, rew)"
    "pl_active_protocol_state (era_and_period_handler C R now s) = ps'\<lparr> ps_era := u32_add (ps_era (pl_active_protocol_state s)) 1 \<rparr>"
    "pl_current_era_info (era_and_period_handler C R now s) = ei'"
    "pl_ledger (era_and_period_handler C R now s) = pl_ledger s1" "pl_staker_info (era_and_period_handler C R now s) = pl_staker_info s1"
    "pl_period_end (era_and_period_handler C R now s) = pl_period_end s1"
    "pl_dapp_tiers (era_and_period_handler C R now s) = pl_dapp_tiers s1"
    "pl_era_rewards (era_and_period_handler C R now s) =
      (let i = era_reward_span_index C (ps_era (pl_active_protocol_state s)) in sm_put (pl_era_rewards s1) i
        (span_after_push (cf_era_reward_span_length C) (ps_era (pl_active_protocol_state s)) rew (sm_get_or EraRewardSpan_new (pl_era_rewards s1) i)))"
    "pl_history_cleanup_marker (era_and_period_handler C R now s) = pl_history_cleanup_marker s1"
    "registry_part (era_and_period_handler C R now s) = registry_part s1"
    "pl_tier_config (era_and_period_handler C R now s) = pl_tier_config s1
      \<or> TiersConfiguration_is_valid (cf_number_of_tiers C) (pl_tier_config (era_and_period_handler C R now s))"
proof -
  let ?ps = "pl_active_protocol_state s"
  let ?s0 = "if ps_next_era_start ?ps = u32_add now 1 then notify_block_before_new_era R ?ps s else s"
  obtain s1 ps' ei' ev rew where e: "era_end C R now ?s0 = (s1, ps', ei', ev, rew)" by (metis prod_cases5)
  have sub: "ProtocolState_subperiod (pl_active_protocol_state ?s0) = ProtocolState_subperiod ?ps" by simp
  have "era_and_period_handler C R now s = start_new_era C R (ps_era ?ps) (era_end C R now ?s0)"
    unfolding era_and_period_handler_def era_end_def sub
    using assms by (simp add: Let_def era_changes_def ProtocolState_is_new_era_def)
  then have h: "era_and_period_handler C R now s = start_new_era C R (ps_era ?ps) (s1, ps', ei', ev, rew)" unfolding e .
  show thesis
    by (rule that [OF _ e]) (simp_all add: h start_new_era_def Let_def registry_part_def split: option.split)
qed

lemma era_end_protocol:
  assumes "era_end C R now s = (s1, ps', ei', ev, rew)" "era_changes now (pl_active_protocol_state s)"
  shows "ps'\<lparr> ps_era := u32_add (ps_era (pl_active_protocol_state s)) 1 \<rparr> = next_protocol_state C now (pl_active_protocol_state s)"
    "pl_ledger s1 = pl_ledger s" "pl_staker_info s1 = pl_staker_info s" "registry_part s1 = registry_part s" "pl_tier_config s1 = pl_tier_config s"
  using assms
  by (auto simp: era_end_def era_end_defs next_protocol_state_def era_changes_def registry_part_def split: Subperiod.splits if_splits)

lemma handler_protocol_state:
  "pl_active_protocol_state (era_and_period_handler C R now s) = next_protocol_state C now (pl_active_protocol_state s)"
proof (cases "era_changes now (pl_active_protocol_state s)")
  case True
  then obtain s0 s1 ps' ei' ev rew where s0: "s0 = s \<or> s0 = notify_block_before_new_era R (pl_active_protocol_state s) s"
    and e: "era_end C R now s0 = (s1, ps', ei', ev, rew)"
    and h: "pl_active_protocol_state (era_and_period_handler C R now s) = ps'\<lparr> ps_era := u32_add (ps_era (pl_active_protocol_state s)) 1 \<rparr>"
    by (rule handler_era_change)
  from s0 have "pl_active_protocol_state s0 = pl_active_protocol_state s" by auto
  with era_end_protocol(1) [OF e] h True show ?thesis by simp
next
  case False
  with handler_idle [OF False, of C R] show ?thesis by (auto simp: next_protocol_state_def)
qed

lemma handler_frame:
  "pl_ledger (era_and_period_handler C R now s) = pl_ledger s"
  "pl_staker_info (era_and_period_handler C R now s) = pl_staker_info s"
  "registry_part (era_and_period_handler C R now s) = registry_part s"
  "pl_tier_config (era_and_period_handler C R now s) = pl_tier_config s
    \<or> TiersConfiguration_is_valid (cf_number_of_tiers C) (pl_tier_config (era_and_period_handler C R now s))"
proof -
  let ?h = "era_and_period_handler C R now s"
  have "pl_ledger ?h = pl_ledger s \<and> pl_staker_info ?h = pl_staker_info s \<and> registry_part ?h = registry_part s
    \<and> (pl_tier_config ?h = pl_tier_config s \<or> TiersConfiguration_is_valid (cf_number_of_tiers C) (pl_tier_config ?h))"
  proof (cases "era_changes now (pl_active_protocol_state s)")
    case True
    then obtain s0 s1 ps' ei' ev rew where s0: "s0 = s \<or> s0 = notify_block_before_new_era R (pl_active_protocol_state s) s"
      and e: "era_end C R now s0 = (s1, ps', ei', ev, rew)"
      and h: "pl_ledger ?h = pl_ledger s1" "pl_staker_info ?h = pl_staker_info s1" "registry_part ?h = registry_part s1"
        "pl_tier_config ?h = pl_tier_config s1 \<or> TiersConfiguration_is_valid (cf_number_of_tiers C) (pl_tier_config ?h)"
      by (rule handler_era_change)
    have "era_changes now (pl_active_protocol_state s0)" using s0 True by auto
    from era_end_protocol(2-5) [OF e this] s0 h show ?thesis by (auto simp: registry_part_def notify_block_before_new_era_def)
  next
    case False
    with handler_idle [OF False, of C R] show ?thesis by (auto simp: registry_part_def notify_block_before_new_era_def)
  qed
  then show "pl_ledger ?h = pl_ledger s" "pl_staker_info ?h = pl_staker_info s" "registry_part ?h = registry_part s"
    "pl_tier_config ?h = pl_tier_config s \<or> TiersConfiguration_is_valid (cf_number_of_tiers C) (pl_tier_config ?h)" by auto
qed

text \<open>The era information and the ended periods after a change of era.\<close>

lemma era_end_infos:
  assumes "era_end C R now s = (s1, ps', ei', ev, rew)" "era_changes now (pl_active_protocol_state s)"
  shows "ei_total_locked ei' = ei_total_locked (pl_current_era_info s)" "ei_unlocking ei' = ei_unlocking (pl_current_era_info s)"
    "sa_sum (ei_next_stake_amount ei') = (if period_changes now (pl_active_protocol_state s) then 0 else sa_sum (ei_next_stake_amount (pl_current_era_info s)))"
    "sm_get (pl_period_end s1) q = Some pe \<Longrightarrow> sm_invar (pl_period_end s) \<Longrightarrow>
      sm_get (pl_period_end s) q = Some pe \<or> pe_final_era pe = ps_era (pl_active_protocol_state s)"
    "sm_invar (pl_period_end s) \<Longrightarrow> sm_invar (pl_period_end s1)"
  using assms
  by (auto simp: era_end_def era_end_defs period_changes_def era_changes_def EraInfo_migrate_to_next_era_def update_cleanup_marker_def
      split: Subperiod.splits if_splits option.splits)

lemma period_of_next:
  assumes "pi_number (ps_period_info ps) < u32_max"
  shows "ProtocolState_period_number (next_protocol_state C now ps) = ProtocolState_period_number ps + (if period_changes now ps then 1 else 0)"
  using assms by (cases "pi_subperiod (ps_period_info ps)")
    (auto simp: next_protocol_state_def Let_def period_changes_def ProtocolState_period_number_def sat_add_exact)

section \<open>The hooks keep the invariant\<close>

lemma staked_amount_later:
  "ledger_ok C p l \<Longrightarrow> p < q \<Longrightarrow> AccountLedger_staked_amount l q = 0"
  by (auto simp: ledger_ok_def AccountLedger_staked_amount_def split: option.splits)

lemma info_sum_later:
  assumes "sm_invar m" "\<And>k i. sm_get m k = Some i \<Longrightarrow> info_ok C p i" "p < q"
  shows "info_sum a q m = 0"
proof -
  have "info_amount a q e = 0" if "e \<in> set (sm_iter m)" for e
    using assms(2) [of "fst e" "snd e"] assms(3) that sm.get_Some_iff [OF assms(1), of "fst e" "snd e"]
    by (auto simp: info_amount_def info_ok_def)
  then show ?thesis unfolding info_sum_def by (simp cong: map_cong)
qed

text \<open>A new era in the same period, and the first era of a new period, in which nothing is staked yet.\<close>

lemma inv_new_era:
  assumes inv: "staking_inv C s" and frame: "pl_ledger s' = pl_ledger s" "pl_staker_info s' = pl_staker_info s"
    and ei: "ei_total_locked (pl_current_era_info s') = ei_total_locked (pl_current_era_info s)"
      "ei_unlocking (pl_current_era_info s') = ei_unlocking (pl_current_era_info s)"
      "sa_sum (ei_next_stake_amount (pl_current_era_info s')) = sa_sum (ei_next_stake_amount (pl_current_era_info s))"
    and period: "period_of s' = period_of s"
    and ends: "sm_invar (pl_period_end s')" "\<And>q pe. sm_get (pl_period_end s') q = Some pe \<Longrightarrow> pe_final_era pe < ps_era (pl_active_protocol_state s')"
    and era: "ps_era (pl_active_protocol_state s') < u32_max"
  shows "staking_inv C s'"
  using staking_invD [OF inv] ends era
  by (simp add: staking_inv_def frame ei period ledger_of_def locked_funds_def)

lemma inv_new_period:
  assumes inv: "staking_inv C s" and frame: "pl_ledger s' = pl_ledger s" "pl_staker_info s' = pl_staker_info s"
    and ei: "ei_total_locked (pl_current_era_info s') = ei_total_locked (pl_current_era_info s)"
      "ei_unlocking (pl_current_era_info s') = ei_unlocking (pl_current_era_info s)"
      "sa_sum (ei_next_stake_amount (pl_current_era_info s')) = 0"
    and period: "period_of s < period_of s'"
    and ends: "sm_invar (pl_period_end s')" "\<And>q pe. sm_get (pl_period_end s') q = Some pe \<Longrightarrow> pe_final_era pe < ps_era (pl_active_protocol_state s')"
    and era: "ps_era (pl_active_protocol_state s') < u32_max"
  shows "staking_inv C s'"
proof -
  note D = staking_invD [OF inv]
  have l: "ledger_ok C (period_of s') l" if "sm_get (pl_ledger s) a = Some l" for a l
    using D(3) [OF that] staked_amount_later [OF D(3) [OF that] period] period by (fastforce simp: ledger_ok_def)
  have i: "info_ok C (period_of s') i" if "sm_get (pl_staker_info s) k = Some i" for k i
    using D(4) [OF that] period by (auto simp: info_ok_def)
  have st: "AccountLedger_staked_amount (ledger_of a s') (period_of s') = 0" for a
    using staked_amount_later [OF ledger_of_ok [OF inv, of a] period] by (simp add: ledger_of_def frame)
  have sum: "sm_sum (\<lambda>l. AccountLedger_staked_amount l (period_of s')) (pl_ledger s) \<le> sm_sum (\<lambda>l. 0) (pl_ledger s)"
    by (rule sm_sum_le_mem [OF D(1)]) (auto dest: staked_amount_later [OF D(3) period])
  have "info_sum a (period_of s') (pl_staker_info s) = 0" for a
    by (rule info_sum_later [OF D(2) D(4) period])
  then show ?thesis
    unfolding staking_inv_def frame
    using D(1,2,6-8,12) l i st sum ends era period by (simp add: ei locked_funds_def frame) (simp add: sm_sum_def)
qed

lemma handler_inv:
  assumes inv: "staking_inv C s" and bounds: "within_bounds (era_and_period_handler C R now s)"
  shows "staking_inv C (era_and_period_handler C R now s)"
proof (cases "era_changes now (pl_active_protocol_state s)")
  case False
  from handler_idle [OF False, of C R] inv show ?thesis
    by (elim disjE) (auto intro: inv_frame [OF inv])
next
  case True
  let ?s' = "era_and_period_handler C R now s" and ?ps = "pl_active_protocol_state s"
  from True obtain s0 s1 ps' ei' ev rew where s0: "s0 = s \<or> s0 = notify_block_before_new_era R ?ps s"
    and e: "era_end C R now s0 = (s1, ps', ei', ev, rew)"
    and h: "pl_current_era_info ?s' = ei'" "pl_period_end ?s' = pl_period_end s1"
    by (rule handler_era_change)
  have same: "pl_active_protocol_state s0 = ?ps" "pl_current_era_info s0 = pl_current_era_info s" "pl_period_end s0 = pl_period_end s"
    using s0 by auto
  note D = staking_invD [OF inv]
  have ch: "era_changes now (pl_active_protocol_state s0)" using True same by simp
  note ei = era_end_infos [OF e ch, unfolded same]
  have era: "ps_era (pl_active_protocol_state ?s') = Suc (ps_era ?ps)" "ps_era (pl_active_protocol_state ?s') < u32_max"
    using True D(13) bounds
    by (auto simp: handler_protocol_state next_protocol_state_def Let_def sat_add_exact within_bounds_def)
  have ends: "sm_invar (pl_period_end ?s')" "pe_final_era pe < ps_era (pl_active_protocol_state ?s')"
    if "sm_get (pl_period_end ?s') q = Some pe" for q pe
    using that ei(4) [of q pe] ei(5) D(10) [of q pe] D(11) by (auto simp: h era)
  have inv_pe: "sm_invar (pl_period_end ?s')" using ei(5) D(11) by (simp add: h)
  show ?thesis
  proof (cases "pi_number (ps_period_info ?ps) < u32_max")
    case lt: True
    note p = period_of_next [OF lt, of C now, folded handler_protocol_state [of C R]]
    show ?thesis
    proof (cases "period_changes now ?ps")
      case True
      then show ?thesis
        using p ei by (intro inv_new_period [OF inv handler_frame(1,2) _ _ _ _ inv_pe ends(2) era(2)]) (simp_all add: h)
    next
      case False
      then show ?thesis
        using p ei by (intro inv_new_era [OF inv handler_frame(1,2) _ _ _ _ inv_pe ends(2) era(2)]) (simp_all add: h)
    qed
  next
    case False
    then have "pi_number (ps_period_info (pl_active_protocol_state ?s')) \<ge> u32_max"
      by (auto simp: handler_protocol_state next_protocol_state_def Let_def sat_add_def)
    then show ?thesis using bounds by (simp add: within_bounds_def ProtocolState_period_number_def)
  qed
qed

lemma cleanup_frame [simp]:
  "pl_active_protocol_state (on_idle C b s) = pl_active_protocol_state s" "pl_ledger (on_idle C b s) = pl_ledger s"
  "pl_staker_info (on_idle C b s) = pl_staker_info s" "pl_current_era_info (on_idle C b s) = pl_current_era_info s"
  "pl_period_end (on_idle C b s) = pl_period_end s" "registry_part (on_idle C b s) = registry_part s" "pl_tier_config (on_idle C b s) = pl_tier_config s"
  by (simp_all add: on_idle_def expired_entry_cleanup_def cleanup_dapp_tiers_def cleanup_era_reward_def Let_def
      registry_part_def split: option.split)

end
