(* ===== verification/Reachable.thy ===== *)
theory Reachable
  imports EraSteps "HOL-Library.Code_Target_Nat"
begin

text \<open>
  Invariants of every state the pallet reaches from its genesis by calls, blocks, idle cleanup and safe mode
  changes. Each is shown for the genesis state and for one step, then carried over by rule induction. A run
  of the machine on a list of actions is executable, so that examples can be evaluated.
\<close>

section \<open>Runs\<close>

datatype ('acc, 'sc) Action = Dispatch "'acc RawOrigin" "('acc, 'sc) Call" | NextBlock | Idle | SafeMode bool

definition act :: "('acc, 'sc) Config \<Rightarrow> ('acc, 'x) Runtime \<Rightarrow> ('acc, 'sc) Action \<Rightarrow> ('acc, 'sc, 'x) Storage \<Rightarrow> ('acc, 'sc, 'x) Storage option" where
  "act C R a s = (case a of
       Dispatch origin c \<Rightarrow> (case dispatch C R origin c s of Some (Ok s') \<Rightarrow> Some s' | _ \<Rightarrow> None)
     | NextBlock \<Rightarrow> Some (on_initialize C R (Suc (pl_block_number s)) (s\<lparr> pl_block_number := Suc (pl_block_number s) \<rparr>))
     | Idle \<Rightarrow> Some (on_idle C True s)
     | SafeMode b \<Rightarrow> Some (if b then SafeModeNotify_entered s else SafeModeNotify_exited s))"

fun run :: "('acc, 'sc) Config \<Rightarrow> ('acc, 'x) Runtime \<Rightarrow> ('acc, 'sc) Action list \<Rightarrow> ('acc, 'sc, 'x) Storage \<Rightarrow> ('acc, 'sc, 'x) Storage option" where
  "run C R [] s = Some s"
| "run C R (a # as) s = Option.bind (act C R a s) (\<lambda>s'. if within_bounds s' then run C R as s' else None)"

definition genesis_run :: "('acc, 'sc) Config \<Rightarrow> ('acc, 'x) Runtime \<Rightarrow> GenesisConfig \<Rightarrow> 'x \<Rightarrow> ('acc, 'sc) Action list \<Rightarrow> ('acc, 'sc, 'x) Storage option" where
  "genesis_run C R g x as = Option.bind (GenesisConfig_build C R g (empty_storage x)) (run C R as)"

lemma act_step: "act C R a s = Some s' \<Longrightarrow> pallet_step C R s s'"
  by (cases a) (auto simp: act_def intro: pallet_step.intros split: option.splits result.splits)

lemma run_reachable: "run C R as s = Some s' \<Longrightarrow> reachable C R s \<Longrightarrow> reachable C R s'"
proof (induction as arbitrary: s)
  case (Cons a as)
  then obtain t where "act C R a s = Some t" "within_bounds t" "run C R as t = Some s'" by (auto split: if_splits bind_splits)
  with Cons show ?case by (blast intro: reach_step act_step)
qed simp

lemma genesis_run_reachable: "genesis_run C R g x as = Some s \<Longrightarrow> reachable C R s"
  by (auto simp: genesis_run_def intro: run_reachable reach_genesis split: bind_splits)

section \<open>The ledgers\<close>

lemma genesis_fields:
  assumes "GenesisConfig_build C R g (empty_storage x) = Some s"
  shows "pl_ledger s = []" "pl_staker_info s = []" "pl_period_end s = []" "pl_current_era_info s = EraInfo_default"
    "pl_integrated_dapps s = []" "pl_contract_stake s = []" "pl_next_dapp_id s = 0" "pl_era_rewards s = []" "pl_dapp_tiers s = []"
    "pl_history_cleanup_marker s = CleanupMarker_default" "pl_block_number s = 0"
    "ps_era (pl_active_protocol_state s) = 1" "ps_period_info (pl_active_protocol_state s) = \<lparr> pi_number = 1, pi_subperiod = Voting, pi_next_subperiod_start_era = 2 \<rparr>"
    "ps_next_era_start (pl_active_protocol_state s) = blocks_per_voting_period C + 1" "\<not> ps_maintenance (pl_active_protocol_state s)"
    "TierParameters_is_valid (cf_arith C) (cf_number_of_tiers C) (pl_static_tier_params s)"
    "TiersConfiguration_is_valid (cf_number_of_tiers C) (pl_tier_config s)"
  using assms
  by (auto simp: GenesisConfig_build_def Let_def empty_storage_def checked_add_def split: if_splits option.splits)

lemma sm_empty [simp]: "sm_invar []" "sm_get [] k = None" "sm_iter [] = []"
  by (simp_all add: sm_invar_def sm_get_def sm_iter_def)

lemma genesis_inv: "GenesisConfig_build C R g (empty_storage x) = Some s \<Longrightarrow> staking_inv C s"
  by (simp add: staking_inv_def genesis_fields ledger_of_def sm_get_or_def info_sum_def locked_funds_def sm_sum_def
      EraInfo_default_def ProtocolState_period_number_def u32_max_def)

text \<open>What the calls outside staking leave alone.\<close>

definition same_ledgers :: "('acc, 'sc, 'x) Storage \<Rightarrow> ('acc, 'sc, 'x) Storage \<Rightarrow> bool" where
  "same_ledgers s s' \<longleftrightarrow> pl_ledger s' = pl_ledger s \<and> pl_staker_info s' = pl_staker_info s \<and> pl_current_era_info s' = pl_current_era_info s
    \<and> pl_period_end s' = pl_period_end s \<and> period_of s' = period_of s
    \<and> ps_era (pl_active_protocol_state s') = ps_era (pl_active_protocol_state s)"

lemma same_ledgers_inv: "same_ledgers s s' \<Longrightarrow> staking_inv C s \<Longrightarrow> staking_inv C s'"
  by (rule inv_frame) (auto simp: same_ledgers_def)

lemmas management_defs = maintenance_mode_def register_def set_dapp_reward_beneficiary_def set_dapp_owner_def unregister_def
  claim_dapp_reward_def force_def set_maintenance_mode_def notify_block_before_new_era_def

lemma management_frame:
  "maintenance_mode C origin b s = Ok s' \<Longrightarrow> same_ledgers s s'" "register C origin owner sc s = Ok s' \<Longrightarrow> same_ledgers s s'"
  "set_dapp_reward_beneficiary origin sc ben s = Ok s' \<Longrightarrow> same_ledgers s s'" "set_dapp_owner origin sc owner s = Ok s' \<Longrightarrow> same_ledgers s s'"
  "unregister C origin sc s = Ok s' \<Longrightarrow> same_ledgers s s'" "claim_dapp_reward C R origin sc era s = Ok s' \<Longrightarrow> same_ledgers s s'"
  "force R origin ft s = Ok s' \<Longrightarrow> same_ledgers s s'"
  by (auto simp: management_defs and_then_Ok_iff Let_def deposit_event_def ProtocolState_period_number_def same_ledgers_def
      case_prod_unfold split: ForcingType.splits)

lemma dispatch_inv:
  assumes inv: "staking_inv C s" and ok: "dispatch C R origin c s = Some (Ok s')"
    and C: "config_ok C" and R: "runtime_ok R" and funds: "locked_funds s' \<le> u128_max"
  shows "staking_inv C s'"
proof -
  note calls = unlock_inv [OF inv] claim_unlocked_inv [OF inv _ C] stake_inv [OF inv] unstake_inv [OF inv] claim_staker_inv [OF inv]
    bonus_inv [OF inv] cleanup_entries_inv [OF inv] relock_inv [OF inv] unstake_from_unregistered_inv [OF inv _ C] lock_inv [OF inv _ funds R]
    management_frame [THEN same_ledgers_inv, OF _ inv]
  show ?thesis
    using ok
    by (cases c) (auto simp: dispatch_def claim_staker_rewards_def claim_staker_rewards_for_def withdraw_unbonded_def claim_unlocked_def
        claim_bonus_reward_def claim_bonus_reward_for_def unbond_and_unstake_def and_then_Ok_iff split: result.splits intro: calls)
qed

lemma step_inv:
  assumes step: "pallet_step C R s s'" and inv: "staking_inv C s" and ok: "config_ok C" "runtime_ok R" and bounds: "within_bounds s'"
  shows "staking_inv C s'"
  using step
proof (cases rule: pallet_step.cases)
  case (step_call origin c)
  from bounds show ?thesis by (intro dispatch_inv [OF inv step_call ok]) (simp add: within_bounds_def)
next
  case step_block
  have "staking_inv C (s\<lparr> pl_block_number := Suc (pl_block_number s) \<rparr>)" by (rule inv_frame [OF inv]) simp_all
  from handler_inv [OF this] bounds show ?thesis unfolding step_block on_initialize_def by blast
next
  case (step_idle b)
  show ?thesis unfolding step_idle by (rule inv_frame [OF inv]) simp_all
next
  case (step_safe_mode b)
  show ?thesis unfolding step_safe_mode
    by (rule inv_frame [OF inv]) (simp_all add: SafeModeNotify_entered_def SafeModeNotify_exited_def set_maintenance_mode_def
        ProtocolState_period_number_def)
next
  case (step_env x)
  show ?thesis unfolding step_env by (rule inv_frame [OF inv]) simp_all
qed

lemma reachable_inv:
  assumes "reachable C R s" "config_ok C" "runtime_ok R"
  shows "staking_inv C s"
  using assms(1)
proof (induction rule: reachable.induct)
  case (reach_genesis g x s)
  then show ?case by (rule genesis_inv)
next
  case (reach_step s s')
  from step_inv [OF reach_step.hyps(2) reach_step.IH assms(2,3) reach_step.hyps(3)] show ?case .
qed

text \<open>The minimum stake: a positive stake is a sum of entries, each at least the minimum.\<close>

lemma stake_minimum:
  assumes inv: "staking_inv C s" and pos: "0 < AccountLedger_staked_amount (ledger_of a s) (period_of s)"
  shows "cf_minimum_stake_amount C \<le> AccountLedger_staked_amount (ledger_of a s) (period_of s)"
proof -
  note D = staking_invD [OF inv]
  have "\<exists>e \<in> set (sm_iter (pl_staker_info s)). 0 < info_amount a (period_of s) e"
  proof (rule ccontr)
    assume "\<not> ?thesis"
    then have "info_sum a (period_of s) (pl_staker_info s) = 0" by (simp add: info_sum_def)
    with pos D(5) [of a] show False by simp
  qed
  then obtain k i where "(k, i) \<in> set (sm_iter (pl_staker_info s))" and amount: "0 < info_amount a (period_of s) (k, i)" by auto
  then have e: "sm_get (pl_staker_info s) k = Some i" by (simp add: sm.get_Some_iff [OF D(2)])
  then have "cf_minimum_stake_amount C \<le> info_amount a (period_of s) (k, i)"
    using D(4) [OF e] amount by (auto simp: info_amount_def info_ok_def split: if_splits)
  also have "\<dots> \<le> info_sum a (period_of s) (pl_staker_info s)" by (rule info_sum_ge [OF D(2) e])
  finally show ?thesis by (simp add: D(5))
qed

lemma inv_try_state_ledger:
  assumes inv: "staking_inv C s"
  shows "try_state_ledger C s"
proof -
  note D = staking_invD [OF inv] and T = totals_ge [OF inv]
  have entry: "try_state_ledger_entry C (period_of s) l \<and> AccountLedger_unlocking_amount l = chunk_sum (al_unlocking l)"
    if "(a, l) \<in> set (sm_iter (pl_ledger s))" for a l
  proof -
    from that have get: "sm_get (pl_ledger s) a = Some l" by (simp add: sm.get_Some_iff [OF D(1)])
    then have l: "ledger_of a s = l" by (simp add: ledger_of_def sm_get_or_def)
    show ?thesis
      using D(3) [OF get] stake_minimum [OF inv, of a] ledger_fits [OF inv, of a]
      by (auto simp: l try_state_ledger_entry_def Let_def ledger_ok_def chunks_wf_def AccountLedger_active_locked_amount_def unlocking_amount_eq)
  qed
  have unl: "map AccountLedger_unlocking_amount (map snd (sm_iter (pl_ledger s))) = map (\<lambda>l. chunk_sum (al_unlocking l)) (map snd (sm_iter (pl_ledger s)))"
    using entry by auto
  have "sa_ok (ei_next_stake_amount (pl_current_era_info s))" using T(4,5) D(6) by (simp add: sa_ok_sum)
  then show ?thesis
    unfolding try_state_ledger_def Let_def unl
    using entry D(7-9) by (auto simp: sm_sum_def AccountLedger_active_locked_amount_def EraInfo_total_staked_amount_next_era_def sa_total_eq comp_def case_prod_unfold)
qed

section \<open>The registry of dApps\<close>










text \<open>The storage items the staking calls never write, and the stakes of the contracts, which \<open>stake\<close> and
  \<open>unstake\<close> write for a registered dApp only.\<close>

definition fixed_part where
  "fixed_part s = (pl_integrated_dapps s, pl_next_dapp_id s, pl_static_tier_params s, pl_tier_config s, pl_era_rewards s,
     pl_history_cleanup_marker s, pl_active_protocol_state s, pl_period_end s, pl_block_number s, pl_dapp_tiers s)"

lemma fixed_part_simps [simp]:
  "fixed_part (s\<lparr> pl_ledger := m \<rparr>) = fixed_part s" "fixed_part (s\<lparr> pl_env := x \<rparr>) = fixed_part s"
  "fixed_part (s\<lparr> pl_staker_info := i \<rparr>) = fixed_part s" "fixed_part (s\<lparr> pl_contract_stake := k \<rparr>) = fixed_part s"
  "fixed_part (s\<lparr> pl_current_era_info := e \<rparr>) = fixed_part s" "fixed_part (s\<lparr> pl_events := es \<rparr>) = fixed_part s"
  "fixed_part (deposit_event ev s) = fixed_part s"
  by (simp_all add: fixed_part_def deposit_event_def)

definition stakes_kept :: "('acc, 'sc, 'x) Storage \<Rightarrow> ('acc, 'sc, 'x) Storage \<Rightarrow> bool" where
  "stakes_kept s s' \<longleftrightarrow> fixed_part s' = fixed_part s \<and> (pl_contract_stake s' = pl_contract_stake s
     \<or> (\<exists>sc d k. sm_get (pl_integrated_dapps s) sc = Some d \<and> pl_contract_stake s' = sm_put (pl_contract_stake s) (di_id d) k))"

lemma update_ledger_frame:
  assumes "update_ledger R a l s = Ok s'"
  shows "fixed_part s' = fixed_part s \<and> pl_contract_stake s' = pl_contract_stake s \<and> pl_integrated_dapps s' = pl_integrated_dapps s"
  using assms by (rule update_ledger_Ok) simp

lemma fold_events_frame:
  "fixed_part (fold (\<lambda>(era, reward). deposit_event (Reward a era reward)) rs s) = fixed_part s"
  "pl_contract_stake (fold (\<lambda>(era, reward). deposit_event (Reward a era reward)) rs s) = pl_contract_stake s"
  by (induction rs arbitrary: s) (auto simp: case_prod_unfold)

lemma locks_frame:
  "lock C R origin amount s = Ok s' \<Longrightarrow> stakes_kept s s'"
  "unlock C R origin amount s = Ok s' \<Longrightarrow> stakes_kept s s'"
  "relock_unlocking C R origin s = Ok s' \<Longrightarrow> stakes_kept s s'"
  "internal_claim_unlocked C R a s = Ok s' \<Longrightarrow> stakes_kept s s'"
  "unstake_from_unregistered R origin sc s = Ok s' \<Longrightarrow> stakes_kept s s'"
  "internal_claim_bonus_reward_for C R a sc s = Ok s' \<Longrightarrow> stakes_kept s s'"
  "cleanup_expired_entries C R origin s = Ok s' \<Longrightarrow> stakes_kept s s'"
  by (auto simp: lock_def unlock_def relock_unlocking_def internal_claim_unlocked_def clear_staker_info_def unstake_from_unregistered_def
      internal_claim_bonus_reward_for_def cleanup_expired_entries_def Let_def and_then_Ok_iff case_prod_unfold stakes_kept_def
      dest!: update_ledger_frame)

lemma stake_frame: "stake C R origin sc amount s = Ok s' \<Longrightarrow> stakes_kept s s'"
  by (erule stake_OkE) (simp add: stakes_kept_def, blast)

lemma unstake_frame:
  assumes "unstake C R origin sc amount s = Ok s'"
  shows "stakes_kept s s'"
proof -
  obtain a d u i' pairs l1 s1 where d: "sm_get (pl_integrated_dapps s) sc = Some d"
    and up: "update_ledger R a (if SingularStakingInfo_is_empty i' then l1\<lparr> al_contract_stake_count := al_contract_stake_count l1 - 1 \<rparr> else l1)
       (s\<lparr> pl_current_era_info := EraInfo_unstake_amount u (pl_current_era_info s),
          pl_contract_stake := sm_put (pl_contract_stake s) (di_id d) (ContractStakeAmount_unstake pairs (ps_period_info (pl_active_protocol_state s))
            (ps_era (pl_active_protocol_state s)) (contract_stake_of (di_id d) s)),
          pl_staker_info := (if SingularStakingInfo_is_empty i' then sm_remove (pl_staker_info s) (a, sc) else sm_put (pl_staker_info s) (a, sc) i') \<rparr>) = Ok s1"
    and s': "s' = deposit_event (Unstake a sc u) s1"
    using assms by (rule unstake_call_OkE) blast
  from update_ledger_frame [OF up] d show ?thesis by (auto simp: stakes_kept_def s')
qed

lemma claim_staker_frame: "internal_claim_staker_rewards_for C R a s = Some (Ok s') \<Longrightarrow> stakes_kept s s'"
  by (erule claim_staker_OkE) (auto simp: stakes_kept_def fold_events_frame dest!: update_ledger_frame)

lemma staking_call_frame:
  assumes "dispatch C R origin c s = Some (Ok s')"
    and "\<not> (\<exists>b. c = Call_maintenance_mode b) \<and> \<not> (\<exists>a sc. c = Call_register a sc) \<and> \<not> (\<exists>sc b. c = Call_set_dapp_reward_beneficiary sc b)
      \<and> \<not> (\<exists>sc a. c = Call_set_dapp_owner sc a) \<and> \<not> (\<exists>sc. c = Call_unregister sc) \<and> \<not> (\<exists>sc e. c = Call_claim_dapp_reward sc e) \<and> \<not> (\<exists>f. c = Call_force f)"
  shows "stakes_kept s s'"
  using assms
  by (cases c) (auto simp: dispatch_def claim_staker_rewards_def claim_staker_rewards_for_def withdraw_unbonded_def claim_unlocked_def
        claim_bonus_reward_def claim_bonus_reward_for_def unbond_and_unstake_def and_then_Ok_iff split: result.splits
        intro: locks_frame stake_frame unstake_frame claim_staker_frame)







lemma maintenance_frame: "maintenance_mode C origin b s = Ok s' \<Longrightarrow> s' = set_maintenance_mode b s"
  by (simp add: maintenance_mode_def and_then_Ok_iff)



lemma safe_mode_frame:
  "pl_integrated_dapps (if b then SafeModeNotify_entered s else SafeModeNotify_exited s) = pl_integrated_dapps s"
  "pl_next_dapp_id (if b then SafeModeNotify_entered s else SafeModeNotify_exited s) = pl_next_dapp_id s"
  "pl_contract_stake (if b then SafeModeNotify_entered s else SafeModeNotify_exited s) = pl_contract_stake s"
  "pl_static_tier_params (if b then SafeModeNotify_entered s else SafeModeNotify_exited s) = pl_static_tier_params s"
  "pl_tier_config (if b then SafeModeNotify_entered s else SafeModeNotify_exited s) = pl_tier_config s"
  by (simp_all add: SafeModeNotify_entered_def SafeModeNotify_exited_def set_maintenance_mode_def)



text \<open>The tier configuration.\<close>

definition tiers_inv :: "('acc, 'sc) Config \<Rightarrow> ('acc, 'sc, 'x) Storage \<Rightarrow> bool" where
  "tiers_inv C s \<longleftrightarrow> TierParameters_is_valid (cf_arith C) (cf_number_of_tiers C) (pl_static_tier_params s)
     \<and> TiersConfiguration_is_valid (cf_number_of_tiers C) (pl_tier_config s)"

lemma dispatch_tiers:
  assumes "dispatch C R origin c s = Some (Ok s')"
  shows "pl_static_tier_params s' = pl_static_tier_params s" "pl_tier_config s' = pl_tier_config s"
proof -
  have kept: "pl_static_tier_params s' = pl_static_tier_params s \<and> pl_tier_config s' = pl_tier_config s" if "stakes_kept s s'"
    using that by (simp add: stakes_kept_def fixed_part_def)
  have "pl_static_tier_params s' = pl_static_tier_params s \<and> pl_tier_config s' = pl_tier_config s"
  proof (cases c)
    case (Call_register a sc)
    with assms show ?thesis by (auto simp: dispatch_def register_def and_then_Ok_iff Let_def)
  next
    case (Call_unregister sc)
    with assms show ?thesis by (auto simp: dispatch_def unregister_def and_then_Ok_iff Let_def)
  next
    case (Call_set_dapp_reward_beneficiary sc b)
    with assms show ?thesis by (auto simp: dispatch_def set_dapp_reward_beneficiary_def and_then_Ok_iff)
  next
    case (Call_set_dapp_owner sc a)
    with assms show ?thesis by (auto simp: dispatch_def set_dapp_owner_def and_then_Ok_iff)
  next
    case (Call_maintenance_mode b)
    with assms show ?thesis by (auto simp: dispatch_def set_maintenance_mode_def dest!: maintenance_frame)
  next
    case (Call_claim_dapp_reward sc e)
    with assms show ?thesis by (auto simp: dispatch_def claim_dapp_reward_def and_then_Ok_iff Let_def case_prod_unfold)
  next
    case (Call_force f)
    with assms show ?thesis by (auto simp: dispatch_def force_def notify_block_before_new_era_def and_then_Ok_iff Let_def)
  qed (use kept [OF staking_call_frame [OF assms]] in simp_all)
  then show "pl_static_tier_params s' = pl_static_tier_params s" "pl_tier_config s' = pl_tier_config s" by auto
qed

lemma step_tiers:
  assumes step: "pallet_step C R s s'" and inv: "tiers_inv C s"
  shows "tiers_inv C s'"
  using step
proof (cases rule: pallet_step.cases)
  case (step_call origin c)
  with inv show ?thesis by (simp add: tiers_inv_def dispatch_tiers [OF step_call])
next
  case step_block
  let ?s = "s\<lparr> pl_block_number := Suc (pl_block_number s) \<rparr>"
  from handler_frame(3,4) [where C = C and R = R and now = "Suc (pl_block_number s)" and s = ?s] inv show ?thesis
    by (auto simp: step_block on_initialize_def tiers_inv_def registry_part_def)
next
  case (step_idle b)
  have "registry_part s' = registry_part s" "pl_tier_config s' = pl_tier_config s" by (simp_all add: step_idle)
  with inv show ?thesis by (simp add: tiers_inv_def registry_part_def)
next
  case (step_safe_mode b)
  with inv show ?thesis by (simp only: tiers_inv_def safe_mode_frame)
next
  case (step_env x)
  with inv show ?thesis by (simp add: tiers_inv_def)
qed

lemma reachable_tiers: "reachable C R s \<Longrightarrow> tiers_inv C s"
proof (induction rule: reachable.induct)
  case (reach_genesis g x s)
  then show ?case by (simp add: tiers_inv_def genesis_fields)
next
  case (reach_step s s')
  then show ?case by (blast intro: step_tiers)
qed



section \<open>Properties\<close>

text \<open>An example: two dApps are registered and one is removed; an account locks, stakes, unstakes and starts to
  unlock, with a block in between.\<close>

definition example_actions :: "(nat, nat) Action list" where
  "example_actions = [Dispatch Root (Call_register 7 41), Dispatch Root (Call_register 8 42), Dispatch Root (Call_unregister 42),
     Dispatch (Signed 1) (Call_lock 100), Dispatch (Signed 1) (Call_stake 41 60), NextBlock,
     Dispatch (Signed 1) (Call_unstake 41 20), Dispatch (Signed 1) (Call_unlock 30)]"

definition example_state :: "(nat, nat, unit) Storage" where
  "example_state = the (genesis_run example_config example_runtime (GenesisConfig_default 4) () example_actions)"

lemma example_run:
  "case genesis_run example_config example_runtime (GenesisConfig_default 4) () example_actions of None \<Rightarrow> False
   | Some s \<Rightarrow> ei_total_locked (pl_current_era_info s) = 70 \<and> pl_next_dapp_id s = 2 \<and> length (pl_integrated_dapps s) = 1"
  by code_simp

lemma example_values:
  "reachable example_config example_runtime example_state" "ei_total_locked (pl_current_era_info example_state) = 70"
  "pl_next_dapp_id example_state = 2" "length (pl_integrated_dapps example_state) = 1"
  using example_run by (auto simp: example_state_def intro: genesis_run_reachable split: option.splits)

lemma example_ok: "config_ok example_config" "runtime_ok example_runtime"
  by (auto simp: config_ok_def runtime_ok_def example_config_def example_runtime_def u128_max_def dest: in_set_takeD)

text \<open>C1: In every state the pallet can reach, the ledgers pass the pallet's own check: every account is within
  the limits on unlocking chunks, minimum lock, minimum stake and number of staked contracts, and the totals of
  the era (locked, unlocking and staked from the next era on) are the sums over all accounts. The bounds are that
  the funds locked by all accounts together fit a balance and that eras and periods have not run out.\<close>

theorem reachable_ledgers_consistent:
  assumes "reachable C R s" and "config_ok C" and "runtime_ok R"
  shows "try_state_ledger C s"
  using inv_try_state_ledger [OF reachable_inv [OF assms]] .

theorem reachable_ledgers_consistent_witness:
  "try_state_ledger example_config example_state \<and> ei_total_locked (pl_current_era_info example_state) = 70"
  using reachable_ledgers_consistent [OF example_values(1) example_ok] example_values(2) by simp



text \<open>C39: In every reachable state the tier parameters and the tier configuration are valid, with one entry for
  every tier; a recalculated configuration that is not valid is never stored.\<close>

theorem reachable_tiers_valid:
  assumes "reachable C R s"
  shows "try_state_tiers C s \<and> TiersConfiguration_is_valid (cf_number_of_tiers C) (pl_tier_config s)"
  using reachable_tiers [OF assms]
  by (auto simp: tiers_inv_def try_state_tiers_def Let_def TierParameters_is_valid_def TiersConfiguration_is_valid_def split: if_splits)

theorem reachable_tiers_valid_witness: "try_state_tiers example_config example_state"
  using reachable_tiers_valid [OF example_values(1)] by simp

text \<open>In maintenance mode every call but the one that ends it is refused with \<open>Disabled\<close> and changes nothing,
  whoever makes it, and the start of a block changes nothing either.\<close>

lemma maintenance_blocks_everything:
  assumes "ps_maintenance (pl_active_protocol_state s)" and "\<forall>b. c \<noteq> Call_maintenance_mode b"
  shows "dispatch C R origin c s = Some (Err (Module Disabled)) \<and> on_initialize C R now s = s"
  using assms
  by (cases c) (auto simp: dispatch_def ensure_pallet_enabled_def register_def set_dapp_reward_beneficiary_def set_dapp_owner_def
      unbond_and_unstake_def withdraw_unbonded_def unregister_def lock_def unlock_def claim_unlocked_def relock_unlocking_def stake_def unstake_def
      claim_staker_rewards_def claim_bonus_reward_def claim_dapp_reward_def unstake_from_unregistered_def cleanup_expired_entries_def force_def
      claim_staker_rewards_for_def claim_bonus_reward_for_def on_initialize_def era_and_period_handler_def)

lemma maintenance_blocks_everything_example:
  "dispatch example_config example_runtime (Signed 1) (Call_lock 10) (set_maintenance_mode True example_state) = Some (Err (Module Disabled))"
  using maintenance_blocks_everything [of "set_maintenance_mode True example_state" "Call_lock 10" example_config example_runtime "Signed 1"]
  by (simp add: set_maintenance_mode_def)

end
