(* ===== verification/History.thy ===== *)
theory History
  imports Reachable
begin

text \<open>
  The history a claim reads: the rewards of past eras and the ends of past periods. In every reachable state
  the history holds an entry for each era that is not yet expired, the ends of all periods whose rewards can
  still be claimed, and no ledger refers to an era before them. A claim of staker rewards therefore never
  fails for an internal reason.
\<close>

section \<open>Spans of eras\<close>

definition spans_ok :: "('acc, 'sc) Config \<Rightarrow> EraNumber \<Rightarrow> (EraNumber, EraRewardSpan) smap \<Rightarrow> bool" where
  "spans_ok C era m \<longleftrightarrow> (\<forall>i span. sm_get m i = Some span \<longrightarrow>
     i mod cf_era_reward_span_length C = 0 \<and> i \<le> sp_first_era span \<and> sp_first_era span \<le> sp_last_era span
     \<and> sp_last_era span = min (i + cf_era_reward_span_length C - 1) (era - 1)
     \<and> length (sp_span span) = Suc (sp_last_era span - sp_first_era span))"

lemma spans_okD:
  assumes "spans_ok C era m" "sm_get m i = Some span"
  shows "i mod cf_era_reward_span_length C = 0" "i \<le> sp_first_era span" "sp_first_era span \<le> sp_last_era span"
    "sp_last_era span = min (i + cf_era_reward_span_length C - 1) (era - 1)"
    "length (sp_span span) = Suc (sp_last_era span - sp_first_era span)"
  using assms unfolding spans_ok_def by blast+

definition covered :: "('acc, 'sc) Config \<Rightarrow> EraNumber \<Rightarrow> EraNumber \<Rightarrow> (EraNumber, EraRewardSpan) smap \<Rightarrow> bool" where
  "covered C oldest era m \<longleftrightarrow> (\<forall>e. oldest \<le> e \<longrightarrow> 0 < e \<longrightarrow> e < era \<longrightarrow>
     (\<exists>span. sm_get m (era_reward_span_index C e) = Some span \<and> sp_first_era span \<le> e))"

lemma span_index_facts:
  assumes "0 < cf_era_reward_span_length C"
  shows "era_reward_span_index C e mod cf_era_reward_span_length C = 0" "era_reward_span_index C e \<le> e"
    "e < era_reward_span_index C e + cf_era_reward_span_length C"
proof -
  let ?L = "cf_era_reward_span_length C"
  have "era_reward_span_index C e = e div ?L * ?L" by (simp add: era_reward_span_index_def minus_mod_eq_div_mult)
  with assms show "era_reward_span_index C e mod ?L = 0" "era_reward_span_index C e \<le> e" "e < era_reward_span_index C e + ?L"
    using div_mult_mod_eq [of e ?L] mod_less_divisor [OF assms, of e] by (simp, simp, linarith)
qed

lemma span_before:
  assumes L: "0 < cf_era_reward_span_length C" and i: "i mod cf_era_reward_span_length C = 0" "i \<le> e" "i \<noteq> era_reward_span_index C e"
  shows "i + cf_era_reward_span_length C \<le> e"
proof -
  let ?L = "cf_era_reward_span_length C"
  have idx: "era_reward_span_index C e = e div ?L * ?L" by (simp add: era_reward_span_index_def minus_mod_eq_div_mult)
  have ik: "i = i div ?L * ?L" using i(1) by (metis add.right_neutral div_mult_mod_eq)
  have "i div ?L \<le> e div ?L" using i(2) by (rule div_le_mono)
  moreover have "i div ?L \<noteq> e div ?L" using i(3) ik idx by metis
  ultimately have "Suc (i div ?L) * ?L \<le> e div ?L * ?L" by (intro mult_le_mono1) simp
  then show ?thesis using ik by (simp add: add.commute) (metis div_mult_mod_eq le_add1 le_trans)
qed

lemma span_get_Some:
  assumes "sp_first_era span \<le> e" "e \<le> sp_last_era span" "length (sp_span span) = Suc (sp_last_era span - sp_first_era span)"
  shows "EraRewardSpan_get span e \<noteq> None"
  using assms by (auto simp: EraRewardSpan_get_def checked_sub_def)

text \<open>The push at the end of an era.\<close>

lemma push_span:
  fixes rew :: EraReward
  assumes L: "0 < cf_era_reward_span_length C" and ok: "spans_ok C era m" and era: "0 < era" "era < u32_max" and m: "sm_invar m"
  defines "i \<equiv> era_reward_span_index C era"
  defines "span' \<equiv> span_after_push (cf_era_reward_span_length C) era rew (sm_get_or EraRewardSpan_new m i)"
  shows "sp_last_era span' = era" "length (sp_span span') = Suc (era - sp_first_era span')" "i \<le> sp_first_era span'" "sp_first_era span' \<le> era"
    "sm_get m i = Some span \<Longrightarrow> sp_first_era span' = sp_first_era span"
proof -
  let ?L = "cf_era_reward_span_length C"
  note idx = span_index_facts [OF L, of era, folded i_def]
  have "sp_last_era span' = era \<and> length (sp_span span') = Suc (era - sp_first_era span') \<and> i \<le> sp_first_era span' \<and> sp_first_era span' \<le> era
    \<and> (\<forall>span. sm_get m i = Some span \<longrightarrow> sp_first_era span' = sp_first_era span)"
  proof (cases "sm_get m i")
    case None
    with L idx show ?thesis
      by (simp add: span'_def sm_get_or_def span_after_push_def EraRewardSpan_push_def EraRewardSpan_new_def try_push_def)
  next
    case (Some span)
    note s = spans_okD(2-5) [OF ok Some]
    with idx era have last: "Suc (sp_last_era span) = era" by (auto simp: min_def split: if_splits)
    then have "length (sp_span span) < ?L" "era = u32_add (sp_last_era span) 1" "sp_span span \<noteq> []"
      using s idx era by (auto simp: sat_add_exact)
    then have "span' = span\<lparr> sp_span := sp_span span @ [rew], sp_last_era := era \<rparr>"
      by (simp add: span'_def sm_get_or_def Some span_after_push_def EraRewardSpan_push_def try_push_def)
    with s last Some show ?thesis by auto
  qed
  then show "sp_last_era span' = era" "length (sp_span span') = Suc (era - sp_first_era span')" "i \<le> sp_first_era span'" "sp_first_era span' \<le> era"
    "sm_get m i = Some span \<Longrightarrow> sp_first_era span' = sp_first_era span" by auto
qed

lemma push_spans_ok:
  fixes rew :: EraReward
  assumes L: "0 < cf_era_reward_span_length C" and ok: "spans_ok C era m" and era: "0 < era" "era < u32_max" and m: "sm_invar m"
  defines "i \<equiv> era_reward_span_index C era"
  defines "span' \<equiv> span_after_push (cf_era_reward_span_length C) era rew (sm_get_or EraRewardSpan_new m i)"
  shows "spans_ok C (Suc era) (sm_put m i span')" "covered C oldest era m \<Longrightarrow> covered C oldest (Suc era) (sm_put m i span')"
proof -
  let ?L = "cf_era_reward_span_length C"
  note p = push_span [OF L ok era m, where rew = rew, folded i_def, folded span'_def]
  note idx = span_index_facts [OF L, of era, folded i_def]
  show "spans_ok C (Suc era) (sm_put m i span')"
    unfolding spans_ok_def
  proof (intro allI impI)
    fix j span assume get: "sm_get (sm_put m i span') j = Some span"
    show "j mod ?L = 0 \<and> j \<le> sp_first_era span \<and> sp_first_era span \<le> sp_last_era span
      \<and> sp_last_era span = min (j + ?L - 1) (Suc era - 1) \<and> length (sp_span span) = Suc (sp_last_era span - sp_first_era span)"
    proof (cases "j = i")
      case True
      with get m have "span = span'" by simp
      with p idx True show ?thesis by (auto simp: min_def)
    next
      case False
      with get m have "sm_get m j = Some span" by simp
      note s = spans_okD [OF ok this]
      then have "j + ?L \<le> era" using False by (intro span_before [OF L]) (auto simp: i_def)
      with s show ?thesis by (auto simp: min_def)
    qed
  qed
  show "covered C oldest (Suc era) (sm_put m i span')" if cov: "covered C oldest era m"
    unfolding covered_def
  proof (intro allI impI)
    fix e assume e: "oldest \<le> e" "0 < e" "e < Suc era"
    show "\<exists>span. sm_get (sm_put m i span') (era_reward_span_index C e) = Some span \<and> sp_first_era span \<le> e"
    proof (cases "e = era")
      case True
      with p m show ?thesis by (simp add: i_def)
    next
      case False
      with cov e obtain span where "sm_get m (era_reward_span_index C e) = Some span" "sp_first_era span \<le> e"
        by (auto simp: covered_def)
      with p(5) m show ?thesis by (cases "era_reward_span_index C e = i") auto
    qed
  qed
qed

section \<open>The earliest claim of a ledger\<close>

text \<open>What a call does to the first era a ledger can claim: it stays in the period and moves forward only, or
  the stake is new and counts from a later era of the active period.\<close>

definition stake_later :: "EraNumber \<Rightarrow> PeriodNumber \<Rightarrow> AccountLedger \<Rightarrow> AccountLedger \<Rightarrow> bool" where
  "stake_later era p l l' \<longleftrightarrow> (\<forall>q e. AccountLedger_staked_period l' = Some q \<longrightarrow> AccountLedger_earliest_staked_era l' = Some e \<longrightarrow>
     (\<exists>e0. e0 \<le> e \<and> AccountLedger_staked_period l = Some q \<and> AccountLedger_earliest_staked_era l = Some e0) \<or> q = p \<and> era < e)"

lemmas earliest_defs = AccountLedger_staked_period_def AccountLedger_earliest_staked_era_def

lemma stake_later_same:
  "al_staked l' = al_staked l \<Longrightarrow> al_staked_future l' = al_staked_future l \<Longrightarrow> stake_later era p l l'"
  by (auto simp: stake_later_def earliest_defs split: if_splits)

lemma stake_later_none:
  "al_staked l' = StakeAmount_default \<Longrightarrow> al_staked_future l' = None \<Longrightarrow> stake_later era p l l'"
  by (simp add: stake_later_def earliest_defs)

lemma stake_later_trans: "stake_later era p l l' \<Longrightarrow> stake_later era p l' l'' \<Longrightarrow> stake_later era p l l''"
  unfolding stake_later_def by (meson le_trans less_le_trans)

lemma stake_later_cleanup: "stake_later era p l (snd (AccountLedger_maybe_cleanup_expired thr l))"
  by (auto simp: AccountLedger_maybe_cleanup_expired_def intro: stake_later_same stake_later_none split: option.split)

lemma stake_later_stake:
  assumes wf: "stake_wf l" and ok: "AccountLedger_add_stake_amount a era pinfo l = Ok l'" and a: "0 < a" and era: "era < u32_max"
  shows "stake_later era (pi_number pinfo) l l'"
proof -
  obtain u where c: "AccountLedger_stake_unstake_argument_check l era pinfo = Ok u"
    and l': "l' = (case al_staked_future l of
        Some f \<Rightarrow> l\<lparr> al_staked := (if sa_era f = era then f else al_staked l),
             al_staked_future := Some ((StakeAmount_add a (pi_subperiod pinfo) f)\<lparr> sa_era := u32_add era 1 \<rparr>) \<rparr>
      | None \<Rightarrow> l\<lparr> al_staked_future := Some (StakeAmount_add a (pi_subperiod pinfo)
             ((al_staked l)\<lparr> sa_era := u32_add era 1, sa_period := pi_number pinfo \<rparr>)) \<rparr>)"
    by (rule add_stake_OkE [OF wf ok a])
  show ?thesis
    using wf c era unfolding l'
    by (cases "al_staked_future l") (auto simp: stake_later_def earliest_defs ledger_check_defs split: if_splits)
qed

lemma stake_later_unstake:
  assumes wf: "stake_wf l" and ok: "AccountLedger_unstake_amount a era pinfo l = Ok l'" and a: "0 < a"
  shows "stake_later era p l l'"
proof -
  obtain u where l': "l' = l\<lparr> al_staked := (if sa_sum (al_staked l) \<le> a then StakeAmount_default else StakeAmount_subtract a (al_staked l)),
        al_staked_future := (case al_staked_future l of None \<Rightarrow> None
          | Some f \<Rightarrow> if sa_sum f \<le> a then None else Some (StakeAmount_subtract a f)) \<rparr>"
    by (rule unstake_OkE [OF wf ok a])
  show ?thesis
    using wf unfolding l'
    by (cases "al_staked_future l") (auto simp: stake_later_def earliest_defs stake_wf_def sa_is_empty_iff split: if_splits)
qed

lemma stake_later_claim:
  assumes wf: "stake_wf l" and e0: "AccountLedger_earliest_staked_era l = Some e0"
    and claim: "AccountLedger_claim_up_to_era n pe l = Ok (it, l')" and lim: "n < u32_max"
  shows "stake_later era p l l'"
proof -
  have le: "e0 \<le> n" using claim claim_too_early [OF e0, of n pe] by (cases "n < e0") auto
  have l': "l' = (if period_ended pe n then cleared_ledger l else claimed_ledger n l)"
    by (rule claim_up_to_era_eq [OF wf e0 le lim, of pe]) (use claim in auto)
  show ?thesis
    using wf e0 le unfolding l' stake_later_def
    by (auto simp: cleared_ledger_def claimed_ledger_def earliest_defs stake_wf_def split: option.splits if_splits)
qed

definition ledgers_later :: "('acc, 'sc, 'x) Storage \<Rightarrow> ('acc, 'sc, 'x) Storage \<Rightarrow> bool" where
  "ledgers_later s s' \<longleftrightarrow> (\<forall>a. stake_later (ps_era (pl_active_protocol_state s)) (period_of s) (ledger_of a s) (ledger_of a s'))"

lemma ledgers_later_same: "pl_ledger s' = pl_ledger s \<Longrightarrow> ledgers_later s s'"
  by (simp add: ledgers_later_def ledger_of_def stake_later_same)

lemma ledgers_later_written:
  assumes "sm_invar (pl_ledger s)" "ledger_written s a l' (pl_ledger s')"
    "stake_later (ps_era (pl_active_protocol_state s)) (period_of s) (ledger_of a s) l'"
  shows "ledgers_later s s'"
  unfolding ledgers_later_def
proof
  fix b
  show "stake_later (ps_era (pl_active_protocol_state s)) (period_of s) (ledger_of b s) (ledger_of b s')"
  proof (cases "b = a")
    case True
    have "ledger_of a s' = AccountLedger_default \<or> ledger_of a s' = l'"
      using assms(1,2) by (auto simp: ledger_written_def ledger_of_def sm_get_or_def)
    then show ?thesis using assms(3) True by (auto intro: stake_later_none)
  next
    case False
    then have "ledger_of b s' = ledger_of b s"
      using assms(1,2) by (auto simp: ledger_written_def ledger_of_def sm_get_or_def)
    then show ?thesis by (simp add: stake_later_same)
  qed
qed

lemma ledgers_later_update:
  assumes "staking_inv C s" "update_ledger R a l' s0 = Ok s1" "pl_ledger s0 = pl_ledger s" "pl_ledger s' = pl_ledger s1"
    "stake_later (ps_era (pl_active_protocol_state s)) (period_of s) (ledger_of a s) l'"
  shows "ledgers_later s s'"
proof -
  from assms(2) obtain m x where "ledger_written s0 a l' m" "s1 = s0\<lparr> pl_ledger := m, pl_env := x \<rparr>" by (rule update_ledger_Ok)
  then have "ledger_written s a l' (pl_ledger s')" using assms(3,4) by (simp add: ledger_written_def)
  with assms(5) show ?thesis by (intro ledgers_later_written [OF staking_invD(1) [OF assms(1)]])
qed

lemma unlocking_stake:
  assumes "AccountLedger_add_unlocking_chunk cap u b l = Ok l'"
  shows "al_staked l' = al_staked l" "al_staked_future l' = al_staked_future l"
  using assms by (auto simp: AccountLedger_add_unlocking_chunk_def Let_def and_then_Ok_iff split: if_splits result.splits)

lemma lock_calls_later:
  assumes inv: "staking_inv C s"
  shows "lock C R origin amount s = Ok s' \<Longrightarrow> ledgers_later s s'"
    "unlock C R origin amount s = Ok s' \<Longrightarrow> ledgers_later s s'"
    "relock_unlocking C R origin s = Ok s' \<Longrightarrow> ledgers_later s s'"
    "internal_claim_unlocked C R a s = Ok s' \<Longrightarrow> ledgers_later s s'"
    "internal_claim_bonus_reward_for C R a sc s = Ok s' \<Longrightarrow> ledgers_later s s'"
proof -
  note D = staking_invD [OF inv]
  show "ledgers_later s s'" if "lock C R origin amount s = Ok s'"
    using that by (rule lock_OkE)
      (auto intro!: ledgers_later_written [OF D(1)] stake_later_same simp: AccountLedger_add_lock_amount_def)
  show "ledgers_later s s'" if "unlock C R origin amount s = Ok s'"
    using that by (rule unlock_OkE) (auto intro!: ledgers_later_written [OF D(1)] stake_later_same dest: unlocking_stake)
  show "ledgers_later s s'" if "relock_unlocking C R origin s = Ok s'"
    using that
    by (auto simp: relock_unlocking_def Let_def and_then_Ok_iff case_prod_unfold AccountLedger_consume_unlocking_chunks_def
        AccountLedger_add_lock_amount_def intro!: ledgers_later_update [OF inv] stake_later_same)
  show "ledgers_later s s'" if "internal_claim_unlocked C R a s = Ok s'"
    using that
    by (auto simp: internal_claim_unlocked_def clear_staker_info_def Let_def and_then_Ok_iff case_prod_unfold AccountLedger_claim_unlocked_def
        intro!: ledgers_later_update [OF inv] stake_later_same split: if_splits)
  show "ledgers_later s s'" if "internal_claim_bonus_reward_for C R a sc s = Ok s'"
    using that
    by (auto simp: internal_claim_bonus_reward_for_def Let_def and_then_Ok_iff ledger_written_def
        intro!: ledgers_later_written [OF D(1), of a "(ledger_of a s)\<lparr> al_contract_stake_count := al_contract_stake_count (ledger_of a s) - 1 \<rparr>"] stake_later_same)
qed

lemma cleanup_call_later:
  assumes inv: "staking_inv C s" and ok: "cleanup_expired_entries C R origin s = Ok s'"
  shows "ledgers_later s s'"
proof -
  from ok obtain a thr n m s1 where "update_ledger R a (snd (AccountLedger_maybe_cleanup_expired thr
      ((ledger_of a s)\<lparr> al_contract_stake_count := n \<rparr>))) (s\<lparr> pl_staker_info := m \<rparr>) = Ok s1" and s': "pl_ledger s' = pl_ledger s1"
    by (auto simp: cleanup_expired_entries_def Let_def and_then_Ok_iff ledger_of_def)
  from this(1) show ?thesis
    by (rule ledgers_later_update [OF inv _ _ s']) (simp, rule stake_later_trans [OF stake_later_same stake_later_cleanup], simp_all)
qed

lemma stake_call_later:
  assumes inv: "staking_inv C s" and ok: "stake C R origin sc amount s = Ok s'"
  shows "ledgers_later s s'"
proof -
  let ?ps = "pl_active_protocol_state s" and ?thr = "oldest_claimable_period C (period_of s)"
  from ok obtain a d l1 info is_new l2 m x ev where amt: "0 < amount"
    and add: "AccountLedger_add_stake_amount amount (ps_era ?ps) (ps_period_info ?ps) (snd (AccountLedger_maybe_cleanup_expired ?thr (ledger_of a s))) = Ok l1"
    and l2: "l2 = (if is_new then l1\<lparr> al_contract_stake_count := u32_add (al_contract_stake_count l1) 1 \<rparr> else l1)"
    and w: "ledger_written s a l2 m" "pl_ledger s' = m"
    by (rule stake_OkE) simp
  have wf: "stake_wf (snd (AccountLedger_maybe_cleanup_expired ?thr (ledger_of a s)))"
    using cleanup_expired_ok(1) [OF ledger_of_ok [OF inv], of ?thr a] by (simp add: ledger_ok_def oldest_claimable_period_def)
  have "stake_later (ps_era ?ps) (period_of s) (ledger_of a s) l1"
    unfolding ProtocolState_period_number_def
    by (rule stake_later_trans [OF stake_later_cleanup stake_later_stake [OF wf add amt staking_invD(13) [OF inv]]])
  then have "stake_later (ps_era ?ps) (period_of s) (ledger_of a s) l2"
    by (rule stake_later_trans) (simp add: l2 stake_later_same)
  with w show ?thesis by (intro ledgers_later_written [OF staking_invD(1) [OF inv], of a l2]) simp_all
qed

lemma unstake_call_later:
  assumes inv: "staking_inv C s" and ok: "unstake C R origin sc amount s = Ok s'"
  shows "ledgers_later s s'"
proof -
  let ?ps = "pl_active_protocol_state s"
  from ok obtain a d u i' pairs l1 s1 where amt: "0 < amount" and d: "sm_get (pl_integrated_dapps s) sc = Some d"
    and info: "unstake_staking_info C ?ps amount (sm_get (pl_staker_info s) (a, sc)) = Ok (i', u, pairs)"
    and un: "AccountLedger_unstake_amount u (ps_era ?ps) (ps_period_info ?ps) (ledger_of a s) = Ok l1"
    and up: "update_ledger R a (if SingularStakingInfo_is_empty i' then l1\<lparr> al_contract_stake_count := al_contract_stake_count l1 - 1 \<rparr> else l1)
       (s\<lparr> pl_current_era_info := EraInfo_unstake_amount u (pl_current_era_info s),
          pl_contract_stake := sm_put (pl_contract_stake s) (di_id d) (ContractStakeAmount_unstake pairs (ps_period_info ?ps)
            (ps_era ?ps) (contract_stake_of (di_id d) s)),
          pl_staker_info := (if SingularStakingInfo_is_empty i' then sm_remove (pl_staker_info s) (a, sc) else sm_put (pl_staker_info s) (a, sc) i') \<rparr>) = Ok s1"
    and s': "s' = deposit_event (Unstake a sc u) s1"
    by (rule unstake_call_OkE) blast
  from info amt have u: "0 < u" by (rule unstake_staking_info_Ok) (use amt in \<open>auto split: if_splits\<close>)
  have wf: "stake_wf (ledger_of a s)" using ledger_of_ok [OF inv, of a] by (simp add: ledger_ok_def)
  have "stake_later (ps_era ?ps) (period_of s) (ledger_of a s)
      (if SingularStakingInfo_is_empty i' then l1\<lparr> al_contract_stake_count := al_contract_stake_count l1 - 1 \<rparr> else l1)"
    by (rule stake_later_trans [OF stake_later_unstake [OF wf un u] stake_later_same]) simp_all
  from up _ _ this show ?thesis by (rule ledgers_later_update [OF inv]) (simp_all add: s')
qed

lemma unregistered_call_later:
  assumes inv: "staking_inv C s" and ok: "unstake_from_unregistered R origin sc s = Ok s'" and C: "config_ok C"
  shows "ledgers_later s s'"
proof -
  let ?ps = "pl_active_protocol_state s"
  from ok obtain a i l1 s1 where entry: "sm_get (pl_staker_info s) (a, sc) = Some i" "SingularStakingInfo_period_number i = period_of s"
    and un: "AccountLedger_unstake_amount (StakeAmount_total (si_staked i)) (ps_era ?ps) (ps_period_info ?ps) (ledger_of a s) = Ok l1"
    and up: "update_ledger R a l1 (s\<lparr> pl_current_era_info := EraInfo_unstake_amount (StakeAmount_total (si_staked i)) (pl_current_era_info s) \<rparr>) = Ok s1"
    and s': "pl_ledger s' = pl_ledger s1"
    by (auto simp: unstake_from_unregistered_def Let_def and_then_Ok_iff SingularStakingInfo_total_staked_amount_def)
  have pos: "0 < StakeAmount_total (si_staked i)"
    using staking_invD(4) [OF inv entry(1)] C entry(2) by (auto simp: info_ok_def sa_total_eq config_ok_def)
  have wf: "stake_wf (ledger_of a s)" using ledger_of_ok [OF inv, of a] by (simp add: ledger_ok_def)
  from up _ s' stake_later_unstake [OF wf un pos] show ?thesis by (rule ledgers_later_update [OF inv]) simp
qed

lemma claim_call_later:
  assumes inv: "staking_inv C s" and ok: "internal_claim_staker_rewards_for C R a s = Some (Ok s')"
  shows "ledgers_later s s'"
proof -
  from ok obtain q e0 span lst pe it l' rewards x s1 where e0: "AccountLedger_earliest_staked_era (ledger_of a s) = Some e0"
    and span: "sm_get (pl_era_rewards s) (era_reward_span_index C e0) = Some span" and last: "claim_period q s = Ok (lst, pe)"
    and claim: "AccountLedger_claim_up_to_era (min (sp_last_era span) lst) pe (ledger_of a s) = Ok (it, l')"
    and up: "update_ledger R a l' (s\<lparr> pl_env := x \<rparr>) = Ok s1"
    and s': "s' = fold (\<lambda>(era, reward). deposit_event (Reward a era reward)) rewards s1"
    by (rule claim_staker_OkE)
  note D = staking_invD [OF inv]
  have lim: "min (sp_last_era span) lst < u32_max"
    using last D(13) by (auto simp: claim_period_def Let_def min_less_iff_disj split: if_splits dest: D(10))
  have wf: "stake_wf (ledger_of a s)" using ledger_of_ok [OF inv, of a] by (simp add: ledger_ok_def)
  from up _ _ stake_later_claim [OF wf e0 claim lim] show ?thesis
    by (rule ledgers_later_update [OF inv]) (simp_all add: s' fold_events)
qed

lemma dispatch_later:
  assumes inv: "staking_inv C s" and ok: "dispatch C R origin c s = Some (Ok s')" and C: "config_ok C"
  shows "ledgers_later s s'"
proof -
  note calls = lock_calls_later [OF inv] cleanup_call_later [OF inv] stake_call_later [OF inv] unstake_call_later [OF inv]
    unregistered_call_later [OF inv _ C] claim_call_later [OF inv]
  have management: "same_ledgers s s' \<Longrightarrow> ledgers_later s s'" for s' by (rule ledgers_later_same) (simp add: same_ledgers_def)
  show ?thesis
    using ok
    by (cases c) (auto simp: dispatch_def claim_staker_rewards_def claim_staker_rewards_for_def withdraw_unbonded_def claim_unlocked_def
        claim_bonus_reward_def claim_bonus_reward_for_def unbond_and_unstake_def and_then_Ok_iff split: result.splits
        intro: calls management management_frame)
qed

section \<open>The invariant of the history\<close>

abbreviation era_of :: "('acc, 'sc, 'x) Storage \<Rightarrow> EraNumber" where
  "era_of s \<equiv> ps_era (pl_active_protocol_state s)"

abbreviation oldest_era :: "('acc, 'sc, 'x) Storage \<Rightarrow> EraNumber" where
  "oldest_era s \<equiv> cm_oldest_valid_era (pl_history_cleanup_marker s)"

text \<open>The ends of exactly the finished periods that are not expired, in the order of their eras.\<close>

definition periods_ok :: "('acc, 'sc) Config \<Rightarrow> PeriodNumber \<Rightarrow> EraNumber \<Rightarrow> (PeriodNumber, PeriodEndInfo) smap \<Rightarrow> bool" where
  "periods_ok C p oldest m \<longleftrightarrow> (\<forall>q. sm_get m q \<noteq> None \<longleftrightarrow> 0 < q \<and> q < p \<and> p \<le> q + cf_reward_retention_in_periods C)
     \<and> (\<forall>q q' x x'. sm_get m q = Some x \<longrightarrow> sm_get m q' = Some x' \<longrightarrow> q < q' \<longrightarrow> pe_final_era x < pe_final_era x')
     \<and> (\<forall>q x. sm_get m q = Some x \<longrightarrow> oldest \<le> Suc (pe_final_era x))"

lemma periods_okD:
  assumes "periods_ok C p oldest m"
  shows "sm_get m q \<noteq> None \<longleftrightarrow> 0 < q \<and> q < p \<and> p \<le> q + cf_reward_retention_in_periods C"
    "sm_get m q = Some x \<Longrightarrow> sm_get m q' = Some x' \<Longrightarrow> q < q' \<Longrightarrow> pe_final_era x < pe_final_era x'"
    "sm_get m q = Some x \<Longrightarrow> oldest \<le> Suc (pe_final_era x)"
  using assms unfolding periods_ok_def by blast+

definition claim_start_ok ::
  "('acc, 'sc) Config \<Rightarrow> PeriodNumber \<Rightarrow> EraNumber \<Rightarrow> (PeriodNumber, PeriodEndInfo) smap \<Rightarrow> PeriodNumber \<Rightarrow> EraNumber \<Rightarrow> bool" where
  "claim_start_ok C p oldest m q e \<longleftrightarrow> 0 < q \<and> 0 < e \<and> (\<forall>q' x. sm_get m q' = Some x \<longrightarrow> q' < q \<longrightarrow> pe_final_era x < e)
     \<and> (p \<le> q + cf_reward_retention_in_periods C \<longrightarrow> oldest \<le> e)"

definition history_inv :: "('acc, 'sc) Config \<Rightarrow> ('acc, 'sc, 'x) Storage \<Rightarrow> bool" where
  "history_inv C s \<longleftrightarrow> sm_invar (pl_era_rewards s) \<and> spans_ok C (era_of s) (pl_era_rewards s)
     \<and> covered C (oldest_era s) (era_of s) (pl_era_rewards s) \<and> 0 < era_of s \<and> oldest_era s \<le> era_of s
     \<and> periods_ok C (period_of s) (oldest_era s) (pl_period_end s)
     \<and> (\<forall>a q e. AccountLedger_staked_period (ledger_of a s) = Some q \<longrightarrow> AccountLedger_earliest_staked_era (ledger_of a s) = Some e \<longrightarrow>
          claim_start_ok C (period_of s) (oldest_era s) (pl_period_end s) q e)"

lemma history_invD:
  assumes "history_inv C s"
  shows "sm_invar (pl_era_rewards s)" "spans_ok C (era_of s) (pl_era_rewards s)"
    "covered C (oldest_era s) (era_of s) (pl_era_rewards s)" "0 < era_of s" "oldest_era s \<le> era_of s"
    "periods_ok C (period_of s) (oldest_era s) (pl_period_end s)"
    "AccountLedger_staked_period (ledger_of a s) = Some q \<Longrightarrow> AccountLedger_earliest_staked_era (ledger_of a s) = Some e \<Longrightarrow>
      claim_start_ok C (period_of s) (oldest_era s) (pl_period_end s) q e"
  using assms unfolding history_inv_def by blast+

definition same_history :: "('acc, 'sc, 'x) Storage \<Rightarrow> ('acc, 'sc, 'x) Storage \<Rightarrow> bool" where
  "same_history s s' \<longleftrightarrow> pl_era_rewards s' = pl_era_rewards s \<and> pl_period_end s' = pl_period_end s \<and> oldest_era s' = oldest_era s
     \<and> era_of s' = era_of s \<and> period_of s' = period_of s"

lemma history_frame:
  assumes h: "history_inv C s" and inv: "staking_inv C s" and same: "same_history s s'" and later: "ledgers_later s s'"
  shows "history_inv C s'"
proof -
  note H = history_invD [OF h]
  have eq: "pl_era_rewards s' = pl_era_rewards s" "pl_period_end s' = pl_period_end s" "oldest_era s' = oldest_era s"
      "era_of s' = era_of s" "period_of s' = period_of s"
    using same by (simp_all add: same_history_def)
  have "claim_start_ok C (period_of s) (oldest_era s) (pl_period_end s) q e"
    if q: "AccountLedger_staked_period (ledger_of a s') = Some q" "AccountLedger_earliest_staked_era (ledger_of a s') = Some e" for a q e
  proof -
    from later q consider e0 where "e0 \<le> e" "AccountLedger_staked_period (ledger_of a s) = Some q" "AccountLedger_earliest_staked_era (ledger_of a s) = Some e0"
      | "q = period_of s" "era_of s < e"
      unfolding ledgers_later_def stake_later_def by blast
    then show ?thesis
    proof cases
      case 1
      with H(7) [of a q e0] show ?thesis unfolding claim_start_ok_def by (meson le_trans less_le_trans)
    next
      case 2
      with H(5) staking_invD(10,12) [OF inv] show ?thesis unfolding claim_start_ok_def by fastforce
    qed
  qed
  with H(1-6) show ?thesis unfolding history_inv_def eq by blast
qed

lemma management_history:
  "maintenance_mode C origin b s = Ok s' \<Longrightarrow> same_history s s'" "register C origin owner sc s = Ok s' \<Longrightarrow> same_history s s'"
  "set_dapp_reward_beneficiary origin sc ben s = Ok s' \<Longrightarrow> same_history s s'" "set_dapp_owner origin sc owner s = Ok s' \<Longrightarrow> same_history s s'"
  "unregister C origin sc s = Ok s' \<Longrightarrow> same_history s s'" "claim_dapp_reward C R origin sc era s = Ok s' \<Longrightarrow> same_history s s'"
  "force R origin ft s = Ok s' \<Longrightarrow> same_history s s'"
  by (auto simp: management_defs and_then_Ok_iff Let_def deposit_event_def ProtocolState_period_number_def same_history_def
      case_prod_unfold split: ForcingType.splits)

lemma stakes_kept_history: "stakes_kept s s' \<Longrightarrow> same_history s s'"
  by (simp add: stakes_kept_def fixed_part_def same_history_def)

lemma dispatch_history:
  assumes "dispatch C R origin c s = Some (Ok s')"
  shows "same_history s s'"
  using assms staking_call_frame [OF assms, THEN stakes_kept_history]
  by (cases c) (auto simp: dispatch_def intro: management_history)

text \<open>The end of a period: its entry is added and the entry of the period that expires is removed.\<close>

lemma cleanup_marker_next:
  assumes r: "cf_reward_retention_in_periods C < u32_max" and p: "0 < p" and m: "sm_invar m"
    and ok: "periods_ok C p (oldest_era s) m" and ends: "\<And>q x. sm_get m q = Some x \<Longrightarrow> pe_final_era x < era"
    and s: "pl_period_end s = sm_put m p x" "pe_final_era x = era" "era < u32_max"
  defines "s' \<equiv> update_cleanup_marker C (Suc p) s"
  obtains "p \<le> cf_reward_retention_in_periods C" "pl_period_end s' = sm_put m p x" "oldest_era s' = oldest_era s"
  | q y where "q + cf_reward_retention_in_periods C = p" "0 < q" "sm_get (sm_put m p x) q = Some y" "pl_period_end s' = sm_remove (sm_put m p x) q"
      "oldest_era s' = Suc (pe_final_era y)"
proof (cases "p \<le> cf_reward_retention_in_periods C")
  case True
  with r have "s' = s" by (auto simp: s'_def update_cleanup_marker_def sat_add_exact checked_sub_def)
  with True s that(1) show thesis by simp
next
  case False
  let ?q = "p - cf_reward_retention_in_periods C"
  have "\<exists>y. sm_get (sm_put m p x) ?q = Some y"
    using periods_okD(1) [OF ok, of ?q] m False p by (cases "cf_reward_retention_in_periods C = 0") auto
  then obtain y where y: "sm_get (sm_put m p x) ?q = Some y" ..
  have "pe_final_era y < u32_max" using y ends [of ?q y] m s by (auto split: if_splits)
  with y s False r have "pl_period_end s' = sm_remove (sm_put m p x) ?q" "oldest_era s' = Suc (pe_final_era y)"
    by (auto simp: s'_def update_cleanup_marker_def sat_add_exact checked_sub_def)
  with y False p show thesis by (intro that(2) [of ?q y]) auto
qed

lemma periods_next:
  assumes r: "cf_reward_retention_in_periods C < u32_max" and p: "0 < p" and m: "sm_invar m"
    and ok: "periods_ok C p (oldest_era s) m" and ends: "\<And>q x. sm_get m q = Some x \<Longrightarrow> pe_final_era x < era"
    and s: "pl_period_end s = sm_put m p x" "pe_final_era x = era" "era < u32_max" "oldest_era s \<le> era"
  defines "s' \<equiv> update_cleanup_marker C (Suc p) s"
  shows "periods_ok C (Suc p) (oldest_era s') (pl_period_end s')" "oldest_era s \<le> oldest_era s'" "oldest_era s' \<le> Suc era"
    "q \<le> p \<Longrightarrow> claim_start_ok C p (oldest_era s) m q e \<Longrightarrow> claim_start_ok C (Suc p) (oldest_era s') (pl_period_end s') q e"
proof -
  note P = periods_okD [OF ok]
  have get: "sm_get (sm_put m p x) q = (if q = p then Some x else sm_get m q)" for q using m by simp
  have le: "pe_final_era y \<le> era" if "sm_get (sm_put m p x) q = Some y" for q y using that ends [of q y] s by (auto simp: get split: if_splits)
  have old: "oldest_era s \<le> Suc (pe_final_era y)" if "sm_get (sm_put m p x) q = Some y" for q y
    using that P(3) [of q y] s by (auto simp: get split: if_splits)
  have mono: "pe_final_era y < pe_final_era y'" if "sm_get (sm_put m p x) q = Some y" "sm_get (sm_put m p x) q' = Some y'" "q < q'" for q q' y y'
    using that P(1) [of q] P(1) [of q'] P(2) [of q y q' y'] ends [of q y] s by (auto simp: get split: if_splits)
  have dom: "sm_get (sm_put m p x) q \<noteq> None \<longleftrightarrow> q = p \<or> 0 < q \<and> q < p \<and> p \<le> q + cf_reward_retention_in_periods C" for q
    using P(1) [of q] by (simp add: get)
  have "periods_ok C (Suc p) (oldest_era s') (pl_period_end s') \<and> oldest_era s \<le> oldest_era s' \<and> oldest_era s' \<le> Suc era
    \<and> (\<forall>q e. q \<le> p \<longrightarrow> claim_start_ok C p (oldest_era s) m q e \<longrightarrow> claim_start_ok C (Suc p) (oldest_era s') (pl_period_end s') q e)"
  proof (rule cleanup_marker_next [OF r p m ok ends s(1-3), folded s'_def])
    assume c: "p \<le> cf_reward_retention_in_periods C" "pl_period_end s' = sm_put m p x" "oldest_era s' = oldest_era s"
    have "periods_ok C (Suc p) (oldest_era s') (pl_period_end s')"
      unfolding periods_ok_def c(2,3) using dom mono old c(1) p by auto
    moreover have "claim_start_ok C (Suc p) (oldest_era s') (pl_period_end s') q e" if "q \<le> p" "claim_start_ok C p (oldest_era s) m q e" for q e
      unfolding claim_start_ok_def c(2,3) using that c(1) get unfolding claim_start_ok_def by auto
    ultimately show ?thesis using c(3) s(4) by simp
  next
    fix q0 y assume c: "q0 + cf_reward_retention_in_periods C = p" "0 < q0" "sm_get (sm_put m p x) q0 = Some y"
      "pl_period_end s' = sm_remove (sm_put m p x) q0" "oldest_era s' = Suc (pe_final_era y)"
    have get': "sm_get (pl_period_end s') q = (if q = q0 then None else sm_get (sm_put m p x) q)" for q using m c(4) by simp
    have "periods_ok C (Suc p) (oldest_era s') (pl_period_end s')"
      unfolding periods_ok_def c(5)
    proof (intro conjI allI impI)
      show "sm_get (pl_period_end s') q \<noteq> None \<longleftrightarrow> 0 < q \<and> q < Suc p \<and> Suc p \<le> q + cf_reward_retention_in_periods C" for q
        using dom [of q] c(1,2) p by (auto simp: get')
      show "pe_final_era z < pe_final_era z'" if "sm_get (pl_period_end s') q = Some z" "sm_get (pl_period_end s') q' = Some z'" "q < q'" for q q' z z'
        using that mono [of q z q' z'] by (simp add: get' split: if_splits)
      show "Suc (pe_final_era y) \<le> Suc (pe_final_era z)" if z: "sm_get (pl_period_end s') q = Some z" for q z
      proof -
        from z have "sm_get (sm_put m p x) q = Some z" "q \<noteq> q0" by (simp_all add: get' split: if_splits)
        moreover from this dom [of q] have "q0 < q" using c(1) by auto
        ultimately show ?thesis using mono [OF c(3)] by fastforce
      qed
    qed
    moreover have "claim_start_ok C (Suc p) (oldest_era s') (pl_period_end s') q e" if q: "q \<le> p" "claim_start_ok C p (oldest_era s) m q e" for q e
    proof -
      have before: "pe_final_era z < e" if "sm_get (sm_put m p x) q' = Some z" "q' < q" for q' z
        using that q unfolding claim_start_ok_def by (auto simp: get split: if_splits)
      show ?thesis
        unfolding claim_start_ok_def c(5) using q(2) before c(1) before [OF c(3)] unfolding claim_start_ok_def
        by (auto simp: get' split: if_splits)
    qed
    ultimately show ?thesis using old [OF c(3)] le [OF c(3)] c(5) by simp
  qed
  then show "periods_ok C (Suc p) (oldest_era s') (pl_period_end s')" "oldest_era s \<le> oldest_era s'" "oldest_era s' \<le> Suc era"
    "q \<le> p \<Longrightarrow> claim_start_ok C p (oldest_era s) m q e \<Longrightarrow> claim_start_ok C (Suc p) (oldest_era s') (pl_period_end s') q e" by blast+
qed

lemma era_end_history:
  assumes "era_end C R now s = (s1, ps', ei', ev, rew)" "era_changes now (pl_active_protocol_state s)"
  shows "pl_era_rewards s1 = pl_era_rewards s"
    "\<not> period_changes now (pl_active_protocol_state s) \<Longrightarrow> pl_period_end s1 = pl_period_end s \<and> oldest_era s1 = oldest_era s"
    "period_changes now (pl_active_protocol_state s) \<Longrightarrow> \<exists>s2 x. s1 = update_cleanup_marker C (u32_add (period_of s) 1) s2
      \<and> pl_period_end s2 = sm_put (pl_period_end s) (period_of s) x
      \<and> pe_final_era x = era_of s \<and> oldest_era s2 = oldest_era s \<and> pl_era_rewards s2 = pl_era_rewards s"
proof -
  show "pl_era_rewards s1 = pl_era_rewards s"
    "\<not> period_changes now (pl_active_protocol_state s) \<Longrightarrow> pl_period_end s1 = pl_period_end s \<and> oldest_era s1 = oldest_era s"
    using assms by (auto simp: era_end_def era_end_defs period_changes_def era_changes_def split: Subperiod.splits if_splits)
  show "\<exists>s2 x. s1 = update_cleanup_marker C (u32_add (period_of s) 1) s2
      \<and> pl_period_end s2 = sm_put (pl_period_end s) (period_of s) x
      \<and> pe_final_era x = era_of s \<and> oldest_era s2 = oldest_era s \<and> pl_era_rewards s2 = pl_era_rewards s" if "period_changes now (pl_active_protocol_state s)"
    using that assms
    by (clarsimp simp: era_end_def era_end_defs period_changes_def era_changes_def) (intro exI, rule conjI, rule refl, simp, intro exI conjI, rule refl, simp)
qed

text \<open>A new era: the history grows by the rewards of the era that ends.\<close>

lemma covered_mono: "covered C oldest era m \<Longrightarrow> oldest \<le> oldest' \<Longrightarrow> covered C oldest' era m"
  by (auto simp: covered_def)

lemma staked_period_le:
  assumes "staking_inv C s" "AccountLedger_staked_period (ledger_of a s) = Some q"
  shows "q \<le> period_of s"
  using assms(2) ledger_of_ok [OF assms(1), of a] by (auto simp: AccountLedger_staked_period_def ledger_ok_def split: if_splits)

lemma handler_history_fields:
  fixes C :: "('acc, 'sc) Config" and R :: "('acc, 'x) Runtime" and s :: "('acc, 'sc, 'x) Storage"
  assumes ch: "era_changes now (pl_active_protocol_state s)"
  defines "s' \<equiv> era_and_period_handler C R now s"
  obtains rew s1 where "pl_era_rewards s' = sm_put (pl_era_rewards s) (era_reward_span_index C (era_of s))
        (span_after_push (cf_era_reward_span_length C) (era_of s) rew (sm_get_or EraRewardSpan_new (pl_era_rewards s) (era_reward_span_index C (era_of s))))"
    "pl_period_end s' = pl_period_end (s1 :: ('acc, 'sc, 'x) Storage)" "oldest_era s' = oldest_era s1"
    "\<not> period_changes now (pl_active_protocol_state s) \<longrightarrow> pl_period_end s1 = pl_period_end s \<and> oldest_era s1 = oldest_era s"
    "period_changes now (pl_active_protocol_state s) \<longrightarrow> (\<exists>s2 x. s1 = update_cleanup_marker C (u32_add (period_of s) 1) s2
      \<and> pl_period_end s2 = sm_put (pl_period_end s) (period_of s) x
      \<and> pe_final_era x = era_of s \<and> oldest_era s2 = oldest_era s \<and> pl_era_rewards s2 = pl_era_rewards s)"
proof -
  let ?ps = "pl_active_protocol_state s" and ?i = "era_reward_span_index C (era_of s)"
  from ch obtain s0 s1 ps' ei' ev rew where s0: "s0 = s \<or> s0 = notify_block_before_new_era R ?ps s"
    and e: "era_end C R now s0 = (s1, ps', ei', ev, rew)"
    and pe: "pl_period_end s' = pl_period_end s1"
    and rewards: "pl_era_rewards s' = (let i = ?i in sm_put (pl_era_rewards s1) i
        (span_after_push (cf_era_reward_span_length C) (era_of s) rew (sm_get_or EraRewardSpan_new (pl_era_rewards s1) i)))"
    and marker: "pl_history_cleanup_marker s' = pl_history_cleanup_marker s1"
    unfolding s'_def by (rule handler_era_change)
  have same: "pl_active_protocol_state s0 = ?ps" "pl_period_end s0 = pl_period_end s" "pl_era_rewards s0 = pl_era_rewards s"
      "pl_history_cleanup_marker s0 = pl_history_cleanup_marker s"
    using s0 by (auto simp: notify_block_before_new_era_def)
  from ch same have "era_changes now (pl_active_protocol_state s0)" by simp
  note fin = era_end_history [OF e this, unfolded same]
  show thesis
    by (rule that [OF _ pe]) (use fin(2,3) in \<open>simp_all add: rewards fin(1) marker Let_def\<close>)
qed

lemma handler_periods:
  fixes C :: "('acc, 'sc) Config" and R :: "('acc, 'x) Runtime" and s :: "('acc, 'sc, 'x) Storage"
  assumes h: "history_inv C s" and inv: "staking_inv C s" and bounds: "within_bounds (era_and_period_handler C R now s)"
    and r: "cf_reward_retention_in_periods C < u32_max" and ch: "era_changes now (pl_active_protocol_state s)"
  defines "s' \<equiv> era_and_period_handler C R now s"
  shows "periods_ok C (period_of s') (oldest_era s') (pl_period_end s')" "oldest_era s \<le> oldest_era s'" "oldest_era s' \<le> Suc (era_of s)"
    "q \<le> period_of s \<Longrightarrow> claim_start_ok C (period_of s) (oldest_era s) (pl_period_end s) q e \<Longrightarrow>
      claim_start_ok C (period_of s') (oldest_era s') (pl_period_end s') q e"
proof -
  let ?ps = "pl_active_protocol_state s"
  note H = history_invD [OF h] and D = staking_invD [OF inv]
  obtain rew and s1 :: "('acc, 'sc, 'x) Storage" where "pl_era_rewards s' = sm_put (pl_era_rewards s) (era_reward_span_index C (era_of s))
        (span_after_push (cf_era_reward_span_length C) (era_of s) rew (sm_get_or EraRewardSpan_new (pl_era_rewards s) (era_reward_span_index C (era_of s))))"
    and f: "pl_period_end s' = pl_period_end s1" "oldest_era s' = oldest_era s1"
    and keep: "\<not> period_changes now ?ps \<longrightarrow> pl_period_end s1 = pl_period_end s \<and> oldest_era s1 = oldest_era s"
    and change: "period_changes now ?ps \<longrightarrow> (\<exists>s2 x. s1 = update_cleanup_marker C (u32_add (period_of s) 1) s2
      \<and> pl_period_end s2 = sm_put (pl_period_end s) (period_of s) x
      \<and> pe_final_era x = era_of s \<and> oldest_era s2 = oldest_era s \<and> pl_era_rewards s2 = pl_era_rewards s)"
    by (rule handler_history_fields [OF ch, of C R, folded s'_def])
  have lt: "pi_number (ps_period_info ?ps) < u32_max"
    using bounds
    by (auto simp: within_bounds_def handler_protocol_state next_protocol_state_def Let_def ProtocolState_period_number_def sat_add_def split: if_splits)
  note p = period_of_next [OF lt, of C now, folded handler_protocol_state [of C R], folded s'_def]
  have "periods_ok C (period_of s') (oldest_era s') (pl_period_end s') \<and> oldest_era s \<le> oldest_era s' \<and> oldest_era s' \<le> Suc (era_of s)
    \<and> (\<forall>q e. q \<le> period_of s \<longrightarrow> claim_start_ok C (period_of s) (oldest_era s) (pl_period_end s) q e \<longrightarrow>
      claim_start_ok C (period_of s') (oldest_era s') (pl_period_end s') q e)"
  proof (cases "period_changes now ?ps")
    case False
    with keep p H(5,6) show ?thesis by (simp add: f)
  next
    case True
    with change obtain s2 :: "('acc, 'sc, 'x) Storage" and x where s2: "pl_period_end s2 = sm_put (pl_period_end s) (period_of s) x" "pe_final_era x = era_of s"
      and old: "oldest_era s2 = oldest_era s" and s1: "s1 = update_cleanup_marker C (u32_add (period_of s) 1) s2" by blast
    have s1: "s1 = update_cleanup_marker C (Suc (period_of s)) s2" using s1 lt by (simp add: sat_add_exact ProtocolState_period_number_def)
    have le: "oldest_era s2 \<le> era_of s" using H(5) old by simp
    note nxt = periods_next [OF r D(12) D(11) H(6) [folded old] D(10) s2 D(13) le, folded s1]
    show ?thesis unfolding f p using True nxt old by simp
  qed
  then show "periods_ok C (period_of s') (oldest_era s') (pl_period_end s')" "oldest_era s \<le> oldest_era s'" "oldest_era s' \<le> Suc (era_of s)"
    "q \<le> period_of s \<Longrightarrow> claim_start_ok C (period_of s) (oldest_era s) (pl_period_end s) q e \<Longrightarrow>
      claim_start_ok C (period_of s') (oldest_era s') (pl_period_end s') q e" by blast+
qed

lemma handler_history:
  assumes h: "history_inv C s" and inv: "staking_inv C s" and bounds: "within_bounds (era_and_period_handler C R now s)"
    and L: "0 < cf_era_reward_span_length C" and r: "cf_reward_retention_in_periods C < u32_max"
  shows "history_inv C (era_and_period_handler C R now s)"
proof (cases "era_changes now (pl_active_protocol_state s)")
  case False
  from handler_idle [OF False, of C R] show ?thesis
    by (elim disjE) (auto intro!: history_frame [OF h inv] ledgers_later_same simp: same_history_def notify_block_before_new_era_def)
next
  case True
  let ?s' = "era_and_period_handler C R now s"
  note H = history_invD [OF h] and D = staking_invD [OF inv] and P = handler_periods [OF h inv bounds r True]
  obtain rew where rewards: "pl_era_rewards ?s' = sm_put (pl_era_rewards s) (era_reward_span_index C (era_of s))
        (span_after_push (cf_era_reward_span_length C) (era_of s) rew (sm_get_or EraRewardSpan_new (pl_era_rewards s) (era_reward_span_index C (era_of s))))"
    by (rule handler_history_fields [OF True, of C R])
  have era: "era_of ?s' = Suc (era_of s)"
    using True D(13) by (simp add: handler_protocol_state next_protocol_state_def Let_def sat_add_exact)
  note push = push_spans_ok [OF L H(2,4) D(13) H(1), where rew = rew]
  have led: "ledger_of a ?s' = ledger_of a s" for a by (simp add: ledger_of_def handler_frame)
  show ?thesis
    unfolding history_inv_def era led
    using P push(1) covered_mono [OF push(2) [OF H(3)] P(2)] H(1,7) staked_period_le [OF inv] by (auto simp: rewards)
qed

text \<open>The cleanup of an idle block removes expired spans only.\<close>

lemma span_covers:
  assumes "0 < cf_era_reward_span_length C" "spans_ok C era m" "sm_get m (era_reward_span_index C e) = Some span" "e < era"
  shows "e \<le> sp_last_era span"
  using spans_okD(4) [OF assms(2,3)] span_index_facts(3) [OF assms(1), of e] assms(4) by linarith

lemma cleanup_span:
  assumes m: "sm_invar m" and L: "0 < cf_era_reward_span_length C" and ok: "spans_ok C era m" "covered C oldest era m"
    and span: "sm_get m i = Some span" "sp_last_era span < oldest"
  shows "spans_ok C era (sm_remove m i)" "covered C oldest era (sm_remove m i)"
proof -
  have "sm_get m j = Some sp" if "sm_get (sm_remove m i) j = Some sp" for j sp using that m by (simp split: if_splits)
  then show "spans_ok C era (sm_remove m i)" using ok(1) unfolding spans_ok_def by blast
  show "covered C oldest era (sm_remove m i)"
    unfolding covered_def
  proof (intro allI impI)
    fix e assume e: "oldest \<le> e" "0 < e" "e < era"
    with ok(2) obtain sp where sp: "sm_get m (era_reward_span_index C e) = Some sp" "sp_first_era sp \<le> e" by (auto simp: covered_def)
    with span_covers [OF L ok(1) sp(1) e(3)] span e(1) have "era_reward_span_index C e \<noteq> i" by auto
    with sp m show "\<exists>sp. sm_get (sm_remove m i) (era_reward_span_index C e) = Some sp \<and> sp_first_era sp \<le> e" by simp
  qed
qed

lemma idle_rewards:
  "pl_era_rewards (on_idle C b s) = pl_era_rewards s \<or> (\<exists>i span. sm_get (pl_era_rewards s) i = Some span
     \<and> sp_last_era span < oldest_era s \<and> pl_era_rewards (on_idle C b s) = sm_remove (pl_era_rewards s) i)"
  "oldest_era (on_idle C b s) = oldest_era s"
  by (auto simp: on_idle_def expired_entry_cleanup_def cleanup_dapp_tiers_def cleanup_era_reward_def Let_def split: option.split)

lemma idle_history:
  assumes h: "history_inv C s" and L: "0 < cf_era_reward_span_length C"
  shows "history_inv C (on_idle C b s)"
proof -
  note H = history_invD [OF h]
  have led: "ledger_of a (on_idle C b s) = ledger_of a s" for a by (simp add: ledger_of_def)
  from idle_rewards(1) [of C b s] show ?thesis
    using H cleanup_span [OF H(1) L H(2,3)] by (auto simp: history_inv_def led idle_rewards(2))
qed

definition history_config :: "('acc, 'sc) Config \<Rightarrow> bool" where
  "history_config C \<longleftrightarrow> 0 < cf_era_reward_span_length C \<and> cf_reward_retention_in_periods C < u32_max"

lemma genesis_history:
  assumes "GenesisConfig_build C R g (empty_storage x) = Some s"
  shows "history_inv C s"
  using genesis_fields [OF assms]
  by (auto simp: history_inv_def spans_ok_def covered_def periods_ok_def ledger_of_def sm_get_or_def earliest_defs
      CleanupMarker_default_def ProtocolState_period_number_def)

lemma reachable_history:
  assumes "reachable C R s" and ok: "config_ok C" "runtime_ok R" and H: "history_config C"
  shows "history_inv C s"
  using assms(1)
proof (induction rule: reachable.induct)
  case (reach_genesis g x s)
  then show ?case by (rule genesis_history)
next
  case (reach_step s s')
  note inv = reachable_inv [OF reach_step.hyps(1) ok] and h = reach_step.IH
  have L: "0 < cf_era_reward_span_length C" and r: "cf_reward_retention_in_periods C < u32_max" using H by (simp_all add: history_config_def)
  note frame = history_frame [OF h inv]
  from reach_step.hyps(2) show ?case
  proof (cases rule: pallet_step.cases)
    case (step_call origin c)
    show ?thesis by (rule frame [OF dispatch_history dispatch_later]) (fact step_call inv ok(1))+
  next
    case step_block
    let ?s = "s\<lparr> pl_block_number := Suc (pl_block_number s) \<rparr>"
    have "staking_inv C ?s" by (rule inv_frame [OF inv]) simp_all
    moreover have "history_inv C ?s" by (rule frame) (simp_all add: same_history_def ledgers_later_same)
    ultimately show ?thesis using handler_history [of C ?s] L r reach_step.hyps(3) unfolding step_block on_initialize_def by blast
  next
    case (step_idle b)
    show ?thesis unfolding step_idle by (rule idle_history [OF h L])
  next
    case (step_safe_mode b)
    show ?thesis unfolding step_safe_mode
      by (rule frame) (simp_all add: same_history_def ledgers_later_same SafeModeNotify_entered_def SafeModeNotify_exited_def set_maintenance_mode_def
          ProtocolState_period_number_def)
  next
    case (step_env x)
    show ?thesis unfolding step_env by (rule frame) (simp_all add: same_history_def ledgers_later_same)
  qed
qed

section \<open>Claims\<close>

lemma staker_rewards_loop_Ok:
  assumes "\<forall>e \<in> fst ` set pairs. EraRewardSpan_get span e \<noteq> None"
  shows "\<exists>r. staker_rewards_loop A span pairs rewards n = Ok r"
  using assms by (induction A span pairs rewards n rule: staker_rewards_loop.induct) (auto simp: Let_def)

lemma claim_period_Ok:
  assumes h: "history_inv C s" and inv: "staking_inv C s" and q: "AccountLedger_staked_period (ledger_of a s) = Some q" "0 < q"
    "oldest_claimable_period C (period_of s) \<le> q"
  obtains lst pe where "claim_period q s = Ok (lst, pe)" "lst < era_of s"
proof (cases "q = period_of s")
  case True
  with that history_invD(4) [OF h] show thesis by (simp add: claim_period_def)
next
  case False
  with staked_period_le [OF inv q(1)] q have "sm_get (pl_period_end s) q \<noteq> None"
    unfolding periods_okD(1) [OF history_invD(6) [OF h]] by (auto simp: oldest_claimable_period_def)
  then obtain x where x: "sm_get (pl_period_end s) q = Some x" by auto
  with that False staking_invD(10) [OF inv x] show thesis by (simp add: claim_period_def)
qed

lemma claim_rewards_Ok:
  assumes h: "history_inv C s" and inv: "staking_inv C s" and L: "0 < cf_era_reward_span_length C"
    and q: "AccountLedger_staked_period (ledger_of a s) = Some q" and e0: "AccountLedger_earliest_staked_era (ledger_of a s) = Some e0"
    and exp: "oldest_claimable_period C (period_of s) \<le> q"
    and span: "sm_get (pl_era_rewards s) (era_reward_span_index C e0) = Some span" and n: "e0 \<le> n" "n < era_of s" "n \<le> sp_last_era span"
  shows "\<exists>r. staker_rewards_loop A span (map (\<lambda>e. (e, stake_at (ledger_of a s) e)) [e0..<Suc n]) [] 0 = Ok r"
proof (rule staker_rewards_loop_Ok, intro ballI)
  fix e assume "e \<in> fst ` set (map (\<lambda>e. (e, stake_at (ledger_of a s) e)) [e0..<Suc n])"
  then have e: "e0 \<le> e" "e \<le> n" by (auto simp: image_iff)
  note H = history_invD [OF h]
  have "oldest_era s \<le> e0" "0 < e0"
    using H(7) [OF q e0] exp by (auto simp: claim_start_ok_def oldest_claimable_period_def)
  then have "sp_first_era span \<le> e0" using H(3) n span unfolding covered_def by (metis le_less_trans option.inject)
  with e n spans_okD(5) [OF H(2) span] show "EraRewardSpan_get span e \<noteq> None" by (intro span_get_Some) auto
qed

lemma update_ledger_Err: "update_ledger R a l s = Err e \<Longrightarrow> e = CurrencyError"
  by (auto simp: update_ledger_def and_then_def map_err_def split: if_splits result.splits)

lemma claim_not_internal:
  assumes h: "history_inv C s" and inv: "staking_inv C s" and L: "0 < cf_era_reward_span_length C"
  shows "\<exists>r. internal_claim_staker_rewards_for C R a s = Some r \<and> r \<noteq> Err (Module InternalClaimStakerError)"
proof (cases "AccountLedger_staked_period (ledger_of a s)")
  case None
  then show ?thesis by (simp add: internal_claim_staker_rewards_for_def)
next
  case (Some q)
  then obtain e0 where e0: "AccountLedger_earliest_staked_era (ledger_of a s) = Some e0" by (auto simp: earliest_defs split: if_splits)
  have wf: "stake_wf (ledger_of a s)" using ledger_of_ok [OF inv, of a] by (simp add: ledger_ok_def)
  have q: "0 < q" using history_invD(7) [OF h Some e0] by (simp add: claim_start_ok_def)
  show ?thesis
  proof (cases "oldest_claimable_period C (period_of s) \<le> q \<and> (\<exists>span. sm_get (pl_era_rewards s) (era_reward_span_index C e0) = Some span)")
    case False
    with Some e0 show ?thesis
      by (cases "oldest_claimable_period C (period_of s) \<le> q") (auto simp: internal_claim_staker_rewards_for_def)
  next
    case True
    then obtain span where exp: "oldest_claimable_period C (period_of s) \<le> q" and span: "sm_get (pl_era_rewards s) (era_reward_span_index C e0) = Some span" by blast
    obtain lst pe where lst: "claim_period q s = Ok (lst, pe)" "lst < era_of s" by (rule claim_period_Ok [OF h inv Some q exp])
    let ?n = "min (sp_last_era span) lst"
    have n: "?n < era_of s" "?n < u32_max" using lst(2) staking_invD(13) [OF inv] by auto
    show ?thesis
    proof (cases "?n < e0")
      case early: True
      from claim_too_early [OF e0 early, of pe] Some e0 exp span lst(1) show ?thesis
        by (simp add: internal_claim_staker_rewards_for_def claim_error_def)
    next
      case False
      then have le: "e0 \<le> ?n" by (rule leI)
      obtain it where it: "AccountLedger_claim_up_to_era ?n pe (ledger_of a s) =
          Ok (it, if period_ended pe ?n then cleared_ledger (ledger_of a s) else claimed_ledger ?n (ledger_of a s))"
        "EraStakePairIter_collect it = Some (map (\<lambda>e. (e, stake_at (ledger_of a s) e)) [e0..<Suc ?n])"
        by (rule claim_up_to_era_eq [OF wf e0 le n(2)])
      obtain rs t where "staker_rewards_loop (cf_arith C) span (map (\<lambda>e. (e, stake_at (ledger_of a s) e)) [e0..<Suc ?n]) [] 0 = Ok (rs, t)"
        using claim_rewards_Ok [OF h inv L Some e0 exp span le n(1)] by fastforce
      with Some e0 exp span lst(1) it show ?thesis
        by (auto simp: internal_claim_staker_rewards_for_def and_then_def map_err_def Let_def simp del: upt_Suc
            split: result.splits dest: update_ledger_Err)
    qed
  qed
qed

section \<open>Properties\<close>

text \<open>C9: In every reachable state the reward history is complete: every past era that has not expired has its
  rewards in the span at its index, and the ends of exactly the finished periods within the retention period are
  stored, with their final eras in increasing order.\<close>

theorem reward_history_complete:
  assumes "reachable C R s" and "config_ok C" and "runtime_ok R" and "history_config C"
  shows "(\<forall>e. oldest_era s \<le> e \<longrightarrow> 0 < e \<longrightarrow> e < era_of s \<longrightarrow>
      (\<exists>span. sm_get (pl_era_rewards s) (era_reward_span_index C e) = Some span \<and> EraRewardSpan_get span e \<noteq> None))
    \<and> (\<forall>q. sm_get (pl_period_end s) q \<noteq> None \<longleftrightarrow> 0 < q \<and> q < period_of s \<and> oldest_claimable_period C (period_of s) \<le> q)
    \<and> (\<forall>q q' x x'. sm_get (pl_period_end s) q = Some x \<longrightarrow> sm_get (pl_period_end s) q' = Some x' \<longrightarrow> q < q' \<longrightarrow> pe_final_era x < pe_final_era x')"
proof -
  note H = history_invD [OF reachable_history [OF assms]]
  have L: "0 < cf_era_reward_span_length C" using assms(4) by (simp add: history_config_def)
  have "\<exists>span. sm_get (pl_era_rewards s) (era_reward_span_index C e) = Some span \<and> EraRewardSpan_get span e \<noteq> None"
    if e: "oldest_era s \<le> e" "0 < e" "e < era_of s" for e
  proof -
    from H(3) e obtain span where span: "sm_get (pl_era_rewards s) (era_reward_span_index C e) = Some span" "sp_first_era span \<le> e"
      by (auto simp: covered_def)
    with span_get_Some [OF span(2) span_covers [OF L H(2) span(1) e(3)] spans_okD(5) [OF H(2) span(1)]] show ?thesis by blast
  qed
  moreover have "p \<le> q + cf_reward_retention_in_periods C \<longleftrightarrow> oldest_claimable_period C p \<le> q" for p q
    by (auto simp: oldest_claimable_period_def)
  ultimately show ?thesis using periods_okD [OF H(6)] by simp
qed

text \<open>An example: an account stakes in the first era, and two eras are forced to end.\<close>

definition claim_actions :: "(nat, nat) Action list" where
  "claim_actions = [Dispatch Root (Call_register 7 41), Dispatch (Signed 1) (Call_lock 100), Dispatch (Signed 1) (Call_stake 41 60),
     Dispatch Root (Call_force ForceEra), NextBlock, Dispatch Root (Call_force ForceEra), NextBlock]"

definition claim_genesis :: GenesisConfig where
  "claim_genesis = (GenesisConfig_default 4)\<lparr> gc_safeguard := Some False \<rparr>"

definition claim_state :: "(nat, nat, unit) Storage" where
  "claim_state = the (genesis_run example_config example_runtime claim_genesis () claim_actions)"

definition claim_succeeds :: "(nat, nat, unit) dispatch_result option \<Rightarrow> bool" where
  "claim_succeeds r = (case r of Some (Ok s) \<Rightarrow> (\<exists>e \<in> set (pl_events s). e = Reward 1 2 1000) | _ \<Rightarrow> False)"

lemma claim_run:
  "case genesis_run example_config example_runtime claim_genesis () claim_actions of None \<Rightarrow> False
   | Some s \<Rightarrow> era_of s = 3 \<and> oldest_era s = 0 \<and> claim_succeeds (internal_claim_staker_rewards_for example_config example_runtime 1 s)"
  by code_simp

lemma claim_values:
  "reachable example_config example_runtime claim_state" "era_of claim_state = 3" "oldest_era claim_state = 0"
  "claim_succeeds (internal_claim_staker_rewards_for example_config example_runtime 1 claim_state)"
  using claim_run by (auto simp: claim_state_def intro: genesis_run_reachable split: option.splits)

lemma example_history: "history_config example_config"
  by (simp add: history_config_def example_config_def u32_max_def)

theorem reward_history_complete_witness:
  "\<exists>span. sm_get (pl_era_rewards claim_state) (era_reward_span_index example_config 2) = Some span \<and> EraRewardSpan_get span 2 \<noteq> None"
  using reward_history_complete [OF claim_values(1) example_ok example_history] claim_values(2,3) by simp

text \<open>C3: A claim of staker rewards, made for any account in any reachable state, returns, and never with the
  internal error: the iterator stops, every claimed era has an entry in its span and the end of the claimed
  period is known. What can fail is that there is nothing to claim, that the rewards expired, or that the
  payout or the lock fails.\<close>

theorem claim_never_internal_error:
  assumes "reachable C R s" and "config_ok C" and "runtime_ok R" and "history_config C"
  shows "\<exists>r. internal_claim_staker_rewards_for C R account s = Some r \<and> r \<noteq> Err (Module InternalClaimStakerError)"
  using claim_not_internal [OF reachable_history [OF assms] reachable_inv [OF assms(1-3)]] assms(4)
  by (simp add: history_config_def)

theorem claim_never_internal_error_witness:
  "\<exists>r. internal_claim_staker_rewards_for example_config example_runtime 1 claim_state = Some r
     \<and> r \<noteq> Err (Module InternalClaimStakerError) \<and> claim_succeeds (Some r)"
  using claim_never_internal_error [OF claim_values(1) example_ok example_history, of 1] claim_values(4) by auto

end
