(* ===== verification/Economy.thy ===== *)
theory Economy
  imports Inflation History
begin

text \<open>
  The dApp staking pallet over the inflation pallet, as the runtimes wire them (\<open>runtime/astar/src/lib.rs\<close>,
  \<open>impl pallet_dapp_staking::Config\<close>): inflation is the reward handler and the observer of dApp staking. What
  dApp staking relies on is the interface \<open>reward_handler\<close>; the lemma on its calls is proved from the interface
  alone and then holds for the inflation pallet.
\<close>

section \<open>The interface\<close>

text \<open>A step that raises the issuance to the limit at most.\<close>

definition capped_step :: "('x \<Rightarrow> nat) \<Rightarrow> ('x \<Rightarrow> nat) \<Rightarrow> ('acc, 'sc, 'x) Storage \<Rightarrow> ('acc, 'sc, 'x) Storage \<Rightarrow> bool" where
  "capped_step issuance limit s s' \<longleftrightarrow> issuance (pl_env s') \<le> max (issuance (pl_env s)) (limit (pl_env s))"

text \<open>A payout leaves the issuance within a limit, and neither locks nor notifications touch the issuance.\<close>

locale reward_handler =
  fixes issuance :: "'x \<Rightarrow> nat" and limit :: "'x \<Rightarrow> nat" and R :: "('acc, 'x) Runtime"
  assumes payout_within: "rt_payout_reward R a n x = Ok x' \<Longrightarrow> issuance x' \<le> limit x \<and> limit x' = limit x"
    and freeze_keeps: "rt_set_freeze R a n x = Ok x' \<Longrightarrow> issuance x' = issuance x \<and> limit x' = limit x"
    and thaw_keeps: "rt_thaw R a x = Ok x' \<Longrightarrow> issuance x' = issuance x \<and> limit x' = limit x"
    and notify_keeps: "issuance (rt_block_before_new_era R e x) = issuance x \<and> limit (rt_block_before_new_era R e x) = limit x"
begin

abbreviation capped :: "('acc, 'sc, 'x) Storage \<Rightarrow> ('acc, 'sc, 'x) Storage \<Rightarrow> bool" where
  "capped \<equiv> capped_step issuance limit"

lemmas capped_def = capped_step_def

lemma capped_same: "pl_env s' = pl_env s \<Longrightarrow> capped s s'"
  by (simp add: capped_def)

lemma update_ledger_capped:
  assumes "update_ledger R a l s = Ok s'"
  shows "issuance (pl_env s') = issuance (pl_env s)"
  using assms freeze_keeps thaw_keeps by (auto simp: update_ledger_def and_then_Ok_iff split: if_splits)

lemma events_env: "pl_env (fold (\<lambda>(era, reward). deposit_event (Reward a era reward)) rs s) = pl_env s"
  by (induction rs arbitrary: s) (auto simp: deposit_event_def)

lemma locks_capped:
  "lock C R origin amount s = Ok s' \<Longrightarrow> capped s s'"
  "unlock C R origin amount s = Ok s' \<Longrightarrow> capped s s'"
  "relock_unlocking C R origin s = Ok s' \<Longrightarrow> capped s s'"
  "internal_claim_unlocked C R a s = Ok s' \<Longrightarrow> capped s s'"
  "unstake_from_unregistered R origin sc s = Ok s' \<Longrightarrow> capped s s'"
  "cleanup_expired_entries C R origin s = Ok s' \<Longrightarrow> capped s s'"
  by (auto simp: lock_def unlock_def relock_unlocking_def internal_claim_unlocked_def clear_staker_info_def unstake_from_unregistered_def
      cleanup_expired_entries_def Let_def and_then_Ok_iff case_prod_unfold capped_def deposit_event_def dest!: update_ledger_capped split: if_splits)

lemma stakes_capped:
  "stake C R origin sc amount s = Ok s' \<Longrightarrow> capped s s'"
  "unstake C R origin sc amount s = Ok s' \<Longrightarrow> capped s s'"
  by (auto simp: stake_def unstake_def Let_def and_then_Ok_iff case_prod_unfold capped_def deposit_event_def dest!: update_ledger_capped
      simp del: if_split cong: if_cong)

lemma claims_capped:
  "internal_claim_bonus_reward_for C R a sc s = Ok s' \<Longrightarrow> capped s s'"
  "claim_dapp_reward C R origin sc era s = Ok s' \<Longrightarrow> capped s s'"
  by (auto simp: internal_claim_bonus_reward_for_def claim_dapp_reward_def Let_def and_then_Ok_iff case_prod_unfold capped_def deposit_event_def
      dest!: payout_within)

lemma claim_staker_capped:
  assumes "internal_claim_staker_rewards_for C R a s = Some (Ok s')"
  shows "capped s s'"
proof -
  from assms obtain n x l s1 rewards where pay: "rt_payout_reward R a n (pl_env s) = Ok x"
    and up: "update_ledger R a l (s\<lparr> pl_env := x \<rparr>) = Ok s1" and s': "pl_env s' = pl_env s1"
    by (auto simp: internal_claim_staker_rewards_for_def Let_def and_then_Ok_iff events_env split: result.splits prod.splits)
  from payout_within [OF pay] update_ledger_capped [OF up] show ?thesis by (auto simp: capped_def s')
qed

lemma management_capped:
  "maintenance_mode C origin b s = Ok s' \<Longrightarrow> capped s s'" "register C origin owner sc s = Ok s' \<Longrightarrow> capped s s'"
  "set_dapp_reward_beneficiary origin sc ben s = Ok s' \<Longrightarrow> capped s s'" "set_dapp_owner origin sc owner s = Ok s' \<Longrightarrow> capped s s'"
  "unregister C origin sc s = Ok s' \<Longrightarrow> capped s s'" "force R origin ft s = Ok s' \<Longrightarrow> capped s s'"
  using notify_keeps
  by (auto simp: management_defs and_then_Ok_iff Let_def deposit_event_def capped_def case_prod_unfold split: ForcingType.splits)

lemma dispatch_capped:
  assumes "dispatch C R origin c s = Some (Ok s')"
  shows "capped s s'"
  using assms
  by (cases c) (auto simp: dispatch_def claim_staker_rewards_def claim_staker_rewards_for_def withdraw_unbonded_def claim_unlocked_def
        claim_bonus_reward_def claim_bonus_reward_for_def unbond_and_unstake_def and_then_Ok_iff split: result.splits
        intro: locks_capped stakes_capped claims_capped claim_staker_capped management_capped)

end

section \<open>The inflation pallet as reward handler\<close>

definition inflation_runtime ::
  "('acc, 'x) InflationConfig \<Rightarrow> ('acc, 'x InflationState) Runtime \<Rightarrow> ('acc, 'x InflationState) Runtime" where
  "inflation_runtime I R = R\<lparr> rt_total_issuance := \<lambda>s. if_total_issuance I (in_env s),
     rt_staker_and_dapp_reward_pools := staker_and_dapp_reward_pools I,
     rt_bonus_reward_pool := Inflation_bonus_reward_pool,
     rt_payout_reward := payout_reward I,
     rt_block_before_new_era := Inflation_block_before_new_era \<rparr>"

text \<open>What is left of the runtime: the locks of the currency change neither the issuance nor the inflation pallet.\<close>

definition locks_ok :: "('acc, 'x) InflationConfig \<Rightarrow> ('acc, 'x InflationState) Runtime \<Rightarrow> bool" where
  "locks_ok I R \<longleftrightarrow>
     (\<forall>a n s s'. rt_set_freeze R a n s = Ok s' \<longrightarrow> if_total_issuance I (in_env s') = if_total_issuance I (in_env s) \<and> active_config s' = active_config s)
     \<and> (\<forall>a s s'. rt_thaw R a s = Ok s' \<longrightarrow> if_total_issuance I (in_env s') = if_total_issuance I (in_env s) \<and> active_config s' = active_config s)"

lemma inflation_reward_handler:
  assumes C: "currency_ok I" and locks: "locks_ok I R"
  shows "reward_handler (\<lambda>s. if_total_issuance I (in_env s)) (\<lambda>s. relaxed_issuance_safety_cap (active_config s)) (inflation_runtime I R)"
proof
  fix a n s s' assume pay: "rt_payout_reward (inflation_runtime I R) a n s = Ok s'"
  let ?cap = "relaxed_issuance_safety_cap (active_config s)"
  from pay have p: "payout_reward I a n s = Ok s'" by (simp add: inflation_runtime_def)
  then have c: "u128_add (if_total_issuance I (in_env s)) n \<le> ?cap" and s': "s' = s \<or> (\<exists>x. if_deposit I a n (in_env s) = Ok x \<and> s' = s\<lparr> in_env := x \<rparr>)"
    by (auto simp: payout_reward_def and_then_Ok_iff is_payout_cap_limit_exceeded_def Let_def split: result.splits)
  have "if_total_issuance I (in_env s') \<le> u128_add (if_total_issuance I (in_env s)) n"
    using s' C by (auto simp: currency_ok_def sat_add_def)
  with c s' show "if_total_issuance I (in_env s') \<le> ?cap \<and> relaxed_issuance_safety_cap (active_config s') = ?cap"
    by (auto simp: active_config_def)
qed (use locks in \<open>auto simp: locks_ok_def inflation_runtime_def Inflation_block_before_new_era_def active_config_def\<close>)

definition example_economy :: "(nat, nat InflationState) Runtime" where
  "example_economy = inflation_runtime example_inflation
     \<lparr> rt_total_balance = (\<lambda>_ _. 10000), rt_total_issuance = (\<lambda>_. 0), rt_set_freeze = (\<lambda>_ _ x. Ok x), rt_thaw = (\<lambda>_ x. Ok x),
       rt_allowed_to_stake = (\<lambda>_ _. True), rt_average_price = (\<lambda>_. 5 * 10 ^ 16), rt_staker_and_dapp_reward_pools = (\<lambda>_ _. (0, 0)),
       rt_bonus_reward_pool = (\<lambda>_. 0), rt_payout_reward = (\<lambda>_ _ x. Ok x), rt_block_before_new_era = (\<lambda>_ x. x) \<rparr>"

interpretation economy: reward_handler "\<lambda>s. if_total_issuance example_inflation (in_env s)"
  "\<lambda>s. relaxed_issuance_safety_cap (active_config s)" example_economy
  unfolding example_economy_def by (rule inflation_reward_handler [OF example_inflation_ok(3)]) (simp add: locks_ok_def)

section \<open>Blocks\<close>

text \<open>A block without calls, in the order the runtime lists the pallets: both pallets start the block, inflation
  first, and inflation ends it.\<close>

definition economy_block ::
  "('acc, 'x) InflationConfig \<Rightarrow> ('acc, 'sc) Config \<Rightarrow> ('acc, 'x InflationState) Runtime \<Rightarrow>
     ('acc, 'sc, 'x InflationState) Storage \<Rightarrow> ('acc, 'sc, 'x InflationState) Storage" where
  "economy_block I C R s =
     (let s = s\<lparr> pl_block_number := Suc (pl_block_number s) \<rparr>;
          s = s\<lparr> pl_env := Inflation_on_initialize I (pl_env s) \<rparr>;
          s = on_initialize C (inflation_runtime I R) (pl_block_number s) s
      in s\<lparr> pl_env := Inflation_on_finalize I (pl_env s) \<rparr>)"

lemma handler_env:
  "pl_env (era_and_period_handler C R now s) =
     (let ps = pl_active_protocol_state s
      in if \<not> ps_maintenance ps \<and> ps_next_era_start ps = u32_add now 1 then rt_block_before_new_era R (u32_add (ps_era ps) 1) (pl_env s) else pl_env s)"
  by (auto simp: era_and_period_handler_def start_new_era_def era_end_defs deposit_event_def notify_block_before_new_era_def
      split: Subperiod.split option.split)

lemma block_rewards_keep:
  "active_config (Inflation_on_initialize I s) = active_config s" "in_do_recalculation (Inflation_on_initialize I s) = in_do_recalculation s"
  by (simp_all add: Inflation_on_initialize_def payout_block_rewards_def active_config_def Let_def case_prod_unfold)

lemma economy_block_protocol:
  fixes s :: "('b, 'c, 'd InflationState) Storage"
  shows
  "pl_active_protocol_state (economy_block I C R s) = next_protocol_state C (Suc (pl_block_number s)) (pl_active_protocol_state s)"
  "pl_block_number (economy_block I C R s) = Suc (pl_block_number s)"
proof -
  show "pl_active_protocol_state (economy_block I C R s) = next_protocol_state C (Suc (pl_block_number s)) (pl_active_protocol_state s)"
    by (simp add: economy_block_def Let_def on_initialize_def handler_protocol_state)
  have "pl_block_number (era_and_period_handler C R' now t) = pl_block_number t" for R' now and t :: "('b, 'c, 'd InflationState) Storage"
    using handler_frame(3) [of C R' now t] by (simp add: registry_part_def)
  then show "pl_block_number (economy_block I C R s) = Suc (pl_block_number s)"
    by (simp add: economy_block_def Let_def on_initialize_def)
qed

lemma economy_block_env:
  "pl_env (economy_block I C R s) = Inflation_on_finalize I
     (let ps = pl_active_protocol_state s; x = Inflation_on_initialize I (pl_env s)
      in if \<not> ps_maintenance ps \<and> ps_next_era_start ps = u32_add (Suc (pl_block_number s)) 1
         then Inflation_block_before_new_era (u32_add (ps_era ps) 1) x else x)"
  by (simp add: economy_block_def Let_def on_initialize_def handler_env inflation_runtime_def)

section \<open>Properties\<close>

text \<open>C11: With inflation as its reward handler, no call of the dApp staking pallet, whoever makes it and in whatever
  state, raises the total issuance above the safety cap with its one percent of tolerance.\<close>

theorem calls_respect_issuance_cap:
  assumes "currency_ok I" and "locks_ok I R" and "dispatch C (inflation_runtime I R) origin c s = Some (Ok s')"
  shows "if_total_issuance I (in_env (pl_env s')) \<le>
    max (if_total_issuance I (in_env (pl_env s))) (relaxed_issuance_safety_cap (active_config (pl_env s)))"
  using reward_handler.dispatch_capped [OF inflation_reward_handler [OF assms(1,2)] assms(3)] by (simp add: capped_step_def)

definition economy_state :: "(nat, nat, nat InflationState) Storage" where
  "economy_state = the (genesis_run example_config example_economy claim_genesis example_cycle_start claim_actions)"

definition claim_paid :: "Balance \<Rightarrow> (nat, nat, nat InflationState) Storage \<Rightarrow> (nat, nat, nat InflationState) dispatch_result option \<Rightarrow> bool" where
  "claim_paid n s r = (case r of Some (Ok s') \<Rightarrow> in_env (pl_env s') = in_env (pl_env s) + n | _ \<Rightarrow> False)"

lemma economy_run:
  "case genesis_run example_config example_economy claim_genesis example_cycle_start claim_actions of None \<Rightarrow> False
   | Some s \<Rightarrow> claim_paid 420420 s (dispatch example_config example_economy (Signed 1) Call_claim_staker_rewards s)
       \<and> in_env (pl_env s) = 8000000000 \<and> active_config (pl_env s) = example_cycle_config"
  by code_simp

theorem calls_respect_issuance_cap_witness:
  "\<exists>s'. dispatch example_config example_economy (Signed 1) Call_claim_staker_rewards economy_state = Some (Ok s')
    \<and> in_env (pl_env s') = 8000420420 \<and> if_total_issuance example_inflation (in_env (pl_env s')) \<le> 8645600000"
proof -
  have run: "claim_paid 420420 economy_state (dispatch example_config example_economy (Signed 1) Call_claim_staker_rewards economy_state)"
    and env: "in_env (pl_env economy_state) = 8000000000" "active_config (pl_env economy_state) = example_cycle_config"
    using economy_run by (auto simp: economy_state_def split: option.splits)
  from run obtain s' where s': "dispatch example_config example_economy (Signed 1) Call_claim_staker_rewards economy_state = Some (Ok s')"
      "in_env (pl_env s') = 8000420420"
    by (auto simp: claim_paid_def env split: option.splits result.splits)
  have cap: "relaxed_issuance_safety_cap example_cycle_config = 8645600000"
    by (simp add: relaxed_issuance_safety_cap_def example_cycle_config_def sat_mul_def u128_max_def)
  have "if_total_issuance example_inflation (in_env (pl_env s')) \<le> max 8000000000 8645600000"
    using calls_respect_issuance_cap [OF example_inflation_ok(3) _ s'(1) [unfolded example_economy_def]]
    by (simp add: locks_ok_def env cap example_cycle_start_simps)
  with s' show ?thesis by simp
qed

text \<open>C12: When inflation is due at the next era, it is recalculated at the end of the block before that era, so the
  first block of the era already pays by the new configuration; and when it is not due, the configuration stays
  the same over the change of era.\<close>

theorem new_era_pays_by_new_inflation:
  fixes I :: "('acc, 'x) InflationConfig" and C :: "('acc, 'sc) Config" and R :: "('acc, 'x InflationState) Runtime"
  assumes "\<not> ps_maintenance (pl_active_protocol_state s)" and "ps_next_era_start (pl_active_protocol_state s) = pl_block_number s + 2"
    and "pl_block_number s + 2 < u32_max" and "in_do_recalculation (pl_env s) = None"
    and "ps_era (pl_active_protocol_state s) + 1 + eras_per_cycle (if_cycle I) \<le> u32_max" and "0 < eras_per_cycle (if_cycle I)"
  defines "s1 \<equiv> economy_block I C R s" and "s2 \<equiv> economy_block I C R (economy_block I C R s)"
    and "due \<equiv> ic_recalculation_era (active_config (pl_env s)) \<le> ps_era (pl_active_protocol_state s) + 1"
  shows "ps_era (pl_active_protocol_state s1) = ps_era (pl_active_protocol_state s)
    \<and> ps_era (pl_active_protocol_state s2) = ps_era (pl_active_protocol_state s) + 1
    \<and> active_config (pl_env s2) = active_config (pl_env s1)
    \<and> ps_era (pl_active_protocol_state s2) < ic_recalculation_era (active_config (pl_env s2))
    \<and> (if due then active_config (pl_env s1) = recalculate_inflation I (ps_era (pl_active_protocol_state s) + 1) (Inflation_on_initialize I (pl_env s))
       else active_config (pl_env s1) = active_config (pl_env s))"
proof -
  let ?ps = "pl_active_protocol_state s"
  let ?x = "Inflation_on_initialize I (pl_env s)"
  have idle: "\<not> era_changes (Suc (pl_block_number s)) ?ps" using assms(2) by (simp add: era_changes_def)
  have ps1: "pl_active_protocol_state s1 = ?ps" "pl_block_number s1 = Suc (pl_block_number s)"
    using idle by (simp_all add: s1_def economy_block_protocol next_protocol_state_def)
  have era: "u32_add (ps_era ?ps) 1 = ps_era ?ps + 1" using assms(5) by (simp add: sat_add_exact)
  have now: "u32_add (Suc (pl_block_number s)) 1 = pl_block_number s + 2" using assms(3) by (simp add: sat_add_exact)
  have x1: "pl_env s1 = Inflation_on_finalize I (Inflation_block_before_new_era (ps_era ?ps + 1) ?x)"
    using assms(1,2) unfolding s1_def economy_block_env Let_def era now by simp
  have "era_changes (Suc (pl_block_number s1)) (pl_active_protocol_state s1)" using assms(1,2) ps1 by (simp add: era_changes_def)
  then have e2: "ps_era (pl_active_protocol_state s2) = ps_era ?ps + 1"
    using era unfolding s2_def s1_def [symmetric] economy_block_protocol ps1 by (simp add: next_protocol_state_def Let_def)
  have none: "in_do_recalculation (pl_env s1) = None" "active_config (pl_env s1) =
      (if due then recalculate_inflation I (ps_era ?ps + 1) ?x else active_config (pl_env s))"
    using assms(4) block_rewards_keep [of I "pl_env s"] unfolding x1 due_def
    by (auto simp: Inflation_on_finalize_def Inflation_block_before_new_era_def inflation_event_def Let_def active_config_def
        recalculate_inflation_def inflation_params_def split: option.splits)
  have "ps_next_era_start (pl_active_protocol_state s1) \<noteq> u32_add (Suc (pl_block_number s1)) 1"
    using assms(2,3) ps1 by (simp add: sat_add_exact)
  then have "pl_env s2 = Inflation_on_finalize I (Inflation_on_initialize I (pl_env s1))"
    unfolding s2_def s1_def [symmetric] economy_block_env Let_def by simp
  then have c2: "active_config (pl_env s2) = active_config (pl_env s1)"
    using none(1) block_rewards_keep [of I "pl_env s1"] by (simp add: Inflation_on_finalize_def)
  have "ps_era ?ps + 1 < ic_recalculation_era (active_config (pl_env s1))"
    using none(2) assms(5,6) by (auto simp: due_def recalculate_inflation_def Let_def sat_add_exact)
  with ps1 e2 c2 none(2) show ?thesis by simp
qed

definition last_block_state :: "(nat, nat, nat InflationState) Storage" where
  "last_block_state = (empty_storage (example_cycle_start\<lparr> in_active_config := Some (example_cycle_config\<lparr> ic_recalculation_era := 2 \<rparr>) \<rparr>))
     \<lparr> pl_active_protocol_state := \<lparr> ps_era = 1, ps_next_era_start = 61,
         ps_period_info = \<lparr> pi_number = 1, pi_subperiod = Voting, pi_next_subperiod_start_era = 2 \<rparr>, ps_maintenance = False \<rparr>,
       pl_block_number := 59 \<rparr>"

theorem new_era_pays_by_new_inflation_witness:
  "ps_era (pl_active_protocol_state (economy_block example_inflation example_config example_economy (economy_block example_inflation example_config example_economy last_block_state))) = 2
   \<and> active_config (pl_env (economy_block example_inflation example_config example_economy last_block_state)) =
     recalculate_inflation example_inflation 2 (Inflation_on_initialize example_inflation (pl_env last_block_state))"
proof -
  have "\<not> ps_maintenance (pl_active_protocol_state last_block_state)" "ps_next_era_start (pl_active_protocol_state last_block_state) = pl_block_number last_block_state + 2"
    "pl_block_number last_block_state + 2 < u32_max" "in_do_recalculation (pl_env last_block_state) = None"
    "ps_era (pl_active_protocol_state last_block_state) + 1 + eras_per_cycle (if_cycle example_inflation) \<le> u32_max" "0 < eras_per_cycle (if_cycle example_inflation)"
    by (simp_all add: last_block_state_def example_cycle_start_simps empty_storage_def u32_max_def example_inflation_simps astar_cycle_values)
  note t = new_era_pays_by_new_inflation [OF this, of example_config example_economy]
  have "ps_era (pl_active_protocol_state last_block_state) = 1" "ic_recalculation_era (active_config (pl_env last_block_state)) = 2"
    by (simp_all add: last_block_state_def empty_storage_def active_config_def)
  with t show ?thesis by (simp add: numeral_2_eq_2)
qed

end
