(* ===== verification/PriceAggregator.thy ===== *)
theory PriceAggregator
  imports Primitives Frame "HOL-Library.Code_Target_Nat"
begin

text \<open>
  The oracle side of the runtime: \<open>src/primitives/src/oracle.rs\<close>, the price aggregator pallet
  \<open>src/pallets/price-aggregator/src/lib.rs\<close> and the static price provider
  \<open>src/pallets/static-price-provider/src/lib.rs\<close>. A price is a \<open>FixedU128\<close>, kept as its inner natural
  number; the operations of \<open>FixedU128\<close> come from the record \<open>FixedPoint\<close>. Prices of a block are combined by
  a \<open>ProcessBlockValues\<close> (the locale \<open>process_block_values\<close>, interpreted on the average and on the
  median), summed in the aggregator for a number of blocks, and the averages go to the circular buffer, whose mean
  is the price dApp staking reads.
\<close>

datatype CurrencyId = ASTR | SDN

section \<open>Processing the values of a block\<close>

definition saturating_sum :: "nat list \<Rightarrow> nat" where
  "saturating_sum values = foldl u128_add 0 values"

definition AverageBlockValue_process :: "FixedPoint \<Rightarrow> nat list \<Rightarrow> (nat, unit) result" where
  "AverageBlockValue_process F values =
     (if values = [] then Err ()
      else Ok (fp_saturating_mul F (saturating_sum values) (fp_from_rational F 1 (length values))))"

definition MedianBlockValue_process :: "FixedPoint \<Rightarrow> nat list \<Rightarrow> (nat, unit) result" where
  "MedianBlockValue_process F values =
     (if values = [] then Err ()
      else let sorted_values = sort values; mid = length sorted_values div 2
           in if length sorted_values mod 2 = 0
              then Ok (fp_saturating_mul F (u128_add (sorted_values ! sat_sub mid 1) (sorted_values ! mid))
                     (fp_from_rational F 1 2))
              else Ok (sorted_values ! mid))"

section \<open>The aggregator and the circular buffer\<close>

record ValueAggregator =
  va_total :: nat
  va_count :: nat
  va_limit_block :: nat

definition ValueAggregator_new :: "nat \<Rightarrow> ValueAggregator" where
  "ValueAggregator_new limit_block = \<lparr> va_total = 0, va_count = 0, va_limit_block = limit_block \<rparr>"

definition ValueAggregator_try_add :: "ValueAggregator \<Rightarrow> nat \<Rightarrow> (ValueAggregator, unit) result" where
  "ValueAggregator_try_add self value =
     and_then (ok_or () (checked_add u128_max (va_total self) value)) (\<lambda>t.
     and_then (ok_or () (checked_add u32_max (va_count self) 1)) (\<lambda>c.
     Ok (self\<lparr>va_total := t, va_count := c\<rparr>)))"

definition ValueAggregator_average :: "FixedPoint \<Rightarrow> ValueAggregator \<Rightarrow> nat" where
  "ValueAggregator_average F self =
     (if va_count self = 0 then 0
      else fp_saturating_mul F (va_total self) (fp_from_rational F 1 (va_count self)))"

record CircularBuffer =
  cb_buffer :: "nat list"
  cb_head :: nat

text \<open>\<open>L\<close> is the capacity. An invalid next index is logged and the value dropped.\<close>

definition CircularBuffer_add :: "nat \<Rightarrow> nat \<Rightarrow> CircularBuffer \<Rightarrow> CircularBuffer" where
  "CircularBuffer_add L value self =
     (if L \<le> cb_head self \<or> length (cb_buffer self) < cb_head self then self
      else let buffer = (if cb_head self < length (cb_buffer self) then (cb_buffer self)[cb_head self := value]
             else (case try_push L value (cb_buffer self) of Ok b \<Rightarrow> b | Err _ \<Rightarrow> cb_buffer self))
           in self\<lparr>cb_buffer := buffer, cb_head := u32_add (cb_head self) 1 mod L\<rparr>)"

definition CircularBuffer_average :: "FixedPoint \<Rightarrow> CircularBuffer \<Rightarrow> nat" where
  "CircularBuffer_average F self =
     (if cb_buffer self = [] then 0
      else fp_saturating_mul F (saturating_sum (cb_buffer self)) (fp_from_rational F 1 (length (cb_buffer self))))"

section \<open>The pallet\<close>

record PriceConfig =
  pc_max_values_per_block :: nat
  pc_process :: "nat list \<Rightarrow> (nat, unit) result"
  pc_native_currency_id :: CurrencyId
  pc_circular_buffer_length :: nat
  pc_aggregation_duration :: nat
  pc_fixed :: FixedPoint

datatype PriceEvent = AverageAggregatedValue (aggregated_value: nat)

record PriceStorage =
  ps_current_block_values :: "nat list"
  ps_intermediate_value_aggregator :: ValueAggregator
  ps_values_circular_buffer :: CircularBuffer
  ps_events :: "PriceEvent list"

definition price_genesis_build :: "PriceConfig \<Rightarrow> nat list \<Rightarrow> PriceStorage" where
  "price_genesis_build cfg circular_buffer =
     \<lparr> ps_current_block_values = [],
       ps_intermediate_value_aggregator = ValueAggregator_new (saturated_into u32_max (pc_aggregation_duration cfg)),
       ps_values_circular_buffer =
         \<lparr> cb_buffer = circular_buffer, cb_head = length circular_buffer mod pc_circular_buffer_length cfg \<rparr>,
       ps_events = [] \<rparr>"

definition price_integrity_test :: "PriceConfig \<Rightarrow> bool" where
  "price_integrity_test cfg \<longleftrightarrow> 0 < pc_max_values_per_block cfg \<and> 0 < pc_circular_buffer_length cfg \<and>
     pc_aggregation_duration cfg \<noteq> 0"

definition process_block_aggregated_values :: "PriceConfig \<Rightarrow> PriceStorage \<Rightarrow> PriceStorage" where
  "process_block_aggregated_values cfg s =
     (let accumulated_values = ps_current_block_values s; s = s\<lparr>ps_current_block_values := []\<rparr>
      in case pc_process cfg accumulated_values of
           Err _ \<Rightarrow> s
         | Ok processed_value \<Rightarrow>
             (case ValueAggregator_try_add (ps_intermediate_value_aggregator s) processed_value of
                Ok new_aggregator \<Rightarrow> s\<lparr>ps_intermediate_value_aggregator := new_aggregator\<rparr>
              | Err _ \<Rightarrow> s))"

definition process_intermediate_aggregated_values :: "PriceConfig \<Rightarrow> nat \<Rightarrow> PriceStorage \<Rightarrow> PriceStorage" where
  "process_intermediate_aggregated_values cfg now s =
     (let average_value = ValueAggregator_average (pc_fixed cfg) (ps_intermediate_value_aggregator s);
          s = s\<lparr>ps_intermediate_value_aggregator :=
                 ValueAggregator_new (saturated_into u32_max (u32_add now (pc_aggregation_duration cfg)))\<rparr>
      in if average_value = 0 then s
         else s\<lparr>ps_values_circular_buffer :=
                  CircularBuffer_add (pc_circular_buffer_length cfg) average_value (ps_values_circular_buffer s),
                ps_events := ps_events s @ [AverageAggregatedValue average_value]\<rparr>)"

definition price_on_finalize :: "PriceConfig \<Rightarrow> nat \<Rightarrow> PriceStorage \<Rightarrow> PriceStorage" where
  "price_on_finalize cfg now s =
     (let s = process_block_aggregated_values cfg s
      in if va_limit_block (ps_intermediate_value_aggregator s) \<le> saturated_into u32_max now
         then process_intermediate_aggregated_values cfg now s else s)"

definition on_new_data :: "PriceConfig \<Rightarrow> 'acc \<Rightarrow> CurrencyId \<Rightarrow> nat \<Rightarrow> PriceStorage \<Rightarrow> PriceStorage" where
  "on_new_data cfg who key value s =
     (if pc_native_currency_id cfg \<noteq> key then s
      else (case try_push (pc_max_values_per_block cfg) value (ps_current_block_values s) of
              Ok values \<Rightarrow> s\<lparr>ps_current_block_values := values\<rparr>
            | Err _ \<Rightarrow> s))"

definition average_price :: "PriceConfig \<Rightarrow> PriceStorage \<Rightarrow> nat" where
  "average_price cfg s = CircularBuffer_average (pc_fixed cfg) (ps_values_circular_buffer s)"

text \<open>What the chain does to the pallet: the oracle feeds values, blocks are finalized.\<close>

datatype 'acc price_action = NewData 'acc CurrencyId nat | FinalizeBlock nat

fun price_step :: "PriceConfig \<Rightarrow> 'acc price_action \<Rightarrow> PriceStorage \<Rightarrow> PriceStorage" where
  "price_step cfg (NewData who key value) s = on_new_data cfg who key value s"
| "price_step cfg (FinalizeBlock now) s = price_on_finalize cfg now s"

definition price_run :: "PriceConfig \<Rightarrow> 'acc price_action list \<Rightarrow> PriceStorage \<Rightarrow> PriceStorage" where
  "price_run cfg actions s = fold (price_step cfg) actions s"

section \<open>The static price provider\<close>

datatype StaticPriceError = ZeroPrice

record StaticPriceStorage =
  sp_active_price :: nat
  sp_set_events :: "nat list"

definition DefaultActivePrice :: "FixedPoint \<Rightarrow> nat" where
  "DefaultActivePrice F = fp_from_rational F 1 10"

definition force_set_price ::
  "'acc RawOrigin \<Rightarrow> nat \<Rightarrow> StaticPriceStorage \<Rightarrow> (StaticPriceStorage, StaticPriceError dispatch_error) result" where
  "force_set_price origin price s =
     and_then (ensure_root origin) (\<lambda>_.
     and_then (ensure (price \<noteq> 0) (Module ZeroPrice)) (\<lambda>_.
     Ok (s\<lparr>sp_active_price := price, sp_set_events := sp_set_events s @ [price]\<rparr>)))"

definition static_average_price :: "StaticPriceStorage \<Rightarrow> nat" where
  "static_average_price s = sp_active_price s"

section \<open>The circular buffer keeps the last values\<close>

text \<open>The last \<open>n\<close> elements, and the contents of the buffer from the oldest to the newest.\<close>

definition last_n :: "nat \<Rightarrow> 'a list \<Rightarrow> 'a list" where
  "last_n n xs = drop (length xs - n) xs"

definition cb_values :: "CircularBuffer \<Rightarrow> nat list" where
  "cb_values b = drop (cb_head b) (cb_buffer b) @ take (cb_head b) (cb_buffer b)"

definition cb_wf :: "nat \<Rightarrow> CircularBuffer \<Rightarrow> bool" where
  "cb_wf L b \<longleftrightarrow> 0 < L \<and> L \<le> u32_max \<and> length (cb_buffer b) \<le> L \<and> cb_head b < L \<and>
     (length (cb_buffer b) < L \<longrightarrow> cb_head b = length (cb_buffer b))"

lemma last_n_all [simp]: "length xs \<le> n \<Longrightarrow> last_n n xs = xs"
  by (simp add: last_n_def)

lemma last_n_snoc: "last_n n (last_n n xs @ [x]) = last_n n (xs @ [x])"
  by (cases "length xs \<le> n") (simp_all add: last_n_def Suc_diff_le)

lemma mset_cb_values: "mset (cb_values b) = mset (cb_buffer b)"
  unfolding cb_values_def by (metis append_take_drop_id mset_append union_commute)

lemma length_cb_values: "length (cb_values b) = length (cb_buffer b)"
  using mset_cb_values by (metis size_mset)

lemma CircularBuffer_add_wf: "cb_wf L b \<Longrightarrow> cb_wf L (CircularBuffer_add L v b)"
  by (auto simp: cb_wf_def CircularBuffer_add_def try_push_def Let_def sat_add_exact mod_Suc)

lemma rotate_overwrite:
  assumes "h < length xs"
  shows "drop (Suc h mod length xs) (xs[h := v]) @ take (Suc h mod length xs) (xs[h := v]) =
    tl (drop h xs @ take h xs) @ [v]"
proof (cases "Suc h = length xs")
  case True
  then have "xs \<noteq> []" by auto
  have "drop h xs = [xs ! h]" using True assms by (metis Cons_nth_drop_Suc drop_all order_refl)
  moreover have "xs[h := v] = take h xs @ [v]" using True assms by (simp add: upd_conv_take_nth_drop)
  ultimately show ?thesis using True by simp
next
  case False
  then have "Suc h < length xs" using assms by simp
  moreover have "drop h xs = xs ! h # drop (Suc h) xs" using assms by (rule Cons_nth_drop_Suc [symmetric])
  moreover have "take (Suc h) (xs[h := v]) = take h xs @ [v]" using assms by (simp add: take_Suc_conv_app_nth)
  ultimately show ?thesis by (simp add: drop_update_cancel)
qed

lemma cb_values_add:
  assumes "cb_wf L b"
  shows "cb_values (CircularBuffer_add L v b) = last_n L (cb_values b @ [v])"
proof (cases "length (cb_buffer b) < L")
  case True
  with assms have h: "cb_head b = length (cb_buffer b)" "0 < L" "cb_head b < u32_max" by (auto simp: cb_wf_def)
  have "Suc (length (cb_buffer b)) mod L = (if Suc (length (cb_buffer b)) = L then 0 else Suc (length (cb_buffer b)))"
    using True by auto
  then show ?thesis
    using True h by (auto simp: CircularBuffer_add_def try_push_def Let_def cb_values_def last_n_def)
next
  case False
  with assms have l: "length (cb_buffer b) = L" "cb_head b < length (cb_buffer b)" "cb_head b < u32_max"
    by (auto simp: cb_wf_def)
  have "cb_values (CircularBuffer_add L v b) = tl (cb_values b) @ [v]"
    using l rotate_overwrite [OF l(2), of v] by (simp add: CircularBuffer_add_def Let_def cb_values_def)
  moreover have "last_n L (cb_values b @ [v]) = tl (cb_values b) @ [v]"
    using l length_cb_values [of b] by (cases "cb_values b") (auto simp: last_n_def)
  ultimately show ?thesis by simp
qed

text \<open>What every step keeps: the buffer holds the last values of a log that starts with the genesis values and
  grows by the values of the events.\<close>

definition buffer_inv :: "PriceConfig \<Rightarrow> nat list \<Rightarrow> PriceStorage \<Rightarrow> bool" where
  "buffer_inv cfg genesis s \<longleftrightarrow>
     cb_wf (pc_circular_buffer_length cfg) (ps_values_circular_buffer s) \<and>
     cb_values (ps_values_circular_buffer s) =
       last_n (pc_circular_buffer_length cfg) (genesis @ map aggregated_value (ps_events s))"

lemma buffer_inv_intermediate:
  "buffer_inv cfg g s \<Longrightarrow> buffer_inv cfg g (process_intermediate_aggregated_values cfg now s)"
  by (simp add: buffer_inv_def process_intermediate_aggregated_values_def Let_def CircularBuffer_add_wf
      cb_values_add last_n_snoc flip: append_assoc)

lemma buffer_inv_block: "buffer_inv cfg g s \<Longrightarrow> buffer_inv cfg g (process_block_aggregated_values cfg s)"
  by (auto simp: buffer_inv_def process_block_aggregated_values_def Let_def split: result.splits)

lemma buffer_inv_new_data: "buffer_inv cfg g s \<Longrightarrow> buffer_inv cfg g (on_new_data cfg who key v s)"
  by (simp add: on_new_data_def buffer_inv_def split: result.splits)

lemma buffer_inv_step: "buffer_inv cfg g s \<Longrightarrow> buffer_inv cfg g (price_step cfg a s)"
  by (cases a) (simp_all add: price_on_finalize_def Let_def buffer_inv_intermediate buffer_inv_block
      buffer_inv_new_data)

lemma buffer_inv_run: "buffer_inv cfg g s \<Longrightarrow> buffer_inv cfg g (price_run cfg actions s)"
  unfolding price_run_def by (induction actions arbitrary: s) (simp_all add: buffer_inv_step)

lemma buffer_inv_genesis:
  "price_integrity_test cfg \<Longrightarrow> pc_circular_buffer_length cfg \<le> u32_max \<Longrightarrow>
   length g \<le> pc_circular_buffer_length cfg \<Longrightarrow> buffer_inv cfg g (price_genesis_build cfg g)"
  by (cases "length g = pc_circular_buffer_length cfg")
    (auto simp: buffer_inv_def price_genesis_build_def cb_wf_def cb_values_def price_integrity_test_def)

lemma saturating_sum_eq: "saturating_sum xs = min (sum_list xs) u128_max"
  by (simp add: saturating_sum_def fold_sat_add_min)

lemma average_of_values:
  "CircularBuffer_average F b = (if cb_values b = [] then 0 else
     fp_saturating_mul F (min (sum_list (cb_values b)) u128_max) (fp_from_rational F 1 (length (cb_values b))))"
proof -
  have "sum_list (cb_values b) = sum_list (cb_buffer b)"
    by (metis mset_cb_values sum_mset_sum_list)
  moreover have "cb_values b = [] \<longleftrightarrow> cb_buffer b = []"
    using length_cb_values [of b] by (metis length_0_conv)
  ultimately show ?thesis by (simp add: CircularBuffer_average_def saturating_sum_eq length_cb_values)
qed

text \<open>In every run of the oracle feed and of block finalization from genesis, the price the pallet provides is
  the mean of the last \<open>CircularBufferLength\<close> aggregated values: the genesis values followed by the values of
  the events, in the order they were pushed.\<close>

lemma price_is_mean_of_last_values:
  fixes actions :: "'acc price_action list"
  assumes "price_integrity_test cfg" and "pc_circular_buffer_length cfg \<le> u32_max"
    and "length genesis \<le> pc_circular_buffer_length cfg"
  defines "s \<equiv> price_run cfg actions (price_genesis_build cfg genesis)"
  defines "recent \<equiv> last_n (pc_circular_buffer_length cfg) (genesis @ map aggregated_value (ps_events s))"
  shows "average_price cfg s = (if recent = [] then 0 else
    fp_saturating_mul (pc_fixed cfg) (min (sum_list recent) u128_max)
      (fp_from_rational (pc_fixed cfg) 1 (length recent)))"
proof -
  have "buffer_inv cfg genesis s"
    unfolding s_def using assms(1-3) by (intro buffer_inv_run buffer_inv_genesis)
  then have "cb_values (ps_values_circular_buffer s) = recent" by (simp add: buffer_inv_def recent_def)
  then show ?thesis by (simp add: average_price_def average_of_values)
qed

text \<open>A concrete configuration: the median of at most eight values, two blocks per aggregation, three values in
  the buffer.\<close>

definition median_config :: PriceConfig where
  "median_config = \<lparr> pc_max_values_per_block = 8, pc_process = MedianBlockValue_process exact_fixed_point,
     pc_native_currency_id = ASTR, pc_circular_buffer_length = 3, pc_aggregation_duration = 2,
     pc_fixed = exact_fixed_point \<rparr>"

definition median_feed :: "nat price_action list" where
  "median_feed =
     [NewData 0 ASTR 100, NewData 1 ASTR 104, NewData 2 SDN 7, NewData 3 ASTR 9000, FinalizeBlock 1,
      NewData 0 ASTR 106, FinalizeBlock 2, FinalizeBlock 3, FinalizeBlock 4,
      NewData 1 ASTR 120, NewData 2 ASTR 130, FinalizeBlock 5, FinalizeBlock 6,
      NewData 0 ASTR 140, FinalizeBlock 7, FinalizeBlock 8]"

lemma price_is_mean_of_last_values_example:
  "ps_events (price_run median_config median_feed (price_genesis_build median_config [50, 80])) =
     map AverageAggregatedValue [105, 125, 140] \<and>
   average_price median_config (price_run median_config median_feed (price_genesis_build median_config [50, 80])) = 123"
proof -
  have pre: "price_integrity_test median_config" "pc_circular_buffer_length median_config \<le> u32_max"
    "length [50::nat, 80] \<le> pc_circular_buffer_length median_config"
    by code_simp+
  have len: "pc_circular_buffer_length median_config = 3" by (simp add: median_config_def)
  have ev: "ps_events (price_run median_config median_feed (price_genesis_build median_config [50, 80])) =
     map AverageAggregatedValue [105, 125, 140]"
    by code_simp
  have "fp_saturating_mul (pc_fixed median_config) (min 370 u128_max) (fp_from_rational (pc_fixed median_config) 1
      (length [105, 125, 140 :: nat])) = 123"
    by code_simp
  with price_is_mean_of_last_values [OF pre, of median_feed] ev show ?thesis
    by (simp add: last_n_def len)
qed

section \<open>The median\<close>

text \<open>Positions of a sorted list: an element at position \<open>i\<close> is at least \<open>lo\<close> when at most \<open>i\<close> elements
  are below \<open>lo\<close>, and dually.\<close>

lemma sorted_nth_ge:
  assumes "sorted xs" and "i < length xs" and "length (filter (\<lambda>v. v < lo) xs) \<le> i"
  shows "(lo::nat) \<le> xs ! i"
proof (rule ccontr)
  assume "\<not> lo \<le> xs ! i"
  then have "xs ! j < lo" if "j \<le> i" for j
    using sorted_nth_mono [OF assms(1) that assms(2)] by simp
  then have "{0..i} \<subseteq> {j. j < length xs \<and> xs ! j < lo}" using assms(2) by auto
  then have "card {0..i} \<le> length (filter (\<lambda>v. v < lo) xs)"
    unfolding length_filter_conv_card by (rule card_mono [rotated]) simp
  then show False using assms(3) by simp
qed

lemma sorted_nth_le:
  assumes "sorted xs" and "i < length xs" and "length (filter (\<lambda>v. hi < v) xs) < length xs - i"
  shows "xs ! i \<le> (hi::nat)"
proof (rule ccontr)
  assume "\<not> xs ! i \<le> hi"
  then have "hi < xs ! j" if "i \<le> j" "j < length xs" for j
    using sorted_nth_mono [OF assms(1) that] by simp
  then have "{i..<length xs} \<subseteq> {j. j < length xs \<and> hi < xs ! j}" by auto
  then have "card {i..<length xs} \<le> length (filter (\<lambda>v. hi < v) xs)"
    unfolding length_filter_conv_card by (rule card_mono [rotated]) simp
  then show False using assms(3) by simp
qed

lemma outliers_le:
  "length (filter (\<lambda>v. v < lo) xs) + length (filter (\<lambda>v. lo \<le> v \<and> v \<le> hi) xs) \<le> length xs"
  "length (filter (\<lambda>v. (hi::nat) < v) xs) + length (filter (\<lambda>v. lo \<le> v \<and> v \<le> hi) xs) \<le> length xs"
  by (induction xs) auto

lemma length_filter_sort: "length (filter P (sort xs)) = length (filter P xs)"
  by (metis mset_filter mset_sort size_mset)

context fixed_point
begin

lemma from_rational_half: "fp_from_rational F 1 2 = fixed_div div 2"
  using from_rational_up [of 2 1] from_rational_low [of 2 1] by (simp add: fixed_div_def)

lemma half_sum_within:
  assumes "lo \<le> a" "lo \<le> b" "a \<le> hi" "b \<le> hi" and "2 * hi \<le> u128_max"
  shows "lo \<le> fp_saturating_mul F (u128_add a b) (fp_from_rational F 1 2) \<and>
    fp_saturating_mul F (u128_add a b) (fp_from_rational F 1 2) \<le> hi"
proof -
  let ?h = "fixed_div div 2" and ?v = "fp_saturating_mul F (a + b) (fixed_div div 2)"
  have e: "u128_add a b = a + b" using assms by (simp add: sat_add_exact)
  have "(a + b) * ?h \<le> u128_max * fixed_div" using assms by (intro mult_le_mono) simp_all
  then have "?v * fixed_div < (a + b) * ?h + fixed_div" "(a + b) * ?h < ?v * fixed_div + fixed_div"
    by (rule mul_up, rule mul_low)
  moreover have "(a + b) * ?h \<le> (hi + hi) * ?h" "(lo + lo) * ?h \<le> (a + b) * ?h"
    using assms by (intro mult_le_mono1 add_mono; simp)+
  ultimately have "?v \<le> hi \<and> lo \<le> ?v" by (simp add: fixed_div_def)
  then show ?thesis unfolding e from_rational_half by simp
qed

end

text \<open>The median of a block resists a dishonest minority: when more than half of the submitted prices lie between
  \<open>lo\<close> and \<open>hi\<close>, so does the processed value, whatever the other submitters report.\<close>

lemma median_resists_minority:
  assumes "fixed_point F" and "2 * hi \<le> u128_max"
    and "length values < 2 * length (filter (\<lambda>v. lo \<le> v \<and> v \<le> hi) values)"
  shows "\<exists>v. MedianBlockValue_process F values = Ok v \<and> lo \<le> v \<and> v \<le> hi"
proof -
  let ?s = "sort values" and ?n = "length values"
  define mid where "mid = ?n div 2"
  have ne: "values \<noteq> []" using assms(3) by auto
  have out: "2 * length (filter (\<lambda>v. v < lo) ?s) < ?n" "2 * length (filter (\<lambda>v. hi < v) ?s) < ?n"
    using assms(3) outliers_le(1) [of lo "values" hi] outliers_le(2) [of hi "values" lo]
    by (simp_all only: length_filter_sort)
  have ge: "lo \<le> ?s ! i" if "?n \<le> 2 * i + 2" "i < ?n" for i
    using that out(1) by (intro sorted_nth_ge) auto
  have le: "?s ! i \<le> hi" if "2 * i \<le> ?n" "i < ?n" for i
    using that out(2) by (intro sorted_nth_le) auto
  have m: "mid < ?n" "2 * mid \<le> ?n" "?n \<le> 2 * mid + 1" using ne by (simp_all add: mid_def)
  have "lo \<le> ?s ! mid" "?s ! mid \<le> hi" using m by (intro ge le; simp)+
  moreover have "lo \<le> ?s ! (mid - 1)" "?s ! (mid - 1) \<le> hi" if "?n mod 2 = 0"
    using m that ne by (intro ge le; simp add: mid_def; presburger)+
  ultimately show ?thesis
    using ne fixed_point.half_sum_within [OF assms(1) _ _ _ _ assms(2), of lo "?s ! (mid - 1)" "?s ! mid"]
    by (auto simp: MedianBlockValue_process_def Let_def mid_def)
qed

lemma median_resists_minority_example:
  "\<exists>v. MedianBlockValue_process exact_fixed_point [0, 100, 104, 10 ^ 30, 98, 102] = Ok v \<and> 90 \<le> v \<and> v \<le> 110"
  using median_resists_minority [OF fixed.fixed_point_axioms, of 110 "[0, 100, 104, 10 ^ 30, 98, 102]" 90]
  by (simp add: width_defs)

section \<open>The price follows the feed\<close>

text \<open>The mean of \<open>n\<close> values multiplies their sum by the rounded reciprocal of \<open>n\<close>, so it can leave the interval
  of the values by a fraction \<open>n / 10^18\<close> of the bound and one unit.\<close>

definition widen_up :: "nat \<Rightarrow> nat \<Rightarrow> nat" where
  "widen_up n x = x + x * n div fixed_div + 1"

definition widen_down :: "nat \<Rightarrow> nat \<Rightarrow> nat" where
  "widen_down n x = x - (x * n div fixed_div + 1)"

lemma widen_up_mono: "n \<le> m \<Longrightarrow> widen_up n x \<le> widen_up m x"
  by (simp add: widen_up_def div_le_mono)

lemma widen_down_mono: "n \<le> m \<Longrightarrow> widen_down m x \<le> widen_down n x"
  by (simp add: widen_down_def div_le_mono diff_le_mono2)

lemma fixed_div_pos [simp]: "0 < fixed_div"
  by (simp add: fixed_div_def)

lemma le_widen_up: "v * fixed_div < x * fixed_div + x * n + fixed_div \<Longrightarrow> v \<le> widen_up n x"
proof -
  assume a: "v * fixed_div < x * fixed_div + x * n + fixed_div"
  have "x * n < (x * n div fixed_div + 1) * fixed_div" using dividend_less_div_times [of fixed_div "x * n"] by simp
  with a have "v * fixed_div < (widen_up n x + 1) * fixed_div" by (simp add: widen_up_def algebra_simps)
  then show ?thesis by (rule less_mult_add1D)
qed

lemma ge_widen_down: "x * fixed_div < v * fixed_div + x * n + fixed_div \<Longrightarrow> widen_down n x \<le> v"
proof -
  assume a: "x * fixed_div < v * fixed_div + x * n + fixed_div"
  have "x * n < (x * n div fixed_div + 1) * fixed_div" using dividend_less_div_times [of fixed_div "x * n"] by simp
  with a have "x * fixed_div < (v + (x * n div fixed_div + 1) + 1) * fixed_div" by (simp add: algebra_simps)
  then show ?thesis unfolding widen_down_def by (drule_tac less_mult_add1D) simp
qed

context fixed_point
begin

lemma mean_within:
  assumes "0 < n" and "lo * n \<le> t" "t \<le> hi * n" and "t \<le> u128_max"
  shows "widen_down n lo \<le> fp_saturating_mul F t (fp_from_rational F 1 n) \<and>
    fp_saturating_mul F t (fp_from_rational F 1 n) \<le> widen_up n hi"
proof -
  let ?r = "fp_from_rational F 1 n" and ?v = "fp_saturating_mul F t (fp_from_rational F 1 n)"
  have r: "?r * n < fixed_div + n" "fixed_div < ?r * n + n"
    using from_rational_up [OF assms(1), of 1] from_rational_low [OF assms(1), of 1] by simp_all
  have "t * ?r \<le> u128_max * fixed_div"
    using assms(1,4) from_rational_le_one [of n 1] by (intro mult_le_mono) simp_all
  then have v: "?v * fixed_div < t * ?r + fixed_div" "t * ?r < ?v * fixed_div + fixed_div"
    by (rule mul_up, rule mul_low)
  have "t * ?r \<le> hi * (?r * n)" using mult_le_mono1 [OF assms(3), of ?r] by (simp add: algebra_simps)
  also have "\<dots> \<le> hi * (fixed_div + n)" using r(1) by simp
  finally have "?v * fixed_div < hi * fixed_div + hi * n + fixed_div"
    using v(1) by (simp add: algebra_simps)
  then have up: "?v \<le> widen_up n hi" by (rule le_widen_up)
  have "lo * fixed_div \<le> lo * (?r * n + n)" using r(2) by (intro mult_le_mono2) simp
  also have "\<dots> = lo * n * ?r + lo * n" by (simp add: algebra_simps)
  also have "\<dots> \<le> t * ?r + lo * n" using assms(2) by (intro add_mono mult_le_mono1) simp_all
  also have "\<dots> < ?v * fixed_div + lo * n + fixed_div" using v(2) by simp
  finally have "widen_down n lo \<le> ?v" by (rule ge_widen_down)
  with up show ?thesis by simp
qed

end

text \<open>The interface \<open>ProcessBlockValues\<close>: no value gives an error, and the result stays within the widened bounds of
  the values, as long as their sum fits.\<close>

definition within :: "nat \<Rightarrow> nat \<Rightarrow> nat list \<Rightarrow> bool" where
  "within lo hi vs \<longleftrightarrow> (\<forall>v\<in>set vs. lo \<le> v \<and> v \<le> hi)"

locale process_block_values =
  fixes process :: "nat list \<Rightarrow> (nat, unit) result"
  assumes process_empty: "process [] = Err ()"
    and process_within: "vs \<noteq> [] \<Longrightarrow> within lo hi vs \<Longrightarrow> length vs * hi \<le> u128_max \<Longrightarrow>
      \<exists>v. process vs = Ok v \<and> widen_down (length vs) lo \<le> v \<and> v \<le> widen_up (length vs) hi"

lemma within_sum: "within lo hi vs \<Longrightarrow> lo * length vs \<le> sum_list vs \<and> sum_list vs \<le> hi * length vs"
  by (induction vs) (auto simp: within_def)

lemma average_process: "fixed_point F \<Longrightarrow> process_block_values (AverageBlockValue_process F)"
proof
  assume F: "fixed_point F"
  fix vs :: "nat list" and lo hi
  assume vs: "vs \<noteq> []" "within lo hi vs" "length vs * hi \<le> u128_max"
  then have "sum_list vs \<le> u128_max" using within_sum [OF vs(2)] by (simp add: mult.commute)
  with fixed_point.mean_within [OF F, of "length vs" lo "sum_list vs" hi] vs(1) within_sum [OF vs(2)]
  show "\<exists>v. AverageBlockValue_process F vs = Ok v \<and> widen_down (length vs) lo \<le> v \<and> v \<le> widen_up (length vs) hi"
    by (simp add: AverageBlockValue_process_def saturating_sum_eq min_absorb1)
qed (simp add: AverageBlockValue_process_def)

lemma median_process: "fixed_point F \<Longrightarrow> process_block_values (MedianBlockValue_process F)"
proof
  assume F: "fixed_point F"
  fix vs :: "nat list" and lo hi
  assume vs: "vs \<noteq> []" "within lo hi vs" "length vs * hi \<le> u128_max"
  let ?s = "sort vs" and ?m = "length vs div 2"
  have in_s: "lo \<le> ?s ! i \<and> ?s ! i \<le> hi" if "i < length vs" for i
    using vs(2) that nth_mem [of i ?s] by (simp add: within_def)
  have m: "lo \<le> ?s ! ?m \<and> ?s ! ?m \<le> hi" "lo \<le> ?s ! (?m - 1) \<and> ?s ! (?m - 1) \<le> hi"
    using vs(1) by (intro in_s; simp add: less_imp_diff_less)+
  have two: "2 * hi \<le> u128_max" if "even (length vs)"
  proof -
    from that vs(1) have "2 \<le> length vs" by (cases vs; cases "tl vs") auto
    with vs(3) show ?thesis by (meson le_trans mult_le_mono1)
  qed
  have "\<exists>v. MedianBlockValue_process F vs = Ok v \<and> lo \<le> v \<and> v \<le> hi"
    using vs(1) m two fixed_point.half_sum_within [OF F, of lo "?s ! (?m - 1)" "?s ! ?m" hi]
    by (auto simp: MedianBlockValue_process_def Let_def even_iff_mod_2_eq_zero)
  then show "\<exists>v. MedianBlockValue_process F vs = Ok v \<and> widen_down (length vs) lo \<le> v \<and> v \<le> widen_up (length vs) hi"
    by (auto simp: widen_up_def widen_down_def)
qed (simp add: MedianBlockValue_process_def)

interpretation average_block: process_block_values "AverageBlockValue_process exact_fixed_point"
  using fixed.fixed_point_axioms by (rule average_process)

interpretation median_block: process_block_values "MedianBlockValue_process exact_fixed_point"
  using fixed.fixed_point_axioms by (rule median_process)

text \<open>The bounds along the pipeline: of the values of a block, of the sum in the aggregator, of the values in the
  buffer.\<close>

definition feed_bounds :: "PriceConfig \<Rightarrow> nat \<Rightarrow> nat \<Rightarrow> PriceStorage \<Rightarrow> bool" where
  "feed_bounds cfg lo hi s \<longleftrightarrow>
     (let V = pc_max_values_per_block cfg; a = ps_intermediate_value_aggregator s;
          b = cb_buffer (ps_values_circular_buffer s)
      in length (ps_current_block_values s) \<le> V \<and> within lo hi (ps_current_block_values s) \<and>
         widen_down V lo * va_count a \<le> va_total a \<and> va_total a \<le> widen_up V hi * va_count a \<and>
         va_count a \<le> u32_max \<and> va_total a \<le> u128_max \<and>
         length b \<le> pc_circular_buffer_length cfg \<and>
         within (widen_down u32_max (widen_down V lo)) (widen_up u32_max (widen_up V hi)) b)"

fun feeds_within :: "PriceConfig \<Rightarrow> nat \<Rightarrow> nat \<Rightarrow> 'acc price_action \<Rightarrow> bool" where
  "feeds_within cfg lo hi (NewData who key value) \<longleftrightarrow>
     (key = pc_native_currency_id cfg \<longrightarrow> lo \<le> value \<and> value \<le> hi)"
| "feeds_within cfg lo hi (FinalizeBlock now) \<longleftrightarrow> True"

lemmas feed_bounds_simps = feed_bounds_def Let_def within_def

lemma feed_bounds_new_data:
  "feed_bounds cfg lo hi s \<Longrightarrow> feeds_within cfg lo hi (NewData who key v) \<Longrightarrow>
   feed_bounds cfg lo hi (on_new_data cfg who key v s)"
  by (auto simp: on_new_data_def try_push_def feed_bounds_simps)

lemma CircularBuffer_add_buffer:
  "length (cb_buffer b) \<le> L \<Longrightarrow> length (cb_buffer (CircularBuffer_add L v b)) \<le> L"
  "set (cb_buffer (CircularBuffer_add L v b)) \<subseteq> insert v (set (cb_buffer b))"
  using set_update_subset_insert [of "cb_buffer b" "cb_head b" v]
  by (auto simp: CircularBuffer_add_def try_push_def Let_def)

lemma feed_bounds_intermediate:
  assumes "fixed_point (pc_fixed cfg)" and "feed_bounds cfg lo hi s"
  shows "feed_bounds cfg lo hi (process_intermediate_aggregated_values cfg now s)"
proof -
  let ?a = "ps_intermediate_value_aggregator s" and ?b = "ps_values_circular_buffer s"
  let ?lo = "widen_down (pc_max_values_per_block cfg) lo" and ?hi = "widen_up (pc_max_values_per_block cfg) hi"
  let ?v = "ValueAggregator_average (pc_fixed cfg) ?a" and ?L = "pc_circular_buffer_length cfg"
  show ?thesis
  proof (cases "?v = 0")
    case True
    with assms(2) show ?thesis
      by (simp add: process_intermediate_aggregated_values_def feed_bounds_def Let_def ValueAggregator_new_def)
  next
    case False
    then have z: "va_count ?a \<noteq> 0" by (simp add: ValueAggregator_average_def split: if_splits)
    have "widen_down u32_max ?lo \<le> ?v \<and> ?v \<le> widen_up u32_max ?hi"
      using z assms(2) fixed_point.mean_within [OF assms(1), of "va_count ?a" ?lo "va_total ?a" ?hi]
        widen_down_mono [of "va_count ?a" u32_max ?lo] widen_up_mono [of "va_count ?a" u32_max ?hi]
      by (simp add: ValueAggregator_average_def feed_bounds_def Let_def)
    moreover have "within (widen_down u32_max ?lo) (widen_up u32_max ?hi) (cb_buffer ?b)" "length (cb_buffer ?b) \<le> ?L"
      using assms(2) by (simp_all add: feed_bounds_def Let_def)
    ultimately have "within (widen_down u32_max ?lo) (widen_up u32_max ?hi) (cb_buffer (CircularBuffer_add ?L ?v ?b))"
      "length (cb_buffer (CircularBuffer_add ?L ?v ?b)) \<le> ?L"
      using CircularBuffer_add_buffer(1) [of ?b ?L ?v] CircularBuffer_add_buffer(2) [of ?L ?v ?b]
      by (auto simp: within_def)
    with False assms(2) show ?thesis
      by (simp add: process_intermediate_aggregated_values_def feed_bounds_def Let_def ValueAggregator_new_def)
  qed
qed

lemma try_add_OkD: "ValueAggregator_try_add a v = Ok a' \<Longrightarrow>
    a' = a\<lparr>va_total := va_total a + v, va_count := Suc (va_count a)\<rparr> \<and> va_total a' \<le> u128_max \<and> va_count a' \<le> u32_max"
  by (auto simp: ValueAggregator_try_add_def and_then_Ok_iff checked_add_def ok_or_def split: if_splits)

lemma feed_bounds_block:
  assumes "process_block_values (pc_process cfg)" and "pc_max_values_per_block cfg * hi \<le> u128_max"
    and "feed_bounds cfg lo hi s"
  shows "feed_bounds cfg lo hi (process_block_aggregated_values cfg s)"
proof -
  let ?V = "pc_max_values_per_block cfg" and ?vs = "ps_current_block_values s"
  have v: "widen_down ?V lo \<le> v \<and> v \<le> widen_up ?V hi" if "pc_process cfg ?vs = Ok v" for v
  proof -
    have "?vs \<noteq> []" using that process_block_values.process_empty [OF assms(1)] by auto
    moreover have l: "length ?vs \<le> ?V" "within lo hi ?vs" using assms(3) by (simp_all add: feed_bounds_def Let_def)
    moreover have "length ?vs * hi \<le> u128_max" using l(1) assms(2) by (meson le_trans mult_le_mono1)
    ultimately have "widen_down (length ?vs) lo \<le> v \<and> v \<le> widen_up (length ?vs) hi"
      using process_block_values.process_within [OF assms(1), of ?vs lo hi] that by auto
    then show ?thesis using widen_down_mono [OF l(1), of lo] widen_up_mono [OF l(1), of hi] by simp
  qed
  show ?thesis
  proof (cases "pc_process cfg ?vs")
    case (Ok v)
    with v [OF Ok] assms(3) show ?thesis
      by (auto simp: process_block_aggregated_values_def feed_bounds_simps dest!: try_add_OkD split: result.splits)
  next
    case (Err e)
    with assms(3) show ?thesis by (simp add: process_block_aggregated_values_def feed_bounds_simps)
  qed
qed

lemma feed_bounds_run:
  assumes "fixed_point (pc_fixed cfg)" "process_block_values (pc_process cfg)"
    "pc_max_values_per_block cfg * hi \<le> u128_max" and "list_all (feeds_within cfg lo hi) actions"
    and "feed_bounds cfg lo hi s"
  shows "feed_bounds cfg lo hi (price_run cfg actions s)"
  using assms(4,5) unfolding price_run_def
proof (induction actions arbitrary: s)
  case (Cons a actions)
  have "feed_bounds cfg lo hi (price_step cfg a s)"
    using Cons.prems assms(1-3)
    by (cases a) (simp_all add: price_on_finalize_def Let_def feed_bounds_new_data feed_bounds_block
        feed_bounds_intermediate)
  with Cons show ?case by simp
qed simp

lemma price_step_nonempty: "cb_buffer (ps_values_circular_buffer s) \<noteq> [] \<Longrightarrow>
    cb_buffer (ps_values_circular_buffer (price_step cfg a s)) \<noteq> []"
  by (cases a) (auto simp: on_new_data_def price_on_finalize_def process_block_aggregated_values_def
      process_intermediate_aggregated_values_def CircularBuffer_add_def try_push_def Let_def split: result.splits)

lemma price_run_nonempty: "cb_buffer (ps_values_circular_buffer s) \<noteq> [] \<Longrightarrow>
    cb_buffer (ps_values_circular_buffer (price_run cfg actions s)) \<noteq> []"
  unfolding price_run_def by (induction actions arbitrary: s) (simp_all add: price_step_nonempty)

text \<open>C30: The price follows the feed: when every native price the oracle reports, and every genesis value, lies
  between \<open>lo\<close> and \<open>hi\<close>, so does the price the pallet provides, up to the rounding of the three means on the way
  (of a block, of the aggregation period and of the buffer); other currencies and dropped values do not count.\<close>

theorem price_follows_feed:
  assumes "fixed_point (pc_fixed cfg)" and "process_block_values (pc_process cfg)"
    and "price_integrity_test cfg" and "genesis \<noteq> []" and "length genesis \<le> pc_circular_buffer_length cfg"
    and "within lo hi genesis" and "list_all (feeds_within cfg lo hi) actions"
    and "pc_max_values_per_block cfg * hi \<le> u128_max"
  defines "L \<equiv> pc_circular_buffer_length cfg" and "V \<equiv> pc_max_values_per_block cfg"
  assumes "L * widen_up u32_max (widen_up V hi) \<le> u128_max"
  shows "widen_down L (widen_down u32_max (widen_down V lo)) \<le>
      average_price cfg (price_run cfg actions (price_genesis_build cfg genesis)) \<and>
    average_price cfg (price_run cfg actions (price_genesis_build cfg genesis)) \<le>
      widen_up L (widen_up u32_max (widen_up V hi))"
proof -
  let ?lo = "widen_down u32_max (widen_down V lo)" and ?hi = "widen_up u32_max (widen_up V hi)"
  define s where "s = price_run cfg actions (price_genesis_build cfg genesis)"
  let ?b = "cb_buffer (ps_values_circular_buffer s)"
  have "feed_bounds cfg lo hi (price_genesis_build cfg genesis)"
    using assms(5,6)
    by (fastforce simp: price_genesis_build_def feed_bounds_simps ValueAggregator_new_def widen_up_def widen_down_def)
  then have "feed_bounds cfg lo hi s" unfolding s_def by (rule feed_bounds_run [OF assms(1,2,8,7)])
  then have b: "length ?b \<le> L" "within ?lo ?hi ?b" by (simp_all add: feed_bounds_def Let_def L_def V_def)
  have ne: "?b \<noteq> []" unfolding s_def using assms(4) by (intro price_run_nonempty) (simp add: price_genesis_build_def)
  have "length ?b * ?hi \<le> u128_max" using b(1) assms(11) by (meson le_trans mult_le_mono1)
  then have "sum_list ?b \<le> u128_max" using within_sum [OF b(2)] by (simp add: mult.commute)
  then have "widen_down (length ?b) ?lo \<le> average_price cfg s \<and> average_price cfg s \<le> widen_up (length ?b) ?hi"
    using ne within_sum [OF b(2)] fixed_point.mean_within [OF assms(1), of "length ?b" ?lo "sum_list ?b" ?hi]
    by (simp add: average_price_def CircularBuffer_average_def saturating_sum_eq min_absorb1)
  then show ?thesis
    unfolding s_def [symmetric] using widen_down_mono [OF b(1), of ?lo] widen_up_mono [OF b(1), of ?hi] by simp
qed

theorem price_follows_feed_witness:
  "average_price median_config (price_run median_config median_feed (price_genesis_build median_config [50, 80])) \<le> 9003"
proof -
  have a: "price_integrity_test median_config" "[50, 80 :: nat] \<noteq> []"
    "length [50, 80 :: nat] \<le> pc_circular_buffer_length median_config" "within 50 9000 [50, 80]"
    "list_all (feeds_within median_config 50 9000) median_feed"
    "pc_max_values_per_block median_config * 9000 \<le> u128_max"
    "pc_circular_buffer_length median_config *
      widen_up u32_max (widen_up (pc_max_values_per_block median_config) 9000) \<le> u128_max"
    by code_simp+
  have w: "widen_up (pc_circular_buffer_length median_config)
      (widen_up u32_max (widen_up (pc_max_values_per_block median_config) 9000)) = 9003"
    by code_simp
  have "fixed_point (pc_fixed median_config)" "process_block_values (pc_process median_config)"
    by (simp_all add: median_config_def fixed.fixed_point_axioms median_block.process_block_values_axioms)
  from price_follows_feed [OF this a] show ?thesis unfolding w by (rule conjunct2)
qed

end
