(* ===== verification/DynamicBaseFee.thy ===== *)
theory DynamicBaseFee
  imports Primitives Frame "HOL-Library.Code_Target_Nat"
begin

text \<open>
  The pallet \<open>src/pallets/dynamic-evm-base-fee/src/lib.rs\<close>: at the end of every block the EVM's base fee per gas
  moves towards a value given by the fee multiplier of the native transactions, by at most a fraction of the old
  fee. \<open>U256\<close> values are natural numbers with the saturation of their width. \<open>clamp\<close> is Rust's
  \<open>Ord::clamp\<close>, which panics when its bounds are crossed; a panic is \<open>None\<close>.
\<close>

abbreviation u256_add :: "nat \<Rightarrow> nat \<Rightarrow> nat" where "u256_add \<equiv> sat_add u256_max"

definition clamp :: "nat \<Rightarrow> nat \<Rightarrow> nat \<Rightarrow> nat option" where
  "clamp lo hi x = (if lo \<le> hi then Some (if x < lo then lo else if hi < x then hi else x) else None)"

record BaseFeeConfig =
  bc_default_base_fee_per_gas :: nat
  bc_min_base_fee_per_gas :: nat
  bc_max_base_fee_per_gas :: nat
  bc_weight_factor :: nat
  bc_step_limit_ratio :: nat
  bc_perquintill :: PerThing
  bc_fixed :: FixedPoint

datatype BaseFeeError = ValueOutOfBounds

datatype BaseFeeEvent = NewBaseFeePerGas nat

record BaseFeeStorage =
  bf_base_fee_per_gas :: nat
  bf_events :: "BaseFeeEvent list"

definition base_fee_genesis :: "BaseFeeConfig \<Rightarrow> BaseFeeStorage" where
  "base_fee_genesis cfg = \<lparr> bf_base_fee_per_gas = bc_default_base_fee_per_gas cfg, bf_events = [] \<rparr>"

text \<open>The formula of the ideal fee, for the adjustment factor (a \<open>FixedU128\<close>) of the block.\<close>

definition ideal_base_fee :: "BaseFeeConfig \<Rightarrow> nat \<Rightarrow> nat" where
  "ideal_base_fee cfg adjustment_factor =
     u128_mul (fp_saturating_mul_int (bc_fixed cfg) u128_max adjustment_factor (bc_weight_factor cfg)) 25 div 98974"

definition base_fee_max_step :: "BaseFeeConfig \<Rightarrow> nat \<Rightarrow> nat" where
  "base_fee_max_step cfg old_bfpg =
     pt_mul (bc_perquintill cfg) (bc_step_limit_ratio cfg) (saturated_into u128_max old_bfpg)"

definition base_fee_limits :: "BaseFeeConfig \<Rightarrow> nat \<Rightarrow> nat \<times> nat" where
  "base_fee_limits cfg old_bfpg =
     (let max_step = base_fee_max_step cfg old_bfpg;
          apply_configured_bounds =
            bc_min_base_fee_per_gas cfg \<le> old_bfpg \<and> old_bfpg \<le> bc_max_base_fee_per_gas cfg
      in if apply_configured_bounds
         then (max (bc_min_base_fee_per_gas cfg) (sat_sub old_bfpg max_step),
               min (bc_max_base_fee_per_gas cfg) (u256_add old_bfpg max_step))
         else (sat_sub old_bfpg max_step, u256_add old_bfpg max_step))"

definition base_fee_on_finalize :: "BaseFeeConfig \<Rightarrow> nat \<Rightarrow> BaseFeeStorage \<Rightarrow> BaseFeeStorage option" where
  "base_fee_on_finalize cfg adjustment_factor s =
     (let old_bfpg = bf_base_fee_per_gas s; (lower_limit, upper_limit) = base_fee_limits cfg old_bfpg
      in map_option (\<lambda>fee. s\<lparr>bf_base_fee_per_gas := fee\<rparr>)
           (clamp lower_limit upper_limit (ideal_base_fee cfg adjustment_factor)))"

definition base_fee_integrity_test :: "BaseFeeConfig \<Rightarrow> bool" where
  "base_fee_integrity_test cfg \<longleftrightarrow>
     bc_min_base_fee_per_gas cfg \<le> bc_max_base_fee_per_gas cfg \<and>
     bc_min_base_fee_per_gas cfg \<le> bc_default_base_fee_per_gas cfg \<and>
     bc_default_base_fee_per_gas cfg \<le> bc_max_base_fee_per_gas cfg \<and>
     bc_max_base_fee_per_gas cfg \<le> u128_max"

definition set_base_fee_per_gas ::
  "BaseFeeConfig \<Rightarrow> 'acc RawOrigin \<Rightarrow> nat \<Rightarrow> BaseFeeStorage \<Rightarrow> (BaseFeeStorage, BaseFeeError dispatch_error) result" where
  "set_base_fee_per_gas cfg origin fee s =
     and_then (ensure_root origin) (\<lambda>_.
     and_then (ensure (bc_min_base_fee_per_gas cfg \<le> fee \<and> fee \<le> bc_max_base_fee_per_gas cfg)
       (Module ValueOutOfBounds)) (\<lambda>_.
     Ok (s\<lparr>bf_base_fee_per_gas := fee, bf_events := bf_events s @ [NewBaseFeePerGas fee]\<rparr>)))"

definition min_gas_price :: "BaseFeeStorage \<Rightarrow> nat" where
  "min_gas_price s = bf_base_fee_per_gas s"

text \<open>The life of the pallet: calls (a failed call changes nothing) and ends of blocks.\<close>

datatype 'acc base_fee_action = SetBaseFee "'acc RawOrigin" nat | EndBlock nat

fun base_fee_step :: "BaseFeeConfig \<Rightarrow> 'acc base_fee_action \<Rightarrow> BaseFeeStorage \<Rightarrow> BaseFeeStorage option" where
  "base_fee_step cfg (SetBaseFee origin fee) s =
     Some (case set_base_fee_per_gas cfg origin fee s of Ok s' \<Rightarrow> s' | Err _ \<Rightarrow> s)"
| "base_fee_step cfg (EndBlock adjustment_factor) s = base_fee_on_finalize cfg adjustment_factor s"

fun base_fee_run :: "BaseFeeConfig \<Rightarrow> 'acc base_fee_action list \<Rightarrow> BaseFeeStorage \<Rightarrow> BaseFeeStorage option" where
  "base_fee_run cfg [] s = Some s"
| "base_fee_run cfg (a # actions) s = Option.bind (base_fee_step cfg a s) (base_fee_run cfg actions)"

section \<open>Bounds\<close>

definition fee_in_bounds :: "BaseFeeConfig \<Rightarrow> nat \<Rightarrow> bool" where
  "fee_in_bounds cfg fee \<longleftrightarrow> bc_min_base_fee_per_gas cfg \<le> fee \<and> fee \<le> bc_max_base_fee_per_gas cfg"

lemma u128_less_u256: "u128_max < u256_max"
  by code_simp

lemma u128_le_u256: "x \<le> u128_max \<Longrightarrow> x \<le> u256_max"
  using u128_less_u256 by simp

lemma limits_in_bounds:
  assumes "base_fee_integrity_test cfg" and "fee_in_bounds cfg fee" and "base_fee_limits cfg fee = (lo, hi)"
  shows "lo \<le> fee" "fee \<le> hi" "bc_min_base_fee_per_gas cfg \<le> lo" "hi \<le> bc_max_base_fee_per_gas cfg"
    "fee - base_fee_max_step cfg fee \<le> lo" "hi \<le> fee + base_fee_max_step cfg fee"
proof -
  have "fee \<le> u256_max" using assms by (intro u128_le_u256) (simp add: base_fee_integrity_test_def fee_in_bounds_def)
  then show "lo \<le> fee" "fee \<le> hi" "bc_min_base_fee_per_gas cfg \<le> lo" "hi \<le> bc_max_base_fee_per_gas cfg"
    "fee - base_fee_max_step cfg fee \<le> lo" "hi \<le> fee + base_fee_max_step cfg fee"
    using assms by (auto simp: base_fee_limits_def fee_in_bounds_def Let_def sat_add_def)
qed

text \<open>One block from a fee within the bounds: no panic, and the new fee is within the bounds, at most one step away
  and between the old fee and the ideal one, or at the ideal one when a step reaches it.\<close>

lemma on_finalize_in_bounds:
  assumes "base_fee_integrity_test cfg" and "fee_in_bounds cfg (bf_base_fee_per_gas s)"
  obtains s' where "base_fee_on_finalize cfg adj s = Some s'" "fee_in_bounds cfg (bf_base_fee_per_gas s')"
    "bf_base_fee_per_gas s' \<le> bf_base_fee_per_gas s + base_fee_max_step cfg (bf_base_fee_per_gas s)"
    "bf_base_fee_per_gas s \<le> bf_base_fee_per_gas s' + base_fee_max_step cfg (bf_base_fee_per_gas s)"
proof -
  obtain lo hi where l: "base_fee_limits cfg (bf_base_fee_per_gas s) = (lo, hi)" by fastforce
  note lim = limits_in_bounds [OF assms l]
  show thesis
    using lim by (intro that [of "s\<lparr>bf_base_fee_per_gas := the (clamp lo hi (ideal_base_fee cfg adj))\<rparr>"])
      (auto simp: base_fee_on_finalize_def Let_def l clamp_def fee_in_bounds_def)
qed

lemma base_fee_step_in_bounds:
  assumes "base_fee_integrity_test cfg" and "fee_in_bounds cfg (bf_base_fee_per_gas s)"
  obtains s' where "base_fee_step cfg a s = Some s'" "fee_in_bounds cfg (bf_base_fee_per_gas s')"
proof (cases a)
  case (SetBaseFee origin fee)
  show thesis
  proof (cases "set_base_fee_per_gas cfg origin fee s")
    case (Ok s')
    then have "fee_in_bounds cfg (bf_base_fee_per_gas s')"
      by (auto simp: set_base_fee_per_gas_def and_then_Ok_iff fee_in_bounds_def)
    with SetBaseFee Ok that show thesis by simp
  next
    case (Err e)
    with SetBaseFee assms(2) that show thesis by simp
  qed
next
  case (EndBlock adj)
  with that show thesis using on_finalize_in_bounds [OF assms, of adj] by (metis base_fee_step.simps(2))
qed

text \<open>From genesis, no sequence of calls and blocks panics or drives the base fee out of the configured range,
  whatever the adjustment factors: once within the bounds, the fee never leaves them.\<close>

lemma base_fee_stays_in_bounds:
  assumes "base_fee_integrity_test cfg"
  shows "\<exists>s. base_fee_run cfg actions (base_fee_genesis cfg) = Some s \<and>
    bc_min_base_fee_per_gas cfg \<le> min_gas_price s \<and> min_gas_price s \<le> bc_max_base_fee_per_gas cfg"
proof -
  have "\<exists>s'. base_fee_run cfg actions s = Some s' \<and> fee_in_bounds cfg (bf_base_fee_per_gas s')"
    if "fee_in_bounds cfg (bf_base_fee_per_gas s)" for s
    using that
  proof (induction actions arbitrary: s)
    case (Cons a actions)
    obtain s1 where "base_fee_step cfg a s = Some s1" "fee_in_bounds cfg (bf_base_fee_per_gas s1)"
      using base_fee_step_in_bounds [OF assms Cons.prems] .
    with Cons.IH show ?case by simp
  qed simp
  moreover have "fee_in_bounds cfg (bf_base_fee_per_gas (base_fee_genesis cfg))"
    using assms by (simp add: base_fee_genesis_def fee_in_bounds_def base_fee_integrity_test_def)
  ultimately show ?thesis by (auto simp: fee_in_bounds_def min_gas_price_def)
qed

text \<open>The parameters of the Astar runtime, with exact arithmetic.\<close>

definition astar_base_fee :: BaseFeeConfig where
  "astar_base_fee = \<lparr> bc_default_base_fee_per_gas = 1470000000000, bc_min_base_fee_per_gas = 800000000000,
     bc_max_base_fee_per_gas = 80000000000000, bc_weight_factor = 30855000000000000,
     bc_step_limit_ratio = 93000000000000, bc_perquintill = exact_perquintill, bc_fixed = exact_fixed_point \<rparr>"

lemma base_fee_stays_in_bounds_example:
  "\<exists>s. base_fee_run astar_base_fee ([EndBlock 0, SetBaseFee Root 1, EndBlock (2 * 10 ^ 18)] :: nat base_fee_action list)
      (base_fee_genesis astar_base_fee) = Some s \<and> 800000000000 \<le> min_gas_price s \<and> min_gas_price s \<le> 80000000000000"
proof -
  have "base_fee_integrity_test astar_base_fee" by code_simp
  from base_fee_stays_in_bounds [OF this, of "[EndBlock 0, SetBaseFee Root 1, EndBlock (2 * 10 ^ 18)]"]
  show ?thesis by (simp only: astar_base_fee_def BaseFeeConfig.simps)
qed

section \<open>Convergence\<close>

fun base_fee_blocks :: "BaseFeeConfig \<Rightarrow> nat \<Rightarrow> nat \<Rightarrow> BaseFeeStorage \<Rightarrow> BaseFeeStorage option" where
  "base_fee_blocks cfg adjustment_factor 0 s = Some s"
| "base_fee_blocks cfg adjustment_factor (Suc n) s =
     Option.bind (base_fee_on_finalize cfg adjustment_factor s) (base_fee_blocks cfg adjustment_factor n)"

definition target_fee :: "BaseFeeConfig \<Rightarrow> nat \<Rightarrow> nat" where
  "target_fee cfg adj = max (bc_min_base_fee_per_gas cfg) (min (bc_max_base_fee_per_gas cfg) (ideal_base_fee cfg adj))"

text \<open>The step is at least one unit when the ratio of the smallest fee is more than half a unit.\<close>

lemma max_step_pos:
  assumes "per_thing perquintill_acc (bc_perquintill cfg)" and "base_fee_integrity_test cfg" "fee_in_bounds cfg fee"
    and "bc_step_limit_ratio cfg \<le> perquintill_acc"
    and "perquintill_acc < 2 * (bc_step_limit_ratio cfg * bc_min_base_fee_per_gas cfg)"
  shows "1 \<le> base_fee_max_step cfg fee"
proof (rule ccontr)
  assume "\<not> 1 \<le> base_fee_max_step cfg fee"
  then have "base_fee_max_step cfg fee = 0" by simp
  moreover have "saturated_into u128_max fee = fee"
    using assms(2,3) by (simp add: base_fee_integrity_test_def fee_in_bounds_def)
  ultimately have "2 * (bc_step_limit_ratio cfg * fee) \<le> perquintill_acc"
    using per_thing.mul_nearest_down [OF assms(1,4), of fee] by (simp add: base_fee_max_step_def)
  moreover have "bc_step_limit_ratio cfg * bc_min_base_fee_per_gas cfg \<le> bc_step_limit_ratio cfg * fee"
    using assms(3) by (simp add: fee_in_bounds_def)
  ultimately show False using assms(5) by simp
qed

definition fee_distance :: "nat \<Rightarrow> nat \<Rightarrow> nat" where
  "fee_distance a b = (a - b) + (b - a)"

lemma on_finalize_closer:
  assumes "base_fee_integrity_test cfg" and "fee_in_bounds cfg (bf_base_fee_per_gas s)"
    and "1 \<le> base_fee_max_step cfg (bf_base_fee_per_gas s)"
  obtains s' where "base_fee_on_finalize cfg adj s = Some s'" "fee_in_bounds cfg (bf_base_fee_per_gas s')"
    "fee_distance (bf_base_fee_per_gas s') (target_fee cfg adj) \<le> fee_distance (bf_base_fee_per_gas s) (target_fee cfg adj) - 1"
proof -
  obtain lo hi where l: "base_fee_limits cfg (bf_base_fee_per_gas s) = (lo, hi)" by fastforce
  note lim = limits_in_bounds [OF assms(1,2) l]
  have "bf_base_fee_per_gas s \<le> u128_max"
    using assms(1,2) by (simp add: base_fee_integrity_test_def fee_in_bounds_def)
  then have "bf_base_fee_per_gas s + 1 \<le> u256_max" using u128_less_u256 by simp
  with l assms(2,3) have room: "lo = bc_min_base_fee_per_gas cfg \<or> lo + 1 \<le> bf_base_fee_per_gas s \<or> lo = 0"
    "hi = bc_max_base_fee_per_gas cfg \<or> bf_base_fee_per_gas s + 1 \<le> hi"
    by (auto simp: base_fee_limits_def fee_in_bounds_def Let_def sat_add_def max_def min_def split: if_splits)
  show thesis
    using lim room by (intro that [of "s\<lparr>bf_base_fee_per_gas := the (clamp lo hi (ideal_base_fee cfg adj))\<rparr>"])
      (auto simp: base_fee_on_finalize_def Let_def l clamp_def fee_in_bounds_def target_fee_def fee_distance_def
        max_def min_def)
qed

text \<open>C32: While the adjustment factor does not change, the base fee reaches the ideal fee of the formula, cut to the
  configured range, in finitely many blocks (at most the distance), and stays there.\<close>

theorem base_fee_reaches_target:
  assumes "per_thing perquintill_acc (bc_perquintill cfg)" and "base_fee_integrity_test cfg"
    and "fee_in_bounds cfg (bf_base_fee_per_gas s)" and "bc_step_limit_ratio cfg \<le> perquintill_acc"
    and "perquintill_acc < 2 * (bc_step_limit_ratio cfg * bc_min_base_fee_per_gas cfg)"
    and "fee_distance (bf_base_fee_per_gas s) (target_fee cfg adj) \<le> n"
  shows "\<exists>s'. base_fee_blocks cfg adj n s = Some s' \<and> min_gas_price s' = target_fee cfg adj"
  using assms(3,6)
proof (induction n arbitrary: s)
  case 0
  then show ?case by (simp add: fee_distance_def min_gas_price_def)
next
  case (Suc n)
  have "1 \<le> base_fee_max_step cfg (bf_base_fee_per_gas s)" using assms Suc.prems(1) by (intro max_step_pos)
  then obtain s1 where s1: "base_fee_on_finalize cfg adj s = Some s1" "fee_in_bounds cfg (bf_base_fee_per_gas s1)"
    "fee_distance (bf_base_fee_per_gas s1) (target_fee cfg adj) \<le> fee_distance (bf_base_fee_per_gas s) (target_fee cfg adj) - 1"
    using on_finalize_closer [OF assms(2) Suc.prems(1)] by blast
  with Suc.IH [of s1] Suc.prems(2) show ?case by simp
qed

theorem base_fee_reaches_target_witness:
  "\<exists>s'. base_fee_blocks astar_base_fee (10 ^ 18) 6323713500515 (base_fee_genesis astar_base_fee) = Some s' \<and>
     min_gas_price s' = 7793713500515"
proof -
  have "base_fee_integrity_test astar_base_fee" "fee_in_bounds astar_base_fee (bf_base_fee_per_gas (base_fee_genesis astar_base_fee))"
    "bc_step_limit_ratio astar_base_fee \<le> perquintill_acc"
    "perquintill_acc < 2 * (bc_step_limit_ratio astar_base_fee * bc_min_base_fee_per_gas astar_base_fee)"
    by code_simp+
  moreover have t: "target_fee astar_base_fee (10 ^ 18) = 7793713500515" by code_simp
  moreover have "fee_distance (bf_base_fee_per_gas (base_fee_genesis astar_base_fee)) 7793713500515 \<le> 6323713500515" by code_simp
  moreover have "per_thing perquintill_acc (bc_perquintill astar_base_fee)"
    by (simp add: astar_base_fee_def perquintill.per_thing_axioms)
  ultimately show ?thesis
    using base_fee_reaches_target [of astar_base_fee "base_fee_genesis astar_base_fee" "10 ^ 18" 6323713500515]
    by (simp only: t simp_thms)
qed

end
