(* ===== verification/XcAssets.thy ===== *)
theory XcAssets
  imports Primitives Frame "HOL-Library.Code_Target_Nat"
begin

text \<open>
  Cross-chain assets: the pallet \<open>src/pallets/xc-asset-config/src/lib.rs\<close>, which maps asset ids to locations and
  back and holds the execution price of a location, and the parts of \<open>src/primitives/src/xcm/mod.rs\<close> that use it: the converter between locations and ids, the
  weight trader \<open>FixedRateOfForeignAsset\<close>, the reserve filter and the fee handler. Locations,
  instructions and the holding register belong to the XCM crates: a location is a type variable, what the code asks
  of it is a record of functions, and the holding register is an interface with its laws (the locale \<open>holding\<close>).
\<close>

section \<open>The pallet\<close>

text \<open>A stored location carries its XCM version; \<open>upgrade\<close> is the conversion of older versions to \<open>V4\<close>.\<close>

datatype ('old, 'loc) VersionedLocation = OlderVersion 'old | V4 'loc

definition Location_try_from :: "('old \<Rightarrow> 'loc option) \<Rightarrow> ('old, 'loc) VersionedLocation \<Rightarrow> 'loc option" where
  "Location_try_from upgrade vl = (case vl of V4 l \<Rightarrow> Some l | OlderVersion old \<Rightarrow> upgrade old)"

datatype XcError = AssetAlreadyRegistered | AssetDoesNotExist | MultiLocationNotSupported

datatype ('id, 'vl) XcEvent =
    AssetRegistered 'vl 'id
  | UnitsPerSecondChanged 'vl nat
  | AssetLocationChanged 'vl 'id 'vl
  | SupportedAssetRemoved 'vl
  | AssetRemoved 'vl 'id

record ('id, 'vl) XcStorage =
  xc_asset_id_to_location :: "('id, 'vl) smap"
  xc_asset_location_to_id :: "('vl, 'id) smap"
  xc_asset_location_units_per_second :: "('vl, nat) smap"
  xc_events :: "('id, 'vl) XcEvent list"

record ('acc, 'old, 'loc) XcConfig =
  xcc_manager_origin :: "'acc RawOrigin \<Rightarrow> bool"
  xcc_upgrade :: "'old \<Rightarrow> 'loc option"

type_synonym ('id, 'old, 'loc) XcState = "('id, ('old, 'loc) VersionedLocation) XcStorage"

definition get_xc_asset_location :: "('acc, 'old, 'loc) XcConfig \<Rightarrow> ('id, 'old, 'loc) XcState \<Rightarrow> 'id \<Rightarrow> 'loc option" where
  "get_xc_asset_location cfg s asset_id =
     Option.bind (sm_get (xc_asset_id_to_location s) asset_id) (Location_try_from (xcc_upgrade cfg))"

definition get_asset_id :: "('id, 'old, 'loc) XcState \<Rightarrow> 'loc \<Rightarrow> 'id option" where
  "get_asset_id s asset_location = sm_get (xc_asset_location_to_id s) (V4 asset_location)"

definition get_units_per_second :: "('id, 'old, 'loc) XcState \<Rightarrow> 'loc \<Rightarrow> nat option" where
  "get_units_per_second s asset_location = sm_get (xc_asset_location_units_per_second s) (V4 asset_location)"

definition WEIGHT_REF_TIME_PER_SECOND :: nat where "WEIGHT_REF_TIME_PER_SECOND = 10 ^ 12"

definition weight_to_fee :: "Weight \<Rightarrow> nat \<Rightarrow> nat" where
  "weight_to_fee weight units_per_second = u128_mul units_per_second (ref_time weight) div WEIGHT_REF_TIME_PER_SECOND"

definition register_asset_location ::
  "('acc, 'old, 'loc) XcConfig \<Rightarrow> 'acc RawOrigin \<Rightarrow> ('old, 'loc) VersionedLocation \<Rightarrow> 'id \<Rightarrow> ('id, 'old, 'loc) XcState \<Rightarrow>
   (('id, 'old, 'loc) XcState, XcError dispatch_error) result" where
  "register_asset_location cfg origin asset_location asset_id s =
     and_then (ensure_origin (xcc_manager_origin cfg) origin) (\<lambda>_.
     and_then (ensure (\<not> sm_contains (xc_asset_id_to_location s) asset_id) (Module AssetAlreadyRegistered)) (\<lambda>_.
     and_then (ok_or (Module MultiLocationNotSupported) (Location_try_from (xcc_upgrade cfg) asset_location)) (\<lambda>l.
     Ok (s\<lparr>xc_asset_id_to_location := sm_put (xc_asset_id_to_location s) asset_id (V4 l),
           xc_asset_location_to_id := sm_put (xc_asset_location_to_id s) (V4 l) asset_id,
           xc_events := xc_events s @ [AssetRegistered (V4 l) asset_id]\<rparr>))))"

definition set_asset_units_per_second ::
  "('acc, 'old, 'loc) XcConfig \<Rightarrow> 'acc RawOrigin \<Rightarrow> ('old, 'loc) VersionedLocation \<Rightarrow> nat \<Rightarrow> ('id, 'old, 'loc) XcState \<Rightarrow>
   (('id, 'old, 'loc) XcState, XcError dispatch_error) result" where
  "set_asset_units_per_second cfg origin asset_location units_per_second s =
     and_then (ensure_origin (xcc_manager_origin cfg) origin) (\<lambda>_.
     and_then (ok_or (Module MultiLocationNotSupported) (Location_try_from (xcc_upgrade cfg) asset_location)) (\<lambda>l.
     and_then (ensure (sm_contains (xc_asset_location_to_id s) (V4 l)) (Module AssetDoesNotExist)) (\<lambda>_.
     Ok (s\<lparr>xc_asset_location_units_per_second :=
             sm_put (xc_asset_location_units_per_second s) (V4 l) units_per_second,
           xc_events := xc_events s @ [UnitsPerSecondChanged (V4 l) units_per_second]\<rparr>))))"

definition change_existing_asset_location ::
  "('acc, 'old, 'loc) XcConfig \<Rightarrow> 'acc RawOrigin \<Rightarrow> ('old, 'loc) VersionedLocation \<Rightarrow> 'id \<Rightarrow> ('id, 'old, 'loc) XcState \<Rightarrow>
   (('id, 'old, 'loc) XcState, XcError dispatch_error) result" where
  "change_existing_asset_location cfg origin new_asset_location asset_id s =
     and_then (ensure_origin (xcc_manager_origin cfg) origin) (\<lambda>_.
     and_then (ok_or (Module MultiLocationNotSupported) (Location_try_from (xcc_upgrade cfg) new_asset_location)) (\<lambda>l.
     and_then (ok_or (Module AssetDoesNotExist) (sm_get (xc_asset_id_to_location s) asset_id)) (\<lambda>previous.
     let s1 = s\<lparr>xc_asset_id_to_location := sm_put (xc_asset_id_to_location s) asset_id (V4 l),
               xc_asset_location_to_id := sm_put (xc_asset_location_to_id s) (V4 l) asset_id\<rparr>;
         s2 = s1\<lparr>xc_asset_location_to_id := sm_remove (xc_asset_location_to_id s1) previous\<rparr>;
         units_map = xc_asset_location_units_per_second s2;
         s3 = (case sm_get units_map previous of
                 Some units \<Rightarrow> s2\<lparr>xc_asset_location_units_per_second :=
                   sm_put (sm_remove units_map previous) (V4 l) units\<rparr>
               | None \<Rightarrow> s2)
     in Ok (s3\<lparr>xc_events := xc_events s3 @ [AssetLocationChanged previous asset_id (V4 l)]\<rparr>))))"

definition remove_payment_asset ::
  "('acc, 'old, 'loc) XcConfig \<Rightarrow> 'acc RawOrigin \<Rightarrow> ('old, 'loc) VersionedLocation \<Rightarrow> ('id, 'old, 'loc) XcState \<Rightarrow>
   (('id, 'old, 'loc) XcState, XcError dispatch_error) result" where
  "remove_payment_asset cfg origin asset_location s =
     and_then (ensure_origin (xcc_manager_origin cfg) origin) (\<lambda>_.
     and_then (ok_or (Module MultiLocationNotSupported) (Location_try_from (xcc_upgrade cfg) asset_location)) (\<lambda>l.
     Ok (s\<lparr>xc_asset_location_units_per_second := sm_remove (xc_asset_location_units_per_second s) (V4 l),
           xc_events := xc_events s @ [SupportedAssetRemoved (V4 l)]\<rparr>)))"

definition remove_asset ::
  "('acc, 'old, 'loc) XcConfig \<Rightarrow> 'acc RawOrigin \<Rightarrow> 'id \<Rightarrow> ('id, 'old, 'loc) XcState \<Rightarrow>
   (('id, 'old, 'loc) XcState, XcError dispatch_error) result" where
  "remove_asset cfg origin asset_id s =
     and_then (ensure_origin (xcc_manager_origin cfg) origin) (\<lambda>_.
     and_then (ok_or (Module AssetDoesNotExist) (sm_get (xc_asset_id_to_location s) asset_id)) (\<lambda>asset_location.
     Ok (s\<lparr>xc_asset_id_to_location := sm_remove (xc_asset_id_to_location s) asset_id,
           xc_asset_location_to_id := sm_remove (xc_asset_location_to_id s) asset_location,
           xc_asset_location_units_per_second := sm_remove (xc_asset_location_units_per_second s) asset_location,
           xc_events := xc_events s @ [AssetRemoved asset_location asset_id]\<rparr>)))"

text \<open>The calls as actions of a run; a failed call changes nothing.\<close>

datatype ('id, 'vl) xc_call =
    RegisterAssetLocation 'vl 'id
  | SetAssetUnitsPerSecond 'vl nat
  | ChangeExistingAssetLocation 'vl 'id
  | RemovePaymentAsset 'vl
  | RemoveAsset 'id

fun xc_dispatch ::
  "('acc, 'old, 'loc) XcConfig \<Rightarrow> 'acc RawOrigin \<Rightarrow> ('id, ('old, 'loc) VersionedLocation) xc_call \<Rightarrow>
   ('id, 'old, 'loc) XcState \<Rightarrow> (('id, 'old, 'loc) XcState, XcError dispatch_error) result" where
  "xc_dispatch cfg origin (RegisterAssetLocation vl i) s = register_asset_location cfg origin vl i s"
| "xc_dispatch cfg origin (SetAssetUnitsPerSecond vl u) s = set_asset_units_per_second cfg origin vl u s"
| "xc_dispatch cfg origin (ChangeExistingAssetLocation vl i) s = change_existing_asset_location cfg origin vl i s"
| "xc_dispatch cfg origin (RemovePaymentAsset vl) s = remove_payment_asset cfg origin vl s"
| "xc_dispatch cfg origin (RemoveAsset i) s = remove_asset cfg origin i s"

definition xc_empty :: "('id, 'vl) XcStorage" where
  "xc_empty = \<lparr> xc_asset_id_to_location = [], xc_asset_location_to_id = [],
     xc_asset_location_units_per_second = [], xc_events = [] \<rparr>"

section \<open>The maps agree\<close>

text \<open>Ids and locations correspond one to one, every stored location is of the current version, and only
  registered locations have a price.\<close>

definition xc_consistent :: "('id, 'old, 'loc) XcState \<Rightarrow> bool" where
  "xc_consistent s \<longleftrightarrow>
     sm_inverse (xc_asset_id_to_location s) (xc_asset_location_to_id s) \<and>
     sm_invar (xc_asset_location_units_per_second s) \<and>
     (\<forall>i vl. sm_get (xc_asset_id_to_location s) i = Some vl \<longrightarrow> (\<exists>l. vl = V4 l)) \<and>
     (\<forall>vl. sm_contains (xc_asset_location_units_per_second s) vl \<longrightarrow> sm_contains (xc_asset_location_to_id s) vl)"

text \<open>The condition the pallet leaves to its manager: a location that is registered, or moved to, is not in use.\<close>

definition location_free :: "('acc, 'old, 'loc) XcConfig \<Rightarrow> ('old, 'loc) VersionedLocation \<Rightarrow> ('id, 'old, 'loc) XcState \<Rightarrow> bool" where
  "location_free cfg vl s \<longleftrightarrow> (case Location_try_from (xcc_upgrade cfg) vl of None \<Rightarrow> True | Some l \<Rightarrow> get_asset_id s l = None)"

fun fresh_call :: "('acc, 'old, 'loc) XcConfig \<Rightarrow> ('id, ('old, 'loc) VersionedLocation) xc_call \<Rightarrow> ('id, 'old, 'loc) XcState \<Rightarrow> bool" where
  "fresh_call cfg (RegisterAssetLocation vl i) s = location_free cfg vl s"
| "fresh_call cfg (ChangeExistingAssetLocation vl i) s = location_free cfg vl s"
| "fresh_call cfg c s = True"

lemma xc_consistent_inverse: "xc_consistent s \<Longrightarrow> sm_inverse (xc_asset_id_to_location s) (xc_asset_location_to_id s)"
  by (simp add: xc_consistent_def)

lemma xc_consistent_invar:
  assumes "xc_consistent s"
  shows "sm_invar (xc_asset_id_to_location s)" "sm_invar (xc_asset_location_to_id s)"
    "sm_invar (xc_asset_location_units_per_second s)"
  using assms sm_inverse_invar [OF xc_consistent_inverse [OF assms]] by (simp_all add: xc_consistent_def)

lemma stored_location:
  assumes "xc_consistent s" and "get_xc_asset_location cfg s i = Some l"
  shows "sm_get (xc_asset_id_to_location s) i = Some (V4 l)"
proof -
  obtain vl where vl: "sm_get (xc_asset_id_to_location s) i = Some vl" "Location_try_from (xcc_upgrade cfg) vl = Some l"
    using assms(2) by (auto simp: get_xc_asset_location_def bind_eq_Some_conv)
  moreover obtain l' where "vl = V4 l'" using assms(1) vl(1) by (auto simp: xc_consistent_def)
  ultimately show ?thesis by (simp add: Location_try_from_def)
qed

lemma register_consistent:
  assumes "xc_consistent s" and "location_free cfg vl s" and "register_asset_location cfg origin vl i s = Ok s'"
  shows "xc_consistent s'"
proof -
  obtain l where l: "Location_try_from (xcc_upgrade cfg) vl = Some l" "sm_get (xc_asset_id_to_location s) i = None"
    "s' = s\<lparr>xc_asset_id_to_location := sm_put (xc_asset_id_to_location s) i (V4 l),
         xc_asset_location_to_id := sm_put (xc_asset_location_to_id s) (V4 l) i,
         xc_events := xc_events s @ [AssetRegistered (V4 l) i]\<rparr>"
    using assms(3) by (auto simp: register_asset_location_def and_then_Ok_iff sm_contains_def)
  have "sm_inverse (xc_asset_id_to_location s') (xc_asset_location_to_id s')"
    using l assms(2) sm_inverse_put [OF xc_consistent_inverse [OF assms(1)] l(2), of "V4 l"]
    by (simp add: location_free_def get_asset_id_def)
  then show ?thesis
    using assms(1) l(3) xc_consistent_invar [OF assms(1)] by (auto simp: xc_consistent_def sm_contains_put)
qed

lemma set_units_consistent:
  assumes "xc_consistent s" and "set_asset_units_per_second cfg origin vl u s = Ok s'"
  shows "xc_consistent s'"
  using assms by (auto simp: set_asset_units_per_second_def and_then_Ok_iff xc_consistent_def sm_contains_put)

lemma remove_payment_consistent:
  assumes "xc_consistent s" and "remove_payment_asset cfg origin vl s = Ok s'"
  shows "xc_consistent s'"
  using assms by (auto simp: remove_payment_asset_def and_then_Ok_iff xc_consistent_def sm_contains_remove)

lemma remove_asset_consistent:
  assumes "xc_consistent s" and "remove_asset cfg origin i s = Ok s'"
  shows "xc_consistent s'"
proof -
  obtain vl where vl: "sm_get (xc_asset_id_to_location s) i = Some vl"
    "s' = s\<lparr>xc_asset_id_to_location := sm_remove (xc_asset_id_to_location s) i,
         xc_asset_location_to_id := sm_remove (xc_asset_location_to_id s) vl,
         xc_asset_location_units_per_second := sm_remove (xc_asset_location_units_per_second s) vl,
         xc_events := xc_events s @ [AssetRemoved vl i]\<rparr>"
    using assms(2) by (auto simp: remove_asset_def and_then_Ok_iff)
  have "sm_inverse (xc_asset_id_to_location s') (xc_asset_location_to_id s')"
    using vl sm_inverse_remove [OF xc_consistent_inverse [OF assms(1)] vl(1)] by simp
  then show ?thesis
    using assms(1) vl(2) xc_consistent_invar [OF assms(1)]
    by (auto simp: xc_consistent_def sm_contains_remove split: if_splits)
qed

lemma change_consistent:
  assumes "xc_consistent s" and "location_free cfg vl s" and "change_existing_asset_location cfg origin vl i s = Ok s'"
  shows "xc_consistent s'"
proof -
  note inv = xc_consistent_invar [OF assms(1)]
  obtain l previous where a: "xcc_manager_origin cfg origin" "Location_try_from (xcc_upgrade cfg) vl = Some l"
      "sm_get (xc_asset_id_to_location s) i = Some previous"
    using assms(3) by (auto simp: change_existing_asset_location_def and_then_Ok_iff)
  have l: "Location_try_from (xcc_upgrade cfg) vl = Some l" "sm_get (xc_asset_id_to_location s) i = Some previous"
      "xc_asset_id_to_location s' = sm_put (xc_asset_id_to_location s) i (V4 l)"
      "xc_asset_location_to_id s' = sm_remove (sm_put (xc_asset_location_to_id s) (V4 l) i) previous"
    and u: "xc_asset_location_units_per_second s' =
      (case sm_get (xc_asset_location_units_per_second s) previous of None \<Rightarrow> xc_asset_location_units_per_second s
       | Some units \<Rightarrow> sm_put (sm_remove (xc_asset_location_units_per_second s) previous) (V4 l) units)"
    using assms(3) a
    by (auto simp: change_existing_asset_location_def ensure_origin_def ensure_def ok_or_def Let_def split: option.splits)
  have free: "sm_get (xc_asset_location_to_id s) (V4 l) = None"
    using assms(2) l(1) by (simp add: location_free_def get_asset_id_def)
  moreover have "sm_get (xc_asset_location_to_id s) previous = Some i"
    using l(2) sm_inverse_iff [OF xc_consistent_inverse [OF assms(1)]] by blast
  ultimately have ne: "previous \<noteq> V4 l" by auto
  have "sm_inverse (xc_asset_id_to_location s') (xc_asset_location_to_id s')"
    using l free sm_inverse_move [OF xc_consistent_inverse [OF assms(1)] l(2)] by simp
  moreover have "sm_contains (xc_asset_location_to_id s') w"
    if "sm_contains (xc_asset_location_units_per_second s') w" for w
    using that assms(1) ne unfolding u l(4)
    by (auto simp: xc_consistent_def sm_contains_def inv split: option.splits if_splits)
  ultimately show ?thesis
    using assms(1) inv by (auto simp: xc_consistent_def l(3) u split: option.splits if_splits)
qed

lemma xc_dispatch_consistent:
  assumes "xc_consistent s" and "fresh_call cfg c s" and "xc_dispatch cfg origin c s = Ok s'"
  shows "xc_consistent s'"
proof (cases c)
  case (RegisterAssetLocation vl i)
  with assms show ?thesis using register_consistent [of s cfg vl origin i s'] by simp
next
  case (SetAssetUnitsPerSecond vl u)
  with assms show ?thesis using set_units_consistent [of s cfg origin vl u s'] by simp
next
  case (ChangeExistingAssetLocation vl i)
  with assms show ?thesis using change_consistent [of s cfg vl origin i s'] by simp
next
  case (RemovePaymentAsset vl)
  with assms show ?thesis using remove_payment_consistent [of s cfg origin vl s'] by simp
next
  case (RemoveAsset i)
  with assms show ?thesis using remove_asset_consistent [of s cfg origin i s'] by simp
qed

text \<open>A run of calls, each by some origin, in which registrations and moves go to free locations.\<close>

fun xc_run :: "('acc, 'old, 'loc) XcConfig \<Rightarrow> ('acc RawOrigin \<times> ('id, ('old, 'loc) VersionedLocation) xc_call) list \<Rightarrow>
   ('id, 'old, 'loc) XcState \<Rightarrow> ('id, 'old, 'loc) XcState" where
  "xc_run cfg [] s = s"
| "xc_run cfg ((origin, c) # cs) s = xc_run cfg cs (case xc_dispatch cfg origin c s of Ok s' \<Rightarrow> s' | Err _ \<Rightarrow> s)"

fun fresh_run :: "('acc, 'old, 'loc) XcConfig \<Rightarrow> ('acc RawOrigin \<times> ('id, ('old, 'loc) VersionedLocation) xc_call) list \<Rightarrow>
   ('id, 'old, 'loc) XcState \<Rightarrow> bool" where
  "fresh_run cfg [] s = True"
| "fresh_run cfg ((origin, c) # cs) s \<longleftrightarrow>
     fresh_call cfg c s \<and> fresh_run cfg cs (case xc_dispatch cfg origin c s of Ok s' \<Rightarrow> s' | Err _ \<Rightarrow> s)"

lemma xc_run_consistent: "xc_consistent s \<Longrightarrow> fresh_run cfg cs s \<Longrightarrow> xc_consistent (xc_run cfg cs s)"
proof (induction cs arbitrary: s)
  case (Cons a cs)
  obtain origin c where a: "a = (origin, c)" by fastforce
  have "xc_consistent (case xc_dispatch cfg origin c s of Ok s' \<Rightarrow> s' | Err _ \<Rightarrow> s)"
    using Cons.prems a xc_dispatch_consistent [of s cfg c origin] by (cases "xc_dispatch cfg origin c s") simp_all
  with Cons a show ?case by simp
qed simp

section \<open>The converter of the XCM configuration\<close>

definition AssetLocationIdConverter_convert :: "('id, 'old, 'loc) XcState \<Rightarrow> 'loc \<Rightarrow> 'id option" where
  "AssetLocationIdConverter_convert s location = get_asset_id s location"

definition AssetLocationIdConverter_convert_back ::
  "('acc, 'old, 'loc) XcConfig \<Rightarrow> ('id, 'old, 'loc) XcState \<Rightarrow> 'id \<Rightarrow> 'loc option" where
  "AssetLocationIdConverter_convert_back cfg s asset_id = get_xc_asset_location cfg s asset_id"

text \<open>C35: The converter between XCM locations and asset ids is a bijection, and only registered locations have an
  execution price, in every run of the pallet's calls in which the manager registers, and moves assets to, unused
  locations only.\<close>

theorem asset_conversion_round_trip:
  assumes "fresh_run cfg calls xc_empty"
  defines "s \<equiv> xc_run cfg calls xc_empty"
  shows "(AssetLocationIdConverter_convert s l = Some i \<longleftrightarrow> AssetLocationIdConverter_convert_back cfg s i = Some l) \<and>
    (get_units_per_second s l = Some u \<longrightarrow> (\<exists>i. AssetLocationIdConverter_convert s l = Some i))"
proof -
  have c: "xc_consistent s"
    unfolding s_def using assms(1)
    by (intro xc_run_consistent) (simp_all add: xc_consistent_def xc_empty_def sm_contains_def sm_get_def sm_invar_def)
  note iff = sm_inverse_iff [OF xc_consistent_inverse [OF c]]
  have "sm_get (xc_asset_id_to_location s) i = Some (V4 l)" if "get_xc_asset_location cfg s i = Some l"
    using c that by (rule stored_location)
  then have "get_asset_id s l = Some i \<longleftrightarrow> get_xc_asset_location cfg s i = Some l"
    using iff [of i "V4 l"] by (auto simp: get_asset_id_def get_xc_asset_location_def Location_try_from_def)
  moreover have "\<exists>i. get_asset_id s l = Some i" if "get_units_per_second s l = Some u"
    using that c by (auto simp: xc_consistent_def get_units_per_second_def get_asset_id_def sm_contains_def)
  ultimately show ?thesis
    by (simp add: AssetLocationIdConverter_convert_def AssetLocationIdConverter_convert_back_def)
qed

text \<open>A configuration in which root manages the assets and older versions convert when they are even.\<close>

definition root_managed :: "(nat, nat, nat) XcConfig" where
  "root_managed = \<lparr> xcc_manager_origin = (\<lambda>orig. case orig of Root \<Rightarrow> True | _ \<Rightarrow> False),
     xcc_upgrade = (\<lambda>v. if even v then Some (v div 2) else None) \<rparr>"

definition asset_calls :: "(nat RawOrigin \<times> (nat, (nat, nat) VersionedLocation) xc_call) list" where
  "asset_calls = [(Root, RegisterAssetLocation (V4 5) 1), (Root, RegisterAssetLocation (OlderVersion 14) 2),
     (Root, SetAssetUnitsPerSecond (V4 5) 1000), (Root, ChangeExistingAssetLocation (V4 6) 1),
     (Signed 3, RemoveAsset 1), (Root, RemoveAsset 2)]"

theorem asset_conversion_round_trip_witness:
  "AssetLocationIdConverter_convert (xc_run root_managed asset_calls xc_empty) 6 = Some 1 \<and>
   AssetLocationIdConverter_convert_back root_managed (xc_run root_managed asset_calls xc_empty) 1 = Some 6"
proof -
  have "fresh_run root_managed asset_calls xc_empty" by code_simp
  moreover have "AssetLocationIdConverter_convert (xc_run root_managed asset_calls xc_empty) 6 = Some 1" by code_simp
  ultimately show ?thesis using asset_conversion_round_trip [of root_managed asset_calls 6 1] by simp
qed

text \<open>Changing an asset's location to the location it already has succeeds and loses the asset: its id still
  converts to the location, but the location no longer converts to the id, so assets that arrive from it are not
  recognised.\<close>

lemma same_location_change_loses_asset:
  assumes "xcc_manager_origin cfg origin" and "xc_consistent s" and "get_xc_asset_location cfg s i = Some l"
  shows "\<exists>s'. change_existing_asset_location cfg origin (V4 l) i s = Ok s' \<and>
    get_xc_asset_location cfg s' i = Some l \<and> get_asset_id s l = Some i \<and> get_asset_id s' l = None"
proof -
  note inv = xc_consistent_invar [OF assms(2)]
  have l: "sm_get (xc_asset_id_to_location s) i = Some (V4 l)"
    using assms(2,3) by (rule stored_location)
  then have "get_asset_id s l = Some i"
    using sm_inverse_iff [OF xc_consistent_inverse [OF assms(2)]] by (simp add: get_asset_id_def)
  then show ?thesis
    using assms(1) l inv
    by (auto simp: change_existing_asset_location_def ensure_origin_def ensure_def Location_try_from_def ok_or_def
        Let_def get_xc_asset_location_def get_asset_id_def split: option.splits)
qed

lemma same_location_change_loses_asset_example:
  "\<exists>s'. change_existing_asset_location root_managed Root (V4 6) 1 (xc_run root_managed asset_calls xc_empty) = Ok s' \<and>
    get_asset_id s' 6 = None"
proof -
  have "xc_consistent (xc_run root_managed asset_calls xc_empty)"
    by (intro xc_run_consistent) (simp add: xc_consistent_def xc_empty_def sm_contains_def sm_get_def sm_invar_def, code_simp)
  moreover have "xcc_manager_origin root_managed Root" by code_simp
  moreover have "get_xc_asset_location root_managed (xc_run root_managed asset_calls xc_empty) 1 = Some 6" by code_simp
  ultimately show ?thesis
    using same_location_change_loses_asset [of root_managed Root "xc_run root_managed asset_calls xc_empty" 1 6] by blast
qed

section \<open>Reserves and revenue\<close>

text \<open>What the code asks of a location: its parents, the parachain its interior starts with, and the locations of a
  sibling parachain, of the relay chain and of the chain itself.\<close>

record 'loc LocationOps =
  lo_parents :: "'loc \<Rightarrow> nat"
  lo_first_parachain :: "'loc \<Rightarrow> nat option"
  lo_sibling :: "nat \<Rightarrow> 'loc"
  lo_parent :: 'loc
  lo_here :: 'loc

definition ReserveAssetFilter_contains :: "'loc LocationOps \<Rightarrow> 'loc \<Rightarrow> 'loc \<Rightarrow> bool" where
  "ReserveAssetFilter_contains ops location origin =
     (let reserve_location =
        (if lo_parents ops location = 1
         then (case lo_first_parachain ops location of
                 Some i \<Rightarrow> Some (lo_sibling ops i) | None \<Rightarrow> Some (lo_parent ops))
         else None)
      in case reserve_location of Some reserve \<Rightarrow> origin = reserve | None \<Rightarrow> False)"

text \<open>An asset has at most one trusted reserve, and none when it is not one level up.\<close>

lemma reserve_unique:
  "ReserveAssetFilter_contains ops l a \<Longrightarrow> ReserveAssetFilter_contains ops l b \<Longrightarrow> a = b \<and> lo_parents ops l = 1"
  by (auto simp: ReserveAssetFilter_contains_def Let_def split: if_splits option.splits)

definition AbsoluteAndRelativeReserveProvider_reserve ::
  "'loc LocationOps \<Rightarrow> ('asset \<Rightarrow> 'loc option) \<Rightarrow> 'loc \<Rightarrow> 'asset \<Rightarrow> 'loc option" where
  "AbsoluteAndRelativeReserveProvider_reserve ops relative_reserve absolute_location asset =
     map_option (\<lambda>reserve_location. if reserve_location = absolute_location then lo_here ops else reserve_location)
       (relative_reserve asset)"

text \<open>Revenue of the trader is minted to the fee destination; what cannot be matched or minted is burned.\<close>

definition XcmFungibleFeeHandler_take_revenue ::
  "('asset \<Rightarrow> ('id \<times> nat) option) \<Rightarrow> ('bank \<Rightarrow> 'id \<Rightarrow> 'acc \<Rightarrow> nat \<Rightarrow> 'bank option) \<Rightarrow> 'acc \<Rightarrow> 'asset \<Rightarrow> 'bank \<Rightarrow> 'bank" where
  "XcmFungibleFeeHandler_take_revenue matches mint_into fee_destination revenue bank =
     (case matches revenue of
        Some (asset_id, amount) \<Rightarrow>
          if 0 < amount
          then (case mint_into bank asset_id fee_destination amount of None \<Rightarrow> bank | Some bank' \<Rightarrow> bank')
          else bank
      | None \<Rightarrow> bank)"

section \<open>The weight trader\<close>

text \<open>The holding register, as the trader uses it: the first fungible asset and a checked withdrawal.\<close>

record ('h, 'loc) Holding =
  h_first_fungible :: "'h \<Rightarrow> ('loc \<times> nat) option"
  h_checked_sub :: "'h \<Rightarrow> 'loc \<Rightarrow> nat \<Rightarrow> 'h option"
  h_amount :: "'h \<Rightarrow> 'loc \<Rightarrow> nat"

locale holding =
  fixes H :: "('h, 'loc) Holding"
  assumes first_amount: "h_first_fungible H h = Some (l, a) \<Longrightarrow> h_amount H h l = a"
    and checked_sub_Some: "h_checked_sub H h l a = Some h' \<Longrightarrow> a \<le> h_amount H h l"
    and checked_sub_amount: "h_checked_sub H h l a = Some h' \<Longrightarrow>
      h_amount H h' j = (if j = l then h_amount H h l - a else h_amount H h j)"
    and checked_sub_None: "h_checked_sub H h l a = None \<Longrightarrow> h_amount H h l < a"

datatype XcmError = TooExpensive

record 'loc FixedRateOfForeignAsset =
  tr_weight :: Weight
  tr_consumed :: nat
  tr_asset_location_and_units_per_second :: "('loc \<times> nat) option"

definition FixedRateOfForeignAsset_new :: "'loc FixedRateOfForeignAsset" where
  "FixedRateOfForeignAsset_new =
     \<lparr> tr_weight = Weight_zero, tr_consumed = 0, tr_asset_location_and_units_per_second = None \<rparr>"

definition buy_weight ::
  "('h, 'loc) Holding \<Rightarrow> ('loc \<Rightarrow> nat option) \<Rightarrow> Weight \<Rightarrow> 'h \<Rightarrow> 'loc FixedRateOfForeignAsset \<Rightarrow>
   ('h \<times> 'loc FixedRateOfForeignAsset, XcmError) result" where
  "buy_weight H units_of weight payment self =
     and_then (ok_or TooExpensive (h_first_fungible H payment)) (\<lambda>(asset_location, _).
     case units_of asset_location of
       None \<Rightarrow> Err TooExpensive
     | Some units_per_second \<Rightarrow>
         (let amount = u128_mul units_per_second (ref_time weight) div WEIGHT_REF_TIME_PER_SECOND
          in if amount = 0 then Ok (payment, self)
             else and_then (ok_or TooExpensive (h_checked_sub H payment asset_location amount)) (\<lambda>unused.
               let self = self\<lparr>tr_weight := Weight_saturating_add (tr_weight self) weight\<rparr>;
                   self = (case tr_asset_location_and_units_per_second self of
                       Some (old_asset_location, _) \<Rightarrow>
                         if old_asset_location = asset_location
                         then self\<lparr>tr_consumed := u128_add (tr_consumed self) amount\<rparr> else self
                     | None \<Rightarrow> self\<lparr>tr_consumed := u128_add (tr_consumed self) amount,
                                  tr_asset_location_and_units_per_second := Some (asset_location, units_per_second)\<rparr>)
               in Ok (unused, self))))"

definition refund_weight ::
  "Weight \<Rightarrow> 'loc FixedRateOfForeignAsset \<Rightarrow> ('loc \<times> nat) option \<times> 'loc FixedRateOfForeignAsset" where
  "refund_weight weight self =
     (case tr_asset_location_and_units_per_second self of
        None \<Rightarrow> (None, self)
      | Some (asset_location, units_per_second) \<Rightarrow>
          (let weight = Weight_min weight (tr_weight self);
               amount = u128_mul units_per_second (ref_time weight) div WEIGHT_REF_TIME_PER_SECOND;
               self = self\<lparr>tr_weight := Weight_saturating_sub (tr_weight self) weight,
                           tr_consumed := sat_sub (tr_consumed self) amount\<rparr>
           in (if 0 < amount then Some (asset_location, amount) else None, self)))"

text \<open>When the trader is dropped, what it still holds as consumed is the revenue.\<close>

definition trader_drop :: "'loc FixedRateOfForeignAsset \<Rightarrow> ('loc \<times> nat) option" where
  "trader_drop self =
     (case tr_asset_location_and_units_per_second self of
        Some (asset_location, _) \<Rightarrow> if 0 < tr_consumed self then Some (asset_location, tr_consumed self) else None
      | None \<Rightarrow> None)"

text \<open>What an XCM program does to its trader, with the amounts of one asset that left and entered the holding
  register.\<close>

datatype 'h trader_action = Buy Weight 'h | Refund Weight

record 'loc trader_run =
  rn_trader :: "'loc FixedRateOfForeignAsset"
  rn_paid :: "'loc \<Rightarrow> nat"
  rn_refunded :: "'loc \<Rightarrow> nat"

fun trader_step ::
  "('h, 'loc) Holding \<Rightarrow> ('loc \<Rightarrow> nat option) \<Rightarrow> 'h trader_action \<Rightarrow> 'loc trader_run \<Rightarrow> 'loc trader_run" where
  "trader_step H units_of (Buy w payment) r =
     (case buy_weight H units_of w payment (rn_trader r) of
        Err _ \<Rightarrow> r
      | Ok (unused, t) \<Rightarrow> r\<lparr>rn_trader := t,
          rn_paid := (\<lambda>l. rn_paid r l + (h_amount H payment l - h_amount H unused l))\<rparr>)"
| "trader_step H units_of (Refund w) r =
     (case refund_weight w (rn_trader r) of
        (None, t) \<Rightarrow> r\<lparr>rn_trader := t\<rparr>
      | (Some (l, a), t) \<Rightarrow> r\<lparr>rn_trader := t, rn_refunded := (rn_refunded r)(l := rn_refunded r l + a)\<rparr>)"

definition trader_start :: "'loc trader_run" where
  "trader_start = \<lparr> rn_trader = FixedRateOfForeignAsset_new, rn_paid = (\<lambda>_. 0), rn_refunded = (\<lambda>_. 0) \<rparr>"

definition trader_execute ::
  "('h, 'loc) Holding \<Rightarrow> ('loc \<Rightarrow> nat option) \<Rightarrow> 'h trader_action list \<Rightarrow> 'loc trader_run" where
  "trader_execute H units_of actions = fold (trader_step H units_of) actions trader_start"

definition trader_revenue :: "'loc FixedRateOfForeignAsset \<Rightarrow> 'loc \<Rightarrow> nat" where
  "trader_revenue t l = (case trader_drop t of Some (j, a) \<Rightarrow> if j = l then a else 0 | None \<Rightarrow> 0)"

text \<open>The number of purchases and the time they buy.\<close>

fun buys :: "'h trader_action list \<Rightarrow> nat" where
  "buys [] = 0"
| "buys (Buy w h # as) = Suc (buys as)"
| "buys (Refund w # as) = buys as"

fun bought_time :: "'h trader_action list \<Rightarrow> nat" where
  "bought_time [] = 0"
| "bought_time (Buy w h # as) = ref_time w + bought_time as"
| "bought_time (Refund w # as) = bought_time as"

fun pays_with :: "('h, 'loc) Holding \<Rightarrow> 'loc \<Rightarrow> 'h trader_action \<Rightarrow> bool" where
  "pays_with H l (Buy w h) \<longleftrightarrow> (case h_first_fungible H h of Some (j, a) \<Rightarrow> j = l | None \<Rightarrow> False)"
| "pays_with H l (Refund w) \<longleftrightarrow> True"

text \<open>What holds while every purchase is paid in the asset \<open>l\<close> at the rate \<open>u\<close>, after \<open>k\<close> purchases of a time of
  at most \<open>W\<close>.\<close>

definition trader_inv :: "'loc \<Rightarrow> nat \<Rightarrow> nat \<Rightarrow> nat \<Rightarrow> 'loc trader_run \<Rightarrow> bool" where
  "trader_inv l u k W r \<longleftrightarrow>
     (let t = rn_trader r; S = WEIGHT_REF_TIME_PER_SECOND
      in (tr_asset_location_and_units_per_second t = Some (l, u) \<or>
          tr_asset_location_and_units_per_second t = None \<and> tr_consumed t = 0) \<and>
         u * ref_time (tr_weight t) + rn_refunded r l * S \<le> (rn_paid r l + k) * S \<and>
         rn_paid r l \<le> rn_refunded r l + tr_consumed t \<and>
         tr_consumed t * S \<le> u * W \<and> ref_time (tr_weight t) \<le> W)"

lemma second_pos: "0 < WEIGHT_REF_TIME_PER_SECOND" "1 \<le> WEIGHT_REF_TIME_PER_SECOND"
  by (simp_all add: WEIGHT_REF_TIME_PER_SECOND_def)

lemma charge_bounds:
  assumes "u * w \<le> u128_max"
  defines "a \<equiv> u128_mul u w div WEIGHT_REF_TIME_PER_SECOND"
  shows "a * WEIGHT_REF_TIME_PER_SECOND \<le> u * w" "u * w \<le> (a + 1) * WEIGHT_REF_TIME_PER_SECOND"
proof -
  have a: "a = u * w div WEIGHT_REF_TIME_PER_SECOND" using assms(1) by (simp add: a_def sat_mul_def)
  show "a * WEIGHT_REF_TIME_PER_SECOND \<le> u * w" by (simp add: a)
  show "u * w \<le> (a + 1) * WEIGHT_REF_TIME_PER_SECOND"
    using dividend_less_div_times [OF second_pos(1), of "u * w"] by (simp add: a)
qed

lemma trader_inv_weaken: "trader_inv l u k W r \<Longrightarrow> k \<le> k' \<Longrightarrow> W \<le> W' \<Longrightarrow> trader_inv l u k' W' r"
proof -
  assume a: "trader_inv l u k W r" "k \<le> k'" "W \<le> W'"
  then have "(rn_paid r l + k) * WEIGHT_REF_TIME_PER_SECOND \<le> (rn_paid r l + k') * WEIGHT_REF_TIME_PER_SECOND"
    "u * W \<le> u * W'" by simp_all
  with a show ?thesis unfolding trader_inv_def Let_def by linarith
qed

lemma trader_inv_charge:
  assumes inv: "trader_inv l u k W r" and a: "u * ref_time w \<le> u128_max" and "u * (W + ref_time w) \<le> u128_max"
    and "W + ref_time w \<le> u64_max"
  defines "amount \<equiv> u128_mul u (ref_time w) div WEIGHT_REF_TIME_PER_SECOND"
  assumes t: "rn_trader r' = (rn_trader r)\<lparr>tr_weight := Weight_saturating_add (tr_weight (rn_trader r)) w,
      tr_consumed := u128_add (tr_consumed (rn_trader r)) amount,
      tr_asset_location_and_units_per_second := Some (l, u)\<rparr>"
    and p: "rn_paid r' l = rn_paid r l + amount" "rn_refunded r' l = rn_refunded r l"
  shows "trader_inv l u (Suc k) (W + ref_time w) r'"
proof -
  let ?S = WEIGHT_REF_TIME_PER_SECOND and ?t = "rn_trader r"
  note b = charge_bounds [OF a, folded amount_def]
  have i: "u * ref_time (tr_weight ?t) + rn_refunded r l * ?S \<le> (rn_paid r l + k) * ?S"
    "rn_paid r l \<le> rn_refunded r l + tr_consumed ?t" "tr_consumed ?t * ?S \<le> u * W" "ref_time (tr_weight ?t) \<le> W"
    using inv by (simp_all add: trader_inv_def Let_def)
  have c: "(tr_consumed ?t + amount) * ?S \<le> u * (W + ref_time w)"
    unfolding add_mult_distrib add_mult_distrib2 using i(3) b(1) by (rule add_mono)
  have "tr_consumed ?t + amount \<le> u128_max"
    by (rule le_mult_posD(2) [OF second_pos(1) order_trans [OF c assms(3)]])
  then have e: "u128_add (tr_consumed ?t) amount = tr_consumed ?t + amount" by (rule sat_add_exact)
  have w: "sat_add u64_max (ref_time (tr_weight ?t)) (ref_time w) = ref_time (tr_weight ?t) + ref_time w"
    using i(4) assms(4) by (intro sat_add_exact) simp
  have wt: "ref_time (tr_weight (rn_trader r')) = ref_time (tr_weight ?t) + ref_time w"
    by (simp add: t w Weight_saturating_add_def)
  have "u * (ref_time (tr_weight ?t) + ref_time w) + rn_refunded r l * ?S =
      (u * ref_time (tr_weight ?t) + rn_refunded r l * ?S) + u * ref_time w" by (simp add: add_mult_distrib2)
  also have "\<dots> \<le> (rn_paid r l + k) * ?S + (amount + 1) * ?S" using i(1) b(2) by (rule add_mono)
  also have "\<dots> = (rn_paid r l + amount + Suc k) * ?S" by (simp add: add_mult_distrib)
  finally have "u * ref_time (tr_weight (rn_trader r')) + rn_refunded r' l * ?S \<le> (rn_paid r' l + Suc k) * ?S"
    by (simp only: wt p)
  moreover have "rn_paid r' l \<le> rn_refunded r' l + tr_consumed (rn_trader r')" using i(2) by (simp add: t p e)
  moreover have "tr_consumed (rn_trader r') * ?S \<le> u * (W + ref_time w)" using c by (simp add: t e)
  moreover have "ref_time (tr_weight (rn_trader r')) \<le> W + ref_time w" using i(4) by (simp add: wt)
  ultimately show ?thesis by (simp only: trader_inv_def Let_def) (simp add: t)
qed

lemma trader_inv_buy:
  assumes H: "holding H" and inv: "trader_inv l u k W r" and u: "units_of l = Some u" and l: "pays_with H l (Buy w h)"
    and bounds: "u * (W + ref_time w) \<le> u128_max" "W + ref_time w \<le> u64_max"
  shows "trader_inv l u (Suc k) (W + ref_time w) (trader_step H units_of (Buy w h) r)"
proof (cases "buy_weight H units_of w h (rn_trader r)")
  case (Err e)
  then have "trader_step H units_of (Buy w h) r = r" by simp
  with inv show ?thesis by (simp add: trader_inv_weaken [OF inv])
next
  case (Ok res)
  obtain unused t where res: "res = (unused, t)" by fastforce
  let ?a = "u128_mul u (ref_time w) div WEIGHT_REF_TIME_PER_SECOND"
  have w: "u * ref_time w \<le> u128_max" using bounds(1) by (simp add: add_mult_distrib2)
  obtain a where f: "h_first_fungible H h = Some (l, a)" using l by (auto split: option.splits)
  show ?thesis
  proof (cases "?a = 0")
    case True
    with Ok f u res have "unused = h" "t = rn_trader r" by (simp_all add: buy_weight_def Let_def)
    then have "trader_step H units_of (Buy w h) r = r" using Ok res by simp
    with inv show ?thesis by (simp add: trader_inv_weaken [OF inv])
  next
    case False
    have asset: "tr_asset_location_and_units_per_second (rn_trader r) = Some (l, u) \<or>
        tr_asset_location_and_units_per_second (rn_trader r) = None"
      using inv by (auto simp: trader_inv_def Let_def)
    from Ok f u res False have sub: "h_checked_sub H h l ?a = Some unused"
      and t: "t = (rn_trader r)\<lparr>tr_weight := Weight_saturating_add (tr_weight (rn_trader r)) w,
        tr_consumed := u128_add (tr_consumed (rn_trader r)) ?a, tr_asset_location_and_units_per_second := Some (l, u)\<rparr>"
      using asset by (auto simp: buy_weight_def Let_def and_then_Ok_iff)
    have "h_amount H h l - h_amount H unused l = ?a"
      using holding.checked_sub_amount [OF H sub, of l] holding.checked_sub_Some [OF H sub] by simp
    then show ?thesis
      using Ok res t by (intro trader_inv_charge [OF inv w bounds]) simp_all
  qed
qed

lemma trader_inv_refund:
  assumes inv: "trader_inv l u k W r" and "u * W \<le> u128_max"
  shows "trader_inv l u k W (trader_step H units_of (Refund w) r)"
proof (cases "tr_asset_location_and_units_per_second (rn_trader r)")
  case None
  with inv show ?thesis by (simp add: refund_weight_def)
next
  case (Some lu)
  let ?t = "rn_trader r" and ?S = WEIGHT_REF_TIME_PER_SECOND
  let ?w = "min (ref_time w) (ref_time (tr_weight ?t))"
  let ?a = "u128_mul u ?w div ?S"
  have i: "lu = (l, u)" "u * ref_time (tr_weight ?t) + rn_refunded r l * ?S \<le> (rn_paid r l + k) * ?S"
    "rn_paid r l \<le> rn_refunded r l + tr_consumed ?t" "tr_consumed ?t * ?S \<le> u * W" "ref_time (tr_weight ?t) \<le> W"
    using inv Some by (simp_all add: trader_inv_def Let_def)
  have "u * ?w \<le> u * W" using i(5) by (simp add: min_le_iff_disj)
  then have "u * ?w \<le> u128_max" using assms(2) by (rule order_trans)
  then have a: "?a * ?S \<le> u * ?w" by (rule charge_bounds)
  have "u * (ref_time (tr_weight ?t) - ?w) + u * ?w = u * ref_time (tr_weight ?t)"
    by (simp flip: add_mult_distrib2)
  then have "u * (ref_time (tr_weight ?t) - ?w) + (rn_refunded r l + ?a) * ?S \<le> (rn_paid r l + k) * ?S"
    using a i(2) by (simp add: add_mult_distrib)
  moreover have "(tr_consumed ?t - ?a) * ?S \<le> u * W"
    using i(4) by (meson diff_le_self le_trans mult_le_mono1)
  ultimately show ?thesis
    using i by (auto simp: refund_weight_def Some trader_inv_def Let_def Weight_min_def Weight_saturating_sub_def)
qed

lemma trader_inv_fold:
  assumes H: "holding H" and u: "units_of l = Some u" and "trader_inv l u k W r"
    and "list_all (pays_with H l) actions" and "u * (W + bought_time actions) \<le> u128_max"
    and "W + bought_time actions \<le> u64_max"
  shows "trader_inv l u (k + buys actions) (W + bought_time actions) (fold (trader_step H units_of) actions r)"
  using assms(3-)
proof (induction actions arbitrary: k W r)
  case (Cons a actions)
  show ?case
  proof (cases a)
    case (Buy w h)
    have "u * (W + ref_time w) \<le> u128_max" using Cons.prems(3) Buy by (simp add: algebra_simps)
    then have "trader_inv l u (Suc k) (W + ref_time w) (trader_step H units_of a r)"
      using Cons.prems Buy unfolding Buy by (intro trader_inv_buy [where units_of = units_of, OF H Cons.prems(1) u]) simp_all
    then show ?thesis
      using Cons.IH [of "Suc k" "W + ref_time w"] Cons.prems Buy by (simp add: algebra_simps)
  next
    case (Refund w)
    have "u * W \<le> u128_max" using Cons.prems(3) by (simp add: add_mult_distrib2)
    then have "trader_inv l u k W (trader_step H units_of a r)"
      unfolding Refund by (rule trader_inv_refund [OF Cons.prems(1)])
    then show ?thesis using Cons.IH [of k W] Cons.prems Refund by simp
  qed
qed simp

text \<open>C27: While an XCM program pays for its execution in one asset, the trader neither creates nor loses that asset
  beyond rounding: it refunds at most what was paid plus one unit for each purchase, and what was paid is refunded or
  taken as revenue.\<close>

theorem trader_conserves_single_asset:
  assumes "holding H" and "units_of l = Some u" and "list_all (pays_with H l) actions"
    and "u * bought_time actions \<le> u128_max" and "bought_time actions \<le> u64_max"
  defines "r \<equiv> trader_execute H units_of actions"
  shows "rn_refunded r l \<le> rn_paid r l + buys actions \<and>
    rn_paid r l \<le> rn_refunded r l + trader_revenue (rn_trader r) l"
proof -
  have "trader_inv l u 0 0 trader_start"
    by (simp add: trader_inv_def trader_start_def FixedRateOfForeignAsset_new_def Weight_zero_def Let_def)
  from trader_inv_fold [where units_of = units_of, OF assms(1,2) this assms(3)] assms(4,5)
  have i: "trader_inv l u (buys actions) (bought_time actions) r" by (simp add: r_def trader_execute_def)
  then have "rn_refunded r l * WEIGHT_REF_TIME_PER_SECOND \<le> (rn_paid r l + buys actions) * WEIGHT_REF_TIME_PER_SECOND"
    unfolding trader_inv_def Let_def by linarith
  then have "rn_refunded r l \<le> rn_paid r l + buys actions" using second_pos(1) by simp
  moreover have "trader_revenue (rn_trader r) l = tr_consumed (rn_trader r)"
    using i by (auto simp: trader_inv_def Let_def trader_revenue_def trader_drop_def)
  moreover have "rn_paid r l \<le> rn_refunded r l + tr_consumed (rn_trader r)" using i by (simp add: trader_inv_def Let_def)
  ultimately show ?thesis by simp
qed

text \<open>A holding register that is a list of assets and amounts.\<close>

definition list_holding :: "(('loc \<times> nat) list, 'loc) Holding" where
  "list_holding = \<lparr> h_first_fungible = (\<lambda>h. case h of [] \<Rightarrow> None | a # _ \<Rightarrow> Some a),
     h_checked_sub = (\<lambda>h l a. if a \<le> sm_get_or 0 h l then Some (sm_put h l (sm_get_or 0 h l - a)) else None),
     h_amount = (\<lambda>h l. sm_get_or 0 h l) \<rparr>"

interpretation list_holding: holding list_holding
  by unfold_locales (auto simp: list_holding_def sm_get_or_def sm_get_def sm_put_def update_conv'
      split: list.splits if_splits option.splits)

definition foreign_rates :: "nat \<Rightarrow> nat option" where
  "foreign_rates l = (if l = 1 then Some (10 ^ 12) else if l = 2 then Some 1 else None)"

definition seconds :: "nat \<Rightarrow> Weight" where "seconds n = \<lparr> ref_time = n * 10 ^ 12, proof_size = 0 \<rparr>"

theorem trader_conserves_single_asset_witness:
  "rn_refunded (trader_execute list_holding foreign_rates [Buy (seconds 3) [(1, 10 ^ 15)], Refund (seconds 1)]) 1 \<le>
     rn_paid (trader_execute list_holding foreign_rates [Buy (seconds 3) [(1, 10 ^ 15)], Refund (seconds 1)]) 1 + 1"
proof -
  have "list_all (pays_with list_holding (1::nat)) [Buy (seconds 3) [(1, 10 ^ 15)], Refund (seconds 1)]" by code_simp
  moreover have "(10::nat) ^ 12 * bought_time [Buy (seconds 3) [(1::nat, 10 ^ 15 :: nat)], Refund (seconds 1)] \<le> u128_max"
    by code_simp
  moreover have "bought_time [Buy (seconds 3) [(1::nat, 10 ^ 15 :: nat)], Refund (seconds 1)] \<le> u64_max" by code_simp
  moreover have "foreign_rates 1 = Some (10 ^ 12)" by code_simp
  ultimately show ?thesis
    using trader_conserves_single_asset [where H = list_holding and units_of = foreign_rates and l = 1 and u = "10 ^ 12"
        and actions = "[Buy (seconds 3) [(1, 10 ^ 15)], Refund (seconds 1)]", OF list_holding.holding_axioms]
    by simp
qed

text \<open>C28: A program that buys weight with a second asset is refunded for it in the first: after paying for \<open>w1\<close> with
  asset \<open>l1\<close> and for \<open>w2\<close> with asset \<open>l2\<close>, a full refund returns the price of \<open>w1 + w2\<close> in \<open>l1\<close>, although only the price
  of \<open>w1\<close> was paid in it. The comment in the code says later assets are ignored when refund is concerned.\<close>

theorem second_asset_refunded_in_first:
  fixes H :: "('h, 'loc) Holding"
  assumes "holding H" and "l1 \<noteq> l2" and "units_of l1 = Some u1" "units_of l2 = Some u2"
    and "h_first_fungible H h1 = Some (l1, a1)" "h_first_fungible H h2 = Some (l2, a2)"
    and "weight_to_fee w1 u1 \<le> a1" "weight_to_fee w2 u2 \<le> a2"
    and "0 < weight_to_fee w1 u1" "0 < weight_to_fee w2 u2" and "ref_time w1 + ref_time w2 \<le> u64_max"
  defines "r \<equiv> trader_execute H units_of [Buy w1 h1, Buy w2 h2, Refund (Weight_saturating_add w1 w2)]"
  shows "rn_paid r l1 = weight_to_fee w1 u1 \<and> rn_refunded r l1 = weight_to_fee (Weight_saturating_add w1 w2) u1"
proof -
  have a: "h_amount H h1 l1 = a1" "h_amount H h2 l2 = a2" using assms(1,5,6) by (simp_all add: holding.first_amount)
  obtain h1' where h1: "h_checked_sub H h1 l1 (weight_to_fee w1 u1) = Some h1'"
    using holding.checked_sub_None [OF assms(1), of h1 l1] a(1) assms(7) by (meson leD option.exhaust_sel)
  obtain h2' where h2: "h_checked_sub H h2 l2 (weight_to_fee w2 u2) = Some h2'"
    using holding.checked_sub_None [OF assms(1), of h2 l2] a(2) assms(8) by (meson leD option.exhaust_sel)
  define t1 where "t1 = \<lparr> tr_weight = Weight_saturating_add Weight_zero w1, tr_consumed = u128_add 0 (weight_to_fee w1 u1),
    tr_asset_location_and_units_per_second = Some (l1, u1) \<rparr>"
  define t2 where "t2 = t1\<lparr>tr_weight := Weight_saturating_add (tr_weight t1) w2\<rparr>"
  have b1: "buy_weight H units_of w1 h1 FixedRateOfForeignAsset_new = Ok (h1', t1)"
    using assms(3,5,9) h1 by (simp add: buy_weight_def Let_def FixedRateOfForeignAsset_new_def t1_def weight_to_fee_def)
  have b2: "buy_weight H units_of w2 h2 t1 = Ok (h2', t2)"
    using assms(2,4,6,10) h2 by (simp add: buy_weight_def Let_def t1_def t2_def weight_to_fee_def)
  have w: "ref_time (Weight_min (Weight_saturating_add w1 w2) (tr_weight t2)) = ref_time w1 + ref_time w2"
    using assms(11) by (simp add: t2_def t1_def Weight_min_def Weight_saturating_add_def Weight_zero_def sat_add_def)
  have p: "weight_to_fee (Weight_min (Weight_saturating_add w1 w2) (tr_weight t2)) u1 = weight_to_fee (Weight_saturating_add w1 w2) u1"
    using assms(11) unfolding weight_to_fee_def w by (simp add: Weight_saturating_add_def sat_add_def)
  have pos: "weight_to_fee w1 u1 \<le> weight_to_fee (Weight_saturating_add w1 w2) u1"
    using assms(11) by (auto simp: weight_to_fee_def Weight_saturating_add_def sat_add_def sat_mul_def
        intro!: div_le_mono min.mono)
  have rf: "fst (refund_weight (Weight_saturating_add w1 w2) t2) = Some (l1, weight_to_fee (Weight_saturating_add w1 w2) u1)"
    using pos assms(9) p by (simp add: refund_weight_def Let_def t2_def t1_def weight_to_fee_def)
  have "h_amount H h2 l1 - h_amount H h2' l1 = 0" "h_amount H h1 l1 - h_amount H h1' l1 = weight_to_fee w1 u1"
    using holding.checked_sub_amount [OF assms(1) h2, of l1] holding.checked_sub_amount [OF assms(1) h1, of l1]
      holding.checked_sub_Some [OF assms(1) h1] assms(2) by simp_all
  then show ?thesis
    using b1 b2 rf by (auto simp: r_def trader_execute_def trader_start_def split: prod.splits)
qed

theorem second_asset_refunded_in_first_witness:
  "rn_refunded (trader_execute list_holding foreign_rates [Buy (seconds 1) [(1, 10 ^ 15)], Buy (seconds 9) [(2, 100)],
      Refund (Weight_saturating_add (seconds 1) (seconds 9))]) 1 = 10 ^ 13 \<and>
   rn_paid (trader_execute list_holding foreign_rates [Buy (seconds 1) [(1, 10 ^ 15)], Buy (seconds 9) [(2, 100)],
      Refund (Weight_saturating_add (seconds 1) (seconds 9))]) 1 = 10 ^ 12"
proof -
  have "(1::nat) \<noteq> 2" "foreign_rates 1 = Some (10 ^ 12)" "foreign_rates 2 = Some 1"
    "h_first_fungible list_holding [(1::nat, 10 ^ 15)] = Some (1, 10 ^ 15)"
    "h_first_fungible list_holding [(2::nat, 100)] = Some (2, 100)"
    "weight_to_fee (seconds 1) (10 ^ 12) \<le> 10 ^ 15" "weight_to_fee (seconds 9) 1 \<le> 100"
    "0 < weight_to_fee (seconds 1) (10 ^ 12)" "0 < weight_to_fee (seconds 9) 1"
    "ref_time (seconds 1) + ref_time (seconds 9) \<le> u64_max"
    by code_simp+
  from second_asset_refunded_in_first [where units_of = foreign_rates, OF list_holding.holding_axioms this]
  have "rn_paid (trader_execute list_holding foreign_rates [Buy (seconds 1) [(1, 10 ^ 15)], Buy (seconds 9) [(2, 100)],
      Refund (Weight_saturating_add (seconds 1) (seconds 9))]) 1 = weight_to_fee (seconds 1) (10 ^ 12) \<and>
    rn_refunded (trader_execute list_holding foreign_rates [Buy (seconds 1) [(1, 10 ^ 15)], Buy (seconds 9) [(2, 100)],
      Refund (Weight_saturating_add (seconds 1) (seconds 9))]) 1 =
      weight_to_fee (Weight_saturating_add (seconds 1) (seconds 9)) (10 ^ 12)" .
  moreover have "weight_to_fee (seconds 1) (10 ^ 12) = 10 ^ 12"
    "weight_to_fee (Weight_saturating_add (seconds 1) (seconds 9)) (10 ^ 12) = 10 ^ 13" by code_simp+
  ultimately show ?thesis by simp
qed

end
