(* ===== verification/UnifiedAccounts.thy ===== *)
theory UnifiedAccounts
  imports Primitives Frame "HOL-Library.Code_Target_Nat"
begin

text \<open>
  Accounts of the two worlds of the chain: the interface \<open>UnifiedAddressMapper\<close> and its hashed default of
  \<open>src/primitives/src/evm.rs\<close>, the pallet \<open>src/pallets/unified-accounts/src/lib.rs\<close> that links a native account
  with an EVM address, and the handler that marks the addresses of assets with a revert code. Hashes, signature
  recovery, the encoding of accounts and the currency come from outside the repository and are records of functions;
  bytes are natural numbers. A transfer may reap accounts; the accounts it reaps go through the hook
  \<open>on_killed_account\<close>.
\<close>

section \<open>The mapping interface\<close>

datatype 'addr UnifiedAddress = Mapped 'addr | Default 'addr

fun into_address :: "'addr UnifiedAddress \<Rightarrow> 'addr" where
  "into_address (Default a) = a"
| "into_address (Mapped a) = a"

record ('acc, 'evm) UnifiedAddressMapper =
  um_to_account_id :: "'evm \<Rightarrow> 'acc option"
  um_to_default_account_id :: "'evm \<Rightarrow> 'acc"
  um_to_h160 :: "'acc \<Rightarrow> 'evm option"
  um_to_default_h160 :: "'acc \<Rightarrow> 'evm"

definition to_account_id_or_default :: "('acc, 'evm) UnifiedAddressMapper \<Rightarrow> 'evm \<Rightarrow> 'acc UnifiedAddress" where
  "to_account_id_or_default M evm_address =
     (case um_to_account_id M evm_address of
        None \<Rightarrow> Default (um_to_default_account_id M evm_address)
      | Some a \<Rightarrow> Mapped a)"

definition to_h160_or_default :: "('acc, 'evm) UnifiedAddressMapper \<Rightarrow> 'acc \<Rightarrow> 'evm UnifiedAddress" where
  "to_h160_or_default M account_id =
     (case um_to_h160 M account_id of
        None \<Rightarrow> Default (um_to_default_h160 M account_id)
      | Some a \<Rightarrow> Mapped a)"

text \<open>The law of the interface: the two partial maps are inverse to each other. Then a mapped account is what its
  address resolves to, and the other way round.\<close>

locale address_mapper =
  fixes M :: "('acc, 'evm) UnifiedAddressMapper"
  assumes inverse: "um_to_account_id M e = Some a \<longleftrightarrow> um_to_h160 M a = Some e"
begin

lemma resolve_account: "to_h160_or_default M a = Mapped e \<longleftrightarrow> to_account_id_or_default M e = Mapped a"
  using inverse [of e a] by (auto simp: to_h160_or_default_def to_account_id_or_default_def split: option.splits)

lemma mapped_round_trip: "um_to_h160 M a = Some e \<Longrightarrow> into_address (to_account_id_or_default M e) = a"
  by (simp add: to_account_id_or_default_def inverse [symmetric])

end

text \<open>The default: the address is cut from a hash, and nothing is mapped. \<open>evm_account\<close> is the default account of an
  address, given by the EVM pallet.\<close>

definition HashedDefaultMappings ::
  "(nat list \<Rightarrow> nat list) \<Rightarrow> ('acc \<Rightarrow> nat list) \<Rightarrow> (nat list \<Rightarrow> 'acc) \<Rightarrow> ('acc, nat list) UnifiedAddressMapper" where
  "HashedDefaultMappings hash encode evm_account =
     \<lparr> um_to_account_id = (\<lambda>_. None), um_to_default_account_id = evm_account, um_to_h160 = (\<lambda>_. None),
       um_to_default_h160 = (\<lambda>account_id. take 20 (hash ([101, 118, 109, 58] @ encode account_id))) \<rparr>"

interpretation hashed: address_mapper "HashedDefaultMappings hash encode evm_account"
  by unfold_locales (simp add: HashedDefaultMappings_def)

section \<open>The pallet\<close>

datatype UnifiedError = AlreadyMapped | UnexpectedSignatureFormat | InvalidSignature | FundsUnavailable

record 'acc UnifiedCrypto =
  cr_keccak_256 :: "nat list \<Rightarrow> nat list"
  cr_ecdsa_recover :: "nat list \<Rightarrow> nat list \<Rightarrow> nat list option"
  cr_encode :: "'acc \<Rightarrow> nat list"
  cr_u256_bytes :: "nat \<Rightarrow> nat list"
  cr_string_bytes :: "string \<Rightarrow> nat list"

record ('acc, 'bank) UnifiedCurrency =
  uc_reducible_preserving :: "'bank \<Rightarrow> 'acc \<Rightarrow> nat"
  uc_reducible_expendable :: "'bank \<Rightarrow> 'acc \<Rightarrow> nat"
  uc_burn_from :: "'bank \<Rightarrow> 'acc \<Rightarrow> nat \<Rightarrow> 'bank option"
  uc_transfer :: "'bank \<Rightarrow> 'acc \<Rightarrow> 'acc \<Rightarrow> nat \<Rightarrow> ('bank \<times> 'acc list) option"
  uc_account_exists :: "'bank \<Rightarrow> 'acc \<Rightarrow> bool"

record ('acc, 'bank) UnifiedConfig =
  ucfg_currency :: "('acc, 'bank) UnifiedCurrency"
  ucfg_default_mappings :: "('acc, nat list) UnifiedAddressMapper"
  ucfg_crypto :: "'acc UnifiedCrypto"
  ucfg_chain_id :: nat
  ucfg_genesis_hash :: "nat list"
  ucfg_account_mapping_storage_fee :: nat

datatype 'acc UnifiedEvent = AccountClaimed 'acc "nat list"

record ('acc, 'bank) UnifiedStorage =
  us_evm_to_native :: "(nat list, 'acc) smap"
  us_native_to_evm :: "('acc, nat list) smap"
  us_bank :: 'bank
  us_events :: "'acc UnifiedEvent list"

subsection \<open>Signatures\<close>

definition build_domain_separator :: "('acc, 'bank) UnifiedConfig \<Rightarrow> nat list" where
  "build_domain_separator cfg =
     (let C = ucfg_crypto cfg; keccak = (\<lambda>str. cr_keccak_256 C (cr_string_bytes C str))
      in cr_keccak_256 C
          (keccak ''EIP712Domain(string name,string version,uint256 chainId,bytes32 salt)'' @
           keccak ''Astar EVM Claim'' @ keccak ''1'' @ cr_u256_bytes C (ucfg_chain_id cfg) @ ucfg_genesis_hash cfg))"

definition build_args_hash :: "('acc, 'bank) UnifiedConfig \<Rightarrow> 'acc \<Rightarrow> nat list" where
  "build_args_hash cfg account =
     (let C = ucfg_crypto cfg
      in cr_keccak_256 C (cr_keccak_256 C (cr_string_bytes C ''Claim(bytes substrateAddress)'') @
           cr_keccak_256 C (cr_encode C account)))"

definition build_signing_payload :: "('acc, 'bank) UnifiedConfig \<Rightarrow> 'acc \<Rightarrow> nat list" where
  "build_signing_payload cfg who =
     cr_keccak_256 (ucfg_crypto cfg) ([25, 1] @ build_domain_separator cfg @ build_args_hash cfg who)"

text \<open>\<open>H160::from(H256)\<close> keeps the last 20 of the 32 bytes.\<close>

definition verify_signature :: "('acc, 'bank) UnifiedConfig \<Rightarrow> 'acc \<Rightarrow> nat list \<Rightarrow> nat list option" where
  "verify_signature cfg who sig =
     map_option (\<lambda>pubkey. drop 12 (cr_keccak_256 (ucfg_crypto cfg) pubkey))
       (cr_ecdsa_recover (ucfg_crypto cfg) sig (build_signing_payload cfg who))"

subsection \<open>Calls and hooks\<close>

definition on_killed_account :: "'acc \<Rightarrow> ('acc, 'bank) UnifiedStorage \<Rightarrow> ('acc, 'bank) UnifiedStorage" where
  "on_killed_account who s =
     (case sm_get (us_native_to_evm s) who of
        None \<Rightarrow> s
      | Some evm_addr \<Rightarrow>
          (let s = s\<lparr>us_native_to_evm := sm_remove (us_native_to_evm s) who\<rparr>;
               s = s\<lparr>us_evm_to_native := sm_remove (us_evm_to_native s) evm_addr\<rparr>
           in s\<lparr>us_native_to_evm := sm_remove (us_native_to_evm s) who\<rparr>))"

definition charge_storage_fee ::
  "('acc, 'bank) UnifiedConfig \<Rightarrow> 'acc \<Rightarrow> ('acc, 'bank) UnifiedStorage \<Rightarrow>
   (('acc, 'bank) UnifiedStorage, UnifiedError dispatch_error) result" where
  "charge_storage_fee cfg who s =
     (let balance = uc_reducible_preserving (ucfg_currency cfg) (us_bank s) who;
          fee = ucfg_account_mapping_storage_fee cfg
      in and_then (ensure (fee \<le> balance) (Module FundsUnavailable)) (\<lambda>_.
         and_then (ok_or CurrencyError (uc_burn_from (ucfg_currency cfg) (us_bank s) who fee)) (\<lambda>bank.
         Ok (s\<lparr>us_bank := bank\<rparr>))))"

definition insert_mapping :: "'acc \<Rightarrow> nat list \<Rightarrow> ('acc, 'bank) UnifiedStorage \<Rightarrow> ('acc, 'bank) UnifiedStorage" where
  "insert_mapping who evm_address s =
     s\<lparr>us_evm_to_native := sm_put (us_evm_to_native s) evm_address who,
       us_native_to_evm := sm_put (us_native_to_evm s) who evm_address,
       us_events := us_events s @ [AccountClaimed who evm_address]\<rparr>"

definition move_default_balance ::
  "('acc, 'bank) UnifiedConfig \<Rightarrow> 'acc \<Rightarrow> 'acc \<Rightarrow> ('acc, 'bank) UnifiedStorage \<Rightarrow>
   (('acc, 'bank) UnifiedStorage, UnifiedError dispatch_error) result" where
  "move_default_balance cfg default_account_id who s =
     (if uc_account_exists (ucfg_currency cfg) (us_bank s) default_account_id
      then and_then (ok_or CurrencyError (uc_transfer (ucfg_currency cfg) (us_bank s) default_account_id who
             (uc_reducible_expendable (ucfg_currency cfg) (us_bank s) default_account_id))) (\<lambda>(bank, killed).
           Ok (fold on_killed_account killed (s\<lparr>us_bank := bank\<rparr>)))
      else Ok s)"

definition claim_evm_address ::
  "('acc, 'bank) UnifiedConfig \<Rightarrow> 'acc RawOrigin \<Rightarrow> nat list \<Rightarrow> nat list \<Rightarrow> ('acc, 'bank) UnifiedStorage \<Rightarrow>
   (('acc, 'bank) UnifiedStorage, UnifiedError dispatch_error) result" where
  "claim_evm_address cfg origin evm_address sig s =
     and_then (ensure_signed origin) (\<lambda>who.
     and_then (ensure (\<not> sm_contains (us_native_to_evm s) who) (Module AlreadyMapped)) (\<lambda>_.
     and_then (ensure (\<not> sm_contains (us_evm_to_native s) evm_address) (Module AlreadyMapped)) (\<lambda>_.
     and_then (ok_or (Module UnexpectedSignatureFormat) (verify_signature cfg who sig)) (\<lambda>address.
     and_then (ensure (evm_address = address) (Module InvalidSignature)) (\<lambda>_.
     and_then (charge_storage_fee cfg who s) (\<lambda>s.
     and_then (move_default_balance cfg (um_to_default_account_id (ucfg_default_mappings cfg) evm_address) who s) (\<lambda>s.
     Ok (insert_mapping who evm_address s))))))))"

definition do_claim_default_evm_address ::
  "('acc, 'bank) UnifiedConfig \<Rightarrow> 'acc \<Rightarrow> ('acc, 'bank) UnifiedStorage \<Rightarrow>
   (nat list \<times> ('acc, 'bank) UnifiedStorage, UnifiedError dispatch_error) result" where
  "do_claim_default_evm_address cfg account_id s =
     and_then (ensure (\<not> sm_contains (us_native_to_evm s) account_id) (Module AlreadyMapped)) (\<lambda>_.
     let evm_address = um_to_default_h160 (ucfg_default_mappings cfg) account_id
     in and_then (ensure (\<not> sm_contains (us_evm_to_native s) evm_address) (Module AlreadyMapped)) (\<lambda>_.
        and_then (charge_storage_fee cfg account_id s) (\<lambda>s.
        Ok (evm_address, insert_mapping account_id evm_address s))))"

definition claim_default_evm_address ::
  "('acc, 'bank) UnifiedConfig \<Rightarrow> 'acc RawOrigin \<Rightarrow> ('acc, 'bank) UnifiedStorage \<Rightarrow>
   (('acc, 'bank) UnifiedStorage, UnifiedError dispatch_error) result" where
  "claim_default_evm_address cfg origin s =
     and_then (ensure_signed origin) (\<lambda>who.
     and_then (do_claim_default_evm_address cfg who s) (\<lambda>(_, s). Ok s))"

text \<open>The pallet as a mapper, and the lookups built on it.\<close>

definition pallet_mapper :: "('acc, 'bank) UnifiedConfig \<Rightarrow> ('acc, 'bank) UnifiedStorage \<Rightarrow> ('acc, nat list) UnifiedAddressMapper" where
  "pallet_mapper cfg s =
     \<lparr> um_to_account_id = sm_get (us_evm_to_native s),
       um_to_default_account_id = um_to_default_account_id (ucfg_default_mappings cfg),
       um_to_h160 = sm_get (us_native_to_evm s),
       um_to_default_h160 = um_to_default_h160 (ucfg_default_mappings cfg) \<rparr>"

definition into_account_id :: "('acc, 'bank) UnifiedConfig \<Rightarrow> ('acc, 'bank) UnifiedStorage \<Rightarrow> nat list \<Rightarrow> 'acc" where
  "into_account_id cfg s evm_address = into_address (to_account_id_or_default (pallet_mapper cfg s) evm_address)"

datatype 'acc MultiAddress = Id 'acc | Index | Raw "nat list" | Address32 "nat list" | Address20 "nat list"

definition lookup ::
  "('acc, 'bank) UnifiedConfig \<Rightarrow> ('acc, 'bank) UnifiedStorage \<Rightarrow> 'acc MultiAddress \<Rightarrow> ('acc, 'e dispatch_error) result" where
  "lookup cfg s a =
     (case a of
        Address20 i \<Rightarrow> Ok (into_address (to_account_id_or_default (pallet_mapper cfg s) i))
      | _ \<Rightarrow> Err CannotLookup)"

definition unlookup :: "'acc \<Rightarrow> 'acc MultiAddress" where
  "unlookup a = Id a"

section \<open>Runs\<close>

text \<open>What happens to the pallet: the calls, accounts being reaped elsewhere, and balances changing elsewhere.\<close>

datatype ('acc, 'bank) unified_action =
    ClaimEvmAddress "'acc RawOrigin" "nat list" "nat list"
  | ClaimDefaultEvmAddress "'acc RawOrigin"
  | AccountKilled 'acc
  | BankChanged 'bank

fun unified_step ::
  "('acc, 'bank) UnifiedConfig \<Rightarrow> ('acc, 'bank) unified_action \<Rightarrow> ('acc, 'bank) UnifiedStorage \<Rightarrow> ('acc, 'bank) UnifiedStorage" where
  "unified_step cfg (ClaimEvmAddress origin evm sig) s =
     (case claim_evm_address cfg origin evm sig s of Ok s' \<Rightarrow> s' | Err _ \<Rightarrow> s)"
| "unified_step cfg (ClaimDefaultEvmAddress origin) s =
     (case claim_default_evm_address cfg origin s of Ok s' \<Rightarrow> s' | Err _ \<Rightarrow> s)"
| "unified_step cfg (AccountKilled who) s = on_killed_account who s"
| "unified_step cfg (BankChanged bank) s = s\<lparr>us_bank := bank\<rparr>"

definition unified_run ::
  "('acc, 'bank) UnifiedConfig \<Rightarrow> ('acc, 'bank) unified_action list \<Rightarrow> 'bank \<Rightarrow> ('acc, 'bank) UnifiedStorage" where
  "unified_run cfg actions bank = fold (unified_step cfg) actions
     \<lparr> us_evm_to_native = [], us_native_to_evm = [], us_bank = bank, us_events = [] \<rparr>"

text \<open>A pair of account and address that an action may link: its default address, or an address that signed for it.\<close>

definition authorises :: "('acc, 'bank) UnifiedConfig \<Rightarrow> 'acc \<Rightarrow> nat list \<Rightarrow> ('acc, 'bank) unified_action \<Rightarrow> bool" where
  "authorises cfg who evm a \<longleftrightarrow>
     (case a of
        ClaimEvmAddress origin e sig \<Rightarrow> origin = Signed who \<and> e = evm \<and> verify_signature cfg who sig = Some evm
      | ClaimDefaultEvmAddress origin \<Rightarrow> origin = Signed who \<and> evm = um_to_default_h160 (ucfg_default_mappings cfg) who
      | _ \<Rightarrow> False)"

definition unified_inv :: "('acc \<Rightarrow> nat list \<Rightarrow> bool) \<Rightarrow> ('acc, 'bank) UnifiedStorage \<Rightarrow> bool" where
  "unified_inv allowed s \<longleftrightarrow> sm_inverse (us_native_to_evm s) (us_evm_to_native s) \<and>
     (\<forall>who evm. sm_get (us_native_to_evm s) who = Some evm \<longrightarrow> allowed who evm)"

lemma unified_inv_bank [simp]: "unified_inv P (s\<lparr>us_bank := b\<rparr>) = unified_inv P s"
  by (simp add: unified_inv_def)

lemma unified_inv_mono: "unified_inv P s \<Longrightarrow> (\<And>a e. P a e \<Longrightarrow> Q a e) \<Longrightarrow> unified_inv Q s"
  by (simp add: unified_inv_def)

lemma unified_inv_maps:
  assumes "unified_inv P s"
  shows "sm_inverse (us_native_to_evm s) (us_evm_to_native s)" "sm_invar (us_native_to_evm s)" "sm_invar (us_evm_to_native s)"
  using assms sm_inverse_invar [of "us_native_to_evm s" "us_evm_to_native s"] by (simp_all add: unified_inv_def)

lemma unified_inv_killed: "unified_inv P s \<Longrightarrow> unified_inv P (on_killed_account who s)"
proof (cases "sm_get (us_native_to_evm s) who")
  case (Some e)
  assume i: "unified_inv P s"
  note m = unified_inv_maps [OF i]
  have "sm_remove (sm_remove (us_native_to_evm s) who) who = sm_remove (us_native_to_evm s) who"
    by (simp add: sm_remove_def)
  then show ?thesis
    using Some i m sm_inverse_remove [of "us_native_to_evm s" "us_evm_to_native s" who e]
    by (simp add: on_killed_account_def unified_inv_def Let_def)
qed (simp add: on_killed_account_def)

lemma unified_inv_killed_fold: "unified_inv P s \<Longrightarrow> unified_inv P (fold on_killed_account xs s)"
  by (induction xs arbitrary: s) (simp_all add: unified_inv_killed)

lemma unified_inv_insert:
  assumes "unified_inv P s" and "sm_get (us_native_to_evm s) who = None" "sm_get (us_evm_to_native s) e = None" and "P who e"
  shows "unified_inv P (insert_mapping who e s)"
  using assms unified_inv_maps [OF assms(1)] sm_inverse_put [of "us_native_to_evm s" "us_evm_to_native s" who e]
  by (simp add: unified_inv_def insert_mapping_def)

text \<open>Reaping accounts only removes entries.\<close>

lemma killed_None:
  assumes "unified_inv P s"
  shows "sm_get (us_native_to_evm s) a = None \<Longrightarrow> sm_get (us_native_to_evm (on_killed_account x s)) a = None"
    and "sm_get (us_evm_to_native s) e = None \<Longrightarrow> sm_get (us_evm_to_native (on_killed_account x s)) e = None"
  using unified_inv_maps [OF assms] by (simp_all add: on_killed_account_def Let_def split: option.splits)

lemma killed_fold_None:
  assumes "unified_inv P s"
  shows "sm_get (us_native_to_evm s) a = None \<Longrightarrow> sm_get (us_native_to_evm (fold on_killed_account xs s)) a = None"
    and "sm_get (us_evm_to_native s) e = None \<Longrightarrow> sm_get (us_evm_to_native (fold on_killed_account xs s)) e = None"
  using assms by (induction xs arbitrary: s) (simp_all add: killed_None unified_inv_killed)

lemma charge_storage_fee_OkD: "charge_storage_fee cfg who s = Ok s' \<Longrightarrow> \<exists>b. s' = s\<lparr>us_bank := b\<rparr>"
  by (auto simp: charge_storage_fee_def and_then_Ok_iff Let_def)

lemma move_default_balance_inv:
  assumes "move_default_balance cfg d who s = Ok s'" and "unified_inv P s"
  shows "unified_inv P s'" "sm_get (us_native_to_evm s) a = None \<Longrightarrow> sm_get (us_native_to_evm s') a = None"
    "sm_get (us_evm_to_native s) e = None \<Longrightarrow> sm_get (us_evm_to_native s') e = None"
  using assms killed_fold_None [of P "s\<lparr>us_bank := b\<rparr>" for b]
  by (auto simp: move_default_balance_def and_then_Ok_iff unified_inv_killed_fold split: if_splits)

lemma claim_evm_address_inv:
  assumes "claim_evm_address cfg origin e sig s = Ok s'" and "unified_inv P s"
    and "\<And>who. authorises cfg who e (ClaimEvmAddress origin e sig) \<Longrightarrow> P who e"
  shows "unified_inv P s'"
proof -
  obtain who s1 s2 where c: "origin = Signed who" "sm_get (us_native_to_evm s) who = None"
    "sm_get (us_evm_to_native s) e = None" "verify_signature cfg who sig = Some e"
    "charge_storage_fee cfg who s = Ok s1"
    "move_default_balance cfg (um_to_default_account_id (ucfg_default_mappings cfg) e) who s1 = Ok s2"
    "s' = insert_mapping who e s2"
    using assms(1) by (auto simp: claim_evm_address_def and_then_Ok_iff sm_contains_def)
  obtain b where s1: "s1 = s\<lparr>us_bank := b\<rparr>" using charge_storage_fee_OkD [OF c(5)] by blast
  have "P who e" using assms(3) c by (simp add: authorises_def)
  then show ?thesis
    using move_default_balance_inv [OF c(6), of P] assms(2) c(2,3) unfolding c(7)
    by (intro unified_inv_insert) (simp_all add: s1)
qed

lemma claim_default_inv:
  assumes "claim_default_evm_address cfg origin s = Ok s'" and "unified_inv P s"
    and "\<And>who e. authorises cfg who e (ClaimDefaultEvmAddress origin) \<Longrightarrow> P who e"
  shows "unified_inv P s'"
proof -
  let ?e = "um_to_default_h160 (ucfg_default_mappings cfg)"
  obtain who s1 where c: "origin = Signed who" "sm_get (us_native_to_evm s) who = None"
    "sm_get (us_evm_to_native s) (?e who) = None" "charge_storage_fee cfg who s = Ok s1"
    "s' = insert_mapping who (?e who) s1"
    using assms(1)
    by (auto simp: claim_default_evm_address_def do_claim_default_evm_address_def and_then_Ok_iff sm_contains_def Let_def)
  obtain b where s1: "s1 = s\<lparr>us_bank := b\<rparr>" using charge_storage_fee_OkD [OF c(4)] by blast
  have "P who (?e who)" using assms(3) c(1) by (simp add: authorises_def)
  then show ?thesis using assms(2) c(2,3) unfolding c(5) by (intro unified_inv_insert) (simp_all add: s1)
qed

lemma unified_step_inv:
  assumes "unified_inv P s" and "\<And>who e. authorises cfg who e a \<Longrightarrow> P who e"
  shows "unified_inv P (unified_step cfg a s)"
  using assms
  by (cases a) (auto simp: unified_inv_killed split: result.splits intro: claim_evm_address_inv claim_default_inv)

lemma unified_run_inv:
  "unified_inv (\<lambda>who e. \<exists>a\<in>set actions. authorises cfg who e a) (unified_run cfg actions bank)"
proof -
  have "unified_inv (\<lambda>who e. P who e \<or> (\<exists>a\<in>set actions. authorises cfg who e a)) (fold (unified_step cfg) actions s)"
    if "unified_inv P s" for P s
    using that
  proof (induction actions arbitrary: P s)
    case (Cons a actions)
    have "unified_inv (\<lambda>who e. P who e \<or> authorises cfg who e a) (unified_step cfg a s)"
      using Cons.prems by (intro unified_step_inv) (auto elim: unified_inv_mono)
    from Cons.IH [OF this] show ?case by (simp add: disj_assoc)
  qed simp
  from this [of "\<lambda>_ _. False" "\<lparr> us_evm_to_native = [], us_native_to_evm = [], us_bank = bank, us_events = [] \<rparr>"]
  show ?thesis by (simp add: unified_run_def unified_inv_def sm_get_def)
qed

lemma pallet_mapper_laws: "unified_inv P s \<Longrightarrow> address_mapper (pallet_mapper cfg s)"
  using unified_inv_maps(1) [of P s] by unfold_locales (simp add: pallet_mapper_def sm_inverse_iff)

text \<open>C29: In every run, accounts and EVM addresses are linked one to one, an address linked to an account resolves to it,
  and every link was asked for by the account itself, either with a signature of the EVM key over the account, this
  chain and its genesis block, or as the account's default address.\<close>

theorem links_are_unique_and_authorised:
  fixes cfg :: "('acc, 'bank) UnifiedConfig" and actions bank
  defines "s \<equiv> unified_run cfg actions bank"
  shows "(um_to_account_id (pallet_mapper cfg s) evm = Some who \<longleftrightarrow> um_to_h160 (pallet_mapper cfg s) who = Some evm) \<and>
    (um_to_h160 (pallet_mapper cfg s) who = Some evm \<longrightarrow>
       lookup cfg s (Address20 evm) = (Ok who :: ('acc, UnifiedError dispatch_error) result) \<and>
       (\<exists>a\<in>set actions. authorises cfg who evm a))"
proof -
  have i: "unified_inv (\<lambda>who e. \<exists>a\<in>set actions. authorises cfg who e a) s"
    unfolding s_def by (rule unified_run_inv)
  note M = pallet_mapper_laws [OF i, of cfg]
  have "\<exists>a\<in>set actions. authorises cfg who evm a" if "um_to_h160 (pallet_mapper cfg s) who = Some evm"
    using i that by (simp add: unified_inv_def pallet_mapper_def)
  then show ?thesis
    using address_mapper.inverse [OF M] address_mapper.mapped_round_trip [OF M, of who evm] by (simp add: lookup_def)
qed

text \<open>A concrete environment: balances as a storage map, and a signature scheme in which the signature of a payload by
  the key \<open>k\<close> is the payload followed by \<open>k\<close>.\<close>

definition sample_currency :: "(nat, (nat, nat) smap) UnifiedCurrency" where
  "sample_currency = \<lparr> uc_reducible_preserving = (\<lambda>b a. sm_get_or 0 b a - 1), uc_reducible_expendable = sm_get_or 0,
     uc_burn_from = (\<lambda>b a x. if x \<le> sm_get_or 0 b a then Some (sm_put b a (sm_get_or 0 b a - x)) else None),
     uc_transfer = (\<lambda>b f t x. if x \<le> sm_get_or 0 b f
       then Some (sm_put (sm_remove b f) t (sm_get_or 0 b t + x), [f]) else None),
     uc_account_exists = sm_contains \<rparr>"

definition sample_unified :: "(nat, (nat, nat) smap) UnifiedConfig" where
  "sample_unified = \<lparr> ucfg_currency = sample_currency,
     ucfg_default_mappings = HashedDefaultMappings id (\<lambda>a. [a]) (\<lambda>e. 1000 + sum_list e),
     ucfg_crypto = \<lparr> cr_keccak_256 = id,
       cr_ecdsa_recover = (\<lambda>sig payload. if butlast sig = payload then Some (replicate 12 0 @ [last sig]) else None),
       cr_encode = (\<lambda>a. [a]), cr_u256_bytes = (\<lambda>n. [n]), cr_string_bytes = (\<lambda>_. []) \<rparr>,
     ucfg_chain_id = 592, ucfg_genesis_hash = [1, 2], ucfg_account_mapping_storage_fee = 10 \<rparr>"

definition sample_actions :: "(nat, (nat, nat) smap) unified_action list" where
  "sample_actions = [ClaimEvmAddress (Signed 5) [77] (build_signing_payload sample_unified 5 @ [77]),
     ClaimEvmAddress (Signed 6) [78] (build_signing_payload sample_unified 5 @ [78]), ClaimDefaultEvmAddress (Signed 6),
     AccountKilled 6]"

theorem links_are_unique_and_authorised_witness:
  "lookup sample_unified (unified_run sample_unified sample_actions [(5, 100), (6, 100), (1077, 9)]) (Address20 [77]) =
     (Ok 5 :: (nat, UnifiedError dispatch_error) result) \<and>
   (\<exists>a\<in>set sample_actions. authorises sample_unified 5 [77] a)"
proof -
  have "um_to_h160 (pallet_mapper sample_unified (unified_run sample_unified sample_actions [(5, 100), (6, 100), (1077, 9)])) 5 = Some [77]"
    by code_simp
  with links_are_unique_and_authorised [of sample_unified sample_actions "[(5, 100), (6, 100), (1077, 9)]" "[77]" 5]
  show ?thesis by blast
qed

section \<open>Revert codes of asset addresses\<close>

text \<open>\<open>AccountCodes\<close> of the EVM pallet is the map the handler writes; \<open>address_of\<close> is \<open>asset_id_to_address\<close>.\<close>

definition EVM_REVERT_CODE :: "nat list" where "EVM_REVERT_CODE = [96, 0, 96, 0, 253]"

definition asset_created :: "('asset \<Rightarrow> 'evm) \<Rightarrow> 'asset \<Rightarrow> ('evm, nat list) smap \<Rightarrow> (('evm, nat list) smap, unit) result" where
  "asset_created address_of i codes =
     and_then (ensure (\<not> sm_contains codes (address_of i)) ()) (\<lambda>_. Ok (sm_put codes (address_of i) EVM_REVERT_CODE))"

definition asset_destroyed :: "('asset \<Rightarrow> 'evm) \<Rightarrow> 'asset \<Rightarrow> ('evm, nat list) smap \<Rightarrow> (('evm, nat list) smap, unit) result" where
  "asset_destroyed address_of i codes = Ok (sm_remove codes (address_of i))"

lemma asset_code_lifecycle:
  assumes "sm_invar codes" and "asset_created address_of i codes = Ok codes1" and "asset_destroyed address_of i codes1 = Ok codes2"
  shows "sm_get codes1 (address_of i) = Some EVM_REVERT_CODE" "sm_get codes2 e = sm_get codes e"
  using assms by (auto simp: asset_created_def asset_destroyed_def and_then_Ok_iff sm_contains_def)

end
