(* ===== verification/EthereumChecked.thy ===== *)
theory EthereumChecked
  imports UnifiedAccounts
begin

text \<open>
  Ethereum transactions that come from XCM and are already checked: \<open>src/primitives/src/ethereum_checked.rs\<close> and the
  pallet \<open>src/pallets/ethereum-checked/src/lib.rs\<close>. All of them carry the same dummy signature, so a global nonce keeps
  their hashes apart. Validation of gas limits and execution belong to the EVM crates: they are functions of the
  configuration, with the law that a call returns the result of a call (the locale \<open>evm_executor\<close>). A panic is
  \<open>None\<close>. A dispatch that fails is rolled back, nonce included.
\<close>

record CheckedEthereumTx =
  et_gas_limit :: nat
  et_target :: "nat list"
  et_value :: nat
  et_input :: "nat list"
  et_maybe_access_list :: "(nat list \<times> nat list list) list option"

datatype TransactionAction = CallAction "nat list" | CreateAction

record EthereumTx =
  tx_chain_id :: nat
  tx_nonce :: nat
  tx_max_fee_per_gas :: nat
  tx_max_priority_fee_per_gas :: nat
  tx_gas_limit :: nat
  tx_value :: nat
  tx_action :: TransactionAction
  tx_input :: "nat list"
  tx_access_list :: "(nat list \<times> nat list list) list"
  tx_odd_y_parity :: bool
  tx_r :: nat
  tx_s :: nat

definition dummy_rs :: nat where "dummy_rs = 1"

definition into_ethereum_tx :: "CheckedEthereumTx \<Rightarrow> nat \<Rightarrow> nat \<Rightarrow> EthereumTx" where
  "into_ethereum_tx self nonce chain_id =
     (let access_list = (case et_maybe_access_list self of Some l \<Rightarrow> map (\<lambda>(address, storage_keys). (address, storage_keys)) l | None \<Rightarrow> [])
      in \<lparr> tx_chain_id = chain_id, tx_nonce = nonce, tx_max_fee_per_gas = 0, tx_max_priority_fee_per_gas = 0,
           tx_gas_limit = et_gas_limit self, tx_value = et_value self, tx_action = CallAction (et_target self),
           tx_input = et_input self, tx_access_list = access_list, tx_odd_y_parity = True, tx_r = dummy_rs, tx_s = dummy_rs \<rparr>)"

section \<open>The pallet\<close>











section \<open>Nonces\<close>


lemma into_ethereum_tx_simps [simp]:
  "tx_nonce (into_ethereum_tx tx n c) = n" "tx_action (into_ethereum_tx tx n c) = CallAction (et_target tx)"
  by (simp_all add: into_ethereum_tx_def Let_def)








end
