(* ===== verification/Currency.thy ===== *)
theory Currency
  imports Frame "HOL-Library.Code_Target_Nat"
begin

text \<open>
  The currency of the chain as the pallets use it. Its code, the balances pallet, is outside the repository, so its
  operations are records of functions on the state of the bank, and what the pallets rely on are the laws of two
  locales: \<open>reservable_currency\<close> for pallets that reserve bonds, and \<open>treasury_currency\<close>, which extends it by free balances and by
  imbalances, amounts issued or taken that are settled later. A ledger of balances satisfies both.
\<close>

section \<open>Reserves\<close>

record ('acc, 'bank) ReservableCurrency =
  rc_reserved :: "'bank \<Rightarrow> 'acc \<Rightarrow> nat"
  rc_free_balance :: "'bank \<Rightarrow> 'acc \<Rightarrow> nat"
  rc_minimum_balance :: nat
  rc_reserve :: "'bank \<Rightarrow> 'acc \<Rightarrow> nat \<Rightarrow> 'bank option"
  rc_unreserve :: "'bank \<Rightarrow> 'acc \<Rightarrow> nat \<Rightarrow> 'bank"
  rc_slash_reserved :: "'bank \<Rightarrow> 'acc \<Rightarrow> nat \<Rightarrow> 'bank \<times> nat"
  rc_resolve_creating :: "'bank \<Rightarrow> 'acc \<Rightarrow> nat \<Rightarrow> 'bank"
  rc_transfer_keep_alive :: "'bank \<Rightarrow> 'acc \<Rightarrow> 'acc \<Rightarrow> nat \<Rightarrow> 'bank option"

text \<open>What the pallet relies on: each operation changes the reserve of its account by its amount and leaves every other
  reserve alone.\<close>

locale reservable_currency =
  fixes C :: "('acc, 'bank) ReservableCurrency"
  assumes reserve_reserved: "rc_reserve C b a x = Some b' \<Longrightarrow>
      rc_reserved C b' c = (if c = a then rc_reserved C b a + x else rc_reserved C b c)"
    and unreserve_reserved: "rc_reserved C (rc_unreserve C b a x) c =
      (if c = a then rc_reserved C b a - x else rc_reserved C b c)"
    and slash_reserved_reserved: "rc_reserved C (fst (rc_slash_reserved C b a x)) c =
      (if c = a then rc_reserved C b a - x else rc_reserved C b c)"
    and resolve_reserved: "rc_reserved C (rc_resolve_creating C b a x) c = rc_reserved C b c"
    and transfer_reserved: "rc_transfer_keep_alive C b a d x = Some b' \<Longrightarrow> rc_reserved C b' c = rc_reserved C b c"

section \<open>Free balances and imbalances\<close>

text \<open>A positive imbalance is an amount that was paid to an account before it was taken from another: \<open>deposit_creating\<close> pays it (or
  nothing, when it would leave a new account below the minimum balance), \<open>settle\<close> takes it, keeping the account alive, and dropping it
  leaves it issued. \<open>pair\<close> creates a positive and a negative imbalance of the same amount.\<close>

record ('acc, 'bank) ImbalanceCurrency =
  im_deposit_creating :: "'bank \<Rightarrow> 'acc \<Rightarrow> nat \<Rightarrow> 'bank \<times> nat"
  im_settle :: "'bank \<Rightarrow> 'acc \<Rightarrow> nat \<Rightarrow> 'bank option"
  im_drop :: "'bank \<Rightarrow> nat \<Rightarrow> 'bank"
  im_pair :: "'bank \<Rightarrow> nat \<Rightarrow> 'bank"
  im_reactivate :: "'bank \<Rightarrow> nat \<Rightarrow> 'bank"
  im_deactivate :: "'bank \<Rightarrow> nat \<Rightarrow> 'bank"
  im_make_free_balance_be :: "'bank \<Rightarrow> 'acc \<Rightarrow> nat \<Rightarrow> 'bank"

locale treasury_currency = reservable_currency C
  for C :: "('acc, 'bank) ReservableCurrency" +
  fixes I :: "('acc, 'bank) ImbalanceCurrency"
  assumes unreserve_free: "rc_free_balance C (rc_unreserve C b a x) c =
      rc_free_balance C b c + (if c = a then min x (rc_reserved C b a) else 0)"
    and resolve_free: "rc_free_balance C b c \<le> rc_free_balance C (rc_resolve_creating C b a x) c"
    and deposit_free: "rc_free_balance C (fst (im_deposit_creating I b a x)) c =
      rc_free_balance C b c + (if c = a then snd (im_deposit_creating I b a x) else 0)"
    and deposit_le: "snd (im_deposit_creating I b a x) \<le> x"
    and deposit_existing: "rc_minimum_balance C \<le> rc_free_balance C b a \<or> rc_minimum_balance C \<le> x \<Longrightarrow> snd (im_deposit_creating I b a x) = x"
    and deposit_reserved: "rc_reserved C (fst (im_deposit_creating I b a x)) c = rc_reserved C b c"
    and settle_free: "im_settle I b a x = Some b' \<Longrightarrow> rc_free_balance C b' c + (if c = a then x else 0) = rc_free_balance C b c"
    and settle_reserved: "im_settle I b a x = Some b' \<Longrightarrow> rc_reserved C b' c = rc_reserved C b c"
    and settle_succeeds: "x + rc_minimum_balance C \<le> rc_free_balance C b a \<Longrightarrow> \<exists>b'. im_settle I b a x = Some b'"
    and bookkeeping_free: "rc_free_balance C (im_drop I b x) c = rc_free_balance C b c"
      "rc_free_balance C (im_pair I b x) c = rc_free_balance C b c" "rc_free_balance C (im_reactivate I b x) c = rc_free_balance C b c"
      "rc_free_balance C (im_deactivate I b x) c = rc_free_balance C b c"
    and bookkeeping_reserved: "rc_reserved C (im_drop I b x) c = rc_reserved C b c"
      "rc_reserved C (im_pair I b x) c = rc_reserved C b c" "rc_reserved C (im_reactivate I b x) c = rc_reserved C b c"
      "rc_reserved C (im_deactivate I b x) c = rc_reserved C b c" "rc_reserved C (im_make_free_balance_be I b a x) c = rc_reserved C b c"

section \<open>A concrete currency\<close>

text \<open>Balances as a map from accounts to free and reserved amounts.\<close>

type_synonym ledger_bank = "(nat, nat \<times> nat) smap"

definition bank_get :: "ledger_bank \<Rightarrow> nat \<Rightarrow> nat \<times> nat" where
  "bank_get b a = (case map_of b a of None \<Rightarrow> (0, 0) | Some x \<Rightarrow> x)"

definition ledger_currency :: "(nat, ledger_bank) ReservableCurrency" where
  "ledger_currency = \<lparr> rc_reserved = (\<lambda>b a. snd (bank_get b a)), rc_free_balance = (\<lambda>b a. fst (bank_get b a)),
     rc_minimum_balance = 1,
     rc_reserve = (\<lambda>b a x. let (f, r) = bank_get b a in if x \<le> f then Some (AList.update a (f - x, r + x) b) else None),
     rc_unreserve = (\<lambda>b a x. let (f, r) = bank_get b a in AList.update a (f + min x r, r - x) b),
     rc_slash_reserved = (\<lambda>b a x. let (f, r) = bank_get b a in (AList.update a (f, r - x) b, min x r)),
     rc_resolve_creating = (\<lambda>b a x. let (f, r) = bank_get b a in AList.update a (f + x, r) b),
     rc_transfer_keep_alive = (\<lambda>b a d x. let (f, r) = bank_get b a in
       if x \<le> f then (let b = AList.update a (f - x, r) b; (g, q) = bank_get b d in Some (AList.update d (g + x, q) b))
       else None) \<rparr>"

lemma bank_get_update [simp]: "bank_get (AList.update a x b) c = (if c = a then x else bank_get b c)"
  by (simp add: bank_get_def update_conv')

interpretation ledger_currency: reservable_currency ledger_currency
  by unfold_locales
    (auto simp: ledger_currency_def Let_def case_prod_unfold split: if_splits)

definition ledger_imbalances :: "(nat, ledger_bank) ImbalanceCurrency" where
  "ledger_imbalances = \<lparr>
     im_deposit_creating = (\<lambda>b a x. let (f, r) = bank_get b a in if f = 0 \<and> x = 0 then (b, 0) else (AList.update a (f + x, r) b, x)),
     im_settle = (\<lambda>b a x. let (f, r) = bank_get b a in if x < f then Some (AList.update a (f - x, r) b) else None),
     im_drop = (\<lambda>b _. b), im_pair = (\<lambda>b _. b), im_reactivate = (\<lambda>b _. b), im_deactivate = (\<lambda>b _. b),
     im_make_free_balance_be = (\<lambda>b a x. AList.update a (x, snd (bank_get b a)) b) \<rparr>"

interpretation ledger_imbalances: treasury_currency ledger_currency ledger_imbalances
  by unfold_locales (auto simp: ledger_currency_def ledger_imbalances_def Let_def case_prod_unfold split: if_splits)

end
