(* ===== verification/CollatorSelection.thy ===== *)
theory CollatorSelection
  imports Primitives Currency
begin

text \<open>
  The pallet \<open>src/pallets/collator-selection/src/lib.rs\<close>: candidates for block production, their bonds, kicking and
  slashing of candidates that do not author blocks, and the set of collators of a session. The currency with its
  reserves is outside the repository and an interface with its laws (the locale \<open>reservable_currency\<close> of \<open>Currency\<close>); session keys,
  the account check and the conversion to validator ids are functions of the configuration, and the session index and
  block number are arguments. Iterating \<open>LastAuthoredBlock\<close> visits every entry once: the loop only removes the entry it
  visits, so the model walks over the entries of the start of the loop.
\<close>

section \<open>The pallet\<close>

record 'acc CandidateInfo =
  ci_who :: 'acc
  ci_deposit :: nat

datatype CollatorError =
    TooManyCandidates | TooFewCandidates | Unknown | Permission | AlreadyCandidate | NotCandidate
  | AlreadyInvulnerable | NoAssociatedValidatorId | ValidatorNotRegistered | NotAllowedCandidate
  | BondStillLocked | NoCandidacyBond

datatype 'acc CollatorEvent =
    NewInvulnerables "'acc list" | NewDesiredCandidates nat | NewCandidacyBond nat
  | CandidateAdded 'acc nat | CandidateRemoved 'acc | CandidateSlashed 'acc

record ('acc, 'vid, 'bank) CollatorConfig =
  cc_currency :: "('acc, 'bank) ReservableCurrency"
  cc_update_origin :: "'acc RawOrigin \<Rightarrow> bool"
  cc_pot :: 'acc
  cc_max_candidates :: nat
  cc_min_candidates :: nat
  cc_max_invulnerables :: nat
  cc_kick_threshold :: nat
  cc_validator_id_of :: "'acc \<Rightarrow> 'vid option"
  cc_is_registered :: "'vid \<Rightarrow> bool"
  cc_slash_ratio :: nat
  cc_perbill :: PerThing
  cc_allowed_candidacy :: "'acc \<Rightarrow> bool"

record ('acc, 'bank) CollatorStorage =
  cs_invulnerables :: "'acc list"
  cs_candidates :: "'acc CandidateInfo list"
  cs_non_candidates :: "('acc, nat \<times> nat) smap"
  cs_last_authored_block :: "('acc, nat) smap"
  cs_desired_candidates :: nat
  cs_candidacy_bond :: nat
  cs_slash_destination :: "'acc option"
  cs_bank :: 'bank
  cs_events :: "'acc CollatorEvent list"

type_synonym ('acc, 'bank) CollatorResult = "(('acc, 'bank) CollatorStorage, CollatorError dispatch_error) result"

text \<open>The time of a call: the current block and the session index of the validator set.\<close>

record CollatorTime =
  ct_block_number :: nat
  ct_session_index :: nat

text \<open>Genesis: a failed assertion stops the chain from starting and is \<open>None\<close>.\<close>

definition collator_genesis_build ::
  "('acc, 'vid, 'bank) CollatorConfig \<Rightarrow> 'acc list \<Rightarrow> nat \<Rightarrow> nat \<Rightarrow> 'bank \<Rightarrow> ('acc, 'bank) CollatorStorage option" where
  "collator_genesis_build cfg invulnerables candidacy_bond desired_candidates bank =
     (if distinct invulnerables \<and> length invulnerables \<le> cc_max_invulnerables cfg \<and>
         desired_candidates \<le> cc_max_candidates cfg
      then Some \<lparr> cs_invulnerables = invulnerables, cs_candidates = [], cs_non_candidates = [],
        cs_last_authored_block = [], cs_desired_candidates = desired_candidates, cs_candidacy_bond = candidacy_bond,
        cs_slash_destination = None, cs_bank = bank, cs_events = [] \<rparr>
      else None)"

definition ensure_session_keys :: "('acc, 'vid, 'bank) CollatorConfig \<Rightarrow> 'acc \<Rightarrow> (unit, CollatorError dispatch_error) result" where
  "ensure_session_keys cfg account_id =
     and_then (ok_or (Module NoAssociatedValidatorId) (cc_validator_id_of cfg account_id)) (\<lambda>validator_key.
     ensure (cc_is_registered cfg validator_key) (Module ValidatorNotRegistered))"

fun check_session_keys :: "('acc, 'vid, 'bank) CollatorConfig \<Rightarrow> 'acc list \<Rightarrow> (unit, CollatorError dispatch_error) result" where
  "check_session_keys cfg [] = Ok ()"
| "check_session_keys cfg (a # as) = and_then (ensure_session_keys cfg a) (\<lambda>_. check_session_keys cfg as)"

definition set_invulnerables ::
  "('acc, 'vid, 'bank) CollatorConfig \<Rightarrow> 'acc RawOrigin \<Rightarrow> 'acc list \<Rightarrow> ('acc, 'bank) CollatorStorage \<Rightarrow> ('acc, 'bank) CollatorResult" where
  "set_invulnerables cfg origin new s =
     and_then (ensure_origin (cc_update_origin cfg) origin) (\<lambda>_.
     and_then (check_session_keys cfg new) (\<lambda>_.
     Ok (s\<lparr>cs_invulnerables := new, cs_events := cs_events s @ [NewInvulnerables new]\<rparr>)))"

definition set_desired_candidates ::
  "('acc, 'vid, 'bank) CollatorConfig \<Rightarrow> 'acc RawOrigin \<Rightarrow> nat \<Rightarrow> ('acc, 'bank) CollatorStorage \<Rightarrow> ('acc, 'bank) CollatorResult" where
  "set_desired_candidates cfg origin desired s =
     and_then (ensure_origin (cc_update_origin cfg) origin) (\<lambda>_.
     Ok (s\<lparr>cs_desired_candidates := desired, cs_events := cs_events s @ [NewDesiredCandidates desired]\<rparr>))"

definition set_candidacy_bond ::
  "('acc, 'vid, 'bank) CollatorConfig \<Rightarrow> 'acc RawOrigin \<Rightarrow> nat \<Rightarrow> ('acc, 'bank) CollatorStorage \<Rightarrow> ('acc, 'bank) CollatorResult" where
  "set_candidacy_bond cfg origin bond s =
     and_then (ensure_origin (cc_update_origin cfg) origin) (\<lambda>_.
     Ok (s\<lparr>cs_candidacy_bond := bond, cs_events := cs_events s @ [NewCandidacyBond bond]\<rparr>))"

definition is_account_candidate :: "('acc, 'bank) CollatorStorage \<Rightarrow> 'acc \<Rightarrow> bool" where
  "is_account_candidate s account \<longleftrightarrow> list_ex (\<lambda>c. ci_who c = account) (cs_candidates s)"

text \<open>Taking the previous bond of an account that left, when it is unlocked.\<close>

definition take_previous_bond ::
  "('acc, 'vid, 'bank) CollatorConfig \<Rightarrow> CollatorTime \<Rightarrow> 'acc \<Rightarrow> ('acc, 'bank) CollatorStorage \<Rightarrow> ('acc, 'bank) CollatorResult" where
  "take_previous_bond cfg t who s =
     (case sm_get (cs_non_candidates s) who of
        None \<Rightarrow> Ok s
      | Some (index, deposit) \<Rightarrow>
          and_then (ensure (index \<le> ct_session_index t) (Module BondStillLocked)) (\<lambda>_.
          Ok (s\<lparr>cs_non_candidates := sm_remove (cs_non_candidates s) who,
                cs_bank := rc_unreserve (cc_currency cfg) (cs_bank s) who deposit\<rparr>)))"

definition push_candidate ::
  "('acc, 'vid, 'bank) CollatorConfig \<Rightarrow> CollatorTime \<Rightarrow> 'acc \<Rightarrow> ('acc, 'bank) CollatorStorage \<Rightarrow> ('acc, 'bank) CollatorResult" where
  "push_candidate cfg t who s =
     (let deposit = cs_candidacy_bond s
      in if is_account_candidate s who then Err (Module AlreadyCandidate)
         else and_then (ok_or CurrencyError (rc_reserve (cc_currency cfg) (cs_bank s) who deposit)) (\<lambda>bank.
           Ok (s\<lparr>cs_bank := bank,
                 cs_candidates := cs_candidates s @ [\<lparr> ci_who = who, ci_deposit = deposit \<rparr>],
                 cs_last_authored_block := sm_put (cs_last_authored_block s) who
                   ((ct_block_number t + cc_kick_threshold cfg) mod 2 ^ 32),
                 cs_events := cs_events s @ [CandidateAdded who deposit]\<rparr>)))"

definition register_as_candidate ::
  "('acc, 'vid, 'bank) CollatorConfig \<Rightarrow> CollatorTime \<Rightarrow> 'acc RawOrigin \<Rightarrow> ('acc, 'bank) CollatorStorage \<Rightarrow> ('acc, 'bank) CollatorResult" where
  "register_as_candidate cfg t origin s =
     and_then (ensure_signed origin) (\<lambda>who.
     and_then (ensure (length (cs_candidates s) < cs_desired_candidates s) (Module TooManyCandidates)) (\<lambda>_.
     and_then (ensure (who \<notin> set (cs_invulnerables s)) (Module AlreadyInvulnerable)) (\<lambda>_.
     and_then (ensure (cc_allowed_candidacy cfg who) (Module NotAllowedCandidate)) (\<lambda>_.
     and_then (ensure_session_keys cfg who) (\<lambda>_.
     and_then (take_previous_bond cfg t who s) (\<lambda>s.
     push_candidate cfg t who s))))))"

definition try_remove_candidate ::
  "CollatorTime \<Rightarrow> 'acc \<Rightarrow> ('acc, 'bank) CollatorStorage \<Rightarrow> ('acc, 'bank) CollatorResult" where
  "try_remove_candidate t who s =
     and_then (ok_or (Module NotCandidate) (find (\<lambda>c. ci_who c = who) (cs_candidates s))) (\<lambda>candidate.
     Ok (s\<lparr>cs_candidates := remove1 candidate (cs_candidates s),
           cs_non_candidates := sm_put (cs_non_candidates s) who (u32_add (ct_session_index t) 1, ci_deposit candidate),
           cs_events := cs_events s @ [CandidateRemoved who]\<rparr>))"

definition leave_intent ::
  "('acc, 'vid, 'bank) CollatorConfig \<Rightarrow> CollatorTime \<Rightarrow> 'acc RawOrigin \<Rightarrow> ('acc, 'bank) CollatorStorage \<Rightarrow> ('acc, 'bank) CollatorResult" where
  "leave_intent cfg t origin s =
     and_then (ensure_signed origin) (\<lambda>who.
     and_then (ensure (cc_min_candidates cfg < length (cs_candidates s)) (Module TooFewCandidates)) (\<lambda>_.
     try_remove_candidate t who s))"

definition withdraw_bond ::
  "('acc, 'vid, 'bank) CollatorConfig \<Rightarrow> CollatorTime \<Rightarrow> 'acc RawOrigin \<Rightarrow> ('acc, 'bank) CollatorStorage \<Rightarrow> ('acc, 'bank) CollatorResult" where
  "withdraw_bond cfg t origin s =
     and_then (ensure_signed origin) (\<lambda>who.
     case sm_get (cs_non_candidates s) who of
       None \<Rightarrow> Err (Module NoCandidacyBond)
     | Some (index, deposit) \<Rightarrow>
         and_then (ensure (index \<le> ct_session_index t) (Module BondStillLocked)) (\<lambda>_.
         Ok (s\<lparr>cs_non_candidates := sm_remove (cs_non_candidates s) who,
               cs_bank := rc_unreserve (cc_currency cfg) (cs_bank s) who deposit,
               cs_last_authored_block := sm_remove (cs_last_authored_block s) who\<rparr>)))"

definition set_slash_destination ::
  "('acc, 'vid, 'bank) CollatorConfig \<Rightarrow> 'acc RawOrigin \<Rightarrow> 'acc option \<Rightarrow> ('acc, 'bank) CollatorStorage \<Rightarrow> ('acc, 'bank) CollatorResult" where
  "set_slash_destination cfg origin destination s =
     and_then (ensure_origin (cc_update_origin cfg) origin) (\<lambda>_. Ok (s\<lparr>cs_slash_destination := destination\<rparr>))"

definition slash_non_candidate ::
  "('acc, 'vid, 'bank) CollatorConfig \<Rightarrow> 'acc \<Rightarrow> ('acc, 'bank) CollatorStorage \<Rightarrow> ('acc, 'bank) CollatorStorage" where
  "slash_non_candidate cfg who s =
     (case sm_get (cs_non_candidates s) who of
        None \<Rightarrow> s
      | Some (_, deposit) \<Rightarrow>
          (let C = cc_currency cfg;
               slash = pt_mul (cc_perbill cfg) (cc_slash_ratio cfg) deposit;
               remain = sat_sub deposit slash;
               (bank, imbalance) = rc_slash_reserved C (cs_bank s) who slash;
               bank = rc_unreserve C bank who remain;
               bank = (case cs_slash_destination s of None \<Rightarrow> bank | Some dest \<Rightarrow> rc_resolve_creating C bank dest imbalance)
           in s\<lparr>cs_non_candidates := sm_remove (cs_non_candidates s) who, cs_bank := bank,
                cs_last_authored_block := sm_remove (cs_last_authored_block s) who,
                cs_events := cs_events s @ [CandidateSlashed who]\<rparr>))"

definition assemble_collators :: "('acc, 'bank) CollatorStorage \<Rightarrow> 'acc list \<Rightarrow> 'acc list" where
  "assemble_collators s candidates = cs_invulnerables s @ candidates"

text \<open>One turn of the loop of \<open>kick_stale_candidates\<close>, and the loop.\<close>

definition kick_entry ::
  "('acc, 'vid, 'bank) CollatorConfig \<Rightarrow> CollatorTime \<Rightarrow> 'acc \<times> nat \<Rightarrow> ('acc, 'bank) CollatorStorage \<Rightarrow> ('acc, 'bank) CollatorStorage" where
  "kick_entry cfg t entry s =
     (let (who, last_authored) = entry
      in if sat_sub (ct_block_number t) last_authored < cc_kick_threshold cfg then s
         else if is_account_candidate s who
         then (if cc_min_candidates cfg < length (cs_candidates s)
               then slash_non_candidate cfg who (case try_remove_candidate t who s of Ok s' \<Rightarrow> s' | Err _ \<Rightarrow> s)
               else s)
         else (case sm_get (cs_non_candidates s) who of
                 None \<Rightarrow> s
               | Some (locked_until, _) \<Rightarrow>
                   if locked_until < ct_session_index t
                   then s\<lparr>cs_last_authored_block := sm_remove (cs_last_authored_block s) who\<rparr>
                   else slash_non_candidate cfg who s))"

definition kick_stale_candidates ::
  "('acc, 'vid, 'bank) CollatorConfig \<Rightarrow> CollatorTime \<Rightarrow> ('acc, 'bank) CollatorStorage \<Rightarrow> (nat \<times> nat) \<times> ('acc, 'bank) CollatorStorage" where
  "kick_stale_candidates cfg t s =
     (let count = length (cs_candidates s);
          s' = fold (kick_entry cfg t) (sm_iter (cs_last_authored_block s)) s
      in ((count, sat_sub count (length (cs_candidates s'))), s'))"

definition note_author ::
  "('acc, 'vid, 'bank) CollatorConfig \<Rightarrow> CollatorTime \<Rightarrow> 'acc \<Rightarrow> ('acc, 'bank) CollatorStorage \<Rightarrow> ('acc, 'bank) CollatorStorage" where
  "note_author cfg t author s =
     (let C = cc_currency cfg;
          reward = (case checked_sub (rc_free_balance C (cs_bank s) (cc_pot cfg)) (rc_minimum_balance C) of
                      None \<Rightarrow> 0 | Some r \<Rightarrow> r) div 2;
          bank = (case rc_transfer_keep_alive C (cs_bank s) (cc_pot cfg) author reward of
                    None \<Rightarrow> cs_bank s | Some b \<Rightarrow> b)
      in s\<lparr>cs_bank := bank, cs_last_authored_block := sm_put (cs_last_authored_block s) author (ct_block_number t)\<rparr>)"

definition new_session ::
  "('acc, 'vid, 'bank) CollatorConfig \<Rightarrow> CollatorTime \<Rightarrow> ('acc, 'bank) CollatorStorage \<Rightarrow> 'acc list \<times> ('acc, 'bank) CollatorStorage" where
  "new_session cfg t s =
     (let (_, s) = kick_stale_candidates cfg t s; active_candidates = map ci_who (cs_candidates s)
      in (assemble_collators s active_candidates, s))"

section \<open>Bonds\<close>

text \<open>The bond the pallet holds of an account: as a candidate, or while it is unbonding.\<close>

definition candidate_deposit :: "'acc CandidateInfo list \<Rightarrow> 'acc \<Rightarrow> nat" where
  "candidate_deposit cs a = (case find (\<lambda>c. ci_who c = a) cs of None \<Rightarrow> 0 | Some c \<Rightarrow> ci_deposit c)"

definition unbonding_deposit :: "('acc, nat \<times> nat) smap \<Rightarrow> 'acc \<Rightarrow> nat" where
  "unbonding_deposit m a = (case sm_get m a of None \<Rightarrow> 0 | Some (_, d) \<Rightarrow> d)"

definition bond_of :: "('acc, 'bank) CollatorStorage \<Rightarrow> 'acc \<Rightarrow> nat" where
  "bond_of s a = candidate_deposit (cs_candidates s) a + unbonding_deposit (cs_non_candidates s) a"

text \<open>What every operation keeps, for the reserves \<open>others\<close> that other pallets hold.\<close>

definition collator_inv :: "('acc, 'bank) ReservableCurrency \<Rightarrow> ('acc \<Rightarrow> nat) \<Rightarrow> ('acc, 'bank) CollatorStorage \<Rightarrow> bool" where
  "collator_inv C others s \<longleftrightarrow>
     distinct (map ci_who (cs_candidates s)) \<and> sm_invar (cs_non_candidates s) \<and> sm_invar (cs_last_authored_block s) \<and>
     (\<forall>c\<in>set (cs_candidates s). sm_get (cs_non_candidates s) (ci_who c) = None \<and>
        sm_contains (cs_last_authored_block s) (ci_who c)) \<and>
     (\<forall>a. rc_reserved C (cs_bank s) a = bond_of s a + others a)"

lemma is_candidate_iff: "is_account_candidate s a \<longleftrightarrow> (\<exists>c\<in>set (cs_candidates s). ci_who c = a)"
  by (simp add: is_account_candidate_def list_ex_iff)

lemma find_candidate:
  "find (\<lambda>c. ci_who c = a) cs = Some c \<Longrightarrow> c \<in> set cs \<and> ci_who c = a"
  "find (\<lambda>c. ci_who c = a) cs = None \<longleftrightarrow> (\<forall>c\<in>set cs. ci_who c \<noteq> a)"
  by (auto simp: find_Some_iff find_None_iff)

lemma candidate_deposit_none [simp]: "\<forall>c\<in>set cs. ci_who c \<noteq> a \<Longrightarrow> candidate_deposit cs a = 0"
  using find_candidate(2) [of a cs] by (simp add: candidate_deposit_def)

lemma candidate_deposit_append:
  "\<forall>c\<in>set cs. ci_who c \<noteq> ci_who d \<Longrightarrow>
   candidate_deposit (cs @ [d]) a = (if a = ci_who d then ci_deposit d else candidate_deposit cs a)"
  by (induction cs) (auto simp: candidate_deposit_def)

lemma candidate_deposit_remove1:
  assumes "distinct (map ci_who cs)" and "c \<in> set cs"
  shows "candidate_deposit (remove1 c cs) a = (if a = ci_who c then 0 else candidate_deposit cs a)"
proof -
  have "c' \<in> set (remove1 c cs) \<Longrightarrow> ci_who c' \<noteq> ci_who c" for c'
    using assms by (auto simp: distinct_map inj_on_def)
  moreover have "candidate_deposit (remove1 c cs) a = candidate_deposit cs a" if "a \<noteq> ci_who c"
    using that by (induction cs) (auto simp: candidate_deposit_def)
  ultimately show ?thesis by (cases "a = ci_who c") simp_all
qed

lemma unbonding_put [simp]:
  "sm_invar m \<Longrightarrow> unbonding_deposit (sm_put m w (i, d)) a = (if a = w then d else unbonding_deposit m a)"
  by (simp add: unbonding_deposit_def)

lemma unbonding_remove [simp]:
  "sm_invar m \<Longrightarrow> unbonding_deposit (sm_remove m w) a = (if a = w then 0 else unbonding_deposit m a)"
  by (simp add: unbonding_deposit_def)

lemma try_remove_candidate_OkE:
  assumes "try_remove_candidate t who s = Ok s'"
  obtains c where "c \<in> set (cs_candidates s)" "ci_who c = who"
    "s' = s\<lparr>cs_candidates := remove1 c (cs_candidates s),
       cs_non_candidates := sm_put (cs_non_candidates s) who (u32_add (ct_session_index t) 1, ci_deposit c),
       cs_events := cs_events s @ [CandidateRemoved who]\<rparr>"
proof -
  obtain c where c: "find (\<lambda>c. ci_who c = who) (cs_candidates s) = Some c"
    using assms by (auto simp: try_remove_candidate_def and_then_Ok_iff)
  from find_candidate(1) [OF c] assms c show thesis by (intro that [of c]) (simp_all add: try_remove_candidate_def)
qed

lemma try_remove_inv:
  assumes inv: "collator_inv C others s" and "try_remove_candidate t who s = Ok s'"
  shows "collator_inv C others s'"
proof -
  obtain c where c: "c \<in> set (cs_candidates s)" "ci_who c = who"
    and s': "s' = s\<lparr>cs_candidates := remove1 c (cs_candidates s),
       cs_non_candidates := sm_put (cs_non_candidates s) who (u32_add (ct_session_index t) 1, ci_deposit c),
       cs_events := cs_events s @ [CandidateRemoved who]\<rparr>"
    using try_remove_candidate_OkE [OF assms(2)] .
  have d: "distinct (map ci_who (cs_candidates s))" and m: "sm_invar (cs_non_candidates s)"
    using inv by (simp_all add: collator_inv_def)
  have ne: "ci_who c' \<noteq> who" if "c' \<in> set (remove1 c (cs_candidates s))" for c'
    using that d c by (auto simp: distinct_map inj_on_def)
  have "candidate_deposit (cs_candidates s) who = ci_deposit c"
    using d c by (cases "find (\<lambda>c. ci_who c = who) (cs_candidates s)")
      (auto simp: candidate_deposit_def find_candidate(2) distinct_map inj_on_def dest!: find_candidate(1))
  moreover have "unbonding_deposit (cs_non_candidates s) who = 0"
    using inv c by (auto simp: collator_inv_def unbonding_deposit_def)
  ultimately have "bond_of s' a = bond_of s a" for a
    using m c by (simp add: s' bond_of_def candidate_deposit_remove1 [OF d c(1)])
  moreover have "distinct (map ci_who (remove1 c (cs_candidates s)))" using d by (simp add: distinct_map inj_on_def)
  ultimately show ?thesis
    using inv m ne set_remove1_subset [of c "cs_candidates s"] by (auto simp: collator_inv_def s')
qed

lemma leave_intent_inv: "collator_inv C others s \<Longrightarrow> leave_intent cfg t origin s = Ok s' \<Longrightarrow> collator_inv C others s'"
  by (auto simp: leave_intent_def and_then_Ok_iff intro: try_remove_inv)

lemma simple_call_inv:
  assumes "collator_inv C others s"
  shows "set_invulnerables cfg origin new s = Ok s' \<Longrightarrow> collator_inv C others s'"
    and "set_desired_candidates cfg origin n s = Ok s' \<Longrightarrow> collator_inv C others s'"
    and "set_candidacy_bond cfg origin n s = Ok s' \<Longrightarrow> collator_inv C others s'"
    and "set_slash_destination cfg origin d s = Ok s' \<Longrightarrow> collator_inv C others s'"
  using assms
  by (auto simp: set_invulnerables_def set_desired_candidates_def set_candidacy_bond_def set_slash_destination_def
      and_then_Ok_iff collator_inv_def bond_of_def)

text \<open>Releasing the bond of an account that is unbonding, with whatever the bank did to its reserve.\<close>

lemma release_inv:
  assumes inv: "collator_inv C others s" and nc: "sm_get (cs_non_candidates s) who = Some (i, d)"
    and bank: "\<And>a. rc_reserved C bank a = (if a = who then rc_reserved C (cs_bank s) who - d else rc_reserved C (cs_bank s) a)"
    and s': "cs_candidates s' = cs_candidates s" "cs_non_candidates s' = sm_remove (cs_non_candidates s) who" "cs_bank s' = bank"
      "cs_last_authored_block s' = cs_last_authored_block s \<or>
       cs_last_authored_block s' = sm_remove (cs_last_authored_block s) who"
  shows "collator_inv C others s'"
proof -
  have ne: "ci_who c \<noteq> who" if "c \<in> set (cs_candidates s)" for c
    using that inv nc by (auto simp: collator_inv_def)
  then have "candidate_deposit (cs_candidates s) who = 0" by simp
  moreover have "unbonding_deposit (cs_non_candidates s) who = d" using nc by (simp add: unbonding_deposit_def)
  moreover have m: "sm_invar (cs_non_candidates s)" using inv by (simp add: collator_inv_def)
  moreover have "rc_reserved C (cs_bank s) a = bond_of s a + others a" for a using inv by (simp add: collator_inv_def)
  ultimately have "rc_reserved C bank a = bond_of s' a + others a" for a
    by (simp add: bank bond_of_def s')
  moreover have "sm_contains (cs_last_authored_block s') (ci_who c)" if "c \<in> set (cs_candidates s)" for c
    using that s'(4) ne inv by (auto simp: collator_inv_def sm_contains_remove)
  moreover have "sm_invar (cs_last_authored_block s')" using s'(4) inv by (auto simp: collator_inv_def)
  ultimately show ?thesis
    using inv m ne by (auto simp: collator_inv_def s')
qed

context reservable_currency
begin

lemma withdraw_bond_inv:
  assumes "cc_currency cfg = C" and inv: "collator_inv C others s" and "withdraw_bond cfg t origin s = Ok s'"
  shows "collator_inv C others s'"
proof -
  obtain who i d where w: "sm_get (cs_non_candidates s) who = Some (i, d)"
    "s' = s\<lparr>cs_non_candidates := sm_remove (cs_non_candidates s) who, cs_bank := rc_unreserve C (cs_bank s) who d,
       cs_last_authored_block := sm_remove (cs_last_authored_block s) who\<rparr>"
    using assms(1,3) by (auto simp: withdraw_bond_def and_then_Ok_iff split: option.splits)
  show ?thesis
    by (rule release_inv [OF inv w(1), of "rc_unreserve C (cs_bank s) who d"]) (simp_all add: w(2) unreserve_reserved)
qed

lemma slash_non_candidate_inv:
  assumes "cc_currency cfg = C" and inv: "collator_inv C others s"
    and slash: "per_thing perbill_acc (cc_perbill cfg)" "cc_slash_ratio cfg \<le> perbill_acc"
  shows "collator_inv C others (slash_non_candidate cfg who s)"
proof (cases "sm_get (cs_non_candidates s) who")
  case (Some e)
  obtain i d where e: "e = (i, d)" by fastforce
  let ?x = "pt_mul (cc_perbill cfg) (cc_slash_ratio cfg) d"
  obtain b1 im where b1: "rc_slash_reserved C (cs_bank s) who ?x = (b1, im)" by fastforce
  let ?b2 = "rc_unreserve C b1 who (d - ?x)"
  let ?b3 = "case cs_slash_destination s of None \<Rightarrow> ?b2 | Some dest \<Rightarrow> rc_resolve_creating C ?b2 dest im"
  have "?x \<le> d" using slash by (rule per_thing.mul_le)
  moreover have "rc_reserved C b1 a = (if a = who then rc_reserved C (cs_bank s) who - ?x else rc_reserved C (cs_bank s) a)" for a
    using slash_reserved_reserved [of "cs_bank s" who ?x a] b1 by simp
  ultimately have "rc_reserved C ?b3 a = (if a = who then rc_reserved C (cs_bank s) who - d else rc_reserved C (cs_bank s) a)" for a
    by (simp add: unreserve_reserved resolve_reserved split: option.splits)
  then show ?thesis
    using Some e b1 assms(1) by (intro release_inv [OF inv, of who i d ?b3]) (simp_all add: slash_non_candidate_def Let_def)
qed (simp add: slash_non_candidate_def inv)

lemma push_candidate_inv:
  assumes "cc_currency cfg = C" and inv: "collator_inv C others s" and "sm_get (cs_non_candidates s) who = None"
    and "push_candidate cfg t who s = Ok s'"
  shows "collator_inv C others s'"
proof -
  obtain b where b: "rc_reserve C (cs_bank s) who (cs_candidacy_bond s) = Some b" "\<forall>c\<in>set (cs_candidates s). ci_who c \<noteq> who"
    and s': "s' = s\<lparr>cs_bank := b, cs_candidates := cs_candidates s @ [\<lparr> ci_who = who, ci_deposit = cs_candidacy_bond s \<rparr>],
       cs_last_authored_block := sm_put (cs_last_authored_block s) who
         ((ct_block_number t + cc_kick_threshold cfg) mod 2 ^ 32),
       cs_events := cs_events s @ [CandidateAdded who (cs_candidacy_bond s)]\<rparr>"
    using assms(1,4) by (auto simp: push_candidate_def and_then_Ok_iff Let_def is_candidate_iff split: if_splits)
  have "rc_reserved C b a = bond_of s' a + others a" for a
    using inv b(2) assms(3) reserve_reserved [OF b(1), of a]
      candidate_deposit_append [of "cs_candidates s" "\<lparr> ci_who = who, ci_deposit = cs_candidacy_bond s \<rparr>" a]
    by (simp add: s' bond_of_def collator_inv_def unbonding_deposit_def)
  then show ?thesis
    using inv b(2) assms(3) by (auto simp: collator_inv_def s' sm_contains_put)
qed

lemma take_previous_bond_inv:
  assumes "cc_currency cfg = C" and inv: "collator_inv C others s" and "take_previous_bond cfg t who s = Ok s1"
  shows "collator_inv C others s1" "sm_get (cs_non_candidates s1) who = None"
proof -
  show "collator_inv C others s1"
  proof (cases "sm_get (cs_non_candidates s) who")
    case (Some e)
    obtain i d where e: "e = (i, d)" by fastforce
    with Some assms(1,3) have s1: "s1 = s\<lparr>cs_non_candidates := sm_remove (cs_non_candidates s) who,
        cs_bank := rc_unreserve C (cs_bank s) who d\<rparr>"
      by (auto simp: take_previous_bond_def and_then_Ok_iff)
    show ?thesis
      using Some e by (intro release_inv [OF inv, of who i d "rc_unreserve C (cs_bank s) who d"])
        (simp_all add: s1 unreserve_reserved)
  qed (use assms in \<open>simp add: take_previous_bond_def\<close>)
  show "sm_get (cs_non_candidates s1) who = None"
    using inv assms(3) by (auto simp: take_previous_bond_def and_then_Ok_iff collator_inv_def split: option.splits)
qed

lemma register_inv:
  assumes "cc_currency cfg = C" and "collator_inv C others s" and "register_as_candidate cfg t origin s = Ok s'"
  shows "collator_inv C others s'"
proof -
  obtain who s1 where "take_previous_bond cfg t who s = Ok s1" "push_candidate cfg t who s1 = Ok s'"
    using assms(3) by (auto simp: register_as_candidate_def and_then_Ok_iff)
  with take_previous_bond_inv [OF assms(1,2)] push_candidate_inv [OF assms(1)] show ?thesis by blast
qed

lemma note_author_inv: "cc_currency cfg = C \<Longrightarrow> collator_inv C others s \<Longrightarrow> collator_inv C others (note_author cfg t author s)"
  by (auto simp: note_author_def collator_inv_def bond_of_def Let_def sm_contains_put transfer_reserved split: option.splits)

lemma kick_entry_inv:
  assumes "cc_currency cfg = C" and inv: "collator_inv C others s"
    and slash: "per_thing perbill_acc (cc_perbill cfg)" "cc_slash_ratio cfg \<le> perbill_acc"
  shows "collator_inv C others (kick_entry cfg t e s)"
proof -
  have "collator_inv C others (case try_remove_candidate t (fst e) s of Ok s' \<Rightarrow> s' | Err _ \<Rightarrow> s)"
    using inv by (auto split: result.splits intro: try_remove_inv)
  moreover have "collator_inv C others (s\<lparr>cs_last_authored_block := sm_remove (cs_last_authored_block s) (fst e)\<rparr>)"
    if "\<not> is_account_candidate s (fst e)"
    using inv that by (auto simp: collator_inv_def bond_of_def is_candidate_iff sm_contains_remove)
  ultimately show ?thesis
    using inv slash_non_candidate_inv [OF assms(1) _ slash]
    by (auto simp: kick_entry_def Let_def case_prod_unfold split: option.splits)
qed

lemma kick_fold_inv:
  assumes "cc_currency cfg = C" and "collator_inv C others s"
    and slash: "per_thing perbill_acc (cc_perbill cfg)" "cc_slash_ratio cfg \<le> perbill_acc"
  shows "collator_inv C others (fold (kick_entry cfg t) es s)"
  using assms(2) by (induction es arbitrary: s) (simp_all add: kick_entry_inv [OF assms(1) _ slash])

lemma new_session_inv:
  assumes "cc_currency cfg = C" and "collator_inv C others s"
    and slash: "per_thing perbill_acc (cc_perbill cfg)" "cc_slash_ratio cfg \<le> perbill_acc"
  shows "collator_inv C others (snd (new_session cfg t s))"
  using kick_fold_inv [OF assms] by (simp add: new_session_def kick_stale_candidates_def Let_def)

end

section \<open>Runs\<close>

datatype 'acc collator_action =
    SetInvulnerables "'acc RawOrigin" "'acc list"
  | SetDesiredCandidates "'acc RawOrigin" nat
  | SetCandidacyBond "'acc RawOrigin" nat
  | RegisterAsCandidate "'acc RawOrigin"
  | LeaveIntent "'acc RawOrigin"
  | WithdrawBond "'acc RawOrigin"
  | SetSlashDestination "'acc RawOrigin" "'acc option"
  | NoteAuthor 'acc
  | NewSession

definition committed :: "('acc, 'bank) CollatorStorage \<Rightarrow> ('acc, 'bank) CollatorResult \<Rightarrow> ('acc, 'bank) CollatorStorage" where
  "committed s r = (case r of Ok s' \<Rightarrow> s' | Err _ \<Rightarrow> s)"

fun collator_step ::
  "('acc, 'vid, 'bank) CollatorConfig \<Rightarrow> CollatorTime \<Rightarrow> 'acc collator_action \<Rightarrow> ('acc, 'bank) CollatorStorage \<Rightarrow> ('acc, 'bank) CollatorStorage" where
  "collator_step cfg t (SetInvulnerables origin new) s = committed s (set_invulnerables cfg origin new s)"
| "collator_step cfg t (SetDesiredCandidates origin n) s = committed s (set_desired_candidates cfg origin n s)"
| "collator_step cfg t (SetCandidacyBond origin n) s = committed s (set_candidacy_bond cfg origin n s)"
| "collator_step cfg t (RegisterAsCandidate origin) s = committed s (register_as_candidate cfg t origin s)"
| "collator_step cfg t (LeaveIntent origin) s = committed s (leave_intent cfg t origin s)"
| "collator_step cfg t (WithdrawBond origin) s = committed s (withdraw_bond cfg t origin s)"
| "collator_step cfg t (SetSlashDestination origin d) s = committed s (set_slash_destination cfg origin d s)"
| "collator_step cfg t (NoteAuthor author) s = note_author cfg t author s"
| "collator_step cfg t NewSession s = snd (new_session cfg t s)"

text \<open>The states the pallet reaches: from genesis, by its own steps (the account check and the registered session keys
  may differ from step to step), and by changes of balances elsewhere that do not touch the bonds. \<open>others\<close> is what
  the other pallets hold in reserve of each account.\<close>

inductive collator_reachable ::
  "('acc, 'vid, 'bank) CollatorConfig \<Rightarrow> ('acc \<Rightarrow> nat) \<Rightarrow> ('acc, 'bank) CollatorStorage \<Rightarrow> bool" for cfg where
  genesis: "collator_genesis_build cfg invulnerables bond desired bank = Some s \<Longrightarrow>
    collator_reachable cfg (rc_reserved (cc_currency cfg) bank) s"
| step: "collator_reachable cfg others s \<Longrightarrow>
    collator_reachable cfg others
      (collator_step (cfg\<lparr>cc_allowed_candidacy := allowed, cc_is_registered := registered\<rparr>) t a s)"
| elsewhere: "collator_reachable cfg others s \<Longrightarrow>
    (\<And>a. rc_reserved (cc_currency cfg) bank a = bond_of s a + others' a) \<Longrightarrow>
    collator_reachable cfg others' (s\<lparr>cs_bank := bank\<rparr>)"

lemma committed_inv: "collator_inv C others s \<Longrightarrow> (\<And>s'. r = Ok s' \<Longrightarrow> collator_inv C others s') \<Longrightarrow>
    collator_inv C others (committed s r)"
  by (cases r) (simp_all add: committed_def)

lemma collator_step_inv:
  assumes C: "reservable_currency (cc_currency cfg)" and inv: "collator_inv (cc_currency cfg) others s"
    and slash: "per_thing perbill_acc (cc_perbill cfg)" "cc_slash_ratio cfg \<le> perbill_acc"
  shows "collator_inv (cc_currency cfg) others (collator_step cfg t a s)"
  using inv reservable_currency.withdraw_bond_inv [OF C refl inv] reservable_currency.register_inv [OF C refl inv]
    reservable_currency.note_author_inv [OF C refl inv] reservable_currency.new_session_inv [OF C refl inv slash]
  by (cases a) (auto intro!: committed_inv elim: simple_call_inv [OF inv] leave_intent_inv [OF inv])

lemma collator_reachable_inv:
  assumes "reservable_currency (cc_currency cfg)" and "per_thing perbill_acc (cc_perbill cfg)"
    and "cc_slash_ratio cfg \<le> perbill_acc" and "collator_reachable cfg others s"
  shows "collator_inv (cc_currency cfg) others s"
  using assms(4)
proof induction
  case (genesis invulnerables bond desired bank s)
  then show ?case
    by (auto simp: collator_genesis_build_def collator_inv_def bond_of_def unbonding_deposit_def sm_invar_def sm_get_def
        split: if_splits)
next
  case (step others s registered allowed t a)
  from collator_step_inv [of "cfg\<lparr>cc_allowed_candidacy := allowed, cc_is_registered := registered\<rparr>" others s t a]
  show ?case using assms step.IH by simp
next
  case (elsewhere others s bank others')
  then show ?case by (simp add: collator_inv_def bond_of_def)
qed

text \<open>C15: In every reachable state, no account is a candidate twice, none is a candidate and unbonding at once, and the
  reserve of every account is exactly its bond (as a candidate or unbonding) plus what other pallets hold: bonds are
  never lost, released twice or paid from reserves of others, through registering, leaving, withdrawing, kicking and
  slashing.\<close>

theorem bonds_fully_reserved:
  assumes "reservable_currency (cc_currency cfg)" and "per_thing perbill_acc (cc_perbill cfg)"
    and "cc_slash_ratio cfg \<le> perbill_acc" and "collator_reachable cfg others s"
  shows "distinct (map ci_who (cs_candidates s)) \<and>
    (is_account_candidate s a \<longrightarrow> sm_get (cs_non_candidates s) a = None) \<and>
    rc_reserved (cc_currency cfg) (cs_bank s) a =
      candidate_deposit (cs_candidates s) a + unbonding_deposit (cs_non_candidates s) a + others a"
proof -
  have i: "collator_inv (cc_currency cfg) others s" using assms by (rule collator_reachable_inv)
  then have "sm_get (cs_non_candidates s) a = None" if "is_account_candidate s a"
    using that by (auto simp: is_candidate_iff collator_inv_def)
  with i show ?thesis by (simp add: collator_inv_def bond_of_def)
qed

section \<open>Kicking\<close>

abbreviation stale :: "('acc, 'vid, 'bank) CollatorConfig \<Rightarrow> CollatorTime \<Rightarrow> nat \<Rightarrow> bool" where
  "stale cfg t last_authored \<equiv> cc_kick_threshold cfg \<le> sat_sub (ct_block_number t) last_authored"

lemma slash_candidates [simp]: "cs_candidates (slash_non_candidate cfg who s) = cs_candidates s"
  by (simp add: slash_non_candidate_def Let_def case_prod_unfold split: option.splits)

lemma kick_entry_candidates:
  assumes "distinct (map ci_who (cs_candidates s))"
  shows "cs_candidates (kick_entry cfg t (who, l) s) =
    (if stale cfg t l \<and> cc_min_candidates cfg < length (cs_candidates s)
     then filter (\<lambda>c. ci_who c \<noteq> who) (cs_candidates s) else cs_candidates s)"
proof -
  have "cs_candidates (case try_remove_candidate t who s of Ok s' \<Rightarrow> s' | Err _ \<Rightarrow> s) =
      filter (\<lambda>c. ci_who c \<noteq> who) (cs_candidates s)"
  proof (cases "find (\<lambda>c. ci_who c = who) (cs_candidates s)")
    case None
    then have "filter (\<lambda>c. ci_who c \<noteq> who) (cs_candidates s) = cs_candidates s"
      unfolding find_candidate(2) by (rule filter_True)
    with None show ?thesis by (simp add: try_remove_candidate_def ok_or_def)
  next
    case (Some c)
    note c = find_candidate(1) [OF Some]
    have "distinct (cs_candidates s)" using assms by (simp add: distinct_map)
    moreover have "ci_who d = who \<longleftrightarrow> d = c" if "d \<in> set (cs_candidates s)" for d
      using that c assms by (auto simp: distinct_map inj_on_def)
    ultimately have "remove1 c (cs_candidates s) = filter (\<lambda>c. ci_who c \<noteq> who) (cs_candidates s)"
      by (simp add: distinct_remove1_removeAll removeAll_filter_not_eq cong: filter_cong) (metis (no_types, lifting) filter_cong)
    with Some show ?thesis by (simp add: try_remove_candidate_def ok_or_def)
  qed
  moreover have "\<not> is_account_candidate s who \<Longrightarrow> filter (\<lambda>c. ci_who c \<noteq> who) (cs_candidates s) = cs_candidates s"
    by (auto simp: is_candidate_iff intro: filter_True)
  ultimately show ?thesis by (auto simp: kick_entry_def split: option.splits)
qed

lemma kick_entry_cases:
  assumes "distinct (map ci_who (cs_candidates s))"
  shows "cs_candidates (kick_entry cfg t e s) =
      (if stale cfg t (snd e) \<and> cc_min_candidates cfg < length (cs_candidates s)
       then filter (\<lambda>c. ci_who c \<noteq> fst e) (cs_candidates s) else cs_candidates s)"
    and "distinct (map ci_who (cs_candidates (kick_entry cfg t e s)))"
proof -
  show k: "cs_candidates (kick_entry cfg t e s) =
      (if stale cfg t (snd e) \<and> cc_min_candidates cfg < length (cs_candidates s)
       then filter (\<lambda>c. ci_who c \<noteq> fst e) (cs_candidates s) else cs_candidates s)"
    using kick_entry_candidates [OF assms, of cfg t "fst e" "snd e"] by simp
  show "distinct (map ci_who (cs_candidates (kick_entry cfg t e s)))"
    unfolding k using assms by (auto simp: distinct_map inj_on_def)
qed

lemma length_drop_one:
  assumes "distinct (map ci_who cs)"
  shows "length cs \<le> Suc (length (filter (\<lambda>c. ci_who c \<noteq> who) cs))"
  using assms
proof (induction cs)
  case (Cons c cs)
  show ?case
  proof (cases "ci_who c = who")
    case True
    with Cons.prems have "\<forall>d\<in>set cs. ci_who d \<noteq> who" by (auto simp: image_iff)
    with True show ?thesis by simp
  qed (use Cons in simp)
qed simp

lemma kick_fold_candidates:
  fixes cfg :: "('acc, 'vid, 'bank) CollatorConfig" and t :: CollatorTime and es :: "('acc \<times> nat) list"
  assumes "distinct (map ci_who (cs_candidates s))"
  defines "s' \<equiv> fold (kick_entry cfg t) es s"
  shows "set (cs_candidates s') \<subseteq> set (cs_candidates s)" "length (cs_candidates s') \<le> length (cs_candidates s)"
    "cc_min_candidates cfg \<le> length (cs_candidates s) \<Longrightarrow> cc_min_candidates cfg \<le> length (cs_candidates s')"
    "c \<in> set (cs_candidates s) \<Longrightarrow> \<forall>l. (ci_who c, l) \<in> set es \<longrightarrow> \<not> stale cfg t l \<Longrightarrow> c \<in> set (cs_candidates s')"
    "c \<in> set (cs_candidates s') \<Longrightarrow> (ci_who c, l) \<in> set es \<Longrightarrow> stale cfg t l \<Longrightarrow>
       length (cs_candidates s') \<le> cc_min_candidates cfg"
  unfolding s'_def using assms(1)
proof (induction es arbitrary: s)
  case (Cons e es)
  {
    case 1
    have "set (cs_candidates (kick_entry cfg t e s)) \<subseteq> set (cs_candidates s)" unfolding kick_entry_cases(1) [OF 1] by auto
    with Cons.IH(1) [OF kick_entry_cases(2) [OF 1, of cfg t e]] show ?case by auto
  next
    case 2
    have "length (cs_candidates (kick_entry cfg t e s)) \<le> length (cs_candidates s)" by (simp add: kick_entry_cases(1) [OF 2])
    with Cons.IH(2) [OF kick_entry_cases(2) [OF 2, of cfg t e]] show ?case by simp
  next
    case 3
    have "cc_min_candidates cfg \<le> length (cs_candidates (kick_entry cfg t e s))"
      using 3 length_drop_one [OF 3(2), of "fst e"] by (simp add: kick_entry_cases(1) [OF 3(2)])
    then show ?case using Cons.IH(3) [OF _ kick_entry_cases(2) [OF 3(2)]] by simp
  next
    case 4
    have "c \<in> set (cs_candidates (kick_entry cfg t e s))" using 4(1,2) by (cases e) (auto simp: kick_entry_cases(1) [OF 4(3)])
    then show ?case using Cons.IH(4) [OF _ _ kick_entry_cases(2) [OF 4(3)]] 4(2) by simp
  next
    case 5
    note d = kick_entry_cases(2) [OF 5(4), of cfg t e] and k = kick_entry_cases(1) [OF 5(4), of cfg t e]
    show ?case
    proof (cases "(ci_who c, l) \<in> set es")
      case True
      with Cons.IH(5) [OF _ True 5(3) d] 5(1) show ?thesis by simp
    next
      case False
      then have w: "e = (ci_who c, l)" using 5(2) by auto
      have "c \<in> set (cs_candidates (kick_entry cfg t e s))" using 5(1) Cons.IH(1) [OF d] by auto
      then have l: "length (cs_candidates s) \<le> cc_min_candidates cfg" using 5(3) unfolding k by (auto simp: w split: if_splits)
      have "length (cs_candidates (fold (kick_entry cfg t) (e # es) s)) \<le> length (cs_candidates (kick_entry cfg t e s))"
        using Cons.IH(2) [OF d] by simp
      also have "\<dots> \<le> length (cs_candidates s)" by (simp add: k)
      finally show ?thesis using l by simp
    qed
  }
qed simp_all

text \<open>C31: A new session kicks exactly the stale candidates while more than \<open>MinCandidates\<close> are left: a candidate that
  authored a block within the threshold stays, a stale one that stays does so because only \<open>MinCandidates\<close> (or fewer)
  remain, the number of candidates never falls below \<open>MinCandidates\<close>, and the session's collators are the
  invulnerables followed by the remaining candidates.\<close>

theorem new_session_kicks_stale:
  assumes "reservable_currency (cc_currency cfg)" and "per_thing perbill_acc (cc_perbill cfg)"
    and "cc_slash_ratio cfg \<le> perbill_acc" and "collator_reachable cfg others s"
    and "new_session cfg t s = (collators, s')"
  shows "collators = cs_invulnerables s' @ map ci_who (cs_candidates s') \<and>
    set (cs_candidates s') \<subseteq> set (cs_candidates s) \<and>
    (cc_min_candidates cfg \<le> length (cs_candidates s) \<longrightarrow> cc_min_candidates cfg \<le> length (cs_candidates s')) \<and>
    (\<forall>c\<in>set (cs_candidates s). \<exists>last. sm_get (cs_last_authored_block s) (ci_who c) = Some last \<and>
      (\<not> stale cfg t last \<longrightarrow> c \<in> set (cs_candidates s')) \<and>
      (stale cfg t last \<and> c \<in> set (cs_candidates s') \<longrightarrow> length (cs_candidates s') \<le> cc_min_candidates cfg))"
proof -
  have inv: "collator_inv (cc_currency cfg) others s" using assms(1-4) by (rule collator_reachable_inv)
  then have d: "distinct (map ci_who (cs_candidates s))" and la: "sm_invar (cs_last_authored_block s)"
    by (simp_all add: collator_inv_def)
  let ?es = "sm_iter (cs_last_authored_block s)"
  have s': "s' = fold (kick_entry cfg t) ?es s" "collators = cs_invulnerables s' @ map ci_who (cs_candidates s')"
    using assms(5) by (auto simp: new_session_def kick_stale_candidates_def Let_def assemble_collators_def)
  note k = kick_fold_candidates [OF d, where cfg = cfg and t = t and es = ?es, folded s'(1)]
  have "\<exists>last. sm_get (cs_last_authored_block s) (ci_who c) = Some last \<and>
      (\<not> stale cfg t last \<longrightarrow> c \<in> set (cs_candidates s')) \<and>
      (stale cfg t last \<and> c \<in> set (cs_candidates s') \<longrightarrow> length (cs_candidates s') \<le> cc_min_candidates cfg)"
    if c: "c \<in> set (cs_candidates s)" for c
  proof -
    obtain l where l: "sm_get (cs_last_authored_block s) (ci_who c) = Some l"
      using inv c by (auto simp: collator_inv_def sm_contains_def)
    then have "(ci_who c, j) \<in> set ?es \<longleftrightarrow> l = j" for j by (simp flip: sm.get_Some_iff [OF la])
    with l k(4) [OF c] k(5) [where c = c and l = l] show ?thesis by auto
  qed
  with k(1,3) s'(2) show ?thesis by blast
qed

section \<open>A concrete run\<close>

definition sample_collators :: "(nat, nat, ledger_bank) CollatorConfig" where
  "sample_collators = \<lparr> cc_currency = ledger_currency, cc_update_origin = (\<lambda>orig. case orig of Root \<Rightarrow> True | _ \<Rightarrow> False),
     cc_pot = 0, cc_max_candidates = 10, cc_min_candidates = 1, cc_max_invulnerables = 5, cc_kick_threshold = 10,
     cc_validator_id_of = Some, cc_is_registered = (\<lambda>_. True), cc_slash_ratio = 10 ^ 7,
     cc_perbill = exact_perbill, cc_allowed_candidacy = (\<lambda>_. True) \<rparr>"

definition sample_bank :: ledger_bank where
  "sample_bank = [(0, 101, 0), (1, 1000, 5), (2, 1000, 0), (3, 1000, 0)]"

definition at :: "nat \<Rightarrow> nat \<Rightarrow> CollatorTime" where
  "at n i = \<lparr> ct_block_number = n, ct_session_index = i \<rparr>"

definition sample_start :: "(nat, ledger_bank) CollatorStorage" where
  "sample_start = \<lparr> cs_invulnerables = [9], cs_candidates = [], cs_non_candidates = [], cs_last_authored_block = [],
     cs_desired_candidates = 4, cs_candidacy_bond = 200, cs_slash_destination = None, cs_bank = sample_bank, cs_events = [] \<rparr>"

definition sample_actions :: "(CollatorTime \<times> nat collator_action) list" where
  "sample_actions = [(at 1 0, RegisterAsCandidate (Signed 1)), (at 1 0, RegisterAsCandidate (Signed 2)),
     (at 2 0, RegisterAsCandidate (Signed 3)), (at 14 0, NoteAuthor 1), (at 15 1, LeaveIntent (Signed 3))]"

definition sample_collator_run :: "(CollatorTime \<times> nat collator_action) list \<Rightarrow> (nat, ledger_bank) CollatorStorage" where
  "sample_collator_run as = fold (\<lambda>(t, a). collator_step sample_collators t a) as sample_start"

lemma sample_reachable:
  "collator_reachable sample_collators (rc_reserved ledger_currency sample_bank) (sample_collator_run as)"
proof -
  have c: "cc_currency sample_collators = ledger_currency"
    "sample_collators\<lparr>cc_allowed_candidacy := cc_allowed_candidacy sample_collators,
       cc_is_registered := cc_is_registered sample_collators\<rparr> = sample_collators"
    by (simp_all add: sample_collators_def)
  have "collator_genesis_build sample_collators [9] 200 4 sample_bank = Some sample_start"
    by (simp add: collator_genesis_build_def sample_collators_def sample_start_def)
  from collator_reachable.genesis [OF this]
  have "collator_reachable sample_collators (rc_reserved ledger_currency sample_bank) sample_start" by (simp add: c)
  then have "collator_reachable sample_collators (rc_reserved ledger_currency sample_bank)
      (fold (\<lambda>(t, a). collator_step sample_collators t a) as sample_start)" for as
  proof (induction as rule: rev_induct)
    case (snoc e as)
    from collator_reachable.step [OF snoc.IH [OF snoc.prems], where allowed = "cc_allowed_candidacy sample_collators"
        and registered = "cc_is_registered sample_collators" and t = "fst e" and a = "snd e"]
    show ?case by (simp add: c(2) case_prod_unfold)
  qed simp
  then show ?thesis by (simp add: sample_collator_run_def)
qed

lemma sample_laws:
  "reservable_currency (cc_currency sample_collators)" "per_thing perbill_acc (cc_perbill sample_collators)"
  "cc_slash_ratio sample_collators \<le> perbill_acc"
  by (simp add: sample_collators_def ledger_currency.reservable_currency_axioms)
    (simp add: sample_collators_def perbill.per_thing_axioms, simp add: sample_collators_def perbill_acc_def)

theorem bonds_fully_reserved_witness:
  "rc_reserved ledger_currency (cs_bank (sample_collator_run sample_actions)) 3 = 200 \<and>
   candidate_deposit (cs_candidates (sample_collator_run sample_actions)) 3 = 0 \<and>
   unbonding_deposit (cs_non_candidates (sample_collator_run sample_actions)) 3 = 200"
proof -
  have "candidate_deposit (cs_candidates (sample_collator_run sample_actions)) 3 = 0"
    "unbonding_deposit (cs_non_candidates (sample_collator_run sample_actions)) 3 = 200"
    "rc_reserved ledger_currency sample_bank 3 = 0"
    by code_simp+
  moreover have "cc_currency sample_collators = ledger_currency" by (simp add: sample_collators_def)
  ultimately show ?thesis
    using bonds_fully_reserved [OF sample_laws sample_reachable, of sample_actions 3] by simp
qed

theorem new_session_kicks_stale_witness:
  "map ci_who (cs_candidates (snd (new_session sample_collators (at 30 2) (sample_collator_run sample_actions)))) = [2] \<and>
   1 \<le> length (cs_candidates (snd (new_session sample_collators (at 30 2) (sample_collator_run sample_actions))))"
proof -
  let ?s = "sample_collator_run sample_actions"
  have a: "map ci_who (cs_candidates (snd (new_session sample_collators (at 30 2) ?s))) = [2]" by code_simp
  have "cc_min_candidates sample_collators = 1" "length (cs_candidates ?s) = 2" by code_simp+
  with new_session_kicks_stale [OF sample_laws sample_reachable surjective_pairing, of "at 30 2" sample_actions] a
  show ?thesis by simp
qed

end
