(* ===== verification/VestingMigration.thy ===== *)
theory VestingMigration
  imports Primitives Frame "HOL-Library.Code_Target_Nat"
begin














section \<open>Every schedule is migrated once\<close>

















end
