(* ===== verification/Precompile.thy ===== *)
theory Precompile
  imports Frame
begin

text \<open>
  What the EVM precompiles under \<open>src/precompiles\<close> share. A function of a precompile runs on its handle, which meters gas
  and collects logs, and on the storage of the chain; it returns a value or fails, by running out of gas or by a
  revert. The gas meter, the mapping of EVM addresses to accounts and \<open>RuntimeHelper::try_dispatch\<close> belong to other
  crates: they are the record \<open>EvmRuntime\<close>, and the locale \<open>precompile_runtime\<close> says what the precompiles rely on. The EVM rolls
  back what a failed call has written. \<open>None\<close> is a computation that does not return.
\<close>

named_theorems acts_intros
named_theorems keeps_intros

datatype RevertReason =
  Custom string
| ReadOutOfBounds string
| ValueIsTooLarge string
| InField string RevertReason

datatype 'e PrecompileFailure = OutOfGas | Revert RevertReason | RevertDispatch 'e

abbreviation revert :: "string \<Rightarrow> 'e PrecompileFailure" where
  "revert message \<equiv> Revert (Custom message)"

text \<open>An EVM address, and a log with three topics: the address of the precompile, the topics and the value.\<close>

type_synonym H160 = "nat list"

record Log =
  lg_address :: H160
  lg_selector :: string
  lg_topics :: "H160 list"
  lg_data :: nat

record 'g Handle =
  hd_gas :: 'g
  hd_logs :: "Log list"

type_synonym ('a, 'g, 's, 'e) evm = "'g Handle \<times> 's \<Rightarrow> ('a \<times> 'g Handle \<times> 's, 'e PrecompileFailure) result option"

section \<open>Computations\<close>

definition evm_return :: "'a \<Rightarrow> ('a, 'g, 's, 'e) evm" where
  "evm_return a = (\<lambda>(h, s). Some (Ok (a, h, s)))"

definition evm_fail :: "'e PrecompileFailure \<Rightarrow> ('a, 'g, 's, 'e) evm" where
  "evm_fail e = (\<lambda>_. Some (Err e))"

definition evm_bind :: "('a, 'g, 's, 'e) evm \<Rightarrow> ('a \<Rightarrow> ('b, 'g, 's, 'e) evm) \<Rightarrow> ('b, 'g, 's, 'e) evm" where
  "evm_bind m f = (\<lambda>hs. case m hs of None \<Rightarrow> None | Some (Err e) \<Rightarrow> Some (Err e) | Some (Ok (a, hs')) \<Rightarrow> f a hs')"

definition evm_get :: "('s, 'g, 's, 'e) evm" where
  "evm_get = (\<lambda>(h, s). Some (Ok (s, h, s)))"

text \<open>The operator \<open>?\<close> on a result that does not touch the handle or the storage.\<close>

definition evm_try :: "('a, 'e PrecompileFailure) result \<Rightarrow> ('a, 'g, 's, 'e) evm" where
  "evm_try r = (case r of Ok a \<Rightarrow> evm_return a | Err e \<Rightarrow> evm_fail e)"

text \<open>Charging gas: no gas meter comes back when there is not enough gas.\<close>

definition evm_charge :: "('g \<Rightarrow> 'g option) \<Rightarrow> (unit, 'g, 's, 'e) evm" where
  "evm_charge charge = (\<lambda>(h, s). case charge (hd_gas h) of
     None \<Rightarrow> Some (Err OutOfGas) | Some g \<Rightarrow> Some (Ok ((), h\<lparr> hd_gas := g \<rparr>, s)))"

section \<open>The runtime of a precompile\<close>

record ('g, 's, 'e, 'acc, 'c) EvmRuntime =
  ev_record_db_read :: "nat \<Rightarrow> 'g \<Rightarrow> 'g option"
  ev_record_log_costs :: "nat \<Rightarrow> nat \<Rightarrow> 'g \<Rightarrow> 'g option"
  ev_record_cost :: "nat \<Rightarrow> 'g \<Rightarrow> 'g option"
  ev_log_cost :: "Log \<Rightarrow> 'g \<Rightarrow> 'g option"
  ev_into_account_id :: "'s \<Rightarrow> H160 \<Rightarrow> 'acc"
  ev_try_dispatch :: "'acc RawOrigin \<Rightarrow> 'c \<Rightarrow> 'g \<times> 's \<Rightarrow> ('g \<times> 's, 'e PrecompileFailure) result option"

definition record_db_read :: "('g, 's, 'e, 'acc, 'c) EvmRuntime \<Rightarrow> nat \<Rightarrow> (unit, 'g, 's, 'e) evm" where
  "record_db_read E bytes = evm_charge (ev_record_db_read E bytes)"

definition record_log_costs_manual :: "('g, 's, 'e, 'acc, 'c) EvmRuntime \<Rightarrow> nat \<Rightarrow> nat \<Rightarrow> (unit, 'g, 's, 'e) evm" where
  "record_log_costs_manual E topics bytes = evm_charge (ev_record_log_costs E topics bytes)"

definition record_cost :: "('g, 's, 'e, 'acc, 'c) EvmRuntime \<Rightarrow> nat \<Rightarrow> (unit, 'g, 's, 'e) evm" where
  "record_cost E cost = evm_charge (ev_record_cost E cost)"

definition record_log :: "('g, 's, 'e, 'acc, 'c) EvmRuntime \<Rightarrow> Log \<Rightarrow> (unit, 'g, 's, 'e) evm" where
  "record_log E log = evm_bind (evm_charge (ev_log_cost E log)) (\<lambda>_ (h, s).
     Some (Ok ((), h\<lparr> hd_logs := hd_logs h @ [log] \<rparr>, s)))"

definition into_account :: "('g, 's, 'e, 'acc, 'c) EvmRuntime \<Rightarrow> H160 \<Rightarrow> ('acc, 'g, 's, 'e) evm" where
  "into_account E address = evm_bind evm_get (\<lambda>s. evm_return (ev_into_account_id E s address))"

definition try_dispatch :: "('g, 's, 'e, 'acc, 'c) EvmRuntime \<Rightarrow> 'acc RawOrigin \<Rightarrow> 'c \<Rightarrow> (unit, 'g, 's, 'e) evm" where
  "try_dispatch E origin c = (\<lambda>(h, s). case ev_try_dispatch E origin c (hd_gas h, s) of
     None \<Rightarrow> None | Some (Err e) \<Rightarrow> Some (Err e) | Some (Ok (g, s')) \<Rightarrow> Some (Ok ((), h\<lparr> hd_gas := g \<rparr>, s')))"

text \<open>The outcome of a call of a precompile for the chain: what it returns, the logs, and the storage after it.\<close>

definition evm_outcome ::
  "('a, 'g, 's, 'e) evm \<Rightarrow> 'g \<Rightarrow> 's \<Rightarrow> (('a \<times> Log list, 'e PrecompileFailure) result \<times> 's) option" where
  "evm_outcome m g s = (case m (\<lparr> hd_gas = g, hd_logs = [] \<rparr>, s) of None \<Rightarrow> None
     | Some (Err e) \<Rightarrow> Some (Err e, s)
     | Some (Ok (a, h, s')) \<Rightarrow> Some (Ok (a, hd_logs h), s'))"

section \<open>What a computation does to the storage\<close>

text \<open>A computation that leaves the storage alone, and one whose successful runs take it to the next one by steps of a
  relation.\<close>

definition keeps :: "('a, 'g, 's, 'e) evm \<Rightarrow> bool" where
  "keeps m \<longleftrightarrow> (\<forall>h s a h' s'. m (h, s) = Some (Ok (a, h', s')) \<longrightarrow> s' = s)"

definition acts_by :: "('s \<Rightarrow> 's \<Rightarrow> bool) \<Rightarrow> ('a, 'g, 's, 'e) evm \<Rightarrow> bool" where
  "acts_by step m \<longleftrightarrow> (\<forall>h s a h' s'. m (h, s) = Some (Ok (a, h', s')) \<longrightarrow> step\<^sup>*\<^sup>* s s')"

lemma keepsD: "keeps m \<Longrightarrow> m (h, s) = Some (Ok (a, h', s')) \<Longrightarrow> s' = s"
  unfolding keeps_def by blast

lemma acts_byD: "acts_by step m \<Longrightarrow> m (h, s) = Some (Ok (a, h', s')) \<Longrightarrow> step\<^sup>*\<^sup>* s s'"
  unfolding acts_by_def by blast

lemma evm_bind_OkE:
  assumes "evm_bind m f hs = Some (Ok r)"
  obtains a h s where "m hs = Some (Ok (a, h, s))" "f a (h, s) = Some (Ok r)"
  using assms by (auto simp: evm_bind_def split: option.splits result.splits)

lemma evm_get_bind: "evm_bind evm_get f (h, s) = f s (h, s)"
  by (simp add: evm_bind_def evm_get_def)

lemma evm_Ok_simps [simp]:
  "evm_return a (h, s) = Some (Ok (b, h', s')) \<longleftrightarrow> b = a \<and> h' = h \<and> s' = s"
  "evm_fail e (h, s) \<noteq> Some (Ok r)"
  "evm_get (h, s) = Some (Ok (t, h', s')) \<longleftrightarrow> t = s \<and> h' = h \<and> s' = s"
  "evm_try q (h, s) = Some (Ok (b, h', s')) \<longleftrightarrow> q = Ok b \<and> h' = h \<and> s' = s"
  by (auto simp: evm_return_def evm_fail_def evm_get_def evm_try_def split: result.splits)

lemma keeps_basic [keeps_intros]:
  "keeps (evm_return a)" "keeps (evm_fail e)" "keeps evm_get" "keeps (evm_try r)" "keeps (evm_charge c)"
  by (auto simp: keeps_def evm_charge_def split: option.splits)

lemma keeps_bind [keeps_intros]: "keeps m \<Longrightarrow> (\<And>a. keeps (f a)) \<Longrightarrow> keeps (evm_bind m f)"
  unfolding keeps_def by (blast elim!: evm_bind_OkE)

lemma keeps_runtime [keeps_intros]:
  "keeps (record_db_read E n)" "keeps (record_log_costs_manual E n k)" "keeps (record_cost E n)" "keeps (into_account E address)"
  by (simp_all add: record_db_read_def record_log_costs_manual_def record_cost_def into_account_def keeps_intros)

lemma keeps_record_log [keeps_intros]: "keeps (record_log E log)"
  unfolding record_log_def by (intro keeps_intros) (auto simp: keeps_def)

lemma acts_by_keeps: "keeps m \<Longrightarrow> acts_by step m"
  by (auto simp: acts_by_def dest: keepsD)

lemma acts_by_bind [acts_intros]:
  assumes "acts_by step m" and "\<And>a. acts_by step (f a)"
  shows "acts_by step (evm_bind m f)"
  unfolding acts_by_def
proof (intro allI impI, elim evm_bind_OkE)
  fix h s a h' s' b h1 s1
  assume "m (h, s) = Some (Ok (b, h1, s1))" and "f b (h1, s1) = Some (Ok (a, h', s'))"
  then show "step\<^sup>*\<^sup>* s s'"
    using acts_byD [OF assms(1)] acts_byD [OF assms(2)] by (blast intro: rtranclp_trans)
qed

lemmas acts_by_basic [acts_intros] = keeps_basic [THEN acts_by_keeps] keeps_runtime [THEN acts_by_keeps]
  keeps_record_log [THEN acts_by_keeps]

lemma acts_by_if [acts_intros]: "(b \<Longrightarrow> acts_by step m) \<Longrightarrow> (\<not> b \<Longrightarrow> acts_by step n) \<Longrightarrow> acts_by step (if b then m else n)"
  by simp

lemma try_dispatch_Ok:
  "try_dispatch E origin c (h, s) = Some (Ok (u, h', s')) \<longleftrightarrow>
     ev_try_dispatch E origin c (hd_gas h, s) = Some (Ok (hd_gas h', s')) \<and> h' = h\<lparr> hd_gas := hd_gas h' \<rparr>"
  by (auto simp: try_dispatch_def split: option.splits result.splits)

text \<open>What a successful charge, log or dispatch leaves behind.\<close>

lemma into_account_Ok [simp]:
  "into_account E address (h, s) = Some (Ok (a, h', s')) \<longleftrightarrow> a = ev_into_account_id E s address \<and> h' = h \<and> s' = s"
  by (auto simp: into_account_def evm_bind_def evm_get_def evm_return_def)

lemma charge_Ok:
  "evm_charge c (h, s) = Some (Ok (u, h', s')) \<Longrightarrow> s' = s \<and> hd_logs h' = hd_logs h"
  by (auto simp: evm_charge_def split: option.splits)

lemma recorded_Ok:
  "record_db_read E n (h, s) = Some (Ok (u, h', s')) \<Longrightarrow> s' = s \<and> hd_logs h' = hd_logs h"
  "record_log_costs_manual E k n (h, s) = Some (Ok (u, h', s')) \<Longrightarrow> s' = s \<and> hd_logs h' = hd_logs h"
  "record_cost E n (h, s) = Some (Ok (u, h', s')) \<Longrightarrow> s' = s \<and> hd_logs h' = hd_logs h"
  "record_log E log (h, s) = Some (Ok (u, h', s')) \<Longrightarrow> s' = s \<and> hd_logs h' = hd_logs h @ [log]"
  by (auto simp: record_db_read_def record_log_costs_manual_def record_cost_def record_log_def elim!: evm_bind_OkE dest!: charge_Ok)

lemma try_dispatch_logs: "try_dispatch E origin c (h, s) = Some (Ok (u, h', s')) \<Longrightarrow> hd_logs h' = hd_logs h"
  by (auto simp: try_dispatch_def split: option.splits result.splits)

section \<open>Calls on behalf of the caller\<close>

text \<open>What the precompiles rely on: when \<open>try_dispatch\<close> succeeds, the call was dispatched with that origin and
  succeeded, and it returns when the call does.\<close>

locale precompile_runtime =
  fixes E :: "('g, 's, 'e, 'acc, 'c) EvmRuntime" and D :: "'acc RawOrigin \<Rightarrow> 'c \<Rightarrow> 's \<Rightarrow> ('s, 'e) result option"
  assumes dispatch_Ok: "ev_try_dispatch E origin c (g, s) = Some (Ok (g', s')) \<Longrightarrow> D origin c s = Some (Ok s')"
    and dispatch_returns: "D origin c s \<noteq> None \<Longrightarrow> ev_try_dispatch E origin c (g, s) \<noteq> None"

text \<open>A successful call signed by an account, and a computation that does nothing else to the storage than calls signed
  by the account of the caller.\<close>

definition signed_call :: "('acc RawOrigin \<Rightarrow> 'c \<Rightarrow> 's \<Rightarrow> ('s, 'e) result option) \<Rightarrow> 'acc \<Rightarrow> 's \<Rightarrow> 's \<Rightarrow> bool" where
  "signed_call D who s s' \<longleftrightarrow> (\<exists>c. D (Signed who) c s = Some (Ok s'))"

definition acts_as ::
  "('g, 's, 'e, 'acc, 'c) EvmRuntime \<Rightarrow> ('acc RawOrigin \<Rightarrow> 'c \<Rightarrow> 's \<Rightarrow> ('s, 'e) result option) \<Rightarrow> H160 \<Rightarrow> ('a, 'g, 's, 'e) evm \<Rightarrow> bool" where
  "acts_as E D caller m \<longleftrightarrow> (\<forall>h s a h' s'. m (h, s) = Some (Ok (a, h', s')) \<longrightarrow>
     (signed_call D (ev_into_account_id E s caller))\<^sup>*\<^sup>* s s')"

lemma acts_as_keeps: "keeps m \<Longrightarrow> acts_as E D caller m"
  by (auto simp: acts_as_def dest: keepsD)

lemma acts_as_bind:
  assumes "keeps m" and "\<And>a. acts_as E D caller (f a)"
  shows "acts_as E D caller (evm_bind m f)"
  using assms by (fastforce simp: acts_as_def dest: keepsD elim!: evm_bind_OkE)

lemma acts_as_caller:
  assumes "\<And>who. acts_by (signed_call D who) (f who)"
  shows "acts_as E D caller (evm_bind (into_account E caller) f)"
  by (auto simp: acts_as_def into_account_def elim!: evm_bind_OkE intro: acts_byD [OF assms])

lemma acts_as_then:
  assumes "acts_as E D caller m" and "\<And>a. keeps (f a)"
  shows "acts_as E D caller (evm_bind m f)"
  using assms by (fastforce simp: acts_as_def dest: keepsD elim!: evm_bind_OkE)

lemma acts_as_outcome:
  assumes "acts_as E D caller m" and "evm_outcome m g s = Some (r, s')"
  shows "(signed_call D (ev_into_account_id E s caller))\<^sup>*\<^sup>* s s' \<and> (\<forall>e. r = Err e \<longrightarrow> s' = s)"
  using assms by (auto simp: evm_outcome_def acts_as_def split: option.splits result.splits)

context precompile_runtime
begin

lemma acts_by_dispatch: "acts_by (signed_call D who) (try_dispatch E (Signed who) c)"
  unfolding acts_by_def try_dispatch_Ok by (blast intro: r_into_rtranclp dispatch_Ok signed_call_def [THEN iffD2])

lemma try_dispatch_D: "try_dispatch E origin c (h, s) = Some (Ok (u, h', s')) \<Longrightarrow> D origin c s = Some (Ok s')"
  by (auto simp: try_dispatch_Ok dest!: dispatch_Ok)

lemma dispatched: "try_dispatch E origin c (h, s) = Some (Ok (u, h', s')) \<Longrightarrow> D origin c s = Some (Ok s') \<and> hd_logs h' = hd_logs h"
  by (rule conjI) (erule try_dispatch_D, erule try_dispatch_logs)

end

section \<open>A metered runtime\<close>

text \<open>A runtime that dispatches with a counter of gas: every read, call and log costs its size or a unit.\<close>

definition spend :: "nat \<Rightarrow> nat \<Rightarrow> nat option" where
  "spend cost gas = (if cost \<le> gas then Some (gas - cost) else None)"

definition metered ::
  "('s \<Rightarrow> H160 \<Rightarrow> 'acc) \<Rightarrow> ('acc RawOrigin \<Rightarrow> 'c \<Rightarrow> 's \<Rightarrow> ('s, 'e) result option) \<Rightarrow> (nat, 's, 'e, 'acc, 'c) EvmRuntime" where
  "metered account_of D = \<lparr> ev_record_db_read = spend, ev_record_log_costs = (\<lambda>topics bytes. spend (topics + bytes)),
     ev_record_cost = spend, ev_log_cost = (\<lambda>_. spend 1), ev_into_account_id = account_of,
     ev_try_dispatch = (\<lambda>origin c (g, s). case spend 1 g of None \<Rightarrow> Some (Err OutOfGas)
       | Some g' \<Rightarrow> (case D origin c s of None \<Rightarrow> None | Some (Ok s') \<Rightarrow> Some (Ok (g', s')) | Some (Err e) \<Rightarrow> Some (Err (RevertDispatch e)))) \<rparr>"

interpretation metered: precompile_runtime "metered account_of D" D
  by unfold_locales (auto simp: metered_def split: option.splits result.splits)

text \<open>Integers of the ABI: \<open>try_into\<close> a narrower type.\<close>

definition try_into :: "nat \<Rightarrow> nat \<Rightarrow> 'e \<Rightarrow> (nat, 'e) result" where
  "try_into m a e = (if a \<le> m then Ok a else Err e)"

lemma try_into_Ok [simp]: "try_into m a e = Ok b \<longleftrightarrow> b = a \<and> a \<le> m"
  by (auto simp: try_into_def)

end
