(* ===== verification/DappStakingPrecompile.thy ===== *)
theory DappStakingPrecompile
  imports Reachable Precompile
begin

text \<open>
  The EVM precompile of dApp staking, \<open>src/precompiles/dapp-staking/src/lib.rs\<close>: the views of the v1 and v2 interface,
  the calls that forward to the pallet, and those that combine pallet calls (\<open>bond_and_stake\<close>, \<open>unbond_and_unstake\<close>,
  \<open>nomination_transfer\<close>). A function whose name is taken by a call of the pallet has the suffix \<open>_evm\<close>. Accounts are
  their 32 bytes, EVM addresses their 20 bytes; the encoded lengths by which reads are charged are parameters.
\<close>

section \<open>Types\<close>

type_synonym AccountId = "nat list"

datatype SmartContract = Evm H160 | Wasm AccountId

record PrecompileProtocolState =
  pps_era :: nat
  pps_period :: nat
  pps_subperiod :: nat

datatype SmartContractTypes = EvmType | WasmType

record SmartContractV2 =
  sc_contract_type :: SmartContractTypes
  sc_address :: "nat list"

text \<open>The Solidity codec of the type: \<open>None\<close> is a reader that is out of data.\<close>

definition SmartContractTypes_read :: "nat option \<Rightarrow> (SmartContractTypes, RevertReason) result" where
  "SmartContractTypes_read reader =
     and_then (ok_or (ReadOutOfBounds ''uint8'') reader) (\<lambda>value256.
     and_then (try_into u8_max value256 (ValueIsTooLarge ''uint8'')) (\<lambda>value_as_u8.
       if value_as_u8 = 0 then Ok EvmType else if value_as_u8 = 1 then Ok WasmType
       else Err (Custom ''Unknown smart contract type'')))"

definition SmartContractTypes_write :: "SmartContractTypes \<Rightarrow> nat" where
  "SmartContractTypes_write value = (case value of EvmType \<Rightarrow> 0 | WasmType \<Rightarrow> 1)"

lemma smart_contract_types_codec: "SmartContractTypes_read (Some (SmartContractTypes_write t)) = Ok t"
  "SmartContractTypes_read r = Ok t \<Longrightarrow> r = Some (SmartContractTypes_write t)"
  by (cases t; auto simp: SmartContractTypes_read_def SmartContractTypes_write_def u8_max_def try_into_def and_then_def ok_or_def
      split: option.splits if_splits)+

record EncodedLen =
  len_protocol_state :: nat
  len_era_reward_span :: nat
  len_era_info :: nat
  len_account_ledger :: nat
  len_smart_contract :: nat
  len_singular_staking_info :: nat
  len_dapp_info :: nat
  len_contract_stake_amount :: nat

type_synonym 'x ds_storage = "(AccountId, SmartContract, 'x) Storage"
type_synonym ds_call = "(AccountId, SmartContract) Call"

record ('g, 'x) DappStakingV3Precompile =
  dp_config :: "(AccountId, SmartContract) Config"
  dp_evm :: "('g, 'x ds_storage, DispatchError, AccountId, ds_call) EvmRuntime"
  dp_len :: EncodedLen

type_synonym ('a, 'g, 'x) ds_evm = "('a, 'g, 'x ds_storage, DispatchError) evm"

section \<open>Helpers\<close>

definition decode_smart_contract :: "SmartContractV2 \<Rightarrow> (SmartContract, DispatchError PrecompileFailure) result" where
  "decode_smart_contract smart_contract =
     (case sc_contract_type smart_contract of
        EvmType \<Rightarrow>
          and_then (ensure (length (sc_address smart_contract) = 20) (revert ''Invalid address length for Astar EVM smart contract.''))
            (\<lambda>_. Ok (Evm (sc_address smart_contract)))
      | WasmType \<Rightarrow>
          and_then (ensure (length (sc_address smart_contract) = 32) (revert ''Invalid address length for Astar WASM smart contract.''))
            (\<lambda>_. Ok (Wasm (sc_address smart_contract))))"

definition parse_input_address :: "('g, 'x) DappStakingV3Precompile \<Rightarrow> nat list \<Rightarrow> (AccountId, 'g, 'x) ds_evm" where
  "parse_input_address P staker_vec =
     (if length staker_vec = 32 then evm_return (take 32 staker_vec)
      else if length staker_vec = 20 then into_account (dp_evm P) (take 20 staker_vec)
      else evm_fail (revert ''Error while parsing staker's address''))"

definition subperiod_id :: "Subperiod \<Rightarrow> nat" where
  "subperiod_id subperiod = (case subperiod of Voting \<Rightarrow> 0 | BuildAndEarn \<Rightarrow> 1)"

text \<open>A call signed by an account, and the answer of a successful function.\<close>

abbreviation ds_dispatch :: "('g, 'x) DappStakingV3Precompile \<Rightarrow> AccountId \<Rightarrow> ds_call \<Rightarrow> (unit, 'g, 'x) ds_evm" where
  "ds_dispatch P origin c \<equiv> try_dispatch (dp_evm P) (Signed origin) c"

section \<open>Views of the v1 interface\<close>

definition read_current_era :: "('g, 'x) DappStakingV3Precompile \<Rightarrow> (nat, 'g, 'x) ds_evm" where
  "read_current_era P =
     evm_bind (record_db_read (dp_evm P) (8 + len_protocol_state (dp_len P))) (\<lambda>_.
     evm_bind evm_get (\<lambda>s. evm_return (ps_era (pl_active_protocol_state s))))"

definition read_unbonding_period :: "('g, 'x) DappStakingV3Precompile \<Rightarrow> (nat, 'g, 'x) ds_evm" where
  "read_unbonding_period P = evm_return (cf_unlocking_period (dp_config P))"

definition read_era_reward :: "('g, 'x) DappStakingV3Precompile \<Rightarrow> EraNumber \<Rightarrow> (nat, 'g, 'x) ds_evm" where
  "read_era_reward P era =
     evm_bind (record_db_read (dp_evm P) (12 + len_era_reward_span (dp_len P))) (\<lambda>_.
     evm_bind evm_get (\<lambda>s.
       let era_span_index = era_reward_span_index (dp_config P) era;
           reward_span = sm_get_or EraRewardSpan_new (pl_era_rewards s) era_span_index
       in evm_return (case EraRewardSpan_get reward_span era of None \<Rightarrow> 0
            | Some r \<Rightarrow> u128_add (er_staker_reward_pool r) (er_dapp_reward_pool r))))"

definition read_era_staked :: "('g, 'x) DappStakingV3Precompile \<Rightarrow> EraNumber \<Rightarrow> (nat, 'g, 'x) ds_evm" where
  "read_era_staked P era =
     evm_bind (record_db_read (dp_evm P) (8 + len_protocol_state (dp_len P))) (\<lambda>_.
     evm_bind evm_get (\<lambda>s.
       let current_era = ps_era (pl_active_protocol_state s)
       in if era < current_era then
            evm_bind (record_db_read (dp_evm P) (20 + len_era_reward_span (dp_len P))) (\<lambda>_.
              let era_span_index = era_reward_span_index (dp_config P) era;
                  reward_span = sm_get_or EraRewardSpan_new (pl_era_rewards s) era_span_index
              in evm_return (case EraRewardSpan_get reward_span era of None \<Rightarrow> 0 | Some r \<Rightarrow> er_staked r))
          else if era = current_era \<or> era = u32_add current_era 1 then
            evm_bind (record_db_read (dp_evm P) (8 + len_era_info (dp_len P))) (\<lambda>_.
              let current_era_info = pl_current_era_info s
              in evm_return (if era = current_era then StakeAmount_total (ei_current_stake_amount current_era_info)
                   else StakeAmount_total (ei_next_stake_amount current_era_info)))
          else evm_fail (revert ''Era is in the future'')))"

definition read_staked_amount :: "('g, 'x) DappStakingV3Precompile \<Rightarrow> nat list \<Rightarrow> (nat, 'g, 'x) ds_evm" where
  "read_staked_amount P staker =
     evm_bind (record_db_read (dp_evm P)
       (24 + len_account_ledger (dp_len P) + len_protocol_state (dp_len P) + len_smart_contract (dp_len P))) (\<lambda>_.
     evm_bind (parse_input_address P staker) (\<lambda>staker.
     evm_bind evm_get (\<lambda>s.
       let ledger = ledger_of staker s;
           current_period_number = ProtocolState_period_number (pl_active_protocol_state s)
       in evm_return (AccountLedger_staked_amount ledger current_period_number))))"

definition read_staked_amount_on_contract ::
  "('g, 'x) DappStakingV3Precompile \<Rightarrow> H160 \<Rightarrow> nat list \<Rightarrow> (nat, 'g, 'x) ds_evm" where
  "read_staked_amount_on_contract P contract_h160 staker =
     evm_bind (record_db_read (dp_evm P)
       (24 + len_protocol_state (dp_len P) + len_smart_contract (dp_len P) + len_singular_staking_info (dp_len P))) (\<lambda>_.
     let smart_contract = Evm contract_h160 in
     evm_bind (parse_input_address P staker) (\<lambda>staker.
     evm_bind evm_get (\<lambda>s.
       let staking_info = sm_get_or SingularStakingInfo_default (pl_staker_info s) (staker, smart_contract);
           current_period_number = ProtocolState_period_number (pl_active_protocol_state s)
       in evm_return (if SingularStakingInfo_period_number staking_info = current_period_number
            then SingularStakingInfo_total_staked_amount staking_info else 0))))"

definition read_contract_stake :: "('g, 'x) DappStakingV3Precompile \<Rightarrow> H160 \<Rightarrow> (nat, 'g, 'x) ds_evm" where
  "read_contract_stake P contract_h160 =
     evm_bind (record_db_read (dp_evm P)
       (36 + len_protocol_state (dp_len P) + len_smart_contract (dp_len P) + len_dapp_info (dp_len P) + len_contract_stake_amount (dp_len P))) (\<lambda>_.
     let smart_contract = Evm contract_h160 in
     evm_bind evm_get (\<lambda>s.
       let current_period_number = ProtocolState_period_number (pl_active_protocol_state s)
       in case sm_get (pl_integrated_dapps s) smart_contract of
            None \<Rightarrow> evm_return 0
          | Some dapp_info \<Rightarrow>
              evm_return (ContractStakeAmount_total_staked_amount (contract_stake_of (di_id dapp_info) s) current_period_number)))"

section \<open>Calls of the v1 interface\<close>

definition register_evm :: "('g, 'x) DappStakingV3Precompile \<Rightarrow> H160 \<Rightarrow> (bool, 'g, 'x) ds_evm" where
  "register_evm P address = evm_fail (revert ''register via evm precompile is not allowed'')"

definition bond_and_stake :: "('g, 'x) DappStakingV3Precompile \<Rightarrow> H160 \<Rightarrow> H160 \<Rightarrow> Balance \<Rightarrow> (bool, 'g, 'x) ds_evm" where
  "bond_and_stake P caller contract_h160 amount =
     evm_bind (record_db_read (dp_evm P)
       (24 + len_account_ledger (dp_len P) + len_protocol_state (dp_len P) + len_smart_contract (dp_len P))) (\<lambda>_.
     let smart_contract = Evm contract_h160 in
     evm_bind (into_account (dp_evm P) caller) (\<lambda>origin.
     evm_bind evm_get (\<lambda>s.
     let protocol_state = pl_active_protocol_state s;
         ledger = ledger_of origin s;
         stakeable_amount = AccountLedger_stakeable_amount ledger (ProtocolState_period_number protocol_state) in
     evm_bind (if stakeable_amount < amount
               then let delta = sat_sub amount stakeable_amount in ds_dispatch P origin (Call_lock delta)
               else evm_return ()) (\<lambda>_.
     evm_bind (ds_dispatch P origin (Call_stake smart_contract amount)) (\<lambda>_.
     evm_return True)))))"

definition unbond_and_unstake_evm :: "('g, 'x) DappStakingV3Precompile \<Rightarrow> H160 \<Rightarrow> H160 \<Rightarrow> Balance \<Rightarrow> (bool, 'g, 'x) ds_evm" where
  "unbond_and_unstake_evm P caller contract_h160 amount =
     evm_bind (record_db_read (dp_evm P)
       (24 + len_protocol_state (dp_len P) + len_smart_contract (dp_len P) + len_singular_staking_info (dp_len P))) (\<lambda>_.
     let smart_contract = Evm contract_h160 in
     evm_bind (into_account (dp_evm P) caller) (\<lambda>origin.
     evm_bind evm_get (\<lambda>s.
     let protocol_state = pl_active_protocol_state s;
         staker_info = sm_get_or SingularStakingInfo_default (pl_staker_info s) (origin, smart_contract) in
     evm_bind (if SingularStakingInfo_period_number staker_info = ProtocolState_period_number protocol_state
               then ds_dispatch P origin (Call_unstake smart_contract amount)
               else evm_return ()) (\<lambda>_.
     evm_bind (ds_dispatch P origin (Call_unlock amount)) (\<lambda>_.
     evm_return True)))))"

definition withdraw_unbonded_evm :: "('g, 'x) DappStakingV3Precompile \<Rightarrow> H160 \<Rightarrow> (bool, 'g, 'x) ds_evm" where
  "withdraw_unbonded_evm P caller =
     evm_bind (into_account (dp_evm P) caller) (\<lambda>origin.
     evm_bind (ds_dispatch P origin Call_claim_unlocked) (\<lambda>_. evm_return True))"

definition claim_dapp :: "('g, 'x) DappStakingV3Precompile \<Rightarrow> H160 \<Rightarrow> H160 \<Rightarrow> nat \<Rightarrow> (bool, 'g, 'x) ds_evm" where
  "claim_dapp P caller contract_h160 era =
     (let smart_contract = Evm contract_h160 in
      evm_bind (evm_try (try_into u32_max era (Revert (InField ''era'' (ValueIsTooLarge ''era type''))))) (\<lambda>era.
      evm_bind (into_account (dp_evm P) caller) (\<lambda>origin.
      evm_bind (ds_dispatch P origin (Call_claim_dapp_reward smart_contract era)) (\<lambda>_. evm_return True))))"

definition claim_staker :: "('g, 'x) DappStakingV3Precompile \<Rightarrow> H160 \<Rightarrow> H160 \<Rightarrow> (bool, 'g, 'x) ds_evm" where
  "claim_staker P caller contract_h160 =
     evm_bind (into_account (dp_evm P) caller) (\<lambda>origin.
     evm_bind (ds_dispatch P origin Call_claim_staker_rewards) (\<lambda>_. evm_return True))"

definition set_reward_destination :: "('g, 'x) DappStakingV3Precompile \<Rightarrow> nat \<Rightarrow> (bool, 'g, 'x) ds_evm" where
  "set_reward_destination P destination = evm_fail (revert ''Setting reward destination is no longer supported.'')"

definition withdraw_from_unregistered :: "('g, 'x) DappStakingV3Precompile \<Rightarrow> H160 \<Rightarrow> H160 \<Rightarrow> (bool, 'g, 'x) ds_evm" where
  "withdraw_from_unregistered P caller contract_h160 =
     (let smart_contract = Evm contract_h160 in
      evm_bind (into_account (dp_evm P) caller) (\<lambda>origin.
      evm_bind (ds_dispatch P origin (Call_unstake_from_unregistered smart_contract)) (\<lambda>_. evm_return True)))"

definition nomination_transfer ::
  "('g, 'x) DappStakingV3Precompile \<Rightarrow> H160 \<Rightarrow> H160 \<Rightarrow> Balance \<Rightarrow> H160 \<Rightarrow> (bool, 'g, 'x) ds_evm" where
  "nomination_transfer P caller origin_contract_h160 amount target_contract_h160 =
     evm_bind (record_db_read (dp_evm P) (16 + len_smart_contract (dp_len P) + len_singular_staking_info (dp_len P))) (\<lambda>_.
     let origin_smart_contract = Evm origin_contract_h160;
         target_smart_contract = Evm target_contract_h160 in
     evm_bind (into_account (dp_evm P) caller) (\<lambda>origin.
     evm_bind evm_get (\<lambda>s.
     let staker_info = sm_get_or SingularStakingInfo_default (pl_staker_info s) (origin, origin_smart_contract);
         staked_amount = SingularStakingInfo_total_staked_amount staker_info;
         minimum_allowed_stake_amount = cf_minimum_stake_amount (dp_config P);
         stake_amount = (if staked_amount > 0 \<and> sat_sub staked_amount amount < minimum_allowed_stake_amount
                         then staked_amount else amount) in
     evm_bind (ds_dispatch P origin (Call_unstake origin_smart_contract amount)) (\<lambda>_.
     evm_bind (ds_dispatch P origin (Call_stake target_smart_contract stake_amount)) (\<lambda>_.
     evm_return True)))))"

section \<open>The v2 interface\<close>

definition protocol_state :: "('g, 'x) DappStakingV3Precompile \<Rightarrow> (PrecompileProtocolState, 'g, 'x) ds_evm" where
  "protocol_state P =
     evm_bind (record_db_read (dp_evm P) (8 + len_protocol_state (dp_len P))) (\<lambda>_.
     evm_bind evm_get (\<lambda>s.
       let protocol_state = pl_active_protocol_state s
       in evm_return \<lparr> pps_era = ps_era protocol_state, pps_period = ProtocolState_period_number protocol_state,
            pps_subperiod = subperiod_id (ProtocolState_subperiod protocol_state) \<rparr>))"

definition unlocking_period_evm :: "('g, 'x) DappStakingV3Precompile \<Rightarrow> (nat, 'g, 'x) ds_evm" where
  "unlocking_period_evm P = evm_return (unlocking_period (dp_config P))"

definition lock_evm :: "('g, 'x) DappStakingV3Precompile \<Rightarrow> H160 \<Rightarrow> Balance \<Rightarrow> (bool, 'g, 'x) ds_evm" where
  "lock_evm P caller amount =
     evm_bind (into_account (dp_evm P) caller) (\<lambda>origin.
     evm_bind (ds_dispatch P origin (Call_lock amount)) (\<lambda>_. evm_return True))"

definition unlock_evm :: "('g, 'x) DappStakingV3Precompile \<Rightarrow> H160 \<Rightarrow> Balance \<Rightarrow> (bool, 'g, 'x) ds_evm" where
  "unlock_evm P caller amount =
     evm_bind (into_account (dp_evm P) caller) (\<lambda>origin.
     evm_bind (ds_dispatch P origin (Call_unlock amount)) (\<lambda>_. evm_return True))"

definition claim_unlocked_evm :: "('g, 'x) DappStakingV3Precompile \<Rightarrow> H160 \<Rightarrow> (bool, 'g, 'x) ds_evm" where
  "claim_unlocked_evm P caller =
     evm_bind (into_account (dp_evm P) caller) (\<lambda>origin.
     evm_bind (ds_dispatch P origin Call_claim_unlocked) (\<lambda>_. evm_return True))"

definition stake_evm :: "('g, 'x) DappStakingV3Precompile \<Rightarrow> H160 \<Rightarrow> SmartContractV2 \<Rightarrow> Balance \<Rightarrow> (bool, 'g, 'x) ds_evm" where
  "stake_evm P caller smart_contract amount =
     evm_bind (evm_try (decode_smart_contract smart_contract)) (\<lambda>smart_contract.
     evm_bind (into_account (dp_evm P) caller) (\<lambda>origin.
     evm_bind (ds_dispatch P origin (Call_stake smart_contract amount)) (\<lambda>_. evm_return True)))"

definition unstake_evm :: "('g, 'x) DappStakingV3Precompile \<Rightarrow> H160 \<Rightarrow> SmartContractV2 \<Rightarrow> Balance \<Rightarrow> (bool, 'g, 'x) ds_evm" where
  "unstake_evm P caller smart_contract amount =
     evm_bind (evm_try (decode_smart_contract smart_contract)) (\<lambda>smart_contract.
     evm_bind (into_account (dp_evm P) caller) (\<lambda>origin.
     evm_bind (ds_dispatch P origin (Call_unstake smart_contract amount)) (\<lambda>_. evm_return True)))"

definition claim_staker_rewards_evm :: "('g, 'x) DappStakingV3Precompile \<Rightarrow> H160 \<Rightarrow> (bool, 'g, 'x) ds_evm" where
  "claim_staker_rewards_evm P caller =
     evm_bind (into_account (dp_evm P) caller) (\<lambda>origin.
     evm_bind (ds_dispatch P origin Call_claim_staker_rewards) (\<lambda>_. evm_return True))"

definition claim_bonus_reward_evm :: "('g, 'x) DappStakingV3Precompile \<Rightarrow> H160 \<Rightarrow> SmartContractV2 \<Rightarrow> (bool, 'g, 'x) ds_evm" where
  "claim_bonus_reward_evm P caller smart_contract =
     evm_bind (evm_try (decode_smart_contract smart_contract)) (\<lambda>smart_contract.
     evm_bind (into_account (dp_evm P) caller) (\<lambda>origin.
     evm_bind (ds_dispatch P origin (Call_claim_bonus_reward smart_contract)) (\<lambda>_. evm_return True)))"

definition claim_dapp_reward_evm :: "('g, 'x) DappStakingV3Precompile \<Rightarrow> H160 \<Rightarrow> SmartContractV2 \<Rightarrow> nat \<Rightarrow> (bool, 'g, 'x) ds_evm" where
  "claim_dapp_reward_evm P caller smart_contract era =
     evm_bind (evm_try (decode_smart_contract smart_contract)) (\<lambda>smart_contract.
     evm_bind (evm_try (try_into u32_max era (Revert (InField ''era'' (ValueIsTooLarge ''Era number.''))))) (\<lambda>era.
     evm_bind (into_account (dp_evm P) caller) (\<lambda>origin.
     evm_bind (ds_dispatch P origin (Call_claim_dapp_reward smart_contract era)) (\<lambda>_. evm_return True))))"

definition unstake_from_unregistered_evm :: "('g, 'x) DappStakingV3Precompile \<Rightarrow> H160 \<Rightarrow> SmartContractV2 \<Rightarrow> (bool, 'g, 'x) ds_evm" where
  "unstake_from_unregistered_evm P caller smart_contract =
     evm_bind (evm_try (decode_smart_contract smart_contract)) (\<lambda>smart_contract.
     evm_bind (into_account (dp_evm P) caller) (\<lambda>origin.
     evm_bind (ds_dispatch P origin (Call_unstake_from_unregistered smart_contract)) (\<lambda>_. evm_return True)))"

definition cleanup_expired_entries_evm :: "('g, 'x) DappStakingV3Precompile \<Rightarrow> H160 \<Rightarrow> (bool, 'g, 'x) ds_evm" where
  "cleanup_expired_entries_evm P caller =
     evm_bind (into_account (dp_evm P) caller) (\<lambda>origin.
     evm_bind (ds_dispatch P origin Call_cleanup_expired_entries) (\<lambda>_. evm_return True))"

section \<open>The precompile as a whole\<close>

text \<open>The public functions as the calls the precompile decodes, and their answers.\<close>

datatype DappStakingV3PrecompileCall =
  PC_read_current_era
| PC_read_unbonding_period
| PC_read_era_reward EraNumber
| PC_read_era_staked EraNumber
| PC_read_staked_amount "nat list"
| PC_read_staked_amount_on_contract H160 "nat list"
| PC_read_contract_stake H160
| PC_register H160
| PC_bond_and_stake H160 Balance
| PC_unbond_and_unstake H160 Balance
| PC_withdraw_unbonded
| PC_claim_dapp H160 nat
| PC_claim_staker H160
| PC_set_reward_destination nat
| PC_withdraw_from_unregistered H160
| PC_nomination_transfer H160 Balance H160
| PC_protocol_state
| PC_unlocking_period
| PC_lock Balance
| PC_unlock Balance
| PC_claim_unlocked
| PC_stake SmartContractV2 Balance
| PC_unstake SmartContractV2 Balance
| PC_claim_staker_rewards
| PC_claim_bonus_reward SmartContractV2
| PC_claim_dapp_reward SmartContractV2 nat
| PC_unstake_from_unregistered SmartContractV2
| PC_cleanup_expired_entries

datatype DappStakingAnswer = AnswerNat nat | AnswerBool bool | AnswerState PrecompileProtocolState

definition answer :: "('a \<Rightarrow> DappStakingAnswer) \<Rightarrow> ('a, 'g, 'x) ds_evm \<Rightarrow> (DappStakingAnswer, 'g, 'x) ds_evm" where
  "answer f m = evm_bind m (\<lambda>a. evm_return (f a))"

definition dapp_staking_precompile ::
  "('g, 'x) DappStakingV3Precompile \<Rightarrow> H160 \<Rightarrow> DappStakingV3PrecompileCall \<Rightarrow> (DappStakingAnswer, 'g, 'x) ds_evm" where
  "dapp_staking_precompile P caller c = (case c of
       PC_read_current_era \<Rightarrow> answer AnswerNat (read_current_era P)
     | PC_read_unbonding_period \<Rightarrow> answer AnswerNat (read_unbonding_period P)
     | PC_read_era_reward era \<Rightarrow> answer AnswerNat (read_era_reward P era)
     | PC_read_era_staked era \<Rightarrow> answer AnswerNat (read_era_staked P era)
     | PC_read_staked_amount staker \<Rightarrow> answer AnswerNat (read_staked_amount P staker)
     | PC_read_staked_amount_on_contract a staker \<Rightarrow> answer AnswerNat (read_staked_amount_on_contract P a staker)
     | PC_read_contract_stake a \<Rightarrow> answer AnswerNat (read_contract_stake P a)
     | PC_register a \<Rightarrow> answer AnswerBool (register_evm P a)
     | PC_bond_and_stake a amount \<Rightarrow> answer AnswerBool (bond_and_stake P caller a amount)
     | PC_unbond_and_unstake a amount \<Rightarrow> answer AnswerBool (unbond_and_unstake_evm P caller a amount)
     | PC_withdraw_unbonded \<Rightarrow> answer AnswerBool (withdraw_unbonded_evm P caller)
     | PC_claim_dapp a era \<Rightarrow> answer AnswerBool (claim_dapp P caller a era)
     | PC_claim_staker a \<Rightarrow> answer AnswerBool (claim_staker P caller a)
     | PC_set_reward_destination d \<Rightarrow> answer AnswerBool (set_reward_destination P d)
     | PC_withdraw_from_unregistered a \<Rightarrow> answer AnswerBool (withdraw_from_unregistered P caller a)
     | PC_nomination_transfer a amount b \<Rightarrow> answer AnswerBool (nomination_transfer P caller a amount b)
     | PC_protocol_state \<Rightarrow> answer AnswerState (protocol_state P)
     | PC_unlocking_period \<Rightarrow> answer AnswerNat (unlocking_period_evm P)
     | PC_lock amount \<Rightarrow> answer AnswerBool (lock_evm P caller amount)
     | PC_unlock amount \<Rightarrow> answer AnswerBool (unlock_evm P caller amount)
     | PC_claim_unlocked \<Rightarrow> answer AnswerBool (claim_unlocked_evm P caller)
     | PC_stake sc amount \<Rightarrow> answer AnswerBool (stake_evm P caller sc amount)
     | PC_unstake sc amount \<Rightarrow> answer AnswerBool (unstake_evm P caller sc amount)
     | PC_claim_staker_rewards \<Rightarrow> answer AnswerBool (claim_staker_rewards_evm P caller)
     | PC_claim_bonus_reward sc \<Rightarrow> answer AnswerBool (claim_bonus_reward_evm P caller sc)
     | PC_claim_dapp_reward sc era \<Rightarrow> answer AnswerBool (claim_dapp_reward_evm P caller sc era)
     | PC_unstake_from_unregistered sc \<Rightarrow> answer AnswerBool (unstake_from_unregistered_evm P caller sc)
     | PC_cleanup_expired_entries \<Rightarrow> answer AnswerBool (cleanup_expired_entries_evm P caller))"

section \<open>The precompile acts as its caller\<close>

abbreviation ds_runtime :: "('g, 'x) DappStakingV3Precompile \<Rightarrow> (AccountId, 'x) Runtime \<Rightarrow> bool" where
  "ds_runtime P R \<equiv> precompile_runtime (dp_evm P) (dispatch (dp_config P) R)"

lemma keeps_views:
  "keeps (read_current_era P)" "keeps (read_unbonding_period P)" "keeps (read_era_reward P era)" "keeps (read_era_staked P era)"
  "keeps (read_staked_amount P staker)" "keeps (read_staked_amount_on_contract P a staker)" "keeps (read_contract_stake P a)"
  "keeps (register_evm P a)" "keeps (set_reward_destination P d)" "keeps (protocol_state P)" "keeps (unlocking_period_evm P)"
  by (auto simp: read_current_era_def read_unbonding_period_def read_era_reward_def read_era_staked_def read_staked_amount_def
      read_staked_amount_on_contract_def read_contract_stake_def register_evm_def set_reward_destination_def protocol_state_def
      unlocking_period_evm_def parse_input_address_def Let_def intro!: keeps_intros split: option.split)

context precompile_runtime
begin

lemma acts_as_call: "acts_as E D caller (evm_bind (into_account E caller) (\<lambda>origin. evm_bind (try_dispatch E (Signed origin) (c origin)) (\<lambda>_. evm_return True)))"
  by (intro acts_as_caller acts_intros acts_by_dispatch)

end

lemma acts_as_answer: "acts_as E D caller m \<Longrightarrow> acts_as E D caller (answer f m)"
  unfolding answer_def by (intro acts_as_then keeps_intros)

lemma acts_as_calls:
  assumes "ds_runtime P R"
  shows "acts_as (dp_evm P) (dispatch (dp_config P) R) caller (bond_and_stake P caller a amount)"
    "acts_as (dp_evm P) (dispatch (dp_config P) R) caller (unbond_and_unstake_evm P caller a amount)"
    "acts_as (dp_evm P) (dispatch (dp_config P) R) caller (nomination_transfer P caller a amount b)"
  unfolding bond_and_stake_def unbond_and_unstake_evm_def nomination_transfer_def Let_def
  by (intro acts_as_bind acts_as_caller acts_intros keeps_intros precompile_runtime.acts_by_dispatch [OF assms])+

lemma acts_as_forwarded:
  assumes "ds_runtime P R"
  shows "acts_as (dp_evm P) (dispatch (dp_config P) R) caller (dapp_staking_precompile P caller c)"
  by (cases c)
    (simp_all add: dapp_staking_precompile_def withdraw_unbonded_evm_def claim_dapp_def claim_staker_def withdraw_from_unregistered_def
      lock_evm_def unlock_evm_def claim_unlocked_evm_def stake_evm_def unstake_evm_def claim_staker_rewards_evm_def
      claim_bonus_reward_evm_def claim_dapp_reward_evm_def unstake_from_unregistered_evm_def cleanup_expired_entries_evm_def
      acts_as_answer acts_as_bind keeps_intros acts_as_calls [OF assms] precompile_runtime.acts_as_call [OF assms]
      keeps_views [THEN acts_as_keeps] Let_def)

section \<open>Effects of the pallet calls on one account\<close>

definition staked_on :: "'acc \<Rightarrow> 'sc \<Rightarrow> ('acc, 'sc, 'x) Storage \<Rightarrow> nat" where
  "staked_on a sc s = (case sm_get (pl_staker_info s) (a, sc) of None \<Rightarrow> 0
     | Some i \<Rightarrow> if SingularStakingInfo_period_number i = period_of s then SingularStakingInfo_total_staked_amount i else 0)"

lemma staked_on_cong:
  "period_of s' = period_of s \<Longrightarrow> sm_get (pl_staker_info s') (a, sc) = sm_get (pl_staker_info s) (a, sc) \<Longrightarrow> staked_on a sc s' = staked_on a sc s"
  by (simp add: staked_on_def split: option.split)

lemma staked_on_Some:
  "sm_get (pl_staker_info s) (a, sc) = Some i \<Longrightarrow> SingularStakingInfo_period_number i = period_of s \<Longrightarrow>
    staked_on a sc s = SingularStakingInfo_total_staked_amount i"
  by (simp add: staked_on_def)

lemma written_ledger_of:
  assumes "sm_invar (pl_ledger s)" and "ledger_written s a l m" and "pl_ledger s' = m"
  shows "al_locked (ledger_of a s') = al_locked l \<or> AccountLedger_is_empty l"
    "\<not> AccountLedger_is_empty l \<Longrightarrow> ledger_of a s' = l"
  using assms by (auto simp: ledger_of_def sm_get_or_def ledger_written_def)

lemma lock_call_effect:
  assumes inv: "staking_inv C s" and R: "runtime_ok R" and ok: "lock C R (Signed a) amount s = Ok s'"
  obtains amt where "amt \<le> amount" "al_locked (ledger_of a s') = al_locked (ledger_of a s) + amt"
    "AccountLedger_staked_amount (ledger_of a s') p = AccountLedger_staked_amount (ledger_of a s) p"
    "pl_staker_info s' = pl_staker_info s" "pl_active_protocol_state s' = pl_active_protocol_state s"
proof -
  let ?l = "ledger_of a s"
  from ok obtain amt m x ev where amt: "amt = min (rt_total_balance R (pl_env s) a - AccountLedger_total_locked_amount ?l) amount"
      "amt \<noteq> 0" and w: "ledger_written s a (AccountLedger_add_lock_amount amt ?l) m"
    and s': "s' = s\<lparr> pl_ledger := m, pl_env := x, pl_current_era_info := EraInfo_add_locked amt (pl_current_era_info s), pl_events := ev \<rparr>"
    by (rule lock_OkE) blast
  have "rt_total_balance R (pl_env s) a \<le> u128_max" using R by (simp add: runtime_ok_def)
  then have "al_locked ?l + amt \<le> u128_max"
    using amt by (auto simp: total_locked_eq [OF ledger_fits [OF inv]])
  then have l': "AccountLedger_add_lock_amount amt ?l = ?l\<lparr> al_locked := al_locked ?l + amt \<rparr>"
    by (simp add: AccountLedger_add_lock_amount_def sat_add_exact)
  then have "\<not> AccountLedger_is_empty (AccountLedger_add_lock_amount amt ?l)"
    using amt(2) by (simp add: AccountLedger_is_empty_def)
  from written_ledger_of(2) [OF staking_invD(1) [OF inv] w _ this, of s'] l'
  have "ledger_of a s' = ?l\<lparr> al_locked := al_locked ?l + amt \<rparr>" by (simp add: s')
  with amt(1) show thesis by (intro that [of amt]) (simp_all add: s')
qed

lemma stake_call_effect:
  assumes inv: "staking_inv C s" and ok: "stake C R (Signed a) sc amount s = Ok s'"
  shows "AccountLedger_staked_amount (ledger_of a s') (period_of s) = AccountLedger_staked_amount (ledger_of a s) (period_of s) + amount"
    "al_locked (ledger_of a s') = al_locked (ledger_of a s)" "0 < amount"
    "staked_on a sc s' = staked_on a sc s + amount" "k \<noteq> (a, sc) \<Longrightarrow> staked_on (fst k) (snd k) s' = staked_on (fst k) (snd k) s"
    "pl_active_protocol_state s' = pl_active_protocol_state s"
proof -
  let ?ps = "pl_active_protocol_state s" and ?p = "period_of s" and ?l = "ledger_of a s"
  let ?stake = "SingularStakingInfo_stake amount (ps_era ?ps) (ProtocolState_subperiod ?ps)"
  have inv': "staking_inv C s'" by (rule stake_inv [OF inv ok])
  from ok obtain b d l1 info is_new l2 m x ev where amt: "0 < amount"
    and add: "AccountLedger_add_stake_amount amount (ps_era ?ps) (ps_period_info ?ps)
      (snd (AccountLedger_maybe_cleanup_expired (oldest_claimable_period C ?p) (ledger_of b s))) = Ok l1"
    and info: "staking_info_for_stake ?ps (oldest_claimable_period C ?p) (sm_get (pl_staker_info s) (b, sc)) = Ok (info, is_new)"
    and "cf_minimum_stake_amount C \<le> SingularStakingInfo_total_staked_amount (?stake info)"
    and l2: "l2 = (if is_new then l1\<lparr> al_contract_stake_count := u32_add (al_contract_stake_count l1) 1 \<rparr> else l1)"
    and "is_new \<longrightarrow> al_contract_stake_count l2 \<le> cf_max_number_of_staked_contracts C"
    and w: "ledger_written s b l2 m" and "sm_get (pl_integrated_dapps s) sc = Some d"
    and s': "s' = s\<lparr> pl_current_era_info := EraInfo_add_stake_amount amount (ProtocolState_subperiod ?ps) (pl_current_era_info s),
        pl_ledger := m, pl_env := x,
        pl_staker_info := sm_put (pl_staker_info s) (b, sc) (?stake info),
        pl_contract_stake := sm_put (pl_contract_stake s) (di_id d) (ContractStakeAmount_stake amount (ps_period_info ?ps)
          (ps_era ?ps) (contract_stake_of (di_id d) s)), pl_events := ev \<rparr>" and signed: "Signed a = Signed b"
    by (rule stake_OkE)
  from signed have b: "b = a" by simp
  note add = add [unfolded b] and info = info [unfolded b] and w = w [unfolded b] and s' = s' [unfolded b]
  note D = staking_invD [OF inv] and lok = ledger_of_ok [OF inv, of a] and fits = ledger_fits [OF inv, of a]
  have pn: "pi_number (ps_period_info ?ps) = ?p" by (simp add: ProtocolState_period_number_def)
  note cl = cleanup_expired_ok [OF lok, of "oldest_claimable_period C ?p"]
  note l1 = add_stake_ledger_ok [of C "ps_period_info ?ps", unfolded pn, OF cl(1) add amt D(13)]
  have thr: "oldest_claimable_period C ?p \<le> ?p" by (simp add: oldest_claimable_period_def)
  have l1: "AccountLedger_staked_amount l1 ?p = AccountLedger_staked_amount ?l ?p + amount" "al_locked l1 = al_locked ?l"
    using l1 [OF thr] fits by (simp_all add: cl [OF thr])
  have l2eq: "AccountLedger_staked_amount l2 ?p = AccountLedger_staked_amount ?l ?p + amount" "al_locked l2 = al_locked ?l"
    using l1 by (simp_all add: l2)
  then have "\<not> AccountLedger_is_empty l2" using empty_ledger_zero(3) [of l2 ?p] amt by auto
  then have eq: "ledger_of a s' = l2" by (intro written_ledger_of(2) [OF D(1) w]) (simp_all add: s')
  with l2eq show staked: "AccountLedger_staked_amount (ledger_of a s') ?p = AccountLedger_staked_amount ?l ?p + amount"
    and "al_locked (ledger_of a s') = al_locked ?l" by simp_all
  show "0 < amount" by fact
  show "pl_active_protocol_state s' = ?ps" by (simp add: s')
  have per: "period_of s' = ?p" by (simp add: s')
  show "staked_on (fst k) (snd k) s' = staked_on (fst k) (snd k) s" if "k \<noteq> (a, sc)" for k
    by (rule staked_on_cong) (use that D(2) in \<open>auto simp: s'\<close>)
  have old: "staked_on a sc s = sa_sum (si_staked info)" and pi: "SingularStakingInfo_period_number info = ?p"
    using staking_info_for_stake_Ok [OF info] D(4) [of "(a, sc)"]
    by (auto simp: staked_on_def SingularStakingInfo_new_def SingularStakingInfo_period_number_def sa_sum_def
        SingularStakingInfo_total_staked_amount_def sa_total_eq info_ok_def split: option.splits)
  have "sa_sum (si_staked info) \<le> info_sum a ?p (pl_staker_info s)"
    using staking_info_for_stake_Ok [OF info] info_sum_ge [OF D(2), of "(a, sc)" info a ?p] pi
    by (auto simp: info_amount_def SingularStakingInfo_new_def sa_sum_def)
  moreover have "AccountLedger_staked_amount ?l ?p + amount \<le> u128_max"
    using staked ledger_of_ok [OF inv', of a] ledger_fits [OF inv', of a] per by (simp add: ledger_ok_def)
  ultimately have "sa_sum (si_staked info) + amount \<le> u128_max" using D(5) [of a] by simp
  note si = sing_stake_fields [OF this, of "ps_era ?ps" "ProtocolState_subperiod ?ps"]
  show "staked_on a sc s' = staked_on a sc s + amount"
    using staked_on_Some [of s' a sc "?stake info"] si pi D(2) by (simp add: old s' SingularStakingInfo_total_staked_amount_def sa_total_eq)
qed

lemma unstake_call_effect:
  assumes inv: "staking_inv C s" and ok: "unstake C R (Signed a) sc amount s = Ok s'"
  obtains i u where "sm_get (pl_staker_info s) (a, sc) = Some i" "0 < amount" "amount \<le> SingularStakingInfo_total_staked_amount i"
    "u = (if SingularStakingInfo_total_staked_amount i - amount < cf_minimum_stake_amount C
          then SingularStakingInfo_total_staked_amount i else amount)"
    "AccountLedger_staked_amount (ledger_of a s') (period_of s) + u = AccountLedger_staked_amount (ledger_of a s) (period_of s)"
    "staked_on a sc s' + u = staked_on a sc s" "staked_on a sc s = SingularStakingInfo_total_staked_amount i"
    "\<forall>c. c \<noteq> sc \<longrightarrow> staked_on a c s' = staked_on a c s"
    "pl_active_protocol_state s' = pl_active_protocol_state s" "staking_inv C s'"
proof -
  let ?ps = "pl_active_protocol_state s" and ?p = "period_of s" and ?l = "ledger_of a s"
  have inv': "staking_inv C s'" by (rule unstake_inv [OF inv ok])
  from ok obtain b d u i' pairs l1 s1 where amt: "0 < amount" and "sm_get (pl_integrated_dapps s) sc = Some d"
    and info: "unstake_staking_info C ?ps amount (sm_get (pl_staker_info s) (b, sc)) = Ok (i', u, pairs)"
    and un: "AccountLedger_unstake_amount u (ps_era ?ps) (ps_period_info ?ps) (ledger_of b s) = Ok l1"
    and up: "update_ledger R b (if SingularStakingInfo_is_empty i' then l1\<lparr> al_contract_stake_count := al_contract_stake_count l1 - 1 \<rparr> else l1)
       (s\<lparr> pl_current_era_info := EraInfo_unstake_amount u (pl_current_era_info s),
          pl_contract_stake := sm_put (pl_contract_stake s) (di_id d) (ContractStakeAmount_unstake pairs (ps_period_info ?ps)
            (ps_era ?ps) (contract_stake_of (di_id d) s)),
          pl_staker_info := (if SingularStakingInfo_is_empty i' then sm_remove (pl_staker_info s) (b, sc) else sm_put (pl_staker_info s) (b, sc) i') \<rparr>) = Ok s1"
    and s': "s' = deposit_event (Unstake b sc u) s1" and signed: "Signed a = Signed b"
    by (rule unstake_call_OkE)
  from signed have b: "b = a" by simp
  from info [unfolded b] amt obtain i where entry: "sm_get (pl_staker_info s) (a, sc) = Some i" "SingularStakingInfo_period_number i = ?p"
    and le: "amount \<le> StakeAmount_total (si_staked i)"
    and u: "u = (if StakeAmount_total (si_staked i) - amount < cf_minimum_stake_amount C then StakeAmount_total (si_staked i) else amount)"
    and si: "SingularStakingInfo_unstake u (ps_era ?ps) (ProtocolState_subperiod ?ps) i = (i', pairs)"
    by (rule unstake_staking_info_Ok)
  note D = staking_invD [OF inv] and lok = ledger_of_ok [OF inv, of a]
  have ok_i: "sa_ok (si_staked i)" using D(4) [OF entry(1)] by (simp add: info_ok_def)
  note f = sing_unstake_fields [OF si ok_i] and tot = sa_total_eq [OF ok_i]
  have pos: "0 < u" "u \<le> sa_sum (si_staked i)" using amt le u tot by auto
  have pn: "pi_number (ps_period_info ?ps) = ?p" by (simp add: ProtocolState_period_number_def)
  note l1 = unstake_ledger_ok [of C "ps_period_info ?ps", unfolded pn, OF lok un [unfolded b] pos(1)]
  let ?l2 = "if SingularStakingInfo_is_empty i' then l1\<lparr> al_contract_stake_count := al_contract_stake_count l1 - 1 \<rparr> else l1"
  from up [unfolded b] obtain m x where w: "ledger_written s a ?l2 m" and s1: "pl_ledger s1 = m" "pl_active_protocol_state s1 = ?ps"
      "pl_staker_info s1 = (if SingularStakingInfo_is_empty i' then sm_remove (pl_staker_info s) (a, sc) else sm_put (pl_staker_info s) (a, sc) i')"
    by (rule update_ledger_Ok) (simp add: ledger_written_def)
  have "0 < al_locked l1" using l1 lok pos(1) by (auto simp: ledger_ok_def)
  then have "\<not> AccountLedger_is_empty ?l2" by (simp add: AccountLedger_is_empty_def)
  then have eq: "ledger_of a s' = ?l2" by (intro written_ledger_of(2) [OF D(1) w]) (simp_all add: s' s1 deposit_event_def)
  have "AccountLedger_staked_amount ?l2 ?p = AccountLedger_staked_amount l1 ?p" by simp
  with l1(2) eq have st: "AccountLedger_staked_amount (ledger_of a s') ?p + u = AccountLedger_staked_amount ?l ?p" by simp
  have per: "period_of s' = ?p" by (simp add: s' s1 deposit_event_def)
  have others: "\<forall>c. c \<noteq> sc \<longrightarrow> staked_on a c s' = staked_on a c s"
    by (intro allI impI staked_on_cong) (use D(2) per in \<open>auto simp: s' s1 deposit_event_def\<close>)
  have on: "staked_on a sc s = SingularStakingInfo_total_staked_amount i" by (rule staked_on_Some [OF entry])
  have "staked_on a sc s' + u = staked_on a sc s"
  proof (cases "SingularStakingInfo_is_empty i'")
    case True
    with f(1,2) pos(2) have "u = sa_sum (si_staked i)" by (simp add: SingularStakingInfo_is_empty_def sa_is_empty_iff)
    moreover have "staked_on a sc s' = 0" using True D(2) by (simp add: staked_on_def s' s1 deposit_event_def)
    ultimately show ?thesis using on tot by (simp add: SingularStakingInfo_total_staked_amount_def)
  next
    case False
    then have get: "sm_get (pl_staker_info s') (a, sc) = Some i'" using D(2) by (simp add: s' s1 deposit_event_def)
    have "u < sa_sum (si_staked i)" using False f(1,2) pos by (auto simp: SingularStakingInfo_is_empty_def sa_is_empty_iff)
    with f(3) entry(2) per have "SingularStakingInfo_period_number i' = period_of s'" by simp
    from staked_on_Some [OF get this] show ?thesis
      using f(1,2) pos(2) on tot by (simp add: SingularStakingInfo_total_staked_amount_def sa_total_eq)
  qed
  from that [OF entry(1) amt _ _ st this on others _ inv'] le u show thesis
    by (simp add: SingularStakingInfo_total_staked_amount_def s' s1 deposit_event_def)
qed

lemma stake_locked_funds:
  assumes "sm_invar (pl_ledger s)" and "stake C R origin sc amount s = Ok s'"
  shows "locked_funds s' = locked_funds s"
proof -
  let ?f = "\<lambda>l. al_locked l + chunk_sum (al_unlocking l)"
  from assms(2) obtain a l1 is_new l2 m thr era pinfo where
      add: "AccountLedger_add_stake_amount amount era pinfo (snd (AccountLedger_maybe_cleanup_expired thr (ledger_of a s))) = Ok l1"
    and l2: "l2 = (if is_new then l1\<lparr> al_contract_stake_count := u32_add (al_contract_stake_count l1) 1 \<rparr> else l1)"
    and w: "ledger_written s a l2 m" and s': "pl_ledger s' = m"
    by (rule stake_OkE) simp
  have "?f l2 = ?f (ledger_of a s)"
    using add by (auto simp: l2 AccountLedger_add_stake_amount_def AccountLedger_maybe_cleanup_expired_def Let_def
        split: if_splits result.splits option.splits)
  moreover have "sm_sum ?f m + ?f (ledger_of a s) = sm_sum ?f (pl_ledger s) + ?f l2"
    by (rule written_sum [OF assms(1) w]) (auto dest: empty_ledger_zero)
  ultimately show ?thesis by (simp add: locked_funds_def s')
qed

section \<open>Properties\<close>

text \<open>A precompile over the metered runtime whose accounts are the padded addresses, a chain with two dApps, and an
  account that has locked a part of what it stakes.\<close>

definition ds_config :: "(AccountId, SmartContract) Config" where
  "ds_config = \<lparr> cf_cycle = local_cycle, cf_arith = exact_arith,
     cf_number_of_slots = StandardTierSlots_number_of_slots exact_fixed_point,
     cf_base_native_currency_price = 5 * 10 ^ 16, cf_era_reward_span_length = 8,
     cf_reward_retention_in_periods = 2, cf_max_number_of_contracts = 10, cf_max_unlocking_chunks = 5,
     cf_minimum_locked_amount = 10, cf_unlocking_period = 2, cf_max_number_of_staked_contracts = 3,
     cf_minimum_stake_amount = 3, cf_number_of_tiers = 4, cf_ranking_enabled = True,
     cf_is_register_origin = (\<lambda>o'. o' = Root), cf_is_unregister_origin = (\<lambda>o'. o' = Root),
     cf_is_manager_origin = (\<lambda>o'. o' = Root), cf_sort_by_stake = sort_by_stake_stable,
     cf_clear_prefix = (\<lambda>limit keys. take limit keys) \<rparr>"

definition ds_other_pallets :: "(AccountId, unit) Runtime" where
  "ds_other_pallets = \<lparr> rt_total_balance = (\<lambda>_ _. 10000), rt_total_issuance = (\<lambda>_. 1000000),
     rt_set_freeze = (\<lambda>_ _ x. Ok x), rt_thaw = (\<lambda>_ x. Ok x), rt_allowed_to_stake = (\<lambda>_ _. True),
     rt_average_price = (\<lambda>_. 5 * 10 ^ 16), rt_staker_and_dapp_reward_pools = (\<lambda>_ _. (1000, 500)),
     rt_bonus_reward_pool = (\<lambda>_. 300), rt_payout_reward = (\<lambda>_ _ x. Ok x),
     rt_block_before_new_era = (\<lambda>_ x. x) \<rparr>"

definition ds_precompile :: "(nat, unit) DappStakingV3Precompile" where
  "ds_precompile = \<lparr> dp_config = ds_config, dp_evm = metered (\<lambda>_ address. address @ [0]) (dispatch ds_config ds_other_pallets),
     dp_len = \<lparr> len_protocol_state = 1, len_era_reward_span = 1, len_era_info = 1, len_account_ledger = 1, len_smart_contract = 1,
       len_singular_staking_info = 1, len_dapp_info = 1, len_contract_stake_amount = 1 \<rparr> \<rparr>"

definition ds_actions :: "(AccountId, SmartContract) Action list" where
  "ds_actions = [Dispatch Root (Call_register [7] (Evm [1])), Dispatch Root (Call_register [8] (Evm [2])),
     Dispatch (Signed [5, 0]) (Call_lock 50), Dispatch (Signed [5, 0]) (Call_stake (Evm [1]) 30), NextBlock]"

definition ds_state :: "unit ds_storage" where
  "ds_state = the (genesis_run ds_config ds_other_pallets (GenesisConfig_default 4) () ds_actions)"

text \<open>The values the examples below need, all read off one evaluation.\<close>

lemma ds_run:
  "case genesis_run ds_config ds_other_pallets (GenesisConfig_default 4) () ds_actions of None \<Rightarrow> False
   | Some s \<Rightarrow> staked_on [5, 0] (Evm [1]) s = 30 \<and> staked_on [5, 0] (Evm [2]) s = 0 \<and> al_locked (ledger_of [5, 0] s) = 50
       \<and> AccountLedger_stakeable_amount (ledger_of [5, 0] s) (period_of s) = 20
       \<and> (case bond_and_stake ds_precompile [5] [2] 60 (\<lparr> hd_gas = 100, hd_logs = [] \<rparr>, s) of Some (Ok (_, _, s')) \<Rightarrow> within_bounds s' | _ \<Rightarrow> False)
       \<and> (case nomination_transfer ds_precompile [5] [1] 28 [2] (\<lparr> hd_gas = 100, hd_logs = [] \<rparr>, s) of Some (Ok _) \<Rightarrow> True | _ \<Rightarrow> False)"
  by code_simp

lemma ds_values:
  "reachable ds_config ds_other_pallets ds_state" "staked_on [5, 0] (Evm [1]) ds_state = 30" "staked_on [5, 0] (Evm [2]) ds_state = 0"
  "al_locked (ledger_of [5, 0] ds_state) = 50" "AccountLedger_stakeable_amount (ledger_of [5, 0] ds_state) (period_of ds_state) = 20"
  "\<exists>r h' s'. bond_and_stake ds_precompile [5] [2] 60 (\<lparr> hd_gas = 100, hd_logs = [] \<rparr>, ds_state) = Some (Ok (r, h', s')) \<and> within_bounds s'"
  "\<exists>r h' s'. nomination_transfer ds_precompile [5] [1] 28 [2] (\<lparr> hd_gas = 100, hd_logs = [] \<rparr>, ds_state) = Some (Ok (r, h', s'))"
  using ds_run by (auto simp: ds_state_def intro: genesis_run_reachable split: option.splits result.splits)

lemma ds_account: "ev_into_account_id (dp_evm ds_precompile) s [5] = [5, 0]"
  by (simp add: ds_precompile_def metered_def)

lemma ds_ok: "config_ok ds_config" "runtime_ok ds_other_pallets" "ds_runtime ds_precompile ds_other_pallets"
  "dp_config ds_precompile = ds_config"
  using metered.precompile_runtime_axioms
  by (auto simp: config_ok_def runtime_ok_def ds_config_def ds_other_pallets_def ds_precompile_def u128_max_def dest: in_set_takeD)

text \<open>C23: Whatever function of the dApp staking precompile a contract calls, the storage afterwards is reached from the one
  before by successful calls of the pallet signed by the account of the EVM caller, and by nothing else; when the call
  fails, for lack of gas or by a revert, the storage is unchanged.\<close>

theorem precompile_acts_as_caller:
  assumes "ds_runtime P R" and "evm_outcome (dapp_staking_precompile P caller c) g s = Some (r, s')"
  shows "(signed_call (dispatch (dp_config P) R) (ev_into_account_id (dp_evm P) s caller))\<^sup>*\<^sup>* s s'
    \<and> (\<forall>e. r = Err e \<longrightarrow> s' = s)"
  by (rule acts_as_outcome [OF acts_as_forwarded [OF assms(1)] assms(2)])

theorem precompile_acts_as_caller_witness:
  "\<exists>r s'. evm_outcome (dapp_staking_precompile ds_precompile [5] (PC_bond_and_stake [2] 60)) 100 ds_state = Some (Ok r, s')
     \<and> (signed_call (dispatch ds_config ds_other_pallets) [5, 0])\<^sup>*\<^sup>* ds_state s'"
proof -
  obtain r h' s' where "bond_and_stake ds_precompile [5] [2] 60 (\<lparr> hd_gas = 100, hd_logs = [] \<rparr>, ds_state) = Some (Ok (r, h', s'))"
    using ds_values(6) by blast
  then have run: "evm_outcome (dapp_staking_precompile ds_precompile [5] (PC_bond_and_stake [2] 60)) 100 ds_state = Some (Ok (AnswerBool r, hd_logs h'), s')"
    by (simp add: dapp_staking_precompile_def answer_def evm_outcome_def evm_bind_def evm_return_def)
  from precompile_acts_as_caller [OF ds_ok(3) run, unfolded ds_ok(4) ds_account] run show ?thesis by blast
qed

text \<open>C22: When \<open>bond_and_stake\<close> succeeds, the stake of the caller on the contract and in total has grown by exactly the amount,
  and exactly what the stakeable balance was short of has been locked, although \<open>lock\<close> by itself locks what it can get.\<close>

theorem bond_and_stake_exact:
  assumes "ds_runtime P R" and "reachable (dp_config P) R s" and "config_ok (dp_config P)" and "runtime_ok R"
    and "bond_and_stake P caller a amount (h, s) = Some (Ok (r, h', s'))" and "within_bounds s'"
  shows "let who = ev_into_account_id (dp_evm P) s caller; p = period_of s; l = ledger_of who s; l' = ledger_of who s' in
    staked_on who (Evm a) s' = staked_on who (Evm a) s + amount
    \<and> AccountLedger_staked_amount l' p = AccountLedger_staked_amount l p + amount
    \<and> al_locked l' = al_locked l + (amount - AccountLedger_stakeable_amount l p)"
proof -
  let ?C = "dp_config P" and ?who = "ev_into_account_id (dp_evm P) s caller" and ?p = "period_of s"
  let ?l = "ledger_of ?who s" and ?l' = "ledger_of ?who s'"
  have inv: "staking_inv ?C s" by (rule reachable_inv [OF assms(2-4)])
  note D = precompile_runtime.try_dispatch_D [OF assms(1)]
  from assms(5) obtain h1 s1 where
      first: "AccountLedger_stakeable_amount ?l ?p < amount \<and> lock ?C R (Signed ?who) (amount - AccountLedger_stakeable_amount ?l ?p) s = Ok s1
        \<or> \<not> AccountLedger_stakeable_amount ?l ?p < amount \<and> s1 = s"
    and stake: "stake ?C R (Signed ?who) (Evm a) amount s1 = Ok s'"
    by (auto simp: bond_and_stake_def Let_def into_account_def dispatch_def elim!: evm_bind_OkE dest!: D keepsD [OF keeps_runtime(1)] split: if_splits)
  obtain amt where amt: "amt \<le> amount - AccountLedger_stakeable_amount ?l ?p" "al_locked (ledger_of ?who s1) = al_locked ?l + amt"
    and s1: "AccountLedger_staked_amount (ledger_of ?who s1) ?p = AccountLedger_staked_amount ?l ?p"
      "pl_staker_info s1 = pl_staker_info s" "pl_active_protocol_state s1 = pl_active_protocol_state s"
    using first by (elim disjE conjE) (erule lock_call_effect [OF inv assms(4), where p = ?p], blast, force)
  have inv1: "staking_inv ?C s1"
    using first
  proof (elim disjE conjE)
    assume ok: "lock ?C R (Signed ?who) (amount - AccountLedger_stakeable_amount ?l ?p) s = Ok s1"
    have "sm_invar (pl_ledger s1)"
      using ok by (rule lock_OkE) (use written_get(1) [OF staking_invD(1) [OF inv]] in auto)
    from stake_locked_funds [OF this stake] assms(6) have "locked_funds s1 \<le> u128_max" by (simp add: within_bounds_def)
    from lock_inv [OF inv ok this assms(4)] show ?thesis .
  qed (use inv in simp)
  note e = stake_call_effect [OF inv1 stake, unfolded s1(3)]
  have "staking_inv ?C s'" by (rule stake_inv [OF inv1 stake])
  from ledger_of_ok [OF this, of ?who] e(1,2,6) amt s1
  have "AccountLedger_staked_amount ?l ?p + amount \<le> al_locked ?l + amt" by (simp add: ledger_ok_def)
  then have "amt = amount - AccountLedger_stakeable_amount ?l ?p"
    using amt(1) ledger_of_ok [OF inv, of ?who]
    by (simp add: AccountLedger_stakeable_amount_def AccountLedger_active_locked_amount_def ledger_ok_def)
  moreover have "staked_on ?who (Evm a) s1 = staked_on ?who (Evm a) s" by (rule staked_on_cong) (simp_all add: s1)
  ultimately show ?thesis using e amt s1 by (simp add: Let_def)
qed

theorem bond_and_stake_exact_witness:
  "\<exists>r h' s'. bond_and_stake ds_precompile [5] [2] 60 (\<lparr> hd_gas = 100, hd_logs = [] \<rparr>, ds_state) = Some (Ok (r, h', s'))
     \<and> staked_on [5, 0] (Evm [2]) s' = 60 \<and> al_locked (ledger_of [5, 0] s') = 90"
proof -
  obtain r h' s' where run: "bond_and_stake ds_precompile [5] [2] 60 (\<lparr> hd_gas = 100, hd_logs = [] \<rparr>, ds_state) = Some (Ok (r, h', s'))"
    and b: "within_bounds s'" using ds_values(6) by blast
  from bond_and_stake_exact [OF ds_ok(3) _ _ ds_ok(2) run b, unfolded ds_ok(4) ds_account, OF ds_values(1) ds_ok(1)] ds_values(3-5) run
  show ?thesis by (auto simp: Let_def)
qed

text \<open>C21: When \<open>nomination_transfer\<close> succeeds between two contracts, what it moved from the one is exactly what the other has
  gained: the amount, or everything when less than the minimum stake would be left. The total stake of the caller and
  the stake on every other contract are unchanged.\<close>

theorem nomination_transfer_moves_stake:
  assumes "ds_runtime P R" and "reachable (dp_config P) R s" and "config_ok (dp_config P)" and "runtime_ok R"
    and "nomination_transfer P caller a amount b (h, s) = Some (Ok (r, h', s'))" and "a \<noteq> b"
  shows "let who = ev_into_account_id (dp_evm P) s caller; p = period_of s;
      v = (if staked_on who (Evm a) s - amount < cf_minimum_stake_amount (dp_config P) then staked_on who (Evm a) s else amount) in
    amount \<le> v \<and> staked_on who (Evm a) s' + v = staked_on who (Evm a) s \<and> staked_on who (Evm b) s' = staked_on who (Evm b) s + v
    \<and> AccountLedger_staked_amount (ledger_of who s') p = AccountLedger_staked_amount (ledger_of who s) p
    \<and> (\<forall>c. c \<noteq> Evm a \<and> c \<noteq> Evm b \<longrightarrow> staked_on who c s' = staked_on who c s)"
proof -
  let ?C = "dp_config P" and ?who = "ev_into_account_id (dp_evm P) s caller" and ?p = "period_of s"
  let ?T = "SingularStakingInfo_total_staked_amount (sm_get_or SingularStakingInfo_default (pl_staker_info s) (?who, Evm a))"
  have inv: "staking_inv ?C s" by (rule reachable_inv [OF assms(2-4)])
  note D = precompile_runtime.try_dispatch_D [OF assms(1)]
  from assms(5) obtain s1 where un: "unstake ?C R (Signed ?who) (Evm a) amount s = Ok s1"
    and stake: "stake ?C R (Signed ?who) (Evm b) (if ?T > 0 \<and> ?T - amount < cf_minimum_stake_amount ?C then ?T else amount) s1 = Ok s'"
    by (auto simp: nomination_transfer_def Let_def into_account_def dispatch_def elim!: evm_bind_OkE dest!: D keepsD [OF keeps_runtime(1)])
  obtain i u where i: "sm_get (pl_staker_info s) (?who, Evm a) = Some i" "0 < amount" "amount \<le> SingularStakingInfo_total_staked_amount i"
    and u: "u = (if SingularStakingInfo_total_staked_amount i - amount < cf_minimum_stake_amount ?C
          then SingularStakingInfo_total_staked_amount i else amount)"
    and un: "AccountLedger_staked_amount (ledger_of ?who s1) ?p + u = AccountLedger_staked_amount (ledger_of ?who s) ?p"
      "staked_on ?who (Evm a) s1 + u = staked_on ?who (Evm a) s" "staked_on ?who (Evm a) s = SingularStakingInfo_total_staked_amount i"
      "\<forall>c. c \<noteq> Evm a \<longrightarrow> staked_on ?who c s1 = staked_on ?who c s"
      "pl_active_protocol_state s1 = pl_active_protocol_state s" "staking_inv ?C s1"
    by (rule unstake_call_effect [OF inv un])
  have "?T = SingularStakingInfo_total_staked_amount i" using i(1) by (simp add: sm_get_or_def)
  with i u have v: "(if ?T > 0 \<and> ?T - amount < cf_minimum_stake_amount ?C then ?T else amount) = u" by auto
  note e = stake_call_effect [OF un(6) stake [unfolded v], unfolded un(5)]
  have "staked_on ?who c s' = staked_on ?who c s1" if "c \<noteq> Evm b" for c using e(5) [of "(?who, c)"] that by simp
  moreover have "staked_on ?who c s1 = staked_on ?who c s" if "c \<noteq> Evm a" for c using un(4) that by simp
  ultimately show ?thesis using e(1,4) un(1,2,3) i u assms(6) by (auto simp: Let_def)
qed

theorem nomination_transfer_moves_stake_witness:
  "\<exists>r h' s'. nomination_transfer ds_precompile [5] [1] 28 [2] (\<lparr> hd_gas = 100, hd_logs = [] \<rparr>, ds_state) = Some (Ok (r, h', s'))
     \<and> staked_on [5, 0] (Evm [2]) s' = 30 \<and> staked_on [5, 0] (Evm [1]) s' = 0"
proof -
  obtain r h' s' where run: "nomination_transfer ds_precompile [5] [1] 28 [2] (\<lparr> hd_gas = 100, hd_logs = [] \<rparr>, ds_state) = Some (Ok (r, h', s'))"
    using ds_values(7) by blast
  have "cf_minimum_stake_amount ds_config = 3" by (simp add: ds_config_def)
  with nomination_transfer_moves_stake [OF ds_ok(3) _ _ ds_ok(2) run, unfolded ds_ok(4) ds_account, OF ds_values(1) ds_ok(1)] ds_values(2,3) run
  show ?thesis by (auto simp: Let_def)
qed

end
