(* ===== verification/AssetsErc20.thy ===== *)
theory AssetsErc20
  imports Precompile "HOL-Library.Code_Target_Nat"
begin

text \<open>
  Assets as ERC20 tokens: the precompile set \<open>src/precompiles/assets-erc20/src/lib.rs\<close> and the addresses the runtime
  gives to assets (\<open>AddressToAssetId\<close> in \<open>src/runtime/astar/src/lib.rs\<close>). The assets pallet is not part of the repository: its queries
  are the record \<open>AssetsPallet\<close>, its calls are dispatched by the runtime of the precompile, and the locale
  \<open>assets_pallet\<close> states what is documented of them. A selector of a log stands for the hash of its signature.
\<close>

section \<open>Addresses of assets\<close>

text \<open>Unsigned integers as bytes, the most significant first.\<close>

primrec to_be_bytes :: "nat \<Rightarrow> nat \<Rightarrow> nat list" where
  "to_be_bytes 0 n = []"
| "to_be_bytes (Suc k) n = to_be_bytes k (n div 256) @ [n mod 256]"

definition from_be_bytes :: "nat list \<Rightarrow> nat" where
  "from_be_bytes bs = foldl (\<lambda>n b. 256 * n + b) 0 bs"

lemma length_to_be_bytes [simp]: "length (to_be_bytes k n) = k"
  by (induction k arbitrary: n) simp_all

lemma from_to_be_bytes: "n < 256 ^ k \<Longrightarrow> from_be_bytes (to_be_bytes k n) = n"
  by (induction k arbitrary: n) (auto simp: from_be_bytes_def less_mult_imp_div_less mult.commute)

lemma from_be_bytes_snoc: "from_be_bytes (bs @ [b]) = 256 * from_be_bytes bs + b"
  by (simp add: from_be_bytes_def)

lemma to_from_be_bytes: "\<forall>b\<in>set bs. b < 256 \<Longrightarrow> to_be_bytes (length bs) (from_be_bytes bs) = bs"
  by (induction bs rule: rev_induct) (simp_all add: from_be_bytes_snoc)

definition ASSET_PRECOMPILE_ADDRESS_PREFIX :: "nat list" where
  "ASSET_PRECOMPILE_ADDRESS_PREFIX = [255, 255, 255, 255]"

definition address_to_asset_id :: "H160 \<Rightarrow> nat option" where
  "address_to_asset_id address =
     (if ASSET_PRECOMPILE_ADDRESS_PREFIX = take 4 address
      then Some (from_be_bytes (take 16 (drop 4 address))) else None)"

definition asset_id_to_address :: "nat \<Rightarrow> H160" where
  "asset_id_to_address asset_id = ASSET_PRECOMPILE_ADDRESS_PREFIX @ to_be_bytes 16 asset_id"

section \<open>The assets pallet\<close>

datatype ('src, 'id) AssetsCall =
  Assets_transfer 'id 'src nat
| Assets_transfer_approved 'id 'src 'src nat
| Assets_approve_transfer 'id 'src nat
| Assets_cancel_approval 'id 'src
| Assets_mint 'id 'src nat
| Assets_burn 'id 'src nat

record ('acc, 'id, 's, 'src) AssetsPallet =
  as_maybe_total_supply :: "'s \<Rightarrow> 'id \<Rightarrow> nat option"
  as_total_issuance :: "'s \<Rightarrow> 'id \<Rightarrow> nat"
  as_balance :: "'s \<Rightarrow> 'id \<Rightarrow> 'acc \<Rightarrow> nat"
  as_allowance :: "'s \<Rightarrow> 'id \<Rightarrow> 'acc \<Rightarrow> 'acc \<Rightarrow> nat"
  as_name :: "'s \<Rightarrow> 'id \<Rightarrow> nat list"
  as_symbol :: "'s \<Rightarrow> 'id \<Rightarrow> nat list"
  as_decimals :: "'s \<Rightarrow> 'id \<Rightarrow> nat"
  as_minimum_balance :: "'s \<Rightarrow> 'id \<Rightarrow> nat"
  as_unlookup :: "'acc \<Rightarrow> 'src"

text \<open>What is documented of the calls: an approval adds to the one in place, cancelling removes it, a transfer of an
  approved amount uses it up, and no call of one account changes what another account has approved otherwise.\<close>

locale assets_pallet =
  fixes A :: "('acc, 'id, 's, 'src) AssetsPallet"
    and D :: "'acc RawOrigin \<Rightarrow> ('src, 'id) AssetsCall \<Rightarrow> 's \<Rightarrow> ('s, 'e) result option"
  assumes approve_adds: "D (Signed owner) (Assets_approve_transfer i (as_unlookup A spender) v) s = Some (Ok s') \<Longrightarrow>
      as_allowance A s' j x y = as_allowance A s j x y + (if (j, x, y) = (i, owner, spender) then v else 0)"
    and cancel_removes: "D (Signed owner) (Assets_cancel_approval i (as_unlookup A spender)) s = Some (Ok s') \<Longrightarrow>
      as_allowance A s' j x y = (if (j, x, y) = (i, owner, spender) then 0 else as_allowance A s j x y)"
    and approved_used: "D (Signed spender) (Assets_transfer_approved i (as_unlookup A owner) (as_unlookup A dest) v) s = Some (Ok s') \<Longrightarrow>
      as_allowance A s' j x y + (if (j, x, y) = (i, owner, spender) then v else 0) = as_allowance A s j x y"
    and transfer_keeps: "D (Signed owner) (Assets_transfer i (as_unlookup A dest) v) s = Some (Ok s') \<Longrightarrow>
      as_allowance A s' j x y = as_allowance A s j x y"
    and balances_move: "D (Signed owner) (Assets_transfer i (as_unlookup A dest) v) s = Some (Ok s') \<Longrightarrow> x \<noteq> owner \<Longrightarrow>
      as_balance A s j x \<le> as_balance A s' j x"
    and approved_move: "D (Signed spender) (Assets_transfer_approved i (as_unlookup A owner) (as_unlookup A dest) v) s = Some (Ok s') \<Longrightarrow> x \<noteq> owner \<Longrightarrow>
      as_balance A s j x \<le> as_balance A s' j x"
    and approvals_keep_balances: "D (Signed owner) (Assets_approve_transfer i (as_unlookup A spender) v) s = Some (Ok s') \<Longrightarrow> as_balance A s' = as_balance A s"
      "D (Signed owner) (Assets_cancel_approval i (as_unlookup A spender)) s = Some (Ok s') \<Longrightarrow> as_balance A s' = as_balance A s"

section \<open>The precompile set\<close>

record ('g, 's, 'e, 'acc, 'src, 'id) Erc20AssetsPrecompileSet =
  er_evm :: "('g, 's, 'e, 'acc, ('src, 'id) AssetsCall) EvmRuntime"
  er_pallet :: "('acc, 'id, 's, 'src) AssetsPallet"
  er_address_to_asset_id :: "H160 \<Rightarrow> 'id option"
  er_db_read_gas_cost :: nat
  er_string_limit :: nat
  er_extra_len :: nat

text \<open>The context of a call: who calls, and the address of the asset.\<close>

record EvmContext =
  cx_caller :: H160
  cx_address :: H160

datatype 'id DiscriminantResult = DiscriminantOutOfGas | DiscriminantNone nat | DiscriminantSome 'id nat

definition discriminant ::
  "('g, 's, 'e, 'acc, 'src, 'id) Erc20AssetsPrecompileSet \<Rightarrow> 's \<Rightarrow> H160 \<Rightarrow> nat \<Rightarrow> 'id DiscriminantResult" where
  "discriminant P s address gas =
     (let extra_cost = er_db_read_gas_cost P
      in if gas < extra_cost then DiscriminantOutOfGas
         else case er_address_to_asset_id P address of
           None \<Rightarrow> DiscriminantNone extra_cost
         | Some asset_id \<Rightarrow>
             if as_maybe_total_supply (er_pallet P) s asset_id \<noteq> None then DiscriminantSome asset_id extra_cost
             else DiscriminantNone extra_cost)"

definition SELECTOR_LOG_TRANSFER :: string where "SELECTOR_LOG_TRANSFER = ''Transfer(address,address,uint256)''"

definition SELECTOR_LOG_APPROVAL :: string where "SELECTOR_LOG_APPROVAL = ''Approval(address,address,uint256)''"

definition log3 :: "H160 \<Rightarrow> string \<Rightarrow> H160 \<Rightarrow> H160 \<Rightarrow> nat \<Rightarrow> Log" where
  "log3 address selector topic1 topic2 data =
     \<lparr> lg_address = address, lg_selector = selector, lg_topics = [topic1, topic2], lg_data = data \<rparr>"

definition H160_default :: H160 where "H160_default = replicate 20 0"

definition u256_to_amount :: "nat \<Rightarrow> (nat, RevertReason) result" where
  "u256_to_amount value = try_into u128_max value (ValueIsTooLarge ''balance type'')"

text \<open>\<open>in_field("value")?\<close>\<close>

definition amount_in_field :: "nat \<Rightarrow> (nat, 'g, 's, 'e) evm" where
  "amount_in_field value = evm_try (map_err (\<lambda>e. Revert (InField ''value'' e)) (u256_to_amount value))"

type_synonym ('a, 'g, 's, 'e, 'acc, 'src, 'id) erc20 =
  "('g, 's, 'e, 'acc, 'src, 'id) Erc20AssetsPrecompileSet \<Rightarrow> 'id \<Rightarrow> ('a, 'g, 's, 'e) evm"

definition total_supply :: "(nat, 'g, 's, 'e, 'acc, 'src, 'id) erc20" where
  "total_supply P asset_id =
     evm_bind (record_db_read (er_evm P) 223) (\<lambda>_.
     evm_bind evm_get (\<lambda>s. evm_return (as_total_issuance (er_pallet P) s asset_id)))"

definition balance_of :: "('g, 's, 'e, 'acc, 'src, 'id) Erc20AssetsPrecompileSet \<Rightarrow> 'id \<Rightarrow> H160 \<Rightarrow> (nat, 'g, 's, 'e) evm" where
  "balance_of P asset_id who =
     evm_bind (record_db_read (er_evm P) (99 + er_extra_len P)) (\<lambda>_.
     evm_bind (into_account (er_evm P) who) (\<lambda>who.
     evm_bind evm_get (\<lambda>s. evm_return (as_balance (er_pallet P) s asset_id who))))"

definition allowance :: "('g, 's, 'e, 'acc, 'src, 'id) Erc20AssetsPrecompileSet \<Rightarrow> 'id \<Rightarrow> H160 \<Rightarrow> H160 \<Rightarrow> (nat, 'g, 's, 'e) evm" where
  "allowance P asset_id owner spender =
     evm_bind (record_db_read (er_evm P) 148) (\<lambda>_.
     evm_bind (into_account (er_evm P) owner) (\<lambda>owner.
     evm_bind (into_account (er_evm P) spender) (\<lambda>spender.
     evm_bind evm_get (\<lambda>s. evm_return (as_allowance (er_pallet P) s asset_id owner spender)))))"

definition approve_inner ::
  "('g, 's, 'e, 'acc, 'src, 'id) Erc20AssetsPrecompileSet \<Rightarrow> 'id \<Rightarrow> H160 \<Rightarrow> H160 \<Rightarrow> nat \<Rightarrow> (unit, 'g, 's, 'e) evm" where
  "approve_inner P asset_id owner spender value =
     evm_bind (into_account (er_evm P) owner) (\<lambda>owner.
     evm_bind (into_account (er_evm P) spender) (\<lambda>spender.
     let amount = saturated_into u128_max value in
     evm_bind (record_db_read (er_evm P) 148) (\<lambda>_.
     evm_bind evm_get (\<lambda>s.
     evm_bind (if as_allowance (er_pallet P) s asset_id owner spender \<noteq> 0
               then try_dispatch (er_evm P) (Signed owner) (Assets_cancel_approval asset_id (as_unlookup (er_pallet P) spender))
               else evm_return ()) (\<lambda>_.
     try_dispatch (er_evm P) (Signed owner) (Assets_approve_transfer asset_id (as_unlookup (er_pallet P) spender) amount))))))"

definition approve ::
  "('g, 's, 'e, 'acc, 'src, 'id) Erc20AssetsPrecompileSet \<Rightarrow> 'id \<Rightarrow> EvmContext \<Rightarrow> H160 \<Rightarrow> nat \<Rightarrow> (bool, 'g, 's, 'e) evm" where
  "approve P asset_id cx spender value =
     evm_bind (record_log_costs_manual (er_evm P) 3 32) (\<lambda>_.
     evm_bind (approve_inner P asset_id (cx_caller cx) spender value) (\<lambda>_.
     evm_bind (record_log (er_evm P) (log3 (cx_address cx) SELECTOR_LOG_APPROVAL (cx_caller cx) spender value)) (\<lambda>_.
     evm_return True)))"

definition transfer_erc20 ::
  "('g, 's, 'e, 'acc, 'src, 'id) Erc20AssetsPrecompileSet \<Rightarrow> 'id \<Rightarrow> EvmContext \<Rightarrow> H160 \<Rightarrow> nat \<Rightarrow> (bool, 'g, 's, 'e) evm" where
  "transfer_erc20 P asset_id cx to value =
     evm_bind (record_log_costs_manual (er_evm P) 3 32) (\<lambda>_.
     evm_bind (amount_in_field value) (\<lambda>value.
     evm_bind (into_account (er_evm P) (cx_caller cx)) (\<lambda>origin.
     evm_bind (into_account (er_evm P) to) (\<lambda>target.
     evm_bind (try_dispatch (er_evm P) (Signed origin) (Assets_transfer asset_id (as_unlookup (er_pallet P) target) value)) (\<lambda>_.
     evm_bind (record_log (er_evm P) (log3 (cx_address cx) SELECTOR_LOG_TRANSFER (cx_caller cx) to value)) (\<lambda>_.
     evm_return True))))))"

definition transfer_from ::
  "('g, 's, 'e, 'acc, 'src, 'id) Erc20AssetsPrecompileSet \<Rightarrow> 'id \<Rightarrow> EvmContext \<Rightarrow> H160 \<Rightarrow> H160 \<Rightarrow> nat \<Rightarrow> (bool, 'g, 's, 'e) evm" where
  "transfer_from P asset_id cx from to value =
     evm_bind (record_log_costs_manual (er_evm P) 3 32) (\<lambda>_.
     evm_bind (amount_in_field value) (\<lambda>value.
     evm_bind (into_account (er_evm P) (cx_caller cx)) (\<lambda>caller.
     evm_bind (into_account (er_evm P) from) (\<lambda>owner.
     evm_bind (into_account (er_evm P) to) (\<lambda>target.
     evm_bind (if caller \<noteq> owner
               then try_dispatch (er_evm P) (Signed caller)
                 (Assets_transfer_approved asset_id (as_unlookup (er_pallet P) owner) (as_unlookup (er_pallet P) target) value)
               else try_dispatch (er_evm P) (Signed owner) (Assets_transfer asset_id (as_unlookup (er_pallet P) target) value)) (\<lambda>_.
     evm_bind (record_log (er_evm P) (log3 (cx_address cx) SELECTOR_LOG_TRANSFER from to value)) (\<lambda>_.
     evm_return True)))))))"

definition metadata_read :: "('g, 's, 'e, 'acc, 'src, 'id) Erc20AssetsPrecompileSet \<Rightarrow> (unit, 'g, 's, 'e) evm" where
  "metadata_read P = record_db_read (er_evm P) (50 + 2 * er_string_limit P)"

definition name_erc20 :: "(nat list, 'g, 's, 'e, 'acc, 'src, 'id) erc20" where
  "name_erc20 P asset_id =
     evm_bind (metadata_read P) (\<lambda>_. evm_bind evm_get (\<lambda>s. evm_return (as_name (er_pallet P) s asset_id)))"

definition symbol :: "(nat list, 'g, 's, 'e, 'acc, 'src, 'id) erc20" where
  "symbol P asset_id =
     evm_bind (metadata_read P) (\<lambda>_. evm_bind evm_get (\<lambda>s. evm_return (as_symbol (er_pallet P) s asset_id)))"

definition decimals :: "(nat, 'g, 's, 'e, 'acc, 'src, 'id) erc20" where
  "decimals P asset_id =
     evm_bind (metadata_read P) (\<lambda>_. evm_bind evm_get (\<lambda>s. evm_return (as_decimals (er_pallet P) s asset_id)))"

definition minimum_balance :: "(nat, 'g, 's, 'e, 'acc, 'src, 'id) erc20" where
  "minimum_balance P asset_id =
     evm_bind (record_db_read (er_evm P) 207) (\<lambda>_.
     evm_bind evm_get (\<lambda>s. evm_return (as_minimum_balance (er_pallet P) s asset_id)))"

definition mint ::
  "('g, 's, 'e, 'acc, 'src, 'id) Erc20AssetsPrecompileSet \<Rightarrow> 'id \<Rightarrow> EvmContext \<Rightarrow> H160 \<Rightarrow> nat \<Rightarrow> (bool, 'g, 's, 'e) evm" where
  "mint P asset_id cx to value =
     evm_bind (record_log_costs_manual (er_evm P) 3 32) (\<lambda>_.
     evm_bind (amount_in_field value) (\<lambda>value.
     evm_bind (into_account (er_evm P) (cx_caller cx)) (\<lambda>origin.
     evm_bind (into_account (er_evm P) to) (\<lambda>beneficiary.
     evm_bind (try_dispatch (er_evm P) (Signed origin) (Assets_mint asset_id (as_unlookup (er_pallet P) beneficiary) value)) (\<lambda>_.
     evm_bind (record_log (er_evm P) (log3 (cx_address cx) SELECTOR_LOG_TRANSFER H160_default to value)) (\<lambda>_.
     evm_return True))))))"

definition burn ::
  "('g, 's, 'e, 'acc, 'src, 'id) Erc20AssetsPrecompileSet \<Rightarrow> 'id \<Rightarrow> EvmContext \<Rightarrow> H160 \<Rightarrow> nat \<Rightarrow> (bool, 'g, 's, 'e) evm" where
  "burn P asset_id cx from value =
     evm_bind (record_log_costs_manual (er_evm P) 3 32) (\<lambda>_.
     evm_bind (amount_in_field value) (\<lambda>value.
     evm_bind (into_account (er_evm P) (cx_caller cx)) (\<lambda>origin.
     evm_bind (into_account (er_evm P) from) (\<lambda>who.
     evm_bind (try_dispatch (er_evm P) (Signed origin) (Assets_burn asset_id (as_unlookup (er_pallet P) who) value)) (\<lambda>_.
     evm_bind (record_log (er_evm P) (log3 (cx_address cx) SELECTOR_LOG_TRANSFER from H160_default value)) (\<lambda>_.
     evm_return True))))))"

section \<open>Addresses and ids\<close>

lemma asset_address_round_trip:
  "i < 2 ^ 128 \<Longrightarrow> address_to_asset_id (asset_id_to_address i) = Some i"
  "length a = 20 \<Longrightarrow> \<forall>b\<in>set a. b < 256 \<Longrightarrow> address_to_asset_id a = Some i \<Longrightarrow> asset_id_to_address i = a"
proof -
  assume "i < 2 ^ 128"
  then have "i < 256 ^ 16" by simp
  from from_to_be_bytes [OF this] show "address_to_asset_id (asset_id_to_address i) = Some i"
    by (simp add: address_to_asset_id_def asset_id_to_address_def ASSET_PRECOMPILE_ADDRESS_PREFIX_def)
next
  assume a: "length a = 20" "\<forall>b\<in>set a. b < 256" "address_to_asset_id a = Some i"
  from a(3) have i: "i = from_be_bytes (take 16 (drop 4 a))" and p: "ASSET_PRECOMPILE_ADDRESS_PREFIX = take 4 a"
    by (auto simp: address_to_asset_id_def split: if_splits)
  from a(1) have t: "take 16 (drop 4 a) = drop 4 a" "length (drop 4 a) = 16" by simp_all
  have "to_be_bytes 16 i = drop 4 a"
    using to_from_be_bytes [of "drop 4 a"] a(2) t by (auto simp: i dest: in_set_dropD)
  then show "asset_id_to_address i = a" by (simp add: asset_id_to_address_def p)
qed

section \<open>What the functions do\<close>

lemma amount_in_field_Ok [simp]:
  "amount_in_field v (h, s) = Some (Ok (a, h', s')) \<longleftrightarrow> a = v \<and> v \<le> u128_max \<and> h' = h \<and> s' = s"
  by (auto simp: amount_in_field_def u256_to_amount_def map_err_def try_into_def split: result.splits)

text \<open>What an address of the caller may do: the precompile acts by calls its account signs.\<close>

lemma acts_as_amount:
  assumes "\<And>value who. acts_by (signed_call D who) (f value who)"
  shows "acts_as E D caller (evm_bind (record_log_costs_manual E k n) (\<lambda>_. evm_bind (amount_in_field v) (\<lambda>value.
    evm_bind (into_account E caller) (f value))))"
proof (rule acts_as_bind [OF keeps_runtime(2)], rule acts_as_bind)
  show "keeps (amount_in_field v)" by (auto simp: keeps_def)
  show "acts_as E D caller (evm_bind (into_account E caller) (f a))" for a by (rule acts_as_caller) (rule assms)
qed

lemma erc20_acts_as:
  assumes "precompile_runtime (er_evm P) D"
  shows "acts_as (er_evm P) D (cx_caller cx) (approve P i cx spender v)"
    "acts_as (er_evm P) D (cx_caller cx) (transfer_erc20 P i cx a v)"
    "acts_as (er_evm P) D (cx_caller cx) (transfer_from P i cx a b v)"
    "acts_as (er_evm P) D (cx_caller cx) (mint P i cx a v)"
    "acts_as (er_evm P) D (cx_caller cx) (burn P i cx a v)"
proof -
  note d = precompile_runtime.acts_by_dispatch [OF assms]
  have inner: "acts_as (er_evm P) D (cx_caller cx) (approve_inner P i (cx_caller cx) spender v)"
    unfolding approve_inner_def Let_def by (intro acts_as_caller acts_intros d)
  show "acts_as (er_evm P) D (cx_caller cx) (approve P i cx spender v)"
    unfolding approve_def by (intro acts_as_bind [OF keeps_runtime(2)] acts_as_then [OF inner] keeps_intros)
  show "acts_as (er_evm P) D (cx_caller cx) (transfer_erc20 P i cx a v)"
    "acts_as (er_evm P) D (cx_caller cx) (mint P i cx a v)" "acts_as (er_evm P) D (cx_caller cx) (burn P i cx a v)"
    unfolding transfer_erc20_def mint_def burn_def by (rule acts_as_amount, intro acts_intros d)+
  have own: "acts_by (signed_call D who) (if who \<noteq> owner then try_dispatch (er_evm P) (Signed who) c
      else try_dispatch (er_evm P) (Signed owner) c')" for who owner c c'
    using d by simp
  show "acts_as (er_evm P) D (cx_caller cx) (transfer_from P i cx a b v)"
    unfolding transfer_from_def by (rule acts_as_amount, intro acts_by_bind acts_by_basic own)
qed

section \<open>A ledger of assets\<close>

text \<open>An assets pallet with the documented behaviour: functions for balances and approvals, and an administrator who mints
  and burns.\<close>

record AssetsLedger =
  ld_balance :: "nat \<times> nat list \<Rightarrow> nat"
  ld_allowance :: "nat \<times> nat list \<times> nat list \<Rightarrow> nat"
  ld_admin :: "nat list"

definition move_tokens :: "nat \<Rightarrow> nat list \<Rightarrow> nat list \<Rightarrow> nat \<Rightarrow> AssetsLedger \<Rightarrow> (AssetsLedger, unit) result" where
  "move_tokens i from to v s =
     (if ld_balance s (i, from) < v then Err ()
      else let b = (ld_balance s)((i, from) := ld_balance s (i, from) - v)
           in Ok (s\<lparr> ld_balance := b((i, to) := b (i, to) + v) \<rparr>))"

definition ledger_dispatch ::
  "nat list RawOrigin \<Rightarrow> (nat list, nat) AssetsCall \<Rightarrow> AssetsLedger \<Rightarrow> (AssetsLedger, unit) result option" where
  "ledger_dispatch origin c s = Some (case origin of
     Signed who \<Rightarrow> (case c of
         Assets_transfer i to v \<Rightarrow> move_tokens i who to v s
       | Assets_transfer_approved i owner to v \<Rightarrow>
           if ld_allowance s (i, owner, who) < v then Err ()
           else move_tokens i owner to v (s\<lparr> ld_allowance := (ld_allowance s)((i, owner, who) := ld_allowance s (i, owner, who) - v) \<rparr>)
       | Assets_approve_transfer i delegate v \<Rightarrow>
           Ok (s\<lparr> ld_allowance := (ld_allowance s)((i, who, delegate) := ld_allowance s (i, who, delegate) + v) \<rparr>)
       | Assets_cancel_approval i delegate \<Rightarrow>
           if ld_allowance s (i, who, delegate) = 0 then Err ()
           else Ok (s\<lparr> ld_allowance := (ld_allowance s)((i, who, delegate) := 0) \<rparr>)
       | Assets_mint i to v \<Rightarrow>
           if who = ld_admin s then Ok (s\<lparr> ld_balance := (ld_balance s)((i, to) := ld_balance s (i, to) + v) \<rparr>) else Err ()
       | Assets_burn i from v \<Rightarrow>
           if who = ld_admin s then Ok (s\<lparr> ld_balance := (ld_balance s)((i, from) := ld_balance s (i, from) - v) \<rparr>) else Err ())
   | _ \<Rightarrow> Err ())"

definition ledger_assets :: "(nat list, nat, AssetsLedger, nat list) AssetsPallet" where
  "ledger_assets = \<lparr> as_maybe_total_supply = (\<lambda>_ i. if i = 0 then None else Some 1000), as_total_issuance = (\<lambda>_ _. 1000),
     as_balance = (\<lambda>s i a. ld_balance s (i, a)), as_allowance = (\<lambda>s i a b. ld_allowance s (i, a, b)),
     as_name = (\<lambda>_ _. []), as_symbol = (\<lambda>_ _. []), as_decimals = (\<lambda>_ _. 18), as_minimum_balance = (\<lambda>_ _. 1), as_unlookup = id \<rparr>"

interpretation ledger_assets: assets_pallet ledger_assets ledger_dispatch
  by unfold_locales
    (auto simp: ledger_assets_def ledger_dispatch_def move_tokens_def Let_def fun_eq_iff split: if_splits)

definition ledger_erc20 :: "(nat, AssetsLedger, unit, nat list, nat list, nat) Erc20AssetsPrecompileSet" where
  "ledger_erc20 = \<lparr> er_evm = metered (\<lambda>_ address. address) ledger_dispatch, er_pallet = ledger_assets,
     er_address_to_asset_id = address_to_asset_id, er_db_read_gas_cost = 1, er_string_limit = 50, er_extra_len = 0 \<rparr>"

lemma ledger_erc20_ok: "precompile_runtime (er_evm ledger_erc20) ledger_dispatch" "assets_pallet (er_pallet ledger_erc20) ledger_dispatch"
  using metered.precompile_runtime_axioms ledger_assets.assets_pallet_axioms by (simp_all add: ledger_erc20_def)

definition some_ledger :: AssetsLedger where
  "some_ledger = \<lparr> ld_balance = (\<lambda>_. 100), ld_allowance = (\<lambda>_. 40), ld_admin = [0] \<rparr>"

definition some_context :: EvmContext where
  "some_context = \<lparr> cx_caller = [1], cx_address = asset_id_to_address 7 \<rparr>"

section \<open>Properties\<close>

text \<open>C25: When \<open>approve\<close> succeeds, the spender may spend exactly the value, or the largest balance when the value does not fit a
  balance, whatever was approved before; nothing else that anyone has approved and no balance has changed, and one log
  announces the value as it was given.\<close>

theorem approve_sets_allowance:
  assumes "precompile_runtime (er_evm P) D" and "assets_pallet (er_pallet P) D"
    and "approve P i cx spender v (h, s) = Some (Ok (r, h', s'))"
  shows "let owner = ev_into_account_id (er_evm P) s (cx_caller cx); delegate = ev_into_account_id (er_evm P) s spender;
      A = er_pallet P in
    as_allowance A s' i owner delegate = min v u128_max
    \<and> (\<forall>j x y. (j, x, y) \<noteq> (i, owner, delegate) \<longrightarrow> as_allowance A s' j x y = as_allowance A s j x y)
    \<and> as_balance A s' = as_balance A s
    \<and> hd_logs h' = hd_logs h @ [log3 (cx_address cx) SELECTOR_LOG_APPROVAL (cx_caller cx) spender v]"
proof -
  let ?owner = "ev_into_account_id (er_evm P) s (cx_caller cx)" and ?delegate = "ev_into_account_id (er_evm P) s spender"
  let ?A = "er_pallet P"
  note d = precompile_runtime.dispatched [OF assms(1)]
  from assms(3) obtain s1 where logs: "hd_logs h' = hd_logs h @ [log3 (cx_address cx) SELECTOR_LOG_APPROVAL (cx_caller cx) spender v]"
    and first: "as_allowance ?A s i ?owner ?delegate \<noteq> 0 \<and> D (Signed ?owner) (Assets_cancel_approval i (as_unlookup ?A ?delegate)) s = Some (Ok s1)
        \<or> as_allowance ?A s i ?owner ?delegate = 0 \<and> s1 = s"
    and second: "D (Signed ?owner) (Assets_approve_transfer i (as_unlookup ?A ?delegate) (min v u128_max)) s1 = Some (Ok s')"
    by (auto simp: approve_def approve_inner_def saturated_into_def Let_def elim!: evm_bind_OkE dest!: recorded_Ok d split: if_splits)
  have s1: "as_allowance ?A s1 j x y = (if (j, x, y) = (i, ?owner, ?delegate) then 0 else as_allowance ?A s j x y)"
      "as_balance ?A s1 = as_balance ?A s" for j x y
    using first assets_pallet.cancel_removes [OF assms(2)] assets_pallet.approvals_keep_balances(2) [OF assms(2)] by auto
  show ?thesis
    using assets_pallet.approve_adds [OF assms(2) second] assets_pallet.approvals_keep_balances(1) [OF assms(2) second] s1 logs
    by (auto simp: Let_def)
qed

theorem approve_sets_allowance_witness:
  "\<exists>r h' s'. approve ledger_erc20 7 some_context [2] (2 ^ 200) (\<lparr> hd_gas = 1000, hd_logs = [] \<rparr>, some_ledger) = Some (Ok (r, h', s'))
     \<and> ld_allowance s' (7, [1], [2]) = u128_max \<and> map lg_data (hd_logs h') = [2 ^ 200]"
proof -
  let ?run = "approve ledger_erc20 7 some_context [2] (2 ^ 200) (\<lparr> hd_gas = 1000, hd_logs = [] \<rparr>, some_ledger)"
  have "case ?run of Some (Ok _) \<Rightarrow> True | _ \<Rightarrow> False" by code_simp
  then obtain r h' s' where run: "?run = Some (Ok (r, h', s'))" by (auto split: option.splits result.splits)
  have "u128_max \<le> 2 ^ 200" by (simp add: u128_max_def)
  with approve_sets_allowance [OF ledger_erc20_ok run] run show ?thesis
    by (auto simp: Let_def ledger_erc20_def ledger_assets_def metered_def some_context_def log3_def)
qed

text \<open>C24: A successful \<open>transferFrom\<close> has authority: the tokens are the caller's own, or their owner had approved at least the
  value to the caller, and the approval has fallen by exactly the value. Nothing else that anyone has approved has
  changed, and nobody but the owner has lost tokens.\<close>

theorem transfer_from_authorised:
  assumes "precompile_runtime (er_evm P) D" and "assets_pallet (er_pallet P) D"
    and "transfer_from P i cx from to v (h, s) = Some (Ok (r, h', s'))"
  shows "let caller = ev_into_account_id (er_evm P) s (cx_caller cx); owner = ev_into_account_id (er_evm P) s from; A = er_pallet P in
    (\<forall>j x y. as_allowance A s' j x y + (if (j, x, y) = (i, owner, caller) \<and> caller \<noteq> owner then v else 0) = as_allowance A s j x y)
    \<and> (caller = owner \<or> v \<le> as_allowance A s i owner caller)
    \<and> (\<forall>j x. x \<noteq> owner \<longrightarrow> as_balance A s j x \<le> as_balance A s' j x)
    \<and> v \<le> u128_max \<and> hd_logs h' = hd_logs h @ [log3 (cx_address cx) SELECTOR_LOG_TRANSFER from to v]"
proof -
  let ?caller = "ev_into_account_id (er_evm P) s (cx_caller cx)" and ?owner = "ev_into_account_id (er_evm P) s from"
  let ?A = "er_pallet P" and ?to = "ev_into_account_id (er_evm P) s to"
  note d = precompile_runtime.dispatched [OF assms(1)]
  note A = assets_pallet.approved_used [OF assms(2)] assets_pallet.approved_move [OF assms(2)]
    assets_pallet.transfer_keeps [OF assms(2)] assets_pallet.balances_move [OF assms(2)]
  from assms(3) have v: "v \<le> u128_max" "hd_logs h' = hd_logs h @ [log3 (cx_address cx) SELECTOR_LOG_TRANSFER from to v]"
    and call: "if ?caller \<noteq> ?owner
      then D (Signed ?caller) (Assets_transfer_approved i (as_unlookup ?A ?owner) (as_unlookup ?A ?to) v) s = Some (Ok s')
      else D (Signed ?owner) (Assets_transfer i (as_unlookup ?A ?to) v) s = Some (Ok s')"
    by (auto simp: transfer_from_def elim!: evm_bind_OkE dest!: recorded_Ok d split: if_splits)
  show ?thesis
  proof (cases "?caller = ?owner")
    case True
    with call have "D (Signed ?owner) (Assets_transfer i (as_unlookup ?A ?to) v) s = Some (Ok s')" by simp
    from A(3,4) [OF this] v True show ?thesis by (simp add: Let_def)
  next
    case False
    with call have c: "D (Signed ?caller) (Assets_transfer_approved i (as_unlookup ?A ?owner) (as_unlookup ?A ?to) v) s = Some (Ok s')" by simp
    have "v \<le> as_allowance ?A s i ?owner ?caller" using A(1) [OF c, of i ?owner ?caller] by simp
    with A(1,2) [OF c] v False show ?thesis by (auto simp: Let_def)
  qed
qed

theorem transfer_from_authorised_witness:
  "\<exists>r h' s'. transfer_from ledger_erc20 7 some_context [2] [3] 30 (\<lparr> hd_gas = 1000, hd_logs = [] \<rparr>, some_ledger) = Some (Ok (r, h', s'))
     \<and> ld_allowance s' (7, [2], [1]) = 10"
proof -
  let ?run = "transfer_from ledger_erc20 7 some_context [2] [3] 30 (\<lparr> hd_gas = 1000, hd_logs = [] \<rparr>, some_ledger)"
  have "case ?run of Some (Ok _) \<Rightarrow> True | _ \<Rightarrow> False" by code_simp
  then obtain r h' s' where run: "?run = Some (Ok (r, h', s'))" by (auto split: option.splits result.splits)
  have "\<forall>j x y. ld_allowance s' (j, x, y) + (if (j, x, y) = (7, [2], [1]) then 30 else 0) = ld_allowance some_ledger (j, x, y)"
    using transfer_from_authorised [OF ledger_erc20_ok run]
    by (simp add: Let_def ledger_erc20_def ledger_assets_def metered_def some_context_def)
  from this [rule_format, of 7 "[2]" "[1]"] run show ?thesis by (simp add: some_ledger_def)
qed

end
