(* ===== verification/XcmPrecompile.thy ===== *)
theory XcmPrecompile
  imports Precompile "HOL-Library.Code_Target_Nat"
begin

text \<open>
  The precompile for cross-chain transfers, \<open>src/precompiles/xcm/src/lib.rs\<close>. Locations, junctions and the canonical order of
  assets belong to the XCM crates, the calls to \<open>orml_xtokens\<close> and \<open>pallet_xcm\<close>: they are the record \<open>XcmLib\<close> and the calls
  the runtime dispatches. An asset is a location with an amount. Every function checks its arguments, builds one call and
  dispatches it in the name of the caller.
\<close>

section \<open>Types\<close>

record ('loc, 'j, 'm) XcmLib =
  xl_parent :: 'loc
  xl_here :: 'loc
  xl_sibling :: "nat \<Rightarrow> 'loc"
  xl_account_id32 :: "nat list \<Rightarrow> 'j"
  xl_account_key20 :: "nat list \<Rightarrow> 'j"
  xl_push_interior :: "'j \<Rightarrow> 'loc \<Rightarrow> 'loc option"
  xl_reanchored :: "'loc \<times> nat \<Rightarrow> 'loc \<Rightarrow> ('loc \<times> nat) option"
  xl_assets :: "('loc \<times> nat) list \<Rightarrow> ('loc \<times> nat) list"
  xl_from_sorted_and_deduplicated :: "('loc \<times> nat) list \<Rightarrow> ('loc \<times> nat) list option"
  xl_decode :: "nat list \<Rightarrow> 'm option"

datatype WeightLimit = Unlimited | Limited Weight

datatype OriginKind = SovereignAccount

datatype 'loc Instruction =
  WithdrawAsset "'loc \<times> nat"
| BuyExecution "'loc \<times> nat" WeightLimit
| Transact OriginKind Weight "nat list"

datatype ('loc, 'm) Message = Instructions "'loc Instruction list" | Decoded 'm

datatype ('loc, 'id, 'm) XcmCall =
  Xtokens_transfer 'id nat 'loc WeightLimit
| Xtokens_transfer_with_fee 'id nat nat 'loc WeightLimit
| Xtokens_transfer_multiasset "'loc \<times> nat" 'loc WeightLimit
| Xtokens_transfer_multiasset_with_fee "'loc \<times> nat" "'loc \<times> nat" 'loc WeightLimit
| Xtokens_transfer_multicurrencies "('id \<times> nat) list" nat 'loc WeightLimit
| Xtokens_transfer_multiassets "('loc \<times> nat) list" nat 'loc WeightLimit
| Xcm_send 'loc "('loc, 'm) Message"

record ('g, 's, 'e, 'acc, 'loc, 'j, 'm, 'id) XcmPrecompile =
  xp_evm :: "('g, 's, 'e, 'acc, ('loc, 'id, 'm) XcmCall) EvmRuntime"
  xp_lib :: "('loc, 'j, 'm) XcmLib"
  xp_address_to_asset_id :: "H160 \<Rightarrow> 'id option"
  xp_convert_back :: "'s \<Rightarrow> 'id \<Rightarrow> 'loc option"









section \<open>Shared steps\<close>

text \<open>\<open>filter_map\<close>, the collection of a vector of results, and the dispatch of the call for the caller.\<close>

definition filter_map :: "('a \<Rightarrow> 'b option) \<Rightarrow> 'a list \<Rightarrow> 'b list" where
  "filter_map f xs = map (\<lambda>x. the (f x)) (filter (\<lambda>x. f x \<noteq> None) xs)"

primrec collect_results :: "('a, 'e) result list \<Rightarrow> ('a list, 'e) result" where
  "collect_results [] = Ok []"
| "collect_results (r # rs) = and_then r (\<lambda>a. and_then (collect_results rs) (\<lambda>as. Ok (a # as)))"

definition try_u128 :: "string \<Rightarrow> nat \<Rightarrow> (nat, 'e PrecompileFailure) result" where
  "try_u128 message v = try_into u128_max v (revert message)"

definition try_u32 :: "string \<Rightarrow> nat \<Rightarrow> (nat, 'e PrecompileFailure) result" where
  "try_u32 message v = try_into u32_max v (revert message)"

definition xcm_dispatch ::
  "('g, 's, 'e, 'acc, 'loc, 'j, 'm, 'id) XcmPrecompile \<Rightarrow> H160 \<Rightarrow> ('loc, 'id, 'm) XcmCall \<Rightarrow> (bool, 'g, 's, 'e) evm" where
  "xcm_dispatch P caller call =
     evm_bind (into_account (xp_evm P) caller) (\<lambda>origin.
     evm_bind (try_dispatch (xp_evm P) (Signed origin) call) (\<lambda>_. evm_return True))"

section \<open>The v1 interface\<close>

definition destination_of :: "('loc, 'j, 'm) XcmLib \<Rightarrow> bool \<Rightarrow> nat \<Rightarrow> 'loc" where
  "destination_of X is_relay parachain_id = (if is_relay then xl_parent X else xl_sibling X parachain_id)"

definition assets_withdraw_v1_internal ::
  "('g, 's, 'e, 'acc, 'loc, 'j, 'm, 'id) XcmPrecompile \<Rightarrow> H160 \<Rightarrow> H160 list \<Rightarrow> nat list \<Rightarrow> 'j \<Rightarrow> bool \<Rightarrow> nat \<Rightarrow> nat \<Rightarrow> (bool, 'g, 's, 'e) evm" where
  "assets_withdraw_v1_internal P caller assets amounts beneficiary is_relay parachain_id fee_index =
     evm_bind evm_get (\<lambda>s.
     let assets = filter_map (\<lambda>address. Option.bind (xp_address_to_asset_id P address) (xp_convert_back P s)) assets in
     evm_bind (evm_try (collect_results (map (try_u128 ''error converting amounts, maybe value too large'') amounts))) (\<lambda>amounts.
     if length assets \<noteq> length amounts \<or> assets = [] then evm_fail (revert ''Assets resolution failure.'') else
     evm_bind (evm_try (try_u32 ''error converting parachain_id, maybe value too large'' parachain_id)) (\<lambda>parachain_id.
     evm_bind (evm_try (try_u32 ''error converting fee_index, maybe value too large'' fee_index)) (\<lambda>fee_item.
     evm_bind (evm_try (ok_or (revert ''error building destination multilocation'')
       (xl_push_interior (xp_lib P) beneficiary (destination_of (xp_lib P) is_relay parachain_id)))) (\<lambda>destination.
     let assets = zip assets amounts in
     xcm_dispatch P caller (Xtokens_transfer_multiassets (xl_assets (xp_lib P) assets) fee_item destination Unlimited))))))"







section \<open>The v2 interface\<close>








section \<open>The precompile as a whole\<close>




section \<open>Lemmas\<close>

lemma filter_map_append: "filter_map f (xs @ ys) = filter_map f xs @ filter_map f ys"
  by (simp add: filter_map_def)

lemma filter_map_None: "f x = None \<Longrightarrow> filter_map f (x # xs) = filter_map f xs"
  by (simp add: filter_map_def)


lemma try_width_Ok [simp]:
  "try_u128 m v = Ok w \<longleftrightarrow> w = v \<and> v \<le> u128_max" "try_u32 m v = Ok w \<longleftrightarrow> w = v \<and> v \<le> u32_max"
  by (auto simp: try_u128_def try_u32_def)











section \<open>Properties\<close>


text \<open>An asset whose address does not resolve is dropped from the list before the list is compared with the amounts: the
  transfer does what it does without that asset, so two assets with one amount are accepted when one of the two is
  unknown, although the check is meant to ensure that every asset resolves and has its amount.\<close>

lemma withdraw_drops_unresolved:
  assumes "Option.bind (xp_address_to_asset_id P bad) (xp_convert_back P s) = None"
  shows "assets_withdraw_v1_internal P caller (xs @ bad # ys) amounts b rel para fee (h, s) =
    assets_withdraw_v1_internal P caller (xs @ ys) amounts b rel para fee (h, s)"
proof -
  let ?f = "\<lambda>address. Option.bind (xp_address_to_asset_id P address) (xp_convert_back P s)"
  have eq: "filter_map ?f (xs @ bad # ys) = filter_map ?f (xs @ ys)" by (simp add: filter_map_append filter_map_None assms)
  show ?thesis unfolding assets_withdraw_v1_internal_def evm_get_bind eq ..
qed

text \<open>A library in which a location is a list of numbers, and a runtime that records the calls.\<close>

definition list_xcm :: "(nat list, nat list, nat list) XcmLib" where
  "list_xcm = \<lparr> xl_parent = [1], xl_here = [], xl_sibling = (\<lambda>n. [1, n]), xl_account_id32 = id, xl_account_key20 = id,
     xl_push_interior = (\<lambda>j l. if length l < 8 then Some (l @ j) else None), xl_reanchored = (\<lambda>a _. Some a),
     xl_assets = id, xl_from_sorted_and_deduplicated = Some, xl_decode = Some \<rparr>"

definition recording_xcm ::
  "(nat, (nat list, nat, nat list) XcmCall list, unit, nat list, nat list, nat list, nat list, nat) XcmPrecompile" where
  "recording_xcm = \<lparr> xp_evm = metered (\<lambda>_ a. a) (\<lambda>_ call s. Some (Ok (s @ [call]))), xp_lib = list_xcm,
     xp_address_to_asset_id = (\<lambda>a. if length a = 1 then Some (hd a) else None), xp_convert_back = (\<lambda>_ i. if i < 10 then Some [1, i] else None) \<rparr>"



lemma withdraw_drops_unresolved_example:
  "assets_withdraw_v1_internal recording_xcm [5] [[12], [3]] [40] [9] False 2000 0 (\<lparr> hd_gas = 9, hd_logs = [] \<rparr>, []) =
     assets_withdraw_v1_internal recording_xcm [5] [[3]] [40] [9] False 2000 0 (\<lparr> hd_gas = 9, hd_logs = [] \<rparr>, [])
   \<and> (case assets_withdraw_v1_internal recording_xcm [5] [[12], [3]] [40] [9] False 2000 0 (\<lparr> hd_gas = 9, hd_logs = [] \<rparr>, []) of
        Some (Ok (r, _, s)) \<Rightarrow> r \<and> s = [Xtokens_transfer_multiassets [([1, 3], 40)] 0 [1, 2000, 9] Unlimited] | _ \<Rightarrow> False)"
proof
  have "Option.bind (xp_address_to_asset_id recording_xcm [12]) (xp_convert_back recording_xcm []) = None"
    by (simp add: recording_xcm_def)
  from withdraw_drops_unresolved [OF this, of _ "[]" "[[3]]"]
  show "assets_withdraw_v1_internal recording_xcm [5] [[12], [3]] [40] [9] False 2000 0 (\<lparr> hd_gas = 9, hd_logs = [] \<rparr>, []) =
     assets_withdraw_v1_internal recording_xcm [5] [[3]] [40] [9] False 2000 0 (\<lparr> hd_gas = 9, hd_logs = [] \<rparr>, [])" by simp
qed code_simp

end
