(* ===== verification/Treasury.thy ===== *)
theory Treasury
  imports PerThings Currency
begin

text \<open>
  The pallet \<open>src/vendor/treasury/src/lib.rs\<close>, which both treasuries of the runtime use: proposals with bonds, their
  approval and the payments of a spend period out of the pot, and the approved spends of assets with their payouts.
  The currency is the interface of \<open>Currency\<close>; origins, lookups, the paymaster, the conversion of balances and the handlers of
  slashed and burnt funds are functions of the configuration, with what the pallet relies on as the locale \<open>treasury\<close>. The
  spending context of \<open>with_context\<close>, which exists while a call is dispatched, is an argument of the calls that use it, and
  they return it also when they fail: it is not rolled back. Weights are not modelled.
\<close>

section \<open>Types\<close>

record 'acc Proposal =
  pr_proposer :: 'acc
  pr_value :: nat
  pr_beneficiary :: 'acc
  pr_bond :: nat

datatype 'id PaymentState = Pending | Attempted 'id | Failed

text \<open>What the paymaster says of a payment.\<close>

datatype PaymentStatus = InProgress | UnknownPayment | Failure | Success

record ('kind, 'ben, 'id) SpendStatus =
  ss_asset_kind :: 'kind
  ss_amount :: nat
  ss_beneficiary :: 'ben
  ss_valid_from :: nat
  ss_expire_at :: nat
  ss_status :: "'id PaymentState"

datatype TreasuryError =
    InsufficientProposersBalance | InvalidIndex | TooManyApprovals | InsufficientPermission | ProposalNotApproved
  | FailedToConvertBalance | SpendExpired | EarlyPayout | AlreadyAttempted | PayoutError | NotAttempted | Inconclusive

datatype ('acc, 'kind, 'ben, 'id) TreasuryEvent =
    Proposed nat | Spending nat | Awarded nat nat 'acc | Rejected nat nat | Burnt nat | Rollover nat | Deposit nat
  | SpendApproved nat nat 'acc | UpdatedInactive nat nat | AssetSpendApproved nat 'kind nat 'ben nat nat
  | AssetSpendVoided nat | Paid nat 'id | PaymentFailed nat 'id | SpendProcessed nat

record ('acc, 'kind, 'ben, 'id, 'bank) TreasuryStorage =
  ts_proposal_count :: nat
  ts_proposals :: "(nat, 'acc Proposal) smap"
  ts_deactivated :: nat
  ts_approvals :: "nat list"
  ts_spend_count :: nat
  ts_spends :: "(nat, ('kind, 'ben, 'id) SpendStatus) smap"
  ts_bank :: 'bank
  ts_events :: "('acc, 'kind, 'ben, 'id) TreasuryEvent list"

text \<open>The variables that \<open>spend_funds\<close> passes to the hook for other pallets.\<close>

record SpendVars =
  sv_budget_remaining :: nat
  sv_imbalance :: nat
  sv_missed_any :: bool

record ('acc, 'src, 'bsrc, 'kind, 'ben, 'id, 'bank) TreasuryConfig =
  tc_currency :: "('acc, 'bank) ReservableCurrency"
  tc_imbalances :: "('acc, 'bank) ImbalanceCurrency"
  tc_approve_origin :: "'acc RawOrigin \<Rightarrow> bool"
  tc_reject_origin :: "'acc RawOrigin \<Rightarrow> bool"
  tc_on_slash :: "nat \<Rightarrow> ('acc, 'kind, 'ben, 'id, 'bank) TreasuryStorage \<Rightarrow> ('acc, 'kind, 'ben, 'id, 'bank) TreasuryStorage"
  tc_permill :: PerThing
  tc_proposal_bond :: nat
  tc_proposal_bond_minimum :: nat
  tc_proposal_bond_maximum :: "nat option"
  tc_spend_period :: nat
  tc_burn :: nat
  tc_account_id :: 'acc
  tc_burn_destination :: "nat \<Rightarrow> 'bank \<Rightarrow> 'bank"
  tc_spend_funds :: "SpendVars \<Rightarrow> 'bank \<Rightarrow> SpendVars \<times> 'bank"
  tc_max_approvals :: nat
  tc_spend_origin :: "'acc RawOrigin \<Rightarrow> nat option"
  tc_lookup :: "'src \<Rightarrow> 'acc option"
  tc_beneficiary_lookup :: "'bsrc \<Rightarrow> 'ben option"
  tc_pay :: "'ben \<Rightarrow> 'kind \<Rightarrow> nat \<Rightarrow> 'bank \<Rightarrow> ('id \<times> 'bank) option"
  tc_check_payment :: "'id \<Rightarrow> 'bank \<Rightarrow> PaymentStatus"
  tc_from_asset_balance :: "nat \<Rightarrow> 'kind \<Rightarrow> nat option"
  tc_payout_period :: nat

type_synonym ('acc, 'kind, 'ben, 'id, 'bank) TreasuryResult =
  "(('acc, 'kind, 'ben, 'id, 'bank) TreasuryStorage, TreasuryError dispatch_error) result"

definition treasury_event ::
  "('acc, 'kind, 'ben, 'id) TreasuryEvent \<Rightarrow> ('acc, 'kind, 'ben, 'id, 'bank) TreasuryStorage \<Rightarrow> ('acc, 'kind, 'ben, 'id, 'bank) TreasuryStorage" where
  "treasury_event e s = s\<lparr> ts_events := ts_events s @ [e] \<rparr>"

text \<open>The operator \<open>+ 1\<close> on an index.\<close>

definition next_index :: "nat \<Rightarrow> nat" where
  "next_index c = (c + 1) mod (u32_max + 1)"

section \<open>Proposals\<close>

definition calculate_bond :: "('acc, 'src, 'bsrc, 'kind, 'ben, 'id, 'bank) TreasuryConfig \<Rightarrow> nat \<Rightarrow> nat" where
  "calculate_bond cfg v =
     (let r = max (tc_proposal_bond_minimum cfg) (pt_mul (tc_permill cfg) (tc_proposal_bond cfg) v)
      in case tc_proposal_bond_maximum cfg of None \<Rightarrow> r | Some m \<Rightarrow> min r m)"

definition propose_spend ::
  "('acc, 'src, 'bsrc, 'kind, 'ben, 'id, 'bank) TreasuryConfig \<Rightarrow> 'acc RawOrigin \<Rightarrow> nat \<Rightarrow> 'src \<Rightarrow>
   ('acc, 'kind, 'ben, 'id, 'bank) TreasuryStorage \<Rightarrow> ('acc, 'kind, 'ben, 'id, 'bank) TreasuryResult" where
  "propose_spend cfg origin v beneficiary s =
     and_then (ensure_signed origin) (\<lambda>proposer.
     and_then (ok_or CannotLookup (tc_lookup cfg beneficiary)) (\<lambda>beneficiary.
     let bond = calculate_bond cfg v in
     and_then (ok_or (Module InsufficientProposersBalance) (rc_reserve (tc_currency cfg) (ts_bank s) proposer bond)) (\<lambda>bank.
     let c = ts_proposal_count s in
     Ok (treasury_event (Proposed c)
       (s\<lparr> ts_bank := bank, ts_proposal_count := next_index c,
           ts_proposals := sm_put (ts_proposals s) c
             \<lparr> pr_proposer = proposer, pr_value = v, pr_beneficiary = beneficiary, pr_bond = bond \<rparr> \<rparr>)))))"

definition reject_proposal ::
  "('acc, 'src, 'bsrc, 'kind, 'ben, 'id, 'bank) TreasuryConfig \<Rightarrow> 'acc RawOrigin \<Rightarrow> nat \<Rightarrow>
   ('acc, 'kind, 'ben, 'id, 'bank) TreasuryStorage \<Rightarrow> ('acc, 'kind, 'ben, 'id, 'bank) TreasuryResult" where
  "reject_proposal cfg origin proposal_id s =
     and_then (ensure_origin (tc_reject_origin cfg) origin) (\<lambda>_.
     and_then (ok_or (Module InvalidIndex) (sm_get (ts_proposals s) proposal_id)) (\<lambda>proposal.
     let v = pr_bond proposal;
         (bank, imbalance) = rc_slash_reserved (tc_currency cfg) (ts_bank s) (pr_proposer proposal) v;
         s = s\<lparr> ts_proposals := sm_remove (ts_proposals s) proposal_id, ts_bank := bank \<rparr>;
         s = tc_on_slash cfg imbalance s
     in Ok (treasury_event (Rejected proposal_id v) s)))"

text \<open>\<open>try_append\<close> on the bounded vector of approvals.\<close>

definition try_append_approval ::
  "('acc, 'src, 'bsrc, 'kind, 'ben, 'id, 'bank) TreasuryConfig \<Rightarrow> nat \<Rightarrow> nat list \<Rightarrow> (nat list, TreasuryError dispatch_error) result" where
  "try_append_approval cfg proposal_id approvals =
     (if length approvals < tc_max_approvals cfg then Ok (approvals @ [proposal_id]) else Err (Module TooManyApprovals))"

definition approve_proposal ::
  "('acc, 'src, 'bsrc, 'kind, 'ben, 'id, 'bank) TreasuryConfig \<Rightarrow> 'acc RawOrigin \<Rightarrow> nat \<Rightarrow>
   ('acc, 'kind, 'ben, 'id, 'bank) TreasuryStorage \<Rightarrow> ('acc, 'kind, 'ben, 'id, 'bank) TreasuryResult" where
  "approve_proposal cfg origin proposal_id s =
     and_then (ensure_origin (tc_approve_origin cfg) origin) (\<lambda>_.
     and_then (ensure (sm_contains (ts_proposals s) proposal_id) (Module InvalidIndex)) (\<lambda>_.
     and_then (try_append_approval cfg proposal_id (ts_approvals s)) (\<lambda>approvals.
     Ok (s\<lparr> ts_approvals := approvals \<rparr>))))"

definition remove_approval ::
  "('acc, 'src, 'bsrc, 'kind, 'ben, 'id, 'bank) TreasuryConfig \<Rightarrow> 'acc RawOrigin \<Rightarrow> nat \<Rightarrow>
   ('acc, 'kind, 'ben, 'id, 'bank) TreasuryStorage \<Rightarrow> ('acc, 'kind, 'ben, 'id, 'bank) TreasuryResult" where
  "remove_approval cfg origin proposal_id s =
     and_then (ensure_origin (tc_reject_origin cfg) origin) (\<lambda>_.
     and_then (ensure (proposal_id \<in> set (ts_approvals s)) (Module ProposalNotApproved)) (\<lambda>_.
     Ok (s\<lparr> ts_approvals := remove1 proposal_id (ts_approvals s) \<rparr>)))"

section \<open>Spending within a context\<close>

text \<open>What the calls of one context have spent, by the limit of their origin. Without a context there is no limit on
  the sum.\<close>

type_synonym SpendContext = "(nat, nat) smap option"

definition spend_in_context :: "nat \<Rightarrow> nat \<Rightarrow> SpendContext \<Rightarrow> SpendContext \<times> (unit, TreasuryError dispatch_error) result" where
  "spend_in_context max_amount amount ctx =
     (case ctx of None \<Rightarrow> (None, Ok ())
      | Some context \<Rightarrow>
          let spend = sm_get_or 0 context max_amount in
          if spend + amount > u128_max \<or> spend + amount > max_amount
          then (Some (sm_put context max_amount spend), Err (Module InsufficientPermission))
          else (Some (sm_put context max_amount (u128_add spend amount)), Ok ()))"

definition spend_local ::
  "('acc, 'src, 'bsrc, 'kind, 'ben, 'id, 'bank) TreasuryConfig \<Rightarrow> 'acc RawOrigin \<Rightarrow> nat \<Rightarrow> 'src \<Rightarrow> SpendContext \<Rightarrow>
   ('acc, 'kind, 'ben, 'id, 'bank) TreasuryStorage \<Rightarrow> SpendContext \<times> ('acc, 'kind, 'ben, 'id, 'bank) TreasuryResult" where
  "spend_local cfg origin amount beneficiary ctx s =
     (case tc_spend_origin cfg origin of None \<Rightarrow> (ctx, Err BadOrigin)
      | Some max_amount \<Rightarrow>
          if amount > max_amount then (ctx, Err (Module InsufficientPermission))
          else let (ctx, spent) = spend_in_context max_amount amount ctx in
            (ctx,
             and_then spent (\<lambda>_.
             and_then (ok_or CannotLookup (tc_lookup cfg beneficiary)) (\<lambda>beneficiary.
             let proposal_index = ts_proposal_count s in
             and_then (try_append_approval cfg proposal_index (ts_approvals s)) (\<lambda>approvals.
             Ok (treasury_event (SpendApproved proposal_index amount beneficiary)
               (s\<lparr> ts_approvals := approvals,
                   ts_proposals := sm_put (ts_proposals s) proposal_index
                     \<lparr> pr_proposer = beneficiary, pr_value = amount, pr_beneficiary = beneficiary, pr_bond = 0 \<rparr>,
                   ts_proposal_count := next_index proposal_index \<rparr>)))))))"

definition treasury_spend ::
  "('acc, 'src, 'bsrc, 'kind, 'ben, 'id, 'bank) TreasuryConfig \<Rightarrow> 'acc RawOrigin \<Rightarrow> 'kind \<Rightarrow> nat \<Rightarrow> 'bsrc \<Rightarrow> nat option \<Rightarrow> nat \<Rightarrow> SpendContext \<Rightarrow>
   ('acc, 'kind, 'ben, 'id, 'bank) TreasuryStorage \<Rightarrow> SpendContext \<times> ('acc, 'kind, 'ben, 'id, 'bank) TreasuryResult" where
  "treasury_spend cfg origin asset_kind amount beneficiary valid_from now ctx s =
     (case tc_spend_origin cfg origin of None \<Rightarrow> (ctx, Err BadOrigin)
      | Some max_amount \<Rightarrow>
     (case tc_beneficiary_lookup cfg beneficiary of None \<Rightarrow> (ctx, Err CannotLookup)
      | Some beneficiary \<Rightarrow>
          let valid_from = (case valid_from of None \<Rightarrow> now | Some v \<Rightarrow> v);
              expire_at = u32_add valid_from (tc_payout_period cfg)
          in if \<not> expire_at > now then (ctx, Err (Module SpendExpired))
          else (case tc_from_asset_balance cfg amount asset_kind of None \<Rightarrow> (ctx, Err (Module FailedToConvertBalance))
            | Some native_amount \<Rightarrow>
              if native_amount > max_amount then (ctx, Err (Module InsufficientPermission))
              else let (ctx, spent) = spend_in_context max_amount native_amount ctx in
                (ctx,
                 and_then spent (\<lambda>_.
                 let index = ts_spend_count s in
                 Ok (treasury_event (AssetSpendApproved index asset_kind amount beneficiary valid_from expire_at)
                   (s\<lparr> ts_spends := sm_put (ts_spends s) index
                         \<lparr> ss_asset_kind = asset_kind, ss_amount = amount, ss_beneficiary = beneficiary,
                           ss_valid_from = valid_from, ss_expire_at = expire_at, ss_status = Pending \<rparr>,
                       ts_spend_count := next_index index \<rparr>)))))))"

section \<open>Payouts of approved spends\<close>

definition treasury_payout ::
  "('acc, 'src, 'bsrc, 'kind, 'ben, 'id, 'bank) TreasuryConfig \<Rightarrow> 'acc RawOrigin \<Rightarrow> nat \<Rightarrow> nat \<Rightarrow>
   ('acc, 'kind, 'ben, 'id, 'bank) TreasuryStorage \<Rightarrow> ('acc, 'kind, 'ben, 'id, 'bank) TreasuryResult" where
  "treasury_payout cfg origin index now s =
     and_then (ensure_signed origin) (\<lambda>_.
     and_then (ok_or (Module InvalidIndex) (sm_get (ts_spends s) index)) (\<lambda>spend.
     and_then (ensure (now \<ge> ss_valid_from spend) (Module EarlyPayout)) (\<lambda>_.
     and_then (ensure (ss_expire_at spend > now) (Module SpendExpired)) (\<lambda>_.
     and_then (ensure (case ss_status spend of Attempted _ \<Rightarrow> False | _ \<Rightarrow> True) (Module AlreadyAttempted)) (\<lambda>_.
     and_then (ok_or (Module PayoutError) (tc_pay cfg (ss_beneficiary spend) (ss_asset_kind spend) (ss_amount spend) (ts_bank s))) (\<lambda>(id, bank).
     Ok (treasury_event (Paid index id)
       (s\<lparr> ts_spends := sm_put (ts_spends s) index (spend\<lparr> ss_status := Attempted id \<rparr>), ts_bank := bank \<rparr>))))))))"

text \<open>\<open>check_status\<close>: whether the caller pays a fee, and the new state.\<close>

definition check_status ::
  "('acc, 'src, 'bsrc, 'kind, 'ben, 'id, 'bank) TreasuryConfig \<Rightarrow> 'acc RawOrigin \<Rightarrow> nat \<Rightarrow> nat \<Rightarrow>
   ('acc, 'kind, 'ben, 'id, 'bank) TreasuryStorage \<Rightarrow> (bool \<times> ('acc, 'kind, 'ben, 'id, 'bank) TreasuryStorage, TreasuryError dispatch_error) result" where
  "check_status cfg origin index now s =
     and_then (ensure_signed origin) (\<lambda>_.
     and_then (ok_or (Module InvalidIndex) (sm_get (ts_spends s) index)) (\<lambda>spend.
     let processed = treasury_event (SpendProcessed index) (s\<lparr> ts_spends := sm_remove (ts_spends s) index \<rparr>) in
     if now > ss_expire_at spend \<and> (case ss_status spend of Attempted _ \<Rightarrow> False | _ \<Rightarrow> True)
     then Ok (False, processed)
     else (case ss_status spend of
         Attempted payment_id \<Rightarrow>
           (case tc_check_payment cfg payment_id (ts_bank s) of
              Failure \<Rightarrow> Ok (True, treasury_event (PaymentFailed index payment_id)
                (s\<lparr> ts_spends := sm_put (ts_spends s) index (spend\<lparr> ss_status := Failed \<rparr>) \<rparr>))
            | Success \<Rightarrow> Ok (False, processed)
            | UnknownPayment \<Rightarrow> Ok (False, processed)
            | InProgress \<Rightarrow> Err (Module Inconclusive))
       | _ \<Rightarrow> Err (Module NotAttempted))))"

definition void_spend ::
  "('acc, 'src, 'bsrc, 'kind, 'ben, 'id, 'bank) TreasuryConfig \<Rightarrow> 'acc RawOrigin \<Rightarrow> nat \<Rightarrow>
   ('acc, 'kind, 'ben, 'id, 'bank) TreasuryStorage \<Rightarrow> ('acc, 'kind, 'ben, 'id, 'bank) TreasuryResult" where
  "void_spend cfg origin index s =
     and_then (ensure_origin (tc_reject_origin cfg) origin) (\<lambda>_.
     and_then (ok_or (Module InvalidIndex) (sm_get (ts_spends s) index)) (\<lambda>spend.
     and_then (ensure (case ss_status spend of Attempted _ \<Rightarrow> False | _ \<Rightarrow> True) (Module AlreadyAttempted)) (\<lambda>_.
     Ok (treasury_event (AssetSpendVoided index) (s\<lparr> ts_spends := sm_remove (ts_spends s) index \<rparr>)))))"

section \<open>The spend period\<close>

definition pot :: "('acc, 'src, 'bsrc, 'kind, 'ben, 'id, 'bank) TreasuryConfig \<Rightarrow> 'bank \<Rightarrow> nat" where
  "pot cfg bank = sat_sub (rc_free_balance (tc_currency cfg) bank (tc_account_id cfg)) (rc_minimum_balance (tc_currency cfg))"

text \<open>Paying one approved proposal: the deposit goes back to the proposer, the value to the beneficiary.\<close>

definition award ::
  "('acc, 'src, 'bsrc, 'kind, 'ben, 'id, 'bank) TreasuryConfig \<Rightarrow> nat \<Rightarrow> 'acc Proposal \<Rightarrow> SpendVars \<times> ('acc, 'kind, 'ben, 'id, 'bank) TreasuryStorage \<Rightarrow>
   SpendVars \<times> ('acc, 'kind, 'ben, 'id, 'bank) TreasuryStorage" where
  "award cfg index p = (\<lambda>(v, s).
     let bank = rc_unreserve (tc_currency cfg) (ts_bank s) (pr_proposer p) (pr_bond p);
         (bank, imbalance) = im_deposit_creating (tc_imbalances cfg) bank (pr_beneficiary p) (pr_value p)
     in (v\<lparr> sv_budget_remaining := sv_budget_remaining v - pr_value p, sv_imbalance := u128_add (sv_imbalance v) imbalance \<rparr>,
         treasury_event (Awarded index (pr_value p) (pr_beneficiary p))
           (s\<lparr> ts_proposals := sm_remove (ts_proposals s) index, ts_bank := bank \<rparr>)))"

text \<open>The walk of \<open>retain\<close> over the approvals: what is kept, and the state after it.\<close>

fun retain_approvals ::
  "('acc, 'src, 'bsrc, 'kind, 'ben, 'id, 'bank) TreasuryConfig \<Rightarrow> nat list \<Rightarrow> SpendVars \<times> ('acc, 'kind, 'ben, 'id, 'bank) TreasuryStorage \<Rightarrow>
   nat list \<times> SpendVars \<times> ('acc, 'kind, 'ben, 'id, 'bank) TreasuryStorage" where
  "retain_approvals cfg [] vs = ([], vs)"
| "retain_approvals cfg (index # rest) (v, s) =
     (case sm_get (ts_proposals s) index of
        None \<Rightarrow> retain_approvals cfg rest (v, s)
      | Some p \<Rightarrow>
          if pr_value p \<le> sv_budget_remaining v then retain_approvals cfg rest (award cfg index p (v, s))
          else (let (kept, vs) = retain_approvals cfg rest (v\<lparr> sv_missed_any := True \<rparr>, s) in (index # kept, vs)))"

definition burn_surplus ::
  "('acc, 'src, 'bsrc, 'kind, 'ben, 'id, 'bank) TreasuryConfig \<Rightarrow> SpendVars \<times> ('acc, 'kind, 'ben, 'id, 'bank) TreasuryStorage \<Rightarrow>
   SpendVars \<times> ('acc, 'kind, 'ben, 'id, 'bank) TreasuryStorage" where
  "burn_surplus cfg = (\<lambda>(v, s).
     if sv_missed_any v then (v, s)
     else let burn = min (pt_mul (tc_permill cfg) (tc_burn cfg) (sv_budget_remaining v)) (sv_budget_remaining v) in
       (v\<lparr> sv_budget_remaining := sv_budget_remaining v - burn, sv_imbalance := u128_add (sv_imbalance v) burn \<rparr>,
        treasury_event (Burnt burn) (s\<lparr> ts_bank := tc_burn_destination cfg burn (im_pair (tc_imbalances cfg) (ts_bank s) burn) \<rparr>)))"

definition spend_funds ::
  "('acc, 'src, 'bsrc, 'kind, 'ben, 'id, 'bank) TreasuryConfig \<Rightarrow> ('acc, 'kind, 'ben, 'id, 'bank) TreasuryStorage \<Rightarrow>
   ('acc, 'kind, 'ben, 'id, 'bank) TreasuryStorage" where
  "spend_funds cfg s =
     (let budget_remaining = pot cfg (ts_bank s);
          s = treasury_event (Spending budget_remaining) s;
          (kept, v, s) = retain_approvals cfg (ts_approvals s)
            (\<lparr> sv_budget_remaining = budget_remaining, sv_imbalance = 0, sv_missed_any = False \<rparr>, s);
          (v, bank) = tc_spend_funds cfg v (ts_bank s);
          (v, s) = burn_surplus cfg (v, s\<lparr> ts_approvals := kept, ts_bank := bank \<rparr>);
          bank = (case im_settle (tc_imbalances cfg) (ts_bank s) (tc_account_id cfg) (sv_imbalance v) of
                    Some bank \<Rightarrow> bank | None \<Rightarrow> im_drop (tc_imbalances cfg) (ts_bank s) (sv_imbalance v))
      in treasury_event (Rollover (sv_budget_remaining v)) (s\<lparr> ts_bank := bank \<rparr>))"

definition update_inactive ::
  "('acc, 'src, 'bsrc, 'kind, 'ben, 'id, 'bank) TreasuryConfig \<Rightarrow> ('acc, 'kind, 'ben, 'id, 'bank) TreasuryStorage \<Rightarrow>
   ('acc, 'kind, 'ben, 'id, 'bank) TreasuryStorage" where
  "update_inactive cfg s =
     (let p = pot cfg (ts_bank s); deactivated = ts_deactivated s in
      if p \<noteq> deactivated
      then treasury_event (UpdatedInactive deactivated p)
        (s\<lparr> ts_bank := im_deactivate (tc_imbalances cfg) (im_reactivate (tc_imbalances cfg) (ts_bank s) deactivated) p,
            ts_deactivated := p \<rparr>)
      else s)"

text \<open>The hook at the start of a block. A spend period of zero blocks is a division by zero, which stops the block.\<close>

definition treasury_on_initialize ::
  "('acc, 'src, 'bsrc, 'kind, 'ben, 'id, 'bank) TreasuryConfig \<Rightarrow> nat \<Rightarrow> ('acc, 'kind, 'ben, 'id, 'bank) TreasuryStorage \<Rightarrow>
   ('acc, 'kind, 'ben, 'id, 'bank) TreasuryStorage option" where
  "treasury_on_initialize cfg n s =
     (let s = update_inactive cfg s in
      if tc_spend_period cfg = 0 then None
      else Some (if n mod tc_spend_period cfg = 0 then spend_funds cfg s else s))"

section \<open>Deposits, genesis and the checks of the state\<close>

definition on_unbalanced ::
  "('acc, 'bank) ReservableCurrency \<Rightarrow> 'acc \<Rightarrow> nat \<Rightarrow> ('acc, 'kind, 'ben, 'id, 'bank) TreasuryStorage \<Rightarrow>
   ('acc, 'kind, 'ben, 'id, 'bank) TreasuryStorage" where
  "on_unbalanced C account_id amount s =
     (if amount = 0 then s
      else treasury_event (Deposit amount) (s\<lparr> ts_bank := rc_resolve_creating C (ts_bank s) account_id amount \<rparr>))"

definition treasury_genesis_build ::
  "('acc, 'src, 'bsrc, 'kind, 'ben, 'id, 'bank) TreasuryConfig \<Rightarrow> 'bank \<Rightarrow> ('acc, 'kind, 'ben, 'id, 'bank) TreasuryStorage" where
  "treasury_genesis_build cfg bank =
     (let C = tc_currency cfg;
          m = rc_minimum_balance C;
          bank = (if rc_free_balance C bank (tc_account_id cfg) < m
                  then im_make_free_balance_be (tc_imbalances cfg) bank (tc_account_id cfg) m else bank)
      in \<lparr> ts_proposal_count = 0, ts_proposals = [], ts_deactivated = 0, ts_approvals = [], ts_spend_count = 0,
           ts_spends = [], ts_bank = bank, ts_events = [] \<rparr>)"

definition try_state_proposals :: "('acc, 'kind, 'ben, 'id, 'bank) TreasuryStorage \<Rightarrow> bool" where
  "try_state_proposals s \<longleftrightarrow>
     ts_proposal_count s \<ge> length (sm_iter (ts_proposals s)) \<and>
     list_all (\<lambda>(proposal_index, _). ts_proposal_count s > proposal_index) (sm_iter (ts_proposals s)) \<and>
     list_all (\<lambda>proposal_index. sm_contains (ts_proposals s) proposal_index) (ts_approvals s)"

definition try_state_spends :: "('acc, 'kind, 'ben, 'id, 'bank) TreasuryStorage \<Rightarrow> bool" where
  "try_state_spends s \<longleftrightarrow>
     ts_spend_count s \<ge> length (sm_iter (ts_spends s)) \<and>
     list_all (\<lambda>(spend_index, _). ts_spend_count s > spend_index) (sm_iter (ts_spends s)) \<and>
     list_all (\<lambda>(_, spend). ss_valid_from spend < ss_expire_at spend) (sm_iter (ts_spends s))"

section \<open>What is closed and what is paid\<close>

text \<open>The proposals that an event closes, by an award or a rejection, and the payments of a spend that were made and
  that have failed, as the events record them.\<close>

definition closed_ids :: "('acc, 'kind, 'ben, 'id) TreasuryEvent list \<Rightarrow> nat list" where
  "closed_ids es = concat (map (\<lambda>e. case e of Awarded i _ _ \<Rightarrow> [i] | Rejected i _ \<Rightarrow> [i] | _ \<Rightarrow> []) es)"

definition payments_made :: "nat \<Rightarrow> ('acc, 'kind, 'ben, 'id) TreasuryEvent list \<Rightarrow> nat" where
  "payments_made i es = length (filter (\<lambda>e. case e of Paid j _ \<Rightarrow> j = i | _ \<Rightarrow> False) es)"

definition payments_failed :: "nat \<Rightarrow> ('acc, 'kind, 'ben, 'id) TreasuryEvent list \<Rightarrow> nat" where
  "payments_failed i es = length (filter (\<lambda>e. case e of PaymentFailed j _ \<Rightarrow> j = i | _ \<Rightarrow> False) es)"

definition bonds_of :: "(nat, 'acc Proposal) smap \<Rightarrow> 'acc \<Rightarrow> nat" where
  "bonds_of m a = sm_sum (\<lambda>p. if pr_proposer p = a then pr_bond p else 0) m"

definition proposals_ok :: "nat \<Rightarrow> (nat, 'acc Proposal) smap \<Rightarrow> nat list \<Rightarrow> nat list \<Rightarrow> bool" where
  "proposals_ok c m approvals closed \<longleftrightarrow> sm_invar m \<and> (\<forall>i. sm_contains m i \<longrightarrow> i < c) \<and> (\<forall>i\<in>set approvals. i < c) \<and>
     distinct closed \<and> (\<forall>i\<in>set closed. i < c \<and> \<not> sm_contains m i)"

definition payment_ok :: "('kind, 'ben, 'id) SpendStatus option \<Rightarrow> nat \<Rightarrow> nat \<Rightarrow> bool" where
  "payment_ok entry made failed \<longleftrightarrow> (case entry of None \<Rightarrow> made \<le> failed + 1
     | Some spend \<Rightarrow> made = failed + (case ss_status spend of Attempted _ \<Rightarrow> 1 | _ \<Rightarrow> 0))"

definition spends_ok :: "nat \<Rightarrow> (nat, ('kind, 'ben, 'id) SpendStatus) smap \<Rightarrow> (nat \<Rightarrow> nat) \<Rightarrow> (nat \<Rightarrow> nat) \<Rightarrow> bool" where
  "spends_ok c m made failed \<longleftrightarrow> sm_invar m \<and> (\<forall>i. sm_contains m i \<longrightarrow> i < c) \<and>
     (\<forall>i. payment_ok (sm_get m i) (made i) (failed i)) \<and> (\<forall>i. c \<le> i \<longrightarrow> made i = 0 \<and> failed i = 0)"

definition treasury_inv ::
  "('acc, 'bank) ReservableCurrency \<Rightarrow> ('acc \<Rightarrow> nat) \<Rightarrow> ('acc, 'kind, 'ben, 'id, 'bank) TreasuryStorage \<Rightarrow> bool" where
  "treasury_inv C others s \<longleftrightarrow>
     proposals_ok (ts_proposal_count s) (ts_proposals s) (ts_approvals s) (closed_ids (ts_events s)) \<and>
     spends_ok (ts_spend_count s) (ts_spends s) (\<lambda>i. payments_made i (ts_events s)) (\<lambda>i. payments_failed i (ts_events s)) \<and>
     (\<forall>a. rc_reserved C (ts_bank s) a = bonds_of (ts_proposals s) a + others a)"

lemma events_append [simp]:
  "closed_ids [] = []" "payments_made i [] = 0" "payments_failed i [] = 0"
  "closed_ids (es @ fs) = closed_ids es @ closed_ids fs"
  "payments_made i (es @ fs) = payments_made i es + payments_made i fs"
  "payments_failed i (es @ fs) = payments_failed i es + payments_failed i fs"
  by (simp_all add: closed_ids_def payments_made_def payments_failed_def)

lemma events_single [simp]:
  "closed_ids [e] = (case e of Awarded i _ _ \<Rightarrow> [i] | Rejected i _ \<Rightarrow> [i] | _ \<Rightarrow> [])"
  "payments_made i [e] = (case e of Paid j _ \<Rightarrow> if j = i then 1 else 0 | _ \<Rightarrow> 0)"
  "payments_failed i [e] = (case e of PaymentFailed j _ \<Rightarrow> if j = i then 1 else 0 | _ \<Rightarrow> 0)"
  by (cases e; simp add: closed_ids_def payments_made_def payments_failed_def)+

lemma treasury_event_simps [simp]:
  "ts_proposal_count (treasury_event e s) = ts_proposal_count s" "ts_proposals (treasury_event e s) = ts_proposals s"
  "ts_approvals (treasury_event e s) = ts_approvals s" "ts_spend_count (treasury_event e s) = ts_spend_count s"
  "ts_spends (treasury_event e s) = ts_spends s" "ts_bank (treasury_event e s) = ts_bank s"
  "ts_deactivated (treasury_event e s) = ts_deactivated s" "ts_events (treasury_event e s) = ts_events s @ [e]"
  by (simp_all add: treasury_event_def)

lemma next_index_small: "c < u32_max \<Longrightarrow> next_index c = Suc c"
  by (simp add: next_index_def)

section \<open>Steps on proposals and spends\<close>

lemma proposals_put: "proposals_ok c m ap cl \<Longrightarrow> proposals_ok (Suc c) (sm_put m c p) ap cl"
  by (auto simp: proposals_ok_def sm_contains_put less_Suc_eq)

lemma proposals_close: "proposals_ok c m ap cl \<Longrightarrow> sm_get m i = Some p \<Longrightarrow> proposals_ok c (sm_remove m i) ap (cl @ [i])"
  by (auto simp: proposals_ok_def sm_contains_remove) (auto simp: sm_contains_def)

lemma proposals_approve: "proposals_ok c m ap cl \<Longrightarrow> set ap' \<subseteq> insert i (set ap) \<Longrightarrow> i < c \<Longrightarrow> proposals_ok c m ap' cl"
  by (auto simp: proposals_ok_def)

lemma proposals_fewer: "proposals_ok c m ap cl \<Longrightarrow> set ap' \<subseteq> set ap \<Longrightarrow> proposals_ok c m ap' cl"
  by (auto simp: proposals_ok_def)

lemma proposals_ok_invar: "proposals_ok c m ap cl \<Longrightarrow> sm_invar m"
  by (simp add: proposals_ok_def)

lemma proposals_fresh: "proposals_ok c m ap cl \<Longrightarrow> sm_get m c = None"
  by (auto simp: proposals_ok_def sm_contains_def)

lemma bonds_put: "sm_invar m \<Longrightarrow> sm_get m i = None \<Longrightarrow> bonds_of (sm_put m i p) a = bonds_of m a + (if pr_proposer p = a then pr_bond p else 0)"
  using sm_sum_put [of m "\<lambda>p. if pr_proposer p = a then pr_bond p else 0" i p] by (simp add: bonds_of_def)

lemma bonds_remove: "sm_invar m \<Longrightarrow> sm_get m i = Some p \<Longrightarrow> bonds_of (sm_remove m i) a + (if pr_proposer p = a then pr_bond p else 0) = bonds_of m a"
  using sm_sum_remove [of m "\<lambda>p. if pr_proposer p = a then pr_bond p else 0" i] by (simp add: bonds_of_def)

lemma spends_put: "spends_ok c m made failed \<Longrightarrow> ss_status spend = Pending \<Longrightarrow> spends_ok (Suc c) (sm_put m c spend) made failed"
  by (auto simp: spends_ok_def sm_contains_put payment_ok_def less_Suc_eq)

lemma spends_update:
  assumes "spends_ok c m made failed" and "sm_get m i = Some spend"
    and "\<And>j. j \<noteq> i \<Longrightarrow> made' j = made j \<and> failed' j = failed j" and "payment_ok (Some spend') (made' i) (failed' i)"
  shows "spends_ok c (sm_put m i spend') made' failed'"
proof -
  have "i < c" using assms(1,2) by (auto simp: spends_ok_def sm_contains_def)
  then have "made' j = 0 \<and> failed' j = 0" if "c \<le> j" for j using assms(1,3) that by (auto simp: spends_ok_def)
  moreover have "payment_ok (sm_get (sm_put m i spend') j) (made' j) (failed' j)" for j
    using assms by (cases "j = i") (auto simp: spends_ok_def)
  ultimately show ?thesis using assms(1) \<open>i < c\<close> by (auto simp: spends_ok_def sm_contains_put)
qed

lemma payment_ok_None: "payment_ok entry made failed \<Longrightarrow> payment_ok None made failed"
  by (auto simp: payment_ok_def split: option.splits PaymentState.splits)

lemma spends_remove:
  assumes "spends_ok c m made failed"
  shows "spends_ok c (sm_remove m i) made failed"
proof -
  have "payment_ok (sm_get (sm_remove m i) j) (made j) (failed j)" for j
    using assms payment_ok_None [of "sm_get m i" "made i" "failed i"] by (cases "j = i") (auto simp: spends_ok_def)
  with assms show ?thesis by (auto simp: spends_ok_def sm_contains_remove)
qed

section \<open>The configuration\<close>

text \<open>What the pallet relies on besides the currency: the handler of slashed funds only deposits them, the handlers of
  burnt funds and of payments leave reserves alone, the hook for other pallets deducts what it spends from the budget, as
  its trait asks, and the part to burn is a fraction.\<close>

locale treasury_pallet = treasury_currency "tc_currency cfg" "tc_imbalances cfg" + pm: per_thing permill_acc "tc_permill cfg"
  for cfg :: "('acc, 'src, 'bsrc, 'kind, 'ben, 'id, 'bank) TreasuryConfig" +
  assumes slash_deposits: "\<exists>bank es. tc_on_slash cfg x s = s\<lparr> ts_bank := bank, ts_events := ts_events s @ es \<rparr> \<and>
      (\<forall>a. rc_reserved (tc_currency cfg) bank a = rc_reserved (tc_currency cfg) (ts_bank s) a) \<and> (\<forall>e\<in>set es. \<exists>v. e = Deposit v)"
    and burn_reserved: "rc_reserved (tc_currency cfg) (tc_burn_destination cfg x b) a = rc_reserved (tc_currency cfg) b a"
    and burn_free: "rc_free_balance (tc_currency cfg) b a \<le> rc_free_balance (tc_currency cfg) (tc_burn_destination cfg x b) a"
    and hook_reserved: "rc_reserved (tc_currency cfg) (snd (tc_spend_funds cfg v b)) a = rc_reserved (tc_currency cfg) b a"
    and hook_free: "rc_free_balance (tc_currency cfg) b (tc_account_id cfg) \<le> rc_free_balance (tc_currency cfg) (snd (tc_spend_funds cfg v b)) (tc_account_id cfg)"
    and hook_deducts: "sv_imbalance (fst (tc_spend_funds cfg v b)) + sv_budget_remaining (fst (tc_spend_funds cfg v b)) \<le> sv_imbalance v + sv_budget_remaining v"
    and pay_reserved: "tc_pay cfg ben kind x b = Some (pid, b') \<Longrightarrow> rc_reserved (tc_currency cfg) b' a = rc_reserved (tc_currency cfg) b a"
    and burn_fraction: "tc_burn cfg \<le> permill_acc"
begin

abbreviation inv :: "('acc \<Rightarrow> nat) \<Rightarrow> ('acc, 'kind, 'ben, 'id, 'bank) TreasuryStorage \<Rightarrow> bool" where
  "inv \<equiv> treasury_inv (tc_currency cfg)"

lemma deposits_events:
  assumes "\<forall>e\<in>set es. \<exists>v. e = Deposit v"
  shows "closed_ids es = []" "payments_made i es = 0" "payments_failed i es = 0"
  using assms by (induction es) (auto simp: closed_ids_def payments_made_def payments_failed_def)

lemma propose_inv:
  assumes inv: "inv others s" and c: "ts_proposal_count s < u32_max" and "propose_spend cfg origin v ben s = Ok s'"
  shows "inv others s'"
proof -
  from assms(3) obtain proposer ben' bank where
      r: "rc_reserve (tc_currency cfg) (ts_bank s) proposer (calculate_bond cfg v) = Some bank"
    and s': "s' = treasury_event (Proposed (ts_proposal_count s)) (s\<lparr> ts_bank := bank, ts_proposal_count := Suc (ts_proposal_count s),
        ts_proposals := sm_put (ts_proposals s) (ts_proposal_count s)
          \<lparr> pr_proposer = proposer, pr_value = v, pr_beneficiary = ben', pr_bond = calculate_bond cfg v \<rparr> \<rparr>)"
    using c by (auto simp: propose_spend_def and_then_Ok_iff ok_or_Ok_iff Let_def next_index_small)
  have p: "proposals_ok (ts_proposal_count s) (ts_proposals s) (ts_approvals s) (closed_ids (ts_events s))"
    using inv by (simp add: treasury_inv_def)
  show ?thesis
    using inv proposals_put [OF p] bonds_put [OF proposals_ok_invar [OF p] proposals_fresh [OF p]] reserve_reserved [OF r]
    by (simp add: treasury_inv_def s')
qed

lemma close_inv:
  assumes inv: "inv others s" and i: "sm_get (ts_proposals s) i = Some p"
    and bank: "\<And>a. rc_reserved (tc_currency cfg) bank a = (if a = pr_proposer p
        then rc_reserved (tc_currency cfg) (ts_bank s) a - pr_bond p else rc_reserved (tc_currency cfg) (ts_bank s) a)"
    and e: "closed_ids [e] = [i]"
  shows "inv others (treasury_event e (s\<lparr> ts_proposals := sm_remove (ts_proposals s) i, ts_bank := bank \<rparr>))"
proof -
  have p: "proposals_ok (ts_proposal_count s) (ts_proposals s) (ts_approvals s) (closed_ids (ts_events s))"
    using inv by (simp add: treasury_inv_def)
  have none: "payments_made j [e] = 0" "payments_failed j [e] = 0" for j
    using e by (auto split: TreasuryEvent.splits)
  have "rc_reserved (tc_currency cfg) bank a = bonds_of (sm_remove (ts_proposals s) i) a + others a" for a
    using inv bonds_remove [OF proposals_ok_invar [OF p] i, of a] bank [of a] by (auto simp: treasury_inv_def split: if_splits)
  then show ?thesis
    using inv proposals_close [OF p i] none by (simp only: treasury_inv_def treasury_event_simps events_append e) simp
qed

lemma reject_inv:
  assumes inv: "inv others s" and "reject_proposal cfg origin i s = Ok s'"
  shows "inv others s'"
proof -
  from assms(2) obtain p bank imb where i: "sm_get (ts_proposals s) i = Some p"
    and b: "rc_slash_reserved (tc_currency cfg) (ts_bank s) (pr_proposer p) (pr_bond p) = (bank, imb)"
    and s': "s' = treasury_event (Rejected i (pr_bond p))
        (tc_on_slash cfg imb (s\<lparr> ts_proposals := sm_remove (ts_proposals s) i, ts_bank := bank \<rparr>))"
    by (auto simp: reject_proposal_def and_then_Ok_iff ok_or_Ok_iff Let_def case_prod_unfold prod_eq_iff)
  obtain bank' es where sl: "tc_on_slash cfg imb (s\<lparr> ts_proposals := sm_remove (ts_proposals s) i, ts_bank := bank \<rparr>) =
        s\<lparr> ts_proposals := sm_remove (ts_proposals s) i, ts_bank := bank', ts_events := ts_events s @ es \<rparr>"
      "\<forall>a. rc_reserved (tc_currency cfg) bank' a = rc_reserved (tc_currency cfg) bank a" "\<forall>e\<in>set es. \<exists>v. e = Deposit v"
    using slash_deposits [of imb "s\<lparr> ts_proposals := sm_remove (ts_proposals s) i, ts_bank := bank \<rparr>"] by auto
  have "inv others (s\<lparr> ts_events := ts_events s @ es \<rparr>)"
    using inv by (simp add: treasury_inv_def deposits_events [OF sl(3)])
  then have "inv others (treasury_event (Rejected i (pr_bond p))
      (s\<lparr> ts_events := ts_events s @ es, ts_proposals := sm_remove (ts_proposals s) i, ts_bank := bank' \<rparr>))"
    using close_inv [of others "s\<lparr> ts_events := ts_events s @ es \<rparr>" i p bank' "Rejected i (pr_bond p)"] i sl(2) b
      slash_reserved_reserved [of "ts_bank s" "pr_proposer p" "pr_bond p"] by auto
  moreover have "s\<lparr> ts_events := ts_events s @ es, ts_proposals := sm_remove (ts_proposals s) i, ts_bank := bank' \<rparr> =
      s\<lparr> ts_proposals := sm_remove (ts_proposals s) i, ts_bank := bank', ts_events := ts_events s @ es \<rparr>" by simp
  ultimately show ?thesis by (simp only: s' sl(1))
qed

lemma approve_inv:
  assumes inv: "inv others s" and "approve_proposal cfg origin i s = Ok s'"
  shows "inv others s'"
proof -
  from assms have "sm_contains (ts_proposals s) i" "s' = s\<lparr> ts_approvals := ts_approvals s @ [i] \<rparr>"
    by (auto simp: approve_proposal_def and_then_Ok_iff try_append_approval_def split: if_splits)
  with inv show ?thesis by (auto simp: treasury_inv_def proposals_ok_def)
qed

lemma remove_approval_inv:
  assumes inv: "inv others s" and "remove_approval cfg origin i s = Ok s'"
  shows "inv others s'"
proof -
  from assms(2) have "s' = s\<lparr> ts_approvals := remove1 i (ts_approvals s) \<rparr>" by (auto simp: remove_approval_def and_then_Ok_iff)
  with inv show ?thesis by (auto simp: treasury_inv_def intro: proposals_fewer [OF _ set_remove1_subset])
qed

lemma spend_local_inv:
  assumes inv: "inv others s" and c: "ts_proposal_count s < u32_max" and "snd (spend_local cfg origin amount ben ctx s) = Ok s'"
  shows "inv others s'"
proof -
  from assms(3) obtain ben' where
    s': "s' = treasury_event (SpendApproved (ts_proposal_count s) amount ben') (s\<lparr> ts_approvals := ts_approvals s @ [ts_proposal_count s],
        ts_proposals := sm_put (ts_proposals s) (ts_proposal_count s)
          \<lparr> pr_proposer = ben', pr_value = amount, pr_beneficiary = ben', pr_bond = 0 \<rparr>,
        ts_proposal_count := Suc (ts_proposal_count s) \<rparr>)"
    using c by (auto simp: spend_local_def and_then_Ok_iff ok_or_Ok_iff Let_def next_index_small try_append_approval_def case_prod_unfold
        split: option.splits if_splits)
  have p: "proposals_ok (ts_proposal_count s) (ts_proposals s) (ts_approvals s) (closed_ids (ts_events s))"
    using inv by (simp add: treasury_inv_def)
  show ?thesis
    using inv proposals_approve [OF proposals_put [OF p], of _ "ts_proposal_count s"]
      bonds_put [OF proposals_ok_invar [OF p] proposals_fresh [OF p]]
    by (simp add: treasury_inv_def s')
qed

lemma spend_inv:
  assumes inv: "inv others s" and c: "ts_spend_count s < u32_max"
    and "snd (treasury_spend cfg origin kind amount ben from now ctx s) = Ok s'"
  shows "inv others s'"
proof -
  from assms(3) obtain spend e where
    s': "s' = treasury_event e (s\<lparr> ts_spends := sm_put (ts_spends s) (ts_spend_count s) spend, ts_spend_count := Suc (ts_spend_count s) \<rparr>)"
    and p: "ss_status spend = Pending" and e: "\<exists>a b c d f g. e = AssetSpendApproved a b c d f g"
    using c by (auto simp: treasury_spend_def and_then_Ok_iff Let_def next_index_small case_prod_unfold split: option.splits if_splits)
  show ?thesis using inv p e by (auto simp: treasury_inv_def s' intro: spends_put)
qed

lemma payout_inv:
  assumes inv: "inv others s" and "treasury_payout cfg origin i now s = Ok s'"
  shows "inv others s'"
proof -
  from assms(2) obtain spend pid bank where i: "sm_get (ts_spends s) i = Some spend"
    and st: "case ss_status spend of Attempted _ \<Rightarrow> False | _ \<Rightarrow> True"
    and pay: "tc_pay cfg (ss_beneficiary spend) (ss_asset_kind spend) (ss_amount spend) (ts_bank s) = Some (pid, bank)"
    and s': "s' = treasury_event (Paid i pid) (s\<lparr> ts_spends := sm_put (ts_spends s) i (spend\<lparr> ss_status := Attempted pid \<rparr>), ts_bank := bank \<rparr>)"
    by (auto simp: treasury_payout_def and_then_Ok_iff ok_or_Ok_iff)
  have "payment_ok (Some spend) (payments_made i (ts_events s)) (payments_failed i (ts_events s))"
    using inv i by (auto simp: treasury_inv_def spends_ok_def dest: spec [of _ i])
  then show ?thesis
    using inv i st by (auto simp: treasury_inv_def s' pay_reserved [OF pay] payment_ok_def
        elim!: spends_update split: PaymentState.splits)
qed

lemma check_status_inv:
  assumes inv: "inv others s" and "check_status cfg origin i now s = Ok (pays, s')"
  shows "inv others s'"
proof -
  obtain spend where i: "sm_get (ts_spends s) i = Some spend"
    using assms(2) by (auto simp: check_status_def and_then_Ok_iff ok_or_Ok_iff)
  with assms(2) have s': "s' = treasury_event (SpendProcessed i) (s\<lparr> ts_spends := sm_remove (ts_spends s) i \<rparr>) \<or>
      (\<exists>pid. ss_status spend = Attempted pid \<and> s' = treasury_event (PaymentFailed i pid)
         (s\<lparr> ts_spends := sm_put (ts_spends s) i (spend\<lparr> ss_status := Failed \<rparr>) \<rparr>))"
    by (cases "ss_status spend") (auto simp: check_status_def and_then_Ok_iff Let_def split: PaymentStatus.splits if_splits)
  have "payment_ok (Some spend) (payments_made i (ts_events s)) (payments_failed i (ts_events s))"
    using inv i by (auto simp: treasury_inv_def spends_ok_def dest: spec [of _ i])
  then show ?thesis
    using s' inv i by (auto simp: treasury_inv_def payment_ok_def spends_remove elim!: spends_update)
qed

lemma void_spend_inv:
  assumes inv: "inv others s" and "void_spend cfg origin i s = Ok s'"
  shows "inv others s'"
proof -
  from assms(2) have "s' = treasury_event (AssetSpendVoided i) (s\<lparr> ts_spends := sm_remove (ts_spends s) i \<rparr>)"
    by (auto simp: void_spend_def and_then_Ok_iff)
  with inv show ?thesis by (auto simp: treasury_inv_def spends_remove)
qed

lemma award_inv:
  assumes "inv others s" and "sm_get (ts_proposals s) i = Some p"
  shows "inv others (snd (award cfg i p (v, s)))"
  using close_inv [OF assms] deposit_reserved unreserve_reserved
  by (auto simp: award_def Let_def case_prod_unfold)

lemma award_fields [simp]:
  "ts_proposal_count (snd (award cfg i p (v, s))) = ts_proposal_count s" "ts_approvals (snd (award cfg i p (v, s))) = ts_approvals s"
  "ts_spend_count (snd (award cfg i p (v, s))) = ts_spend_count s"
  "ts_proposals (snd (award cfg i p (v, s))) = sm_remove (ts_proposals s) i"
  "ts_events (snd (award cfg i p (v, s))) = ts_events s @ [Awarded i (pr_value p) (pr_beneficiary p)]"
  "sv_budget_remaining (fst (award cfg i p (v, s))) = sv_budget_remaining v - pr_value p"
  "sv_missed_any (fst (award cfg i p (v, s))) = sv_missed_any v"
  by (simp_all add: award_def Let_def case_prod_unfold)

lemma retain_inv:
  assumes "inv others s" and "retain_approvals cfg is (v, s) = (kept, v', s')"
  shows "inv others s' \<and> set kept \<subseteq> set is \<and> ts_approvals s' = ts_approvals s \<and> ts_proposal_count s' = ts_proposal_count s
    \<and> ts_spend_count s' = ts_spend_count s"
  using assms
proof (induction "is" arbitrary: v s kept)
  case (Cons i "is")
  show ?case
  proof (cases "sm_get (ts_proposals s) i")
    case (Some p)
    show ?thesis
    proof (cases "pr_value p \<le> sv_budget_remaining v")
      case True
      with Cons.prems Some have "retain_approvals cfg is (award cfg i p (v, s)) = (kept, v', s')" by simp
      with Cons.IH [OF award_inv [OF Cons.prems(1) Some], of "fst (award cfg i p (v, s))" v kept] show ?thesis by auto
    next
      case False
      with Cons.prems Some obtain k where "retain_approvals cfg is (v\<lparr> sv_missed_any := True \<rparr>, s) = (k, v', s')" "kept = i # k"
        by (auto simp: case_prod_unfold Let_def prod_eq_iff)
      with Cons.IH [OF Cons.prems(1)] show ?thesis by auto
    qed
  qed (use Cons in auto)
qed simp

lemma spend_funds_inv:
  assumes inv: "inv others s"
  shows "inv others (spend_funds cfg s) \<and> ts_proposal_count (spend_funds cfg s) = ts_proposal_count s
    \<and> ts_spend_count (spend_funds cfg s) = ts_spend_count s"
proof -
  let ?s = "treasury_event (Spending (pot cfg (ts_bank s))) s"
  let ?v = "\<lparr> sv_budget_remaining = pot cfg (ts_bank s), sv_imbalance = 0, sv_missed_any = False \<rparr>"
  obtain kept v1 s1 where r: "retain_approvals cfg (ts_approvals s) (?v, ?s) = (kept, v1, s1)" by (metis prod_cases3)
  have "inv others ?s" using inv by (simp add: treasury_inv_def)
  note i = retain_inv [OF this r]
  obtain v2 bank where h: "tc_spend_funds cfg v1 (ts_bank s1) = (v2, bank)" by fastforce
  let ?s2 = "s1\<lparr> ts_approvals := kept, ts_bank := bank \<rparr>"
  have "proposals_ok (ts_proposal_count s1) (ts_proposals s1) kept (closed_ids (ts_events s1))"
    using i by (auto simp: treasury_inv_def intro: proposals_fewer)
  then have i2: "inv others ?s2" using i hook_reserved [of v1 "ts_bank s1"] h by (auto simp: treasury_inv_def)
  obtain v3 s3 where b: "burn_surplus cfg (v2, ?s2) = (v3, s3)" by fastforce
  then have i3: "inv others s3 \<and> ts_proposal_count s3 = ts_proposal_count s1 \<and> ts_spend_count s3 = ts_spend_count s1"
    using i2 by (auto simp: burn_surplus_def Let_def treasury_inv_def burn_reserved bookkeeping_reserved split: if_splits)
  show ?thesis
    using i i3 settle_reserved by (auto simp: spend_funds_def Let_def r h b treasury_inv_def bookkeeping_reserved split: option.split)
qed

lemma on_initialize_inv:
  assumes inv: "inv others s" and "treasury_on_initialize cfg n s = Some s'"
  shows "inv others s'"
proof -
  have "inv others (update_inactive cfg s)" using inv by (simp add: update_inactive_def Let_def treasury_inv_def bookkeeping_reserved)
  from this spend_funds_inv [OF this] assms(2) show ?thesis by (auto simp: treasury_on_initialize_def Let_def split: if_splits)
qed

end

section \<open>What a spend period pays\<close>

text \<open>The proposals that a budget pays for, in the order of the approvals: each one that still exists and that is not worth
  more than what is left.\<close>

fun awarded :: "(nat, 'acc Proposal) smap \<Rightarrow> nat \<Rightarrow> nat list \<Rightarrow> (nat \<times> 'acc Proposal) list" where
  "awarded m budget [] = []"
| "awarded m budget (i # rest) =
     (case sm_get m i of
        None \<Rightarrow> awarded m budget rest
      | Some p \<Rightarrow> if pr_value p \<le> budget then (i, p) # awarded (sm_remove m i) (budget - pr_value p) rest else awarded m budget rest)"

definition total_value :: "(nat \<times> 'acc Proposal) list \<Rightarrow> nat" where
  "total_value paid = (\<Sum>(i, p)\<leftarrow>paid. pr_value p)"

definition received :: "'acc \<Rightarrow> (nat \<times> 'acc Proposal) list \<Rightarrow> nat" where
  "received a paid = (\<Sum>(i, p)\<leftarrow>paid. (if pr_beneficiary p = a then pr_value p else 0) + (if pr_proposer p = a then pr_bond p else 0))"

lemma awarded_within: "total_value (awarded m budget is) \<le> budget"
proof (induction m budget "is" rule: awarded.induct)
  case (2 m budget i rest)
  then show ?case by (auto simp: total_value_def split: option.splits)
qed (simp add: total_value_def)

lemma awarded_sound:
  assumes "sm_invar m"
  shows "distinct (map fst (awarded m budget is)) \<and> (\<forall>(i, p)\<in>set (awarded m budget is). i \<in> set is \<and> sm_get m i = Some p)"
  using assms
proof (induction m budget "is" rule: awarded.induct)
  case (2 m budget i rest)
  then show ?case
    by (fastforce split: option.splits if_splits)
qed simp

lemma awarded_affordable:
  assumes "sm_invar m" and "sm_get m i = Some p" and "i \<in> fst ` set (awarded m budget is)"
  shows "pr_value p \<le> budget"
proof -
  have "(i, p) \<in> set (awarded m budget is)" using awarded_sound [OF assms(1)] assms(2,3) by fastforce
  then have "pr_value p \<le> total_value (awarded m budget is)"
    unfolding total_value_def by (intro member_le_sum_list) force+
  with awarded_within [of m budget "is"] show ?thesis by simp
qed

context treasury_pallet
begin

lemma retain_spec:
  assumes "sm_invar (ts_proposals s)" and "retain_approvals cfg is (v, s) = (kept, v', s')"
  shows "let paid = awarded (ts_proposals s) (sv_budget_remaining v) is in
    sm_invar (ts_proposals s') \<and>
    (\<forall>i. sm_get (ts_proposals s') i = (if i \<in> fst ` set paid then None else sm_get (ts_proposals s) i)) \<and>
    kept = filter (sm_contains (ts_proposals s')) is \<and>
    (\<forall>i\<in>set kept. \<forall>p. sm_get (ts_proposals s') i = Some p \<longrightarrow> sv_budget_remaining v' < pr_value p) \<and>
    sv_budget_remaining v' + total_value paid = sv_budget_remaining v \<and>
    sv_missed_any v' = (sv_missed_any v \<or> kept \<noteq> []) \<and>
    ts_events s' = ts_events s @ map (\<lambda>(i, p). Awarded i (pr_value p) (pr_beneficiary p)) paid"
  using assms
proof (induction "is" arbitrary: v s kept)
  case (Cons i "is")
  show ?case
  proof (cases "sm_get (ts_proposals s) i")
    case None
    with Cons.prems have "retain_approvals cfg is (v, s) = (kept, v', s')" by simp
    from Cons.IH [OF Cons.prems(1) this] None show ?thesis by (auto simp: Let_def sm_contains_def)
  next
    case (Some p)
    show ?thesis
    proof (cases "pr_value p \<le> sv_budget_remaining v")
      case True
      with Cons.prems Some have "retain_approvals cfg is (fst (award cfg i p (v, s)), snd (award cfg i p (v, s))) = (kept, v', s')" by simp
      from Cons.IH [OF _ this] Cons.prems(1) Some True show ?thesis
        by (auto simp: Let_def sm_contains_def total_value_def)
    next
      case False
      with Cons.prems Some obtain k where r: "retain_approvals cfg is (v\<lparr> sv_missed_any := True \<rparr>, s) = (k, v', s')" and k: "kept = i # k"
        by (auto simp: case_prod_unfold Let_def prod_eq_iff)
      have "i \<notin> fst ` set (awarded (ts_proposals s) (sv_budget_remaining v) is)"
        using awarded_affordable [OF Cons.prems(1), of i p] Some False by force
      with Cons.IH [OF Cons.prems(1) r] Some False k show ?thesis by (auto simp: Let_def sm_contains_def)
    qed
  qed
qed (simp add: total_value_def)

lemma award_bank:
  assumes "inv others s" and "sm_get (ts_proposals s) i = Some p" and "sv_imbalance v + sv_budget_remaining v \<le> u128_max"
    and "pr_value p \<le> sv_budget_remaining v"
  shows "rc_free_balance (tc_currency cfg) (ts_bank s) a \<le> rc_free_balance (tc_currency cfg) (ts_bank (snd (award cfg i p (v, s)))) a"
    and "sv_imbalance (fst (award cfg i p (v, s))) \<le> sv_imbalance v + pr_value p"
    and "rc_minimum_balance (tc_currency cfg) \<le> pr_value p \<Longrightarrow>
      rc_free_balance (tc_currency cfg) (ts_bank (snd (award cfg i p (v, s)))) a =
        rc_free_balance (tc_currency cfg) (ts_bank s) a + received a [(i, p)]
      \<and> sv_imbalance (fst (award cfg i p (v, s))) = sv_imbalance v + pr_value p"
proof -
  let ?b = "rc_unreserve (tc_currency cfg) (ts_bank s) (pr_proposer p) (pr_bond p)"
  have "sm_invar (ts_proposals s)" using assms(1) by (simp add: treasury_inv_def proposals_ok_def)
  from bonds_remove [OF this assms(2), of "pr_proposer p"] assms(1)
  have r: "pr_bond p \<le> rc_reserved (tc_currency cfg) (ts_bank s) (pr_proposer p)" by (simp add: treasury_inv_def)
  have d: "snd (im_deposit_creating (tc_imbalances cfg) ?b (pr_beneficiary p) (pr_value p)) \<le> pr_value p" by (rule deposit_le)
  show "rc_free_balance (tc_currency cfg) (ts_bank s) a \<le> rc_free_balance (tc_currency cfg) (ts_bank (snd (award cfg i p (v, s)))) a"
    by (simp add: award_def Let_def case_prod_unfold deposit_free unreserve_free)
  show "sv_imbalance (fst (award cfg i p (v, s))) \<le> sv_imbalance v + pr_value p"
    using d by (auto simp: award_def Let_def case_prod_unfold intro: order_trans [OF sat_add_le_sum])
  assume "rc_minimum_balance (tc_currency cfg) \<le> pr_value p"
  then have "snd (im_deposit_creating (tc_imbalances cfg) ?b (pr_beneficiary p) (pr_value p)) = pr_value p" by (simp add: deposit_existing)
  moreover have "u128_add (sv_imbalance v) (pr_value p) = sv_imbalance v + pr_value p" by (rule sat_add_exact) (use assms(3,4) in simp)
  ultimately show "rc_free_balance (tc_currency cfg) (ts_bank (snd (award cfg i p (v, s)))) a =
        rc_free_balance (tc_currency cfg) (ts_bank s) a + received a [(i, p)]
      \<and> sv_imbalance (fst (award cfg i p (v, s))) = sv_imbalance v + pr_value p"
    using r by (auto simp: award_def Let_def case_prod_unfold deposit_free unreserve_free received_def)
qed

lemma retain_bank:
  assumes "inv others s" and "sv_imbalance v + sv_budget_remaining v \<le> u128_max" and "retain_approvals cfg is (v, s) = (kept, v', s')"
  shows "rc_free_balance (tc_currency cfg) (ts_bank s) a \<le> rc_free_balance (tc_currency cfg) (ts_bank s') a
    \<and> sv_imbalance v' + sv_budget_remaining v' \<le> sv_imbalance v + sv_budget_remaining v
    \<and> ((\<forall>i p. sm_get (ts_proposals s) i = Some p \<longrightarrow> rc_minimum_balance (tc_currency cfg) \<le> pr_value p) \<longrightarrow>
        rc_free_balance (tc_currency cfg) (ts_bank s') a = rc_free_balance (tc_currency cfg) (ts_bank s) a
          + received a (awarded (ts_proposals s) (sv_budget_remaining v) is)
        \<and> sv_imbalance v' = sv_imbalance v + total_value (awarded (ts_proposals s) (sv_budget_remaining v) is))"
  using assms
proof (induction "is" arbitrary: v s kept)
  case (Cons i "is")
  have invar: "sm_invar (ts_proposals s)" using Cons.prems(1) by (simp add: treasury_inv_def proposals_ok_def)
  show ?case
  proof (cases "sm_get (ts_proposals s) i")
    case (Some p)
    show ?thesis
    proof (cases "pr_value p \<le> sv_budget_remaining v")
      case True
      let ?v = "fst (award cfg i p (v, s))" and ?s = "snd (award cfg i p (v, s))"
      note a = award_bank [OF Cons.prems(1) Some Cons.prems(2) True]
      have r: "retain_approvals cfg is (?v, ?s) = (kept, v', s')" using Cons.prems Some True by simp
      have "sv_imbalance ?v + sv_budget_remaining ?v \<le> u128_max" using a(2) True Cons.prems(2) by simp
      note IH = Cons.IH [OF award_inv [OF Cons.prems(1) Some] this r]
      have "rc_free_balance (tc_currency cfg) (ts_bank s) a \<le> rc_free_balance (tc_currency cfg) (ts_bank s') a"
        using order_trans [OF a(1)] IH by blast
      moreover have "sv_imbalance v' + sv_budget_remaining v' \<le> sv_imbalance v + sv_budget_remaining v" using IH a(2) True by auto
      moreover have "rc_free_balance (tc_currency cfg) (ts_bank s') a = rc_free_balance (tc_currency cfg) (ts_bank s) a
            + received a (awarded (ts_proposals s) (sv_budget_remaining v) (i # is))
          \<and> sv_imbalance v' = sv_imbalance v + total_value (awarded (ts_proposals s) (sv_budget_remaining v) (i # is))"
        if m: "\<forall>i p. sm_get (ts_proposals s) i = Some p \<longrightarrow> rc_minimum_balance (tc_currency cfg) \<le> pr_value p"
      proof -
        have "\<forall>j q. sm_get (ts_proposals ?s) j = Some q \<longrightarrow> rc_minimum_balance (tc_currency cfg) \<le> pr_value q"
          using m invar by simp
        with IH a(3) [of a] m Some True show ?thesis by (simp add: received_def total_value_def)
      qed
      ultimately show ?thesis by blast
    next
      case False
      with Cons.prems Some obtain k where r: "retain_approvals cfg is (v\<lparr> sv_missed_any := True \<rparr>, s) = (k, v', s')"
        by (auto simp: case_prod_unfold Let_def prod_eq_iff)
      from Cons.IH [OF Cons.prems(1) _ r] Cons.prems(2) Some False show ?thesis by simp
    qed
  qed (use Cons in auto)
qed (simp add: received_def total_value_def)

text \<open>The pot pays for everything that is awarded, spent by the hook and burnt: the settlement never fails, and the account
  keeps the minimum balance.\<close>

lemma spend_funds_solvent:
  assumes "inv others s" and "rc_minimum_balance (tc_currency cfg) \<le> rc_free_balance (tc_currency cfg) (ts_bank s) (tc_account_id cfg)"
    and "pot cfg (ts_bank s) \<le> u128_max"
  shows "rc_minimum_balance (tc_currency cfg) \<le> rc_free_balance (tc_currency cfg) (ts_bank (spend_funds cfg s)) (tc_account_id cfg)"
proof -
  let ?F = "rc_free_balance (tc_currency cfg)" and ?acc = "tc_account_id cfg" and ?m = "rc_minimum_balance (tc_currency cfg)"
  let ?s = "treasury_event (Spending (pot cfg (ts_bank s))) s"
  let ?v = "\<lparr> sv_budget_remaining = pot cfg (ts_bank s), sv_imbalance = 0, sv_missed_any = False \<rparr>"
  obtain kept v1 s1 where r: "retain_approvals cfg (ts_approvals s) (?v, ?s) = (kept, v1, s1)" by (metis prod_cases3)
  have "inv others ?s" using assms(1) by (simp add: treasury_inv_def)
  from retain_bank [OF this _ r, of ?acc] assms(3)
  have 1: "?F (ts_bank s) ?acc \<le> ?F (ts_bank s1) ?acc" "sv_imbalance v1 + sv_budget_remaining v1 \<le> pot cfg (ts_bank s)" by simp_all
  obtain v2 bank where h: "tc_spend_funds cfg v1 (ts_bank s1) = (v2, bank)" by fastforce
  obtain v3 s3 where b: "burn_surplus cfg (v2, s1\<lparr> ts_approvals := kept, ts_bank := bank \<rparr>) = (v3, s3)" by fastforce
  have 2: "sv_imbalance v2 + sv_budget_remaining v2 \<le> pot cfg (ts_bank s)" "?F (ts_bank s1) ?acc \<le> ?F bank ?acc"
    using hook_deducts [of v1 "ts_bank s1"] hook_free [of "ts_bank s1" v1] 1 h by simp_all
  have "u128_add (sv_imbalance v2) (min x (sv_budget_remaining v2)) \<le> sv_imbalance v2 + sv_budget_remaining v2" for x
    by (rule order_trans [OF sat_add_le_sum]) simp
  from order_trans [OF this 2(1)] have 3: "sv_imbalance v3 \<le> pot cfg (ts_bank s) \<and> ?F bank ?acc \<le> ?F (ts_bank s3) ?acc"
    using b 2(1) burn_free [of "im_pair (tc_imbalances cfg) bank x" ?acc x for x]
    by (auto simp: burn_surplus_def Let_def bookkeeping_free split: if_splits)
  have "sv_imbalance v3 + ?m \<le> ?F (ts_bank s3) ?acc" using 1(1) 2(2) 3 assms(2) by (auto simp: pot_def)
  moreover from settle_succeeds [OF this] obtain bank' where "im_settle (tc_imbalances cfg) (ts_bank s3) ?acc (sv_imbalance v3) = Some bank'" by blast
  ultimately show ?thesis using settle_free [of "ts_bank s3" ?acc "sv_imbalance v3" bank' ?acc]
    by (simp add: spend_funds_def Let_def r h b)
qed

lemma mul_no_burn: "pt_mul (tc_permill cfg) 0 x = 0"
  using pm.mul_nearest_up [of 0 x] pm.accuracy_pos by (cases "pt_mul (tc_permill cfg) 0 x") auto

lemma spend_funds_exact:
  assumes inv: "inv others s" and alive: "rc_minimum_balance (tc_currency cfg) \<le> rc_free_balance (tc_currency cfg) (ts_bank s) (tc_account_id cfg)"
    and small: "pot cfg (ts_bank s) \<le> u128_max" and no_burn: "tc_burn cfg = 0" "\<And>b. tc_burn_destination cfg 0 b = b"
    and no_hook: "\<And>v b. tc_spend_funds cfg v b = (v, b)"
    and above: "\<forall>i p. sm_get (ts_proposals s) i = Some p \<longrightarrow> rc_minimum_balance (tc_currency cfg) \<le> pr_value p"
  shows "let paid = awarded (ts_proposals s) (pot cfg (ts_bank s)) (ts_approvals s); s' = spend_funds cfg s in
    (\<forall>i. sm_get (ts_proposals s') i = (if i \<in> fst ` set paid then None else sm_get (ts_proposals s) i)) \<and>
    ts_approvals s' = filter (sm_contains (ts_proposals s')) (ts_approvals s) \<and>
    (\<forall>i\<in>set (ts_approvals s'). \<forall>p. sm_get (ts_proposals s') i = Some p \<longrightarrow> pot cfg (ts_bank s) < pr_value p + total_value paid) \<and>
    (\<forall>a. rc_free_balance (tc_currency cfg) (ts_bank s') a + (if a = tc_account_id cfg then total_value paid else 0) =
      rc_free_balance (tc_currency cfg) (ts_bank s) a + received a paid)"
proof -
  let ?F = "rc_free_balance (tc_currency cfg)" and ?acc = "tc_account_id cfg" and ?m = "rc_minimum_balance (tc_currency cfg)"
  let ?s = "treasury_event (Spending (pot cfg (ts_bank s))) s"
  let ?v = "\<lparr> sv_budget_remaining = pot cfg (ts_bank s), sv_imbalance = 0, sv_missed_any = False \<rparr>"
  let ?paid = "awarded (ts_proposals s) (pot cfg (ts_bank s)) (ts_approvals s)"
  obtain kept v1 s1 where r: "retain_approvals cfg (ts_approvals s) (?v, ?s) = (kept, v1, s1)" by (metis prod_cases3)
  have invs: "inv others ?s" "sm_invar (ts_proposals ?s)" using inv by (simp_all add: treasury_inv_def proposals_ok_def)
  from retain_bank [OF invs(1) _ r] small above
  have bank: "?F (ts_bank s1) a = ?F (ts_bank s) a + received a ?paid" "sv_imbalance v1 = total_value ?paid" for a by simp_all
  obtain v3 s3 where b: "burn_surplus cfg (v1, s1\<lparr> ts_approvals := kept, ts_bank := ts_bank s1 \<rparr>) = (v3, s3)" by fastforce
  have le: "total_value ?paid \<le> u128_max" using awarded_within [of "ts_proposals s" "pot cfg (ts_bank s)" "ts_approvals s"] small by simp
  have burn: "sv_imbalance v3 = total_value ?paid" "?F (ts_bank s3) a = ?F (ts_bank s1) a" "ts_approvals s3 = kept" "ts_proposals s3 = ts_proposals s1" for a
    using b le bank(2) by (auto simp: burn_surplus_def Let_def no_burn mul_no_burn bookkeeping_free split: if_splits)
  have "total_value ?paid + ?m \<le> ?F (ts_bank s3) ?acc"
    using awarded_within [of "ts_proposals s" "pot cfg (ts_bank s)" "ts_approvals s"] alive by (simp add: burn bank pot_def)
  from settle_succeeds [OF this] obtain bank' where st: "im_settle (tc_imbalances cfg) (ts_bank s3) ?acc (total_value ?paid) = Some bank'" by blast
  have "?F bank' a + (if a = ?acc then total_value ?paid else 0) = ?F (ts_bank s) a + received a ?paid" for a
    using settle_free [OF st, of a] by (simp add: burn bank)
  moreover have s': "spend_funds cfg s = treasury_event (Rollover (sv_budget_remaining v3)) (s3\<lparr> ts_bank := bank' \<rparr>)"
    unfolding spend_funds_def Let_def treasury_event_simps r no_hook prod.case b burn(1) st option.case ..
  moreover have sp: "\<forall>i\<in>set kept. \<forall>p. sm_get (ts_proposals s1) i = Some p \<longrightarrow> sv_budget_remaining v1 < pr_value p"
      "sv_budget_remaining v1 + total_value ?paid = pot cfg (ts_bank s)" "kept = filter (sm_contains (ts_proposals s1)) (ts_approvals s)"
      "\<forall>i. sm_get (ts_proposals s1) i = (if i \<in> fst ` set ?paid then None else sm_get (ts_proposals s) i)"
    using retain_spec [OF invs(2) r] by (simp_all add: Let_def)
  moreover have "pot cfg (ts_bank s) < pr_value p + total_value ?paid" if "i \<in> set kept" "sm_get (ts_proposals s1) i = Some p" for i p
    using bspec [OF sp(1) that(1)] that(2) sp(2) by fastforce
  ultimately show ?thesis by (simp add: Let_def burn)
qed

end

section \<open>Runs\<close>

datatype ('acc, 'src, 'bsrc, 'kind) treasury_action =
    ProposeSpend "'acc RawOrigin" nat 'src
  | RejectProposal "'acc RawOrigin" nat
  | ApproveProposal "'acc RawOrigin" nat
  | SpendLocal "'acc RawOrigin" nat 'src SpendContext
  | RemoveApproval "'acc RawOrigin" nat
  | SpendAsset "'acc RawOrigin" 'kind nat 'bsrc "nat option" nat SpendContext
  | PayoutSpend "'acc RawOrigin" nat nat
  | CheckStatus "'acc RawOrigin" nat nat
  | VoidSpend "'acc RawOrigin" nat
  | TreasuryBlock nat

text \<open>A failed call leaves the state as it was; \<open>None\<close> is a block that stops.\<close>

definition kept_or :: "'s \<Rightarrow> ('s, 'e) result \<Rightarrow> 's option" where
  "kept_or s r = Some (case r of Ok s' \<Rightarrow> s' | Err _ \<Rightarrow> s)"

fun treasury_step ::
  "('acc, 'src, 'bsrc, 'kind, 'ben, 'id, 'bank) TreasuryConfig \<Rightarrow> ('acc, 'src, 'bsrc, 'kind) treasury_action \<Rightarrow>
   ('acc, 'kind, 'ben, 'id, 'bank) TreasuryStorage \<Rightarrow> ('acc, 'kind, 'ben, 'id, 'bank) TreasuryStorage option" where
  "treasury_step cfg (ProposeSpend origin v ben) s = kept_or s (propose_spend cfg origin v ben s)"
| "treasury_step cfg (RejectProposal origin i) s = kept_or s (reject_proposal cfg origin i s)"
| "treasury_step cfg (ApproveProposal origin i) s = kept_or s (approve_proposal cfg origin i s)"
| "treasury_step cfg (SpendLocal origin v ben ctx) s = kept_or s (snd (spend_local cfg origin v ben ctx s))"
| "treasury_step cfg (RemoveApproval origin i) s = kept_or s (remove_approval cfg origin i s)"
| "treasury_step cfg (SpendAsset origin kind v ben from now ctx) s = kept_or s (snd (treasury_spend cfg origin kind v ben from now ctx s))"
| "treasury_step cfg (PayoutSpend origin i now) s = kept_or s (treasury_payout cfg origin i now s)"
| "treasury_step cfg (CheckStatus origin i now) s = (case check_status cfg origin i now s of Ok (_, s') \<Rightarrow> Some s' | Err _ \<Rightarrow> Some s)"
| "treasury_step cfg (VoidSpend origin i) s = kept_or s (void_spend cfg origin i s)"
| "treasury_step cfg (TreasuryBlock n) s = treasury_on_initialize cfg n s"

text \<open>The states of the pallet: from genesis by its own steps, as long as the indices have not run out, and by changes of
  balances elsewhere that do not touch the bonds. \<open>others\<close> is what other pallets hold in reserve.\<close>

inductive treasury_reachable ::
  "('acc, 'src, 'bsrc, 'kind, 'ben, 'id, 'bank) TreasuryConfig \<Rightarrow> ('acc \<Rightarrow> nat) \<Rightarrow> ('acc, 'kind, 'ben, 'id, 'bank) TreasuryStorage \<Rightarrow> bool"
  for cfg where
  genesis: "treasury_reachable cfg (rc_reserved (tc_currency cfg) bank) (treasury_genesis_build cfg bank)"
| step: "treasury_reachable cfg others s \<Longrightarrow> ts_proposal_count s < u32_max \<Longrightarrow> ts_spend_count s < u32_max \<Longrightarrow>
    treasury_step cfg a s = Some s' \<Longrightarrow> treasury_reachable cfg others s'"
| elsewhere: "treasury_reachable cfg others s \<Longrightarrow> (\<And>a. rc_reserved (tc_currency cfg) bank a = bonds_of (ts_proposals s) a + others' a) \<Longrightarrow>
    treasury_reachable cfg others' (s\<lparr> ts_bank := bank \<rparr>)"

lemma kept_or_inv: "kept_or s r = Some s' \<Longrightarrow> P s \<Longrightarrow> (\<And>t. r = Ok t \<Longrightarrow> P t) \<Longrightarrow> P s'"
  by (auto simp: kept_or_def split: result.splits)

text \<open>A run of the pallet, as long as the indices last.\<close>

primrec treasury_run ::
  "('acc, 'src, 'bsrc, 'kind, 'ben, 'id, 'bank) TreasuryConfig \<Rightarrow> ('acc, 'src, 'bsrc, 'kind) treasury_action list \<Rightarrow>
   ('acc, 'kind, 'ben, 'id, 'bank) TreasuryStorage \<Rightarrow> ('acc, 'kind, 'ben, 'id, 'bank) TreasuryStorage option" where
  "treasury_run cfg [] s = Some s"
| "treasury_run cfg (a # as) s =
     (if ts_proposal_count s < u32_max \<and> ts_spend_count s < u32_max then Option.bind (treasury_step cfg a s) (treasury_run cfg as) else None)"

lemma treasury_run_reachable:
  "treasury_reachable cfg others s \<Longrightarrow> treasury_run cfg as s = Some s' \<Longrightarrow> treasury_reachable cfg others s'"
proof (induction as arbitrary: s)
  case (Cons a as)
  then obtain t where "treasury_step cfg a s = Some t" "treasury_run cfg as t = Some s'" "ts_proposal_count s < u32_max" "ts_spend_count s < u32_max"
    by (auto split: if_splits simp: bind_eq_Some_conv)
  with Cons.prems(1) Cons.IH show ?case by (blast intro: treasury_reachable.step)
qed simp

context treasury_pallet
begin

lemma treasury_step_inv:
  assumes inv: "inv others s" and "ts_proposal_count s < u32_max" "ts_spend_count s < u32_max" and "treasury_step cfg a s = Some s'"
  shows "inv others s'"
  using assms(4)
proof (cases a)
  case (CheckStatus origin i now)
  with assms(4) inv check_status_inv [OF inv] show ?thesis by (auto split: result.splits)
qed (use assms(4) in \<open>auto elim!: kept_or_inv [where P = "inv others"] intro: inv propose_inv [OF inv assms(2)] reject_inv [OF inv]
      approve_inv [OF inv] spend_local_inv [OF inv assms(2)] remove_approval_inv [OF inv] spend_inv [OF inv assms(3)] payout_inv [OF inv]
      void_spend_inv [OF inv] on_initialize_inv [OF inv]\<close>)

lemma reachable_treasury_inv: "treasury_reachable cfg others s \<Longrightarrow> inv others s"
proof (induction rule: treasury_reachable.induct)
  case (genesis bank)
  show ?case
    by (auto simp: treasury_genesis_build_def Let_def treasury_inv_def proposals_ok_def spends_ok_def sm_invar_def bonds_of_def sm_sum_def sm_iter_def
        bookkeeping_reserved payment_ok_def sm_get_def sm_contains_def)
next
  case (step others s a s')
  then show ?case by (blast intro: treasury_step_inv)
next
  case (elsewhere others s bank others')
  then show ?case by (simp add: treasury_inv_def)
qed

end

text \<open>The spends that a context accepts: whatever calls are made in it, those of one limit stay within that limit together.\<close>

primrec accepted_in_context :: "(nat \<times> nat) list \<Rightarrow> SpendContext \<Rightarrow> (nat \<times> nat) list" where
  "accepted_in_context [] ctx = []"
| "accepted_in_context (x # xs) ctx =
     (case spend_in_context (fst x) (snd x) ctx of (ctx', r) \<Rightarrow>
        (if is_ok r then [x] else []) @ accepted_in_context xs ctx')"

lemma context_limit:
  assumes "sm_invar m" and "\<And>limit. sm_get_or 0 m limit \<le> limit"
  shows "sm_get_or 0 m limit + sum_list (map snd (filter (\<lambda>x. fst x = limit) (accepted_in_context xs (Some m)))) \<le> limit"
  using assms
proof (induction xs arbitrary: m)
  case (Cons x xs)
  define m' where "m' = sm_put m (fst x) (if is_ok (snd (spend_in_context (fst x) (snd x) (Some m)))
      then sm_get_or 0 m (fst x) + snd x else sm_get_or 0 m (fst x))"
  have step: "fst (spend_in_context (fst x) (snd x) (Some m)) = Some m'"
    by (auto simp: spend_in_context_def m'_def Let_def sat_add_exact)
  have get: "sm_get_or 0 m' j = (if j = fst x \<and> is_ok (snd (spend_in_context (fst x) (snd x) (Some m)))
      then sm_get_or 0 m j + snd x else sm_get_or 0 m j)" for j
    using Cons.prems(1) by (auto simp: m'_def sm_get_or_def)
  have "sm_get_or 0 m' j \<le> j" for j
    using Cons.prems(2) [of j] get [of j] by (auto simp: spend_in_context_def Let_def split: if_splits)
  from Cons.IH [OF _ this] Cons.prems(1) have
    "sm_get_or 0 m' limit + sum_list (map snd (filter (\<lambda>x. fst x = limit) (accepted_in_context xs (Some m')))) \<le> limit"
    by (simp add: m'_def)
  with get [of limit] step show ?case by (auto simp: case_prod_unfold split: if_splits)
qed (simp add: sm_get_or_def)

section \<open>The treasuries of the runtime\<close>

text \<open>The configuration of both treasuries of \<open>src/runtime/astar/src/lib.rs\<close>: nothing is burnt, there is no hook, slashed deposits go to the
  treasury itself, and nobody may spend outside the proposals. The council's origin, the pallet's account and the paymaster are arguments.\<close>

definition astar_treasury ::
  "('acc, 'bank) ReservableCurrency \<Rightarrow> ('acc, 'bank) ImbalanceCurrency \<Rightarrow> PerThing \<Rightarrow> ('acc RawOrigin \<Rightarrow> bool) \<Rightarrow> 'acc \<Rightarrow> ('src \<Rightarrow> 'acc option) \<Rightarrow>
   ('acc \<Rightarrow> unit \<Rightarrow> nat \<Rightarrow> 'bank \<Rightarrow> ('id \<times> 'bank) option) \<Rightarrow> ('id \<Rightarrow> 'bank \<Rightarrow> PaymentStatus) \<Rightarrow> ('acc, 'src, 'acc, unit, 'acc, 'id, 'bank) TreasuryConfig" where
  "astar_treasury C I P council account_id lookup pay check_payment = \<lparr>
     tc_currency = C, tc_imbalances = I, tc_approve_origin = council, tc_reject_origin = council,
     tc_on_slash = on_unbalanced C account_id, tc_permill = P, tc_proposal_bond = 50000,
     tc_proposal_bond_minimum = 100 * 10 ^ 18, tc_proposal_bond_maximum = Some (1000 * 10 ^ 18), tc_spend_period = 7 * 7200,
     tc_burn = 0, tc_account_id = account_id, tc_burn_destination = (\<lambda>_ bank. bank), tc_spend_funds = (\<lambda>v bank. (v, bank)),
     tc_max_approvals = 64, tc_spend_origin = (\<lambda>_. None), tc_lookup = lookup, tc_beneficiary_lookup = Some,
     tc_pay = pay, tc_check_payment = check_payment, tc_from_asset_balance = (\<lambda>amount _. Some amount), tc_payout_period = 0 \<rparr>"

lemma on_unbalanced_deposits:
  assumes "\<And>b c. rc_reserved C (rc_resolve_creating C b account_id x) c = rc_reserved C b c"
  shows "\<exists>bank es. on_unbalanced C account_id x s = s\<lparr> ts_bank := bank, ts_events := ts_events s @ es \<rparr> \<and>
    (\<forall>a. rc_reserved C bank a = rc_reserved C (ts_bank s) a) \<and> (\<forall>e\<in>set es. \<exists>v. e = Deposit v)"
proof (cases "x = 0")
  case True
  then show ?thesis by (intro exI [of _ "ts_bank s"] exI [of _ "[]"]) (simp add: on_unbalanced_def)
next
  case False
  then show ?thesis using assms
    by (intro exI [of _ "rc_resolve_creating C (ts_bank s) account_id x"] exI [of _ "[Deposit x]"])
      (simp add: on_unbalanced_def treasury_event_def)
qed

lemma astar_treasury_ok:
  assumes "treasury_currency C I" and "per_thing permill_acc P"
    and "\<And>ben kind x b pid b' a. pay ben kind x b = Some (pid, b') \<Longrightarrow> rc_reserved C b' a = rc_reserved C b a"
  shows "treasury_pallet (astar_treasury C I P council account_id lookup pay check_payment)"
proof -
  have R: "reservable_currency C" using assms(1) by (simp add: treasury_currency_def)
  show ?thesis
    unfolding treasury_pallet_def
    using assms on_unbalanced_deposits [of C, OF reservable_currency.resolve_reserved [OF R]]
    by (auto simp: treasury_pallet_axioms_def astar_treasury_def)
qed

text \<open>A council of the account 9, payments by transfer, and a bank in which the treasury is the account 0.\<close>

definition sample_treasury :: "(nat, nat, nat, unit, nat, nat, ledger_bank) TreasuryConfig" where
  "sample_treasury = astar_treasury ledger_currency ledger_imbalances exact_permill (\<lambda>origin. origin = Signed 9) 0 Some (\<lambda>_ _ _ _. None) (\<lambda>_ _. InProgress)"

interpretation sample_treasury: treasury_pallet sample_treasury
  unfolding sample_treasury_def
  by (rule astar_treasury_ok) (auto intro: ledger_imbalances.treasury_currency_axioms permill.per_thing_axioms)

definition sample_treasury_bank :: ledger_bank where
  "sample_treasury_bank = [(0, 5000 * 10 ^ 18, 0), (1, 700 * 10 ^ 18, 0), (2, 800 * 10 ^ 18, 3)]"

definition sample_proposals :: "(nat, nat, nat, unit) treasury_action list" where
  "sample_proposals = [ProposeSpend (Signed 1) (3000 * 10 ^ 18) 5, ProposeSpend (Signed 2) (2500 * 10 ^ 18) 6, ProposeSpend (Signed 2) (1000 * 10 ^ 18) 7,
     ApproveProposal (Signed 9) 0, ApproveProposal (Signed 9) 0, ApproveProposal (Signed 9) 1, ApproveProposal (Signed 9) 2]"

definition sample_treasury_state :: "(nat, unit, nat, nat, ledger_bank) TreasuryStorage" where
  "sample_treasury_state = the (treasury_run sample_treasury sample_proposals (treasury_genesis_build sample_treasury sample_treasury_bank))"

lemma sample_treasury_reachable: "treasury_reachable sample_treasury (\<lambda>a. if a = 2 then 3 else 0) sample_treasury_state"
proof -
  let ?run = "treasury_run sample_treasury sample_proposals (treasury_genesis_build sample_treasury sample_treasury_bank)"
  have "?run \<noteq> None" by code_simp
  then have run: "?run = Some sample_treasury_state" by (auto simp: sample_treasury_state_def)
  have "rc_reserved (tc_currency sample_treasury) sample_treasury_bank = (\<lambda>a. if a = 2 then 3 else 0)"
    by (auto simp: sample_treasury_def astar_treasury_def ledger_currency_def bank_get_def sample_treasury_bank_def fun_eq_iff)
  with treasury_run_reachable [OF treasury_reachable.genesis run] show ?thesis by simp
qed

lemma sample_treasury_values:
  "awarded (ts_proposals sample_treasury_state) (pot sample_treasury (ts_bank sample_treasury_state)) (ts_approvals sample_treasury_state) =
     [(0, \<lparr> pr_proposer = 1, pr_value = 3000 * 10 ^ 18, pr_beneficiary = 5, pr_bond = 150 * 10 ^ 18 \<rparr>),
      (2, \<lparr> pr_proposer = 2, pr_value = 1000 * 10 ^ 18, pr_beneficiary = 7, pr_bond = 100 * 10 ^ 18 \<rparr>)]"
  "pot sample_treasury (ts_bank sample_treasury_state) = 5000 * 10 ^ 18 - 1"
  "rc_free_balance ledger_currency (ts_bank sample_treasury_state) 1 = 550 * 10 ^ 18"
  "rc_free_balance ledger_currency (ts_bank sample_treasury_state) 0 = 5000 * 10 ^ 18"
  "ts_approvals sample_treasury_state = [0, 0, 1, 2]"
  "list_all (\<lambda>(i, p). 1 \<le> pr_value p) (ts_proposals sample_treasury_state)"
  by code_simp+

section \<open>Properties\<close>

text \<open>C17: In every reachable state of a treasury, the reserve of every account is exactly the sum of the bonds of its open
  proposals and what other pallets hold; every proposal is closed at most once, by one award or one rejection, and is
  gone afterwards; and a spend is paid at most once more often than a payment of it has failed.\<close>

theorem treasury_settles_once:
  assumes "treasury_pallet cfg" and "treasury_reachable cfg others s"
  shows "rc_reserved (tc_currency cfg) (ts_bank s) a = bonds_of (ts_proposals s) a + others a
    \<and> distinct (closed_ids (ts_events s))
    \<and> (\<forall>i\<in>set (closed_ids (ts_events s)). sm_get (ts_proposals s) i = None)
    \<and> payments_made i (ts_events s) \<le> payments_failed i (ts_events s) + 1"
proof -
  have inv: "treasury_inv (tc_currency cfg) others s" by (rule treasury_pallet.reachable_treasury_inv [OF assms])
  then have "payment_ok None (payments_made i (ts_events s)) (payments_failed i (ts_events s))"
    by (auto simp: treasury_inv_def spends_ok_def intro: payment_ok_None)
  with inv show ?thesis by (simp add: treasury_inv_def proposals_ok_def sm_contains_def payment_ok_def)
qed

theorem treasury_settles_once_witness:
  "rc_reserved ledger_currency (ts_bank sample_treasury_state) 2 = 225 * 10 ^ 18 + 3"
proof -
  have "bonds_of (ts_proposals sample_treasury_state) 2 = 225 * 10 ^ 18" by code_simp
  moreover have "tc_currency sample_treasury = ledger_currency" by (simp add: sample_treasury_def astar_treasury_def)
  ultimately show ?thesis
    using treasury_settles_once [OF sample_treasury.treasury_pallet_axioms sample_treasury_reachable, of 2] by simp
qed

text \<open>C18: At the end of a spend period, with a treasury that burns nothing and has no hook, exactly the approved proposals that fit
  the rest of the pot, in the order of their approval, are paid: they are removed, their beneficiaries get the value
  and their proposers the bond, and the treasury pays exactly the sum of the values and never more than the pot. The
  approvals of open proposals that were too expensive are kept, and each is worth more than what is left.\<close>

theorem spend_period_pays_approved:
  assumes "treasury_pallet cfg" and "treasury_reachable cfg others s"
    and "rc_minimum_balance (tc_currency cfg) \<le> rc_free_balance (tc_currency cfg) (ts_bank s) (tc_account_id cfg)"
    and "pot cfg (ts_bank s) \<le> u128_max" and "tc_burn cfg = 0" and "\<And>b. tc_burn_destination cfg 0 b = b" and "\<And>v b. tc_spend_funds cfg v b = (v, b)"
    and "\<forall>i p. sm_get (ts_proposals s) i = Some p \<longrightarrow> rc_minimum_balance (tc_currency cfg) \<le> pr_value p"
  shows "let paid = awarded (ts_proposals s) (pot cfg (ts_bank s)) (ts_approvals s); s' = spend_funds cfg s in
    total_value paid \<le> pot cfg (ts_bank s) \<and>
    (\<forall>i. sm_get (ts_proposals s') i = (if i \<in> fst ` set paid then None else sm_get (ts_proposals s) i)) \<and>
    ts_approvals s' = filter (sm_contains (ts_proposals s')) (ts_approvals s) \<and>
    (\<forall>i\<in>set (ts_approvals s'). \<forall>p. sm_get (ts_proposals s') i = Some p \<longrightarrow> pot cfg (ts_bank s) < pr_value p + total_value paid) \<and>
    (\<forall>a. rc_free_balance (tc_currency cfg) (ts_bank s') a + (if a = tc_account_id cfg then total_value paid else 0) =
      rc_free_balance (tc_currency cfg) (ts_bank s) a + received a paid)"
  using awarded_within treasury_pallet.spend_funds_exact [OF assms(1) treasury_pallet.reachable_treasury_inv [OF assms(1,2)] assms(3-8)]
  unfolding Let_def by (rule conjI)

theorem spend_period_pays_approved_witness:
  "ts_approvals (spend_funds sample_treasury sample_treasury_state) = [1]
   \<and> rc_free_balance ledger_currency (ts_bank (spend_funds sample_treasury sample_treasury_state)) 0 = 1000 * 10 ^ 18
   \<and> rc_free_balance ledger_currency (ts_bank (spend_funds sample_treasury sample_treasury_state)) 1 = 700 * 10 ^ 18"
proof -
  let ?cfg = sample_treasury and ?s = sample_treasury_state
  let ?paid = "[(0, \<lparr> pr_proposer = 1, pr_value = 3000 * 10 ^ 18, pr_beneficiary = 5, pr_bond = 150 * 10 ^ 18 \<rparr>),
      (2, \<lparr> pr_proposer = 2, pr_value = 1000 * 10 ^ 18, pr_beneficiary = 7, pr_bond = 100 * 10 ^ 18 \<rparr>)] :: (nat \<times> nat Proposal) list"
  have cfg: "tc_currency ?cfg = ledger_currency" "tc_account_id ?cfg = 0" "tc_burn ?cfg = 0" "tc_burn_destination ?cfg 0 b = b"
      "tc_spend_funds ?cfg v b = (v, b)" "rc_minimum_balance ledger_currency = 1" for v b
    by (simp_all add: sample_treasury_def astar_treasury_def ledger_currency_def)
  have "1 \<le> pr_value p" if "sm_get (ts_proposals ?s) i = Some p" for i p
    using that sample_treasury_values(6) by (force simp: sm_get_def list_all_iff dest: map_of_SomeD)
  moreover have "pot ?cfg (ts_bank ?s) \<le> u128_max" by (simp add: sample_treasury_values(2) u128_max_def)
  ultimately have spent: "let paid = awarded (ts_proposals ?s) (pot ?cfg (ts_bank ?s)) (ts_approvals ?s); s' = spend_funds ?cfg ?s in
    total_value paid \<le> pot ?cfg (ts_bank ?s) \<and>
    (\<forall>i. sm_get (ts_proposals s') i = (if i \<in> fst ` set paid then None else sm_get (ts_proposals ?s) i)) \<and>
    ts_approvals s' = filter (sm_contains (ts_proposals s')) (ts_approvals ?s) \<and>
    (\<forall>i\<in>set (ts_approvals s'). \<forall>p. sm_get (ts_proposals s') i = Some p \<longrightarrow> pot ?cfg (ts_bank ?s) < pr_value p + total_value paid) \<and>
    (\<forall>a. rc_free_balance (tc_currency ?cfg) (ts_bank s') a + (if a = tc_account_id ?cfg then total_value paid else 0) =
      rc_free_balance (tc_currency ?cfg) (ts_bank ?s) a + received a paid)"
    using sample_treasury_values(4) by (intro spend_period_pays_approved [OF sample_treasury.treasury_pallet_axioms sample_treasury_reachable])
      (simp_all add: cfg)
  note spent = spent [unfolded Let_def sample_treasury_values(1)]
  have "sm_contains (ts_proposals ?s) 1" by code_simp
  with spent have "ts_approvals (spend_funds ?cfg ?s) = [1]" by (simp add: sample_treasury_values(5) sm_contains_def)
  moreover have bal: "rc_free_balance (tc_currency ?cfg) (ts_bank (spend_funds ?cfg ?s)) a + (if a = tc_account_id ?cfg then total_value ?paid else 0) =
      rc_free_balance (tc_currency ?cfg) (ts_bank ?s) a + received a ?paid" for a
    using spent by blast
  have "rc_free_balance ledger_currency (ts_bank (spend_funds ?cfg ?s)) 0 = 1000 * 10 ^ 18"
    using bal [of 0] by (simp add: cfg sample_treasury_values(4) total_value_def received_def)
  moreover have "rc_free_balance ledger_currency (ts_bank (spend_funds ?cfg ?s)) 1 = 700 * 10 ^ 18"
    using bal [of 1] sample_treasury_values(3) by (simp add: cfg total_value_def received_def)
  ultimately show ?thesis by simp
qed

text \<open>A proposal that is rejected after its approval leaves its index among the approvals, although the third invariant of
  \<open>try_state_proposals\<close> asks that every approved index has a proposal; the next spend period drops it without a payment.\<close>

lemma rejected_approval_dangles:
  "case treasury_run sample_treasury [RejectProposal (Signed 9) 1] sample_treasury_state of
     Some s \<Rightarrow> try_state_proposals sample_treasury_state \<and> \<not> try_state_proposals s \<and> 1 \<notin> set (ts_approvals (spend_funds sample_treasury s))
   | None \<Rightarrow> False"
  by code_simp

end
