(* ===== verification/Participation.thy ===== *)
theory Participation
  imports Economy CollatorSelection
begin

text \<open>
  Who may stake and who may collate. The runtime (\<open>src/runtime/astar/src/lib.rs\<close>) gives the dApp staking pallet an account check that
  refuses candidates for block production, and the collator selection pallet one that refuses stakers. The two pallets
  run side by side here: the collator pallet's storage is a part of the state of the other pallets that dApp staking sees.
\<close>

section \<open>The account checks\<close>

definition AccountCheck_allowed_to_stake :: "('acc, 'bank) CollatorStorage \<Rightarrow> 'acc \<Rightarrow> bool" where
  "AccountCheck_allowed_to_stake c account \<longleftrightarrow> \<not> is_account_candidate c account"

definition CollatorSelectionAccountCheck_allowed_candidacy :: "('acc, 'sc, 'x) Storage \<Rightarrow> 'acc \<Rightarrow> bool" where
  "CollatorSelectionAccountCheck_allowed_candidacy s account \<longleftrightarrow> \<not> is_staker account s"

text \<open>The runtime of dApp staking with the collator pallet beside the other pallets, and the configuration of the collator pallet
  in a state of dApp staking.\<close>

definition with_collators :: "('acc, 'y) Runtime \<Rightarrow> ('acc, ('acc, 'bank) CollatorStorage \<times> 'y) Runtime" where
  "with_collators R = \<lparr> rt_total_balance = (\<lambda>(_, y). rt_total_balance R y), rt_total_issuance = (\<lambda>(_, y). rt_total_issuance R y),
     rt_set_freeze = (\<lambda>a n (c, y). and_then (rt_set_freeze R a n y) (\<lambda>y. Ok (c, y))),
     rt_thaw = (\<lambda>a (c, y). and_then (rt_thaw R a y) (\<lambda>y. Ok (c, y))),
     rt_allowed_to_stake = (\<lambda>(c, _). AccountCheck_allowed_to_stake c),
     rt_average_price = (\<lambda>(_, y). rt_average_price R y),
     rt_staker_and_dapp_reward_pools = (\<lambda>(_, y). rt_staker_and_dapp_reward_pools R y),
     rt_bonus_reward_pool = (\<lambda>(_, y). rt_bonus_reward_pool R y),
     rt_payout_reward = (\<lambda>a n (c, y). and_then (rt_payout_reward R a n y) (\<lambda>y. Ok (c, y))),
     rt_block_before_new_era = (\<lambda>era (c, y). (c, rt_block_before_new_era R era y)) \<rparr>"

definition with_stakers :: "('acc, 'vid, 'bank) CollatorConfig \<Rightarrow> ('acc \<Rightarrow> bool) \<Rightarrow> ('vid \<Rightarrow> bool) \<Rightarrow> ('acc, 'vid, 'bank) CollatorConfig" where
  "with_stakers cfg allowed registered = cfg\<lparr> cc_allowed_candidacy := allowed, cc_is_registered := registered \<rparr>"

section \<open>Both pallets\<close>

text \<open>The steps of dApp staking, those of collator selection, and changes elsewhere that touch neither pallet. The registered
  session keys may change from step to step.\<close>

inductive participation_step ::
  "('acc, 'sc) Config \<Rightarrow> ('acc, 'y) Runtime \<Rightarrow> ('acc, 'vid, 'bank) CollatorConfig \<Rightarrow>
   ('acc, 'sc, ('acc, 'bank) CollatorStorage \<times> 'y) Storage \<Rightarrow> ('acc, 'sc, ('acc, 'bank) CollatorStorage \<times> 'y) Storage \<Rightarrow> bool"
  for C R cfg where
  staking_call: "dispatch C (with_collators R) origin c s = Some (Ok s') \<Longrightarrow> participation_step C R cfg s s'"
| staking_block: "s' = on_initialize C (with_collators R) (Suc (pl_block_number s)) (s\<lparr> pl_block_number := Suc (pl_block_number s) \<rparr>) \<Longrightarrow>
    participation_step C R cfg s s'"
| staking_idle: "s' = on_idle C enough_weight s \<Longrightarrow> participation_step C R cfg s s'"
| staking_safe_mode: "s' = (if entered then SafeModeNotify_entered s else SafeModeNotify_exited s) \<Longrightarrow> participation_step C R cfg s s'"
| collators: "s' = s\<lparr> pl_env := (collator_step (with_stakers cfg (CollatorSelectionAccountCheck_allowed_candidacy s) registered) t a (fst (pl_env s)), snd (pl_env s)) \<rparr> \<Longrightarrow>
    participation_step C R cfg s s'"
| elsewhere: "s' = s\<lparr> pl_env := ((fst (pl_env s))\<lparr> cs_bank := bank \<rparr>, y) \<rparr> \<Longrightarrow> participation_step C R cfg s s'"

inductive participation ::
  "('acc, 'sc) Config \<Rightarrow> ('acc, 'y) Runtime \<Rightarrow> ('acc, 'vid, 'bank) CollatorConfig \<Rightarrow> ('acc, 'sc, ('acc, 'bank) CollatorStorage \<times> 'y) Storage \<Rightarrow> bool"
  for C R cfg where
  participation_genesis: "collator_genesis_build cfg invulnerables bond desired bank = Some c \<Longrightarrow>
    GenesisConfig_build C (with_collators R) g (empty_storage (c, y)) = Some s \<Longrightarrow> participation C R cfg s"
| participation_next: "participation C R cfg s \<Longrightarrow> participation_step C R cfg s s' \<Longrightarrow> within_bounds s' \<Longrightarrow> participation C R cfg s'"

lemma participation_step_pallet: "participation_step C R cfg s s' \<Longrightarrow> pallet_step C (with_collators R) s s'"
  by (induction rule: participation_step.induct) (blast intro: pallet_step.intros)+

lemma participation_reachable: "participation C R cfg s \<Longrightarrow> reachable C (with_collators R) s"
  by (induction rule: participation.induct) (blast intro: reachable.intros participation_step_pallet)+

lemma with_collators_ok: "runtime_ok R \<Longrightarrow> runtime_ok (with_collators R)"
  by (auto simp: runtime_ok_def with_collators_def)

text \<open>DApp staking leaves the collator pallet alone: an instance of the interface of its reward handler.\<close>

lemma collators_kept: "reward_handler (\<lambda>x. if fst x = c then 0 else 1) (\<lambda>x. if fst x = c then 0 else 1) (with_collators R)"
  by unfold_locales (auto simp: with_collators_def and_then_Ok_iff)

lemma dispatch_collators: "dispatch C (with_collators R) origin c s = Some (Ok s') \<Longrightarrow> fst (pl_env s') = fst (pl_env s)"
  using reward_handler.dispatch_capped [OF collators_kept [of "fst (pl_env s)"]] by (fastforce simp: capped_step_def split: if_splits)

section \<open>An empty ledger stays empty\<close>

text \<open>Only \<open>lock\<close> puts anything into an empty ledger, and it asks the account check first.\<close>

definition stays_empty :: "'acc \<Rightarrow> ('acc, 'sc, 'x) Storage \<Rightarrow> ('acc, 'sc, 'x) Storage \<Rightarrow> bool" where
  "stays_empty a s s' \<longleftrightarrow> (AccountLedger_is_empty (ledger_of a s) \<longrightarrow> AccountLedger_is_empty (ledger_of a s'))"

lemma default_is_empty [simp]: "AccountLedger_is_empty AccountLedger_default"
  by (simp add: AccountLedger_is_empty_def)

lemma stays_empty_same: "pl_ledger s' = pl_ledger s \<Longrightarrow> stays_empty a s s'"
  by (simp add: stays_empty_def ledger_of_def)

lemma stays_empty_written:
  assumes "sm_invar (pl_ledger s)" and "ledger_written s b l (pl_ledger s')"
    and "AccountLedger_is_empty (ledger_of b s) \<Longrightarrow> AccountLedger_is_empty l"
  shows "stays_empty a s s'"
  using assms written_get(2) [OF assms(1,2), of a]
  by (cases "a = b") (auto simp: stays_empty_def ledger_of_def sm_get_or_def split: option.splits if_splits)

lemma stays_empty_updated:
  assumes "sm_invar (pl_ledger s)" and "update_ledger R b l s0 = Ok s1" and "pl_ledger s0 = pl_ledger s" and "pl_ledger s' = pl_ledger s1"
    and "AccountLedger_is_empty (ledger_of b s) \<Longrightarrow> AccountLedger_is_empty l"
  shows "stays_empty a s s'"
  using assms by (intro stays_empty_written [OF assms(1), of b l]) (auto elim!: update_ledger_Ok simp: ledger_written_def)

lemma empty_lock:
  assumes "sm_invar (pl_ledger s)" and "lock C R origin amount s = Ok s'" and "\<not> rt_allowed_to_stake R (pl_env s) a"
  shows "stays_empty a s s'"
proof -
  from assms(2) obtain b amt m x ev where b: "origin = Signed b" and w: "ledger_written s b (AccountLedger_add_lock_amount amt (ledger_of b s)) m"
    and s': "s' = s\<lparr> pl_ledger := m, pl_env := x, pl_current_era_info := EraInfo_add_locked amt (pl_current_era_info s), pl_events := ev \<rparr>"
    by (rule lock_OkE)
  show ?thesis
  proof (cases "a = b")
    case True
    with assms(2,3) b have "\<not> AccountLedger_is_empty (ledger_of a s)" by (auto simp: lock_def and_then_Ok_iff Let_def)
    then show ?thesis by (simp add: stays_empty_def)
  next
    case False
    with written_get(2) [OF assms(1) w, of a] show ?thesis by (simp add: stays_empty_def ledger_of_def sm_get_or_def s')
  qed
qed

lemma empty_unlock:
  assumes "sm_invar (pl_ledger s)" and "unlock C R origin amount s = Ok s'"
  shows "stays_empty a s s'"
  using assms(2)
proof (rule unlock_OkE)
  fix b u l1 m x ev
  assume u: "u \<noteq> 0" "amount_to_unlock C (period_of s) amount (ledger_of b s) = Ok u" and w: "ledger_written s b l1 m"
    and s': "s' = s\<lparr> pl_ledger := m, pl_env := x, pl_current_era_info := EraInfo_unlocking_started u (pl_current_era_info s), pl_events := ev \<rparr>"
  have "\<not> AccountLedger_is_empty (ledger_of b s)" using amount_to_unlock_Ok(1) [OF u(2)] u(1) empty_ledger_zero(1) by force
  with w show ?thesis by (intro stays_empty_written [OF assms(1), of b l1]) (simp_all add: s')
qed

lemma empty_claim_unlocked:
  assumes "sm_invar (pl_ledger s)" and "internal_claim_unlocked C R b s = Ok s'"
  shows "stays_empty a s s'"
proof -
  let ?l = "snd (AccountLedger_claim_unlocked (pl_block_number s) (ledger_of b s))"
  from assms(2) obtain s1 where up: "update_ledger R b ?l (if AccountLedger_is_empty ?l then clear_staker_info C b (al_contract_stake_count ?l) s else s) = Ok s1"
      and "pl_ledger s' = pl_ledger s1"
    by (auto simp: internal_claim_unlocked_def and_then_Ok_iff Let_def case_prod_unfold deposit_event_def)
  then show ?thesis
    by (intro stays_empty_updated [OF assms(1) up])
      (auto simp: clear_staker_info_def Let_def AccountLedger_is_empty_def AccountLedger_claim_unlocked_def case_prod_unfold)
qed

lemma empty_relock:
  assumes "sm_invar (pl_ledger s)" and "relock_unlocking C R origin s = Ok s'"
  shows "stays_empty a s s'"
proof -
  from assms(2) obtain b l s1 where "al_unlocking (ledger_of b s) \<noteq> []" and up: "update_ledger R b l s = Ok s1" and "pl_ledger s' = pl_ledger s1"
    by (auto simp: relock_unlocking_def and_then_Ok_iff Let_def case_prod_unfold deposit_event_def)
  then show ?thesis by (intro stays_empty_updated [OF assms(1) up]) (auto simp: AccountLedger_is_empty_def)
qed

lemma empty_stake:
  assumes "sm_invar (pl_ledger s)" and "stake C R origin sc amount s = Ok s'"
  shows "stays_empty a s s'"
  using assms(2)
proof (rule stake_OkE)
  fix b d l1 info is_new l2 m x ev
  let ?l = "snd (AccountLedger_maybe_cleanup_expired (oldest_claimable_period C (period_of s)) (ledger_of b s))"
  assume amount: "0 < amount"
    and add: "AccountLedger_add_stake_amount amount (ps_era (pl_active_protocol_state s)) (ps_period_info (pl_active_protocol_state s)) ?l = Ok l1"
    and w: "ledger_written s b l2 m" and s': "s' = s\<lparr> pl_current_era_info := EraInfo_add_stake_amount amount (ProtocolState_subperiod (pl_active_protocol_state s)) (pl_current_era_info s),
        pl_ledger := m, pl_env := x,
        pl_staker_info := sm_put (pl_staker_info s) (b, sc)
          (SingularStakingInfo_stake amount (ps_era (pl_active_protocol_state s)) (ProtocolState_subperiod (pl_active_protocol_state s)) info),
        pl_contract_stake := sm_put (pl_contract_stake s) (di_id d) (ContractStakeAmount_stake amount (ps_period_info (pl_active_protocol_state s))
          (ps_era (pl_active_protocol_state s)) (contract_stake_of (di_id d) s)),
        pl_events := ev \<rparr>"
  have "amount \<le> al_locked ?l"
    using add amount by (auto simp: AccountLedger_add_stake_amount_def AccountLedger_stakeable_amount_def AccountLedger_active_locked_amount_def
        split: result.splits if_splits)
  moreover have "al_locked ?l = al_locked (ledger_of b s)" by (simp add: AccountLedger_maybe_cleanup_expired_def split: option.split)
  ultimately have "\<not> AccountLedger_is_empty (ledger_of b s)" using amount by (auto simp: AccountLedger_is_empty_def)
  with w show ?thesis by (intro stays_empty_written [OF assms(1), of b l2]) (simp_all add: s')
qed

lemma empty_unstake_amount:
  "AccountLedger_unstake_amount amount era p l = Ok l' \<Longrightarrow> 0 < amount \<Longrightarrow> \<not> AccountLedger_is_empty l"
  using empty_ledger_zero(3) [of l "pi_number p"] by (auto simp: AccountLedger_unstake_amount_def split: result.splits if_splits)

lemma empty_unstake:
  assumes "sm_invar (pl_ledger s)" and "unstake C R origin sc amount s = Ok s'"
  shows "stays_empty a s s'"
  using assms(2)
proof (rule unstake_call_OkE)
  fix b d u i' pairs l1 s1
  let ?s0 = "s\<lparr> pl_current_era_info := EraInfo_unstake_amount u (pl_current_era_info s),
          pl_contract_stake := sm_put (pl_contract_stake s) (di_id d) (ContractStakeAmount_unstake pairs (ps_period_info (pl_active_protocol_state s))
            (ps_era (pl_active_protocol_state s)) (contract_stake_of (di_id d) s)),
          pl_staker_info := (if SingularStakingInfo_is_empty i' then sm_remove (pl_staker_info s) (b, sc) else sm_put (pl_staker_info s) (b, sc) i') \<rparr>"
  assume "0 < amount" "unstake_staking_info C (pl_active_protocol_state s) amount (sm_get (pl_staker_info s) (b, sc)) = Ok (i', u, pairs)"
    and un: "AccountLedger_unstake_amount u (ps_era (pl_active_protocol_state s)) (ps_period_info (pl_active_protocol_state s)) (ledger_of b s) = Ok l1"
    and up: "update_ledger R b (if SingularStakingInfo_is_empty i' then l1\<lparr> al_contract_stake_count := al_contract_stake_count l1 - 1 \<rparr> else l1) ?s0 = Ok s1"
    and s': "s' = deposit_event (Unstake b sc u) s1"
  then have "0 < u" by (auto elim!: unstake_staking_info_Ok split: if_splits)
  from empty_unstake_amount [OF un this] show ?thesis
    by (intro stays_empty_updated [OF assms(1) up]) (simp_all add: s' deposit_event_def)
qed

lemma empty_unstake_from_unregistered:
  assumes inv: "staking_inv C s" and "config_ok C" and "unstake_from_unregistered R origin sc s = Ok s'"
  shows "stays_empty a s s'"
proof -
  let ?ps = "pl_active_protocol_state s"
  from assms(3) obtain b i l1 s1 where entry: "sm_get (pl_staker_info s) (b, sc) = Some i" "SingularStakingInfo_period_number i = period_of s"
    and un: "AccountLedger_unstake_amount (StakeAmount_total (si_staked i)) (ps_era ?ps) (ps_period_info ?ps) (ledger_of b s) = Ok l1"
    and up: "update_ledger R b l1 (s\<lparr> pl_current_era_info := EraInfo_unstake_amount (StakeAmount_total (si_staked i)) (pl_current_era_info s) \<rparr>) = Ok s1"
    and s': "pl_ledger s' = pl_ledger s1"
    by (auto simp: unstake_from_unregistered_def Let_def and_then_Ok_iff SingularStakingInfo_total_staked_amount_def deposit_event_def)
  have "info_ok C (period_of s) i" using staking_invD(4) [OF inv entry(1)] .
  then have "0 < StakeAmount_total (si_staked i)" using assms(2) entry(2) by (auto simp: info_ok_def sa_total_eq config_ok_def)
  from empty_unstake_amount [OF un this] show ?thesis
    by (intro stays_empty_updated [OF staking_invD(1) [OF inv] up]) (simp_all add: s')
qed

lemma empty_claim_staker:
  assumes "sm_invar (pl_ledger s)" and "internal_claim_staker_rewards_for C R b s = Some (Ok s')"
  shows "stays_empty a s s'"
  using assms(2)
proof (rule claim_staker_OkE)
  fix q e0 span last pe it l' rewards x s1
  assume q: "AccountLedger_staked_period (ledger_of b s) = Some q" and up: "update_ledger R b l' (s\<lparr> pl_env := x \<rparr>) = Ok s1"
    and s': "s' = fold (\<lambda>(era, reward). deposit_event (Reward b era reward)) rewards s1"
  from q have "\<not> AccountLedger_is_empty (ledger_of b s)"
    by (auto simp: AccountLedger_staked_period_def AccountLedger_is_empty_def StakeAmount_is_empty_def split: if_splits)
  then show ?thesis by (intro stays_empty_updated [OF assms(1) up]) (simp_all add: s' fold_events)
qed

lemma empty_bonus:
  assumes "sm_invar (pl_ledger s)" and "internal_claim_bonus_reward_for C R b sc s = Ok s'"
  shows "stays_empty a s s'"
proof -
  let ?l = "(ledger_of b s)\<lparr> al_contract_stake_count := al_contract_stake_count (ledger_of b s) - 1 \<rparr>"
  from assms(2) have "pl_ledger s' = sm_put (pl_ledger s) b ?l"
    by (clarsimp simp: internal_claim_bonus_reward_for_def Let_def and_then_Ok_iff deposit_event_def)
  then show ?thesis
    by (intro stays_empty_written [OF assms(1), of b ?l]) (simp_all add: ledger_written_def AccountLedger_is_empty_def)
qed

lemma empty_cleanup:
  assumes "sm_invar (pl_ledger s)" and "cleanup_expired_entries C R origin s = Ok s'"
  shows "stays_empty a s s'"
proof -
  from assms(2) obtain b n thr m s1 where
      up: "update_ledger R b (snd (AccountLedger_maybe_cleanup_expired thr ((ledger_of b s)\<lparr> al_contract_stake_count := n \<rparr>))) (s\<lparr> pl_staker_info := m \<rparr>) = Ok s1"
    and s': "pl_ledger s' = pl_ledger s1"
    by (auto simp: cleanup_expired_entries_def Let_def and_then_Ok_iff deposit_event_def ledger_of_def)
  show ?thesis
    by (rule stays_empty_updated [OF assms(1) up])
      (auto simp: s' AccountLedger_is_empty_def AccountLedger_maybe_cleanup_expired_def StakeAmount_is_empty_def split: option.split)
qed

lemma dispatch_empty:
  assumes inv: "staking_inv C s" and "config_ok C" and ok: "dispatch C R origin c s = Some (Ok s')" and "\<not> rt_allowed_to_stake R (pl_env s) a"
  shows "stays_empty a s s'"
proof -
  note m = staking_invD(1) [OF inv]
  note calls = empty_lock [OF m _ assms(4)] empty_unlock [OF m] empty_claim_unlocked [OF m] empty_relock [OF m] empty_stake [OF m] empty_unstake [OF m]
    empty_unstake_from_unregistered [OF inv assms(2)] empty_claim_staker [OF m] empty_bonus [OF m] empty_cleanup [OF m]
  have frame: "same_ledgers s t \<Longrightarrow> stays_empty a s t" for t by (rule stays_empty_same) (simp add: same_ledgers_def)
  show ?thesis
    using ok
    by (cases c) (auto simp: dispatch_def claim_staker_rewards_def claim_staker_rewards_for_def withdraw_unbonded_def claim_unlocked_def
        claim_bonus_reward_def claim_bonus_reward_for_def unbond_and_unstake_def and_then_Ok_iff split: result.splits
        intro: calls management_frame [THEN frame])
qed

section \<open>Candidates\<close>

lemma try_remove_candidates: "try_remove_candidate t who s = Ok s' \<Longrightarrow> set (cs_candidates s') \<subseteq> set (cs_candidates s)"
  using set_remove1_subset by (fastforce simp: try_remove_candidate_def and_then_Ok_iff)

lemma kick_candidates: "set (cs_candidates (fold (kick_entry cfg t) es s)) \<subseteq> set (cs_candidates s)"
proof (induction es arbitrary: s)
  case (Cons e es)
  have "set (cs_candidates (kick_entry cfg t e s)) \<subseteq> set (cs_candidates s)"
    using try_remove_candidates [of t "fst e" s]
    by (auto simp: kick_entry_def case_prod_unfold Let_def split: option.splits result.splits)
  with Cons [of "kick_entry cfg t e s"] show ?case by auto
qed simp

lemma take_previous_bond_candidates: "take_previous_bond cfg t who s = Ok s' \<Longrightarrow> cs_candidates s' = cs_candidates s"
  by (auto simp: take_previous_bond_def and_then_Ok_iff split: option.splits prod.splits)

lemma register_candidates:
  assumes "register_as_candidate cfg t origin s = Ok s'"
  obtains who d where "cc_allowed_candidacy cfg who" "cs_candidates s' = cs_candidates s @ [\<lparr> ci_who = who, ci_deposit = d \<rparr>]"
  using assms
  by (auto simp: register_as_candidate_def and_then_Ok_iff push_candidate_def Let_def split: if_splits dest!: take_previous_bond_candidates)

text \<open>Only an account that is allowed becomes a candidate.\<close>

lemma new_candidate_allowed:
  assumes "is_account_candidate (collator_step cfg t a s) who"
  shows "is_account_candidate s who \<or> cc_allowed_candidacy cfg who"
proof (cases a)
  case (RegisterAsCandidate origin)
  show ?thesis
  proof (cases "register_as_candidate cfg t origin s")
    case (Ok s')
    then obtain w d where "cc_allowed_candidacy cfg w" "cs_candidates s' = cs_candidates s @ [\<lparr> ci_who = w, ci_deposit = d \<rparr>]"
      by (rule register_candidates)
    with assms RegisterAsCandidate Ok show ?thesis by (auto simp: is_candidate_iff committed_def)
  qed (use assms RegisterAsCandidate in \<open>simp add: committed_def\<close>)
next
  case (LeaveIntent origin)
  have "set (cs_candidates s') \<subseteq> set (cs_candidates s)" if "leave_intent cfg t origin s = Ok s'" for s'
    using that by (auto simp: leave_intent_def and_then_Ok_iff dest: try_remove_candidates)
  with assms LeaveIntent show ?thesis by (auto simp: is_candidate_iff committed_def split: result.splits)
next
  case NewSession
  with assms kick_candidates [of cfg t "sm_iter (cs_last_authored_block s)" s] show ?thesis
    by (auto simp: is_candidate_iff new_session_def kick_stale_candidates_def Let_def)
qed (use assms in \<open>auto simp: is_account_candidate_def committed_def set_invulnerables_def set_desired_candidates_def set_candidacy_bond_def
      withdraw_bond_def set_slash_destination_def note_author_def Let_def and_then_def ensure_def split: result.splits option.splits if_splits\<close>)

section \<open>Nobody stakes and collates\<close>

definition idle_candidates :: "('acc, 'sc, ('acc, 'bank) CollatorStorage \<times> 'y) Storage \<Rightarrow> bool" where
  "idle_candidates s \<longleftrightarrow> (\<forall>a. is_account_candidate (fst (pl_env s)) a \<longrightarrow> AccountLedger_is_empty (ledger_of a s))"

lemma idle_candidates_kept:
  assumes "idle_candidates s" and "fst (pl_env s') = fst (pl_env s)" and "\<And>a. is_account_candidate (fst (pl_env s)) a \<Longrightarrow> stays_empty a s s'"
  shows "idle_candidates s'"
  using assms by (auto simp: idle_candidates_def stays_empty_def)

lemma participation_step_idle:
  assumes step: "participation_step C R cfg s s'" and idle: "idle_candidates s" and inv: "staking_inv C s" and C: "config_ok C"
  shows "idle_candidates s'"
  using step
proof (cases rule: participation_step.cases)
  case (staking_call origin c)
  show ?thesis
    by (rule idle_candidates_kept [OF idle dispatch_collators [OF staking_call]], rule dispatch_empty [OF inv C staking_call])
      (simp add: with_collators_def AccountCheck_allowed_to_stake_def case_prod_unfold)
next
  case staking_block
  have "fst (pl_env s') = fst (pl_env s)"
    by (simp add: staking_block on_initialize_def handler_env with_collators_def case_prod_unfold Let_def)
  moreover have "pl_ledger s' = pl_ledger s" by (simp add: staking_block on_initialize_def handler_frame(1))
  ultimately show ?thesis by (intro idle_candidates_kept [OF idle]) (simp_all add: stays_empty_same)
next
  case (staking_idle w)
  have "pl_env (on_idle C w s) = pl_env s"
    by (simp add: on_idle_def expired_entry_cleanup_def cleanup_dapp_tiers_def cleanup_era_reward_def Let_def split: option.split)
  with staking_idle show ?thesis by (intro idle_candidates_kept [OF idle]) (simp_all add: stays_empty_same)
next
  case (staking_safe_mode b)
  then show ?thesis
    by (intro idle_candidates_kept [OF idle])
      (simp_all add: stays_empty_same SafeModeNotify_entered_def SafeModeNotify_exited_def set_maintenance_mode_def deposit_event_def)
next
  case (collators registered t a)
  have "AccountLedger_is_empty (ledger_of b s)" if "is_account_candidate (fst (pl_env s')) b" for b
  proof -
    from that collators have "is_account_candidate (fst (pl_env s)) b \<or> CollatorSelectionAccountCheck_allowed_candidacy s b"
      using new_candidate_allowed [of "with_stakers cfg (CollatorSelectionAccountCheck_allowed_candidacy s) registered"]
      by (fastforce simp: with_stakers_def)
    then show ?thesis using idle
      by (auto simp: idle_candidates_def CollatorSelectionAccountCheck_allowed_candidacy_def is_staker_def sm_contains_def ledger_of_def sm_get_or_def)
  qed
  then show ?thesis by (simp add: idle_candidates_def collators ledger_of_def)
next
  case (elsewhere bank y)
  with idle show ?thesis by (simp add: idle_candidates_def is_account_candidate_def ledger_of_def)
qed

lemma participation_idle:
  assumes "participation C R cfg s" and "config_ok C" and "runtime_ok R"
  shows "idle_candidates s"
  using assms(1)
proof (induction rule: participation.induct)
  case (participation_genesis invulnerables bond desired bank c g y s)
  have "ledger_of a s = AccountLedger_default" for a
    using genesis_fields(1) [OF participation_genesis(2)] by (simp add: ledger_of_def sm_get_or_def)
  then show ?case by (simp add: idle_candidates_def)
next
  case (participation_next s s')
  have "staking_inv C s"
    by (rule reachable_inv [OF participation_reachable [OF participation_next(1)] assms(2) with_collators_ok [OF assms(3)]])
  from participation_step_idle [OF participation_next(2,4) this assms(2)] show ?case .
qed

section \<open>Runs\<close>

datatype ('acc, 'sc) ParticipationAction = Staking "('acc, 'sc) Action" | Collating CollatorTime "'acc collator_action"

definition participation_act ::
  "('acc, 'sc) Config \<Rightarrow> ('acc, 'y) Runtime \<Rightarrow> ('acc, 'vid, 'bank) CollatorConfig \<Rightarrow> ('acc, 'sc) ParticipationAction \<Rightarrow>
   ('acc, 'sc, ('acc, 'bank) CollatorStorage \<times> 'y) Storage \<Rightarrow> ('acc, 'sc, ('acc, 'bank) CollatorStorage \<times> 'y) Storage option" where
  "participation_act C R cfg a s = (case a of
       Staking b \<Rightarrow> act C (with_collators R) b s
     | Collating t b \<Rightarrow> Some (s\<lparr> pl_env := (collator_step (with_stakers cfg (CollatorSelectionAccountCheck_allowed_candidacy s) (cc_is_registered cfg)) t b
         (fst (pl_env s)), snd (pl_env s)) \<rparr>))"

primrec participation_run ::
  "('acc, 'sc) Config \<Rightarrow> ('acc, 'y) Runtime \<Rightarrow> ('acc, 'vid, 'bank) CollatorConfig \<Rightarrow> ('acc, 'sc) ParticipationAction list \<Rightarrow>
   ('acc, 'sc, ('acc, 'bank) CollatorStorage \<times> 'y) Storage \<Rightarrow> ('acc, 'sc, ('acc, 'bank) CollatorStorage \<times> 'y) Storage option" where
  "participation_run C R cfg [] s = Some s"
| "participation_run C R cfg (a # as) s =
     Option.bind (participation_act C R cfg a s) (\<lambda>s'. if within_bounds s' then participation_run C R cfg as s' else None)"

lemma participation_act_step: "participation_act C R cfg a s = Some s' \<Longrightarrow> participation_step C R cfg s s'"
proof (cases a)
  case (Staking b)
  assume "participation_act C R cfg a s = Some s'"
  with Staking show ?thesis
    by (cases b) (auto simp: participation_act_def act_def intro: participation_step.intros split: option.splits result.splits)
next
  case (Collating t b)
  assume "participation_act C R cfg a s = Some s'"
  with Collating show ?thesis by (auto simp: participation_act_def intro: participation_step.collators)
qed

lemma participation_run_reaches:
  "participation C R cfg s \<Longrightarrow> participation_run C R cfg as s = Some s' \<Longrightarrow> participation C R cfg s'"
proof (induction as arbitrary: s)
  case (Cons a as)
  then obtain t where "participation_act C R cfg a s = Some t" "within_bounds t" "participation_run C R cfg as t = Some s'"
    by (auto simp: bind_eq_Some_conv split: if_splits)
  with Cons.prems(1) Cons.IH show ?case by (blast intro: participation_next participation_act_step)
qed simp

text \<open>A configuration with eras of one block.\<close>

definition brief_cycle :: CycleConfiguration where
  "brief_cycle = \<lparr> periods_per_cycle = 2, eras_per_voting_subperiod = 1, eras_per_build_and_earn_subperiod = 2, blocks_per_era = 1 \<rparr>"

definition brief_config :: "(nat, nat) Config" where
  "brief_config = example_config\<lparr> cf_cycle := brief_cycle, cf_unlocking_period := 1 \<rparr>"

definition participation_start :: "(nat, nat, (nat, ledger_bank) CollatorStorage \<times> unit) Storage" where
  "participation_start = the (GenesisConfig_build brief_config (with_collators example_runtime) (GenesisConfig_default 4) (empty_storage (sample_start, ())))"

definition former_staker :: "(nat, nat) ParticipationAction list" where
  "former_staker = [Staking (Dispatch Root (Call_register 7 41)), Staking (Dispatch (Signed 1) (Call_lock 100)),
     Staking (Dispatch (Signed 1) (Call_stake 41 60)), Staking NextBlock, Staking NextBlock, Staking NextBlock, Staking NextBlock,
     Staking (Dispatch (Signed 1) (Call_unlock 100)), Staking NextBlock, Staking (Dispatch (Signed 1) Call_claim_unlocked),
     Staking (Dispatch (Signed 1) Call_claim_staker_rewards), Collating (at 5 0) (RegisterAsCandidate (Signed 1))]"

section \<open>The property\<close>

text \<open>C16: In every state that dApp staking and collator selection reach together, each asking the other through the runtime's account
  checks, a collator candidate has nothing locked, nothing unlocking and nothing staked in dApp staking.\<close>

theorem stakers_never_candidates:
  assumes "participation C R cfg s" and "config_ok C" and "runtime_ok R"
    and "is_account_candidate (fst (pl_env s)) a"
  shows "al_locked (ledger_of a s) = 0 \<and> al_unlocking (ledger_of a s) = []
    \<and> StakeAmount_total (al_staked (ledger_of a s)) = 0 \<and> al_staked_future (ledger_of a s) = None"
  using participation_idle [OF assms(1,2,3)] assms(4)
  by (simp add: idle_candidates_def AccountLedger_is_empty_def)

definition former_staker_state :: "(nat, nat, (nat, ledger_bank) CollatorStorage \<times> unit) Storage" where
  "former_staker_state = the (participation_run brief_config example_runtime sample_collators former_staker participation_start)"

lemma brief_config_ok: "config_ok brief_config"
  using example_ok(1) by (simp add: config_ok_def brief_config_def brief_cycle_def)

lemma former_staker_runs:
  "participation_run brief_config example_runtime sample_collators former_staker participation_start = Some former_staker_state"
proof -
  have "participation_run brief_config example_runtime sample_collators former_staker participation_start \<noteq> None" by code_simp
  then show ?thesis by (simp add: former_staker_state_def)
qed

lemma participation_starts: "participation brief_config example_runtime sample_collators participation_start"
proof (rule participation_genesis)
  show "collator_genesis_build sample_collators [9] 200 4 sample_bank = Some sample_start"
    by (simp add: collator_genesis_build_def sample_collators_def sample_start_def)
  show "GenesisConfig_build brief_config (with_collators example_runtime) (GenesisConfig_default 4) (empty_storage (sample_start, ()))
      = Some participation_start"
  proof -
    have "GenesisConfig_build brief_config (with_collators example_runtime) (GenesisConfig_default 4) (empty_storage (sample_start, ())) \<noteq> None"
      by code_simp
    then show ?thesis by (simp add: participation_start_def)
  qed
qed

lemma former_staker_reached: "participation brief_config example_runtime sample_collators former_staker_state"
  by (rule participation_run_reaches [OF participation_starts former_staker_runs])

theorem stakers_never_candidates_witness:
  "is_account_candidate (fst (pl_env former_staker_state)) 1 \<and> sm_contains (pl_staker_info former_staker_state) (1, 41)
   \<and> al_locked (ledger_of 1 former_staker_state) = 0"
proof -
  have "is_account_candidate (fst (pl_env former_staker_state)) 1" "sm_contains (pl_staker_info former_staker_state) (1, 41)"
    by code_simp+
  then show ?thesis
    using stakers_never_candidates [OF former_staker_reached brief_config_ok example_ok(2), of 1] by simp
qed

text \<open>The claim of the bonus rewrites the ledger entry of its account even when there is none, so that this candidate is a staker again
  for the account check, with an empty ledger.\<close>

lemma bonus_claim_revives_ledger:
  "\<not> is_staker 1 former_staker_state \<and>
   (case act brief_config (with_collators example_runtime) (Dispatch (Signed 1) (Call_claim_bonus_reward 41)) former_staker_state of
      Some s \<Rightarrow> is_staker 1 s \<and> is_account_candidate (fst (pl_env s)) 1 \<and> ledger_of 1 s = AccountLedger_default
    | None \<Rightarrow> False)"
  by code_simp

end
