(* ===== verification/CallTrace.thy ===== *)
theory CallTrace
  imports Prelude
begin

text \<open>
  The call list of the EVM tracer: the events a traced runtime emits (\<open>vendor/primitives/evm-tracing-events/src\<close>), the listener that
  turns them into the calls of a transaction (\<open>vendor/evm-tracing/src/listeners/call_list.rs\<close>) and the types of its result
  (\<open>types/mod.rs\<close>, \<open>formatters/blockscout.rs\<close>). The node is built without overflow checks, so machine integers wrap; a
  \<open>BTreeMap\<close> is the list of its entries in the order of the keys. The last part describes the events of a whole transaction as the
  tree of its frames and shows what the listener records of it.
\<close>

section \<open>Integers and ordered maps\<close>

definition wrapping_add :: "nat \<Rightarrow> nat \<Rightarrow> nat \<Rightarrow> nat" where
  "wrapping_add w a b = (a + b) mod 2 ^ w"

definition wrapping_sub :: "nat \<Rightarrow> nat \<Rightarrow> nat \<Rightarrow> nat" where
  "wrapping_sub w a b = (a + 2 ^ w - b) mod 2 ^ w"

type_synonym ('k, 'v) btree = "('k \<times> 'v) list"

definition bt_insert :: "'k::linorder \<Rightarrow> 'v \<Rightarrow> ('k, 'v) btree \<Rightarrow> ('k, 'v) btree" where
  "bt_insert k v m = takeWhile (\<lambda>e. fst e < k) m @ (k, v) # dropWhile (\<lambda>e. fst e \<le> k) m"

section \<open>Events\<close>

type_synonym Address = nat

datatype ExitSucceed = Stopped | Returned | Suicided

datatype ExitError =
    StackUnderflow | StackOverflow | InvalidJump | InvalidRange | DesignatedInvalid | CallTooDeep | CreateCollision
  | CreateContractLimit | OutOfOffset | OutOfGas | OutOfFund | OtherError string | UnlistedError

datatype ExitReason = Succeed ExitSucceed | Error ExitError | Revert | Fatal

datatype Capture = Exit ExitReason | Trap string

record Snapshot =
  sn_gas_limit :: nat
  sn_memory_gas :: nat
  sn_used_gas :: nat
  sn_refunded_gas :: int

definition Snapshot_gas :: "Snapshot \<Rightarrow> nat" where
  "Snapshot_gas self = wrapping_sub 64 (wrapping_sub 64 (sn_gas_limit self) (sn_used_gas self)) (sn_memory_gas self)"

datatype GasometerEvent =
    RecordCost nat Snapshot
  | RecordRefund int Snapshot
  | RecordStipend nat Snapshot
  | RecordDynamicCost nat nat int Snapshot
  | RecordTransaction nat Snapshot

record EventContext =
  ec_address :: Address
  ec_caller :: Address
  ec_apparent_value :: nat

record EvmStack =
  st_data :: "nat list"
  st_limit :: nat

record EvmMemory =
  me_data :: "nat list"
  me_effective_len :: nat
  me_limit :: nat

datatype RuntimeEvent =
    Step EventContext string "(nat, ExitReason) result" "EvmStack option" "EvmMemory option"
  | StepResult "(unit, Capture) result" "nat list"
  | SLoad Address nat nat
  | SStore Address nat nat

record Transfer =
  tf_source :: Address
  tf_target :: Address
  tf_value :: nat

datatype CreateScheme = LegacyScheme Address | Create2Scheme Address nat nat | FixedScheme Address

text \<open>The fields of a call are the code address, the transfer, the input, the target gas, whether it is static, and the context.\<close>

datatype EvmEvent =
    EvmCall Address "Transfer option" "nat list" "nat option" bool EventContext
  | EvmCreate Address Address CreateScheme nat "nat list" "nat option"
  | Suicide Address Address nat
  | EvmExit ExitReason "nat list"
  | TransactCall Address Address nat "nat list" nat
  | TransactCreate Address nat "nat list" nat Address
  | TransactCreate2 Address nat "nat list" nat nat Address
  | PrecompileSubcall Address "Transfer option" "nat list" "nat option" bool EventContext

datatype TraceEvent = Evm EvmEvent | Gasometer GasometerEvent | Runtime RuntimeEvent | CallListNew

record StepEventFilter =
  enable_stack :: bool
  enable_memory :: bool

text \<open>The names of the opcodes, by which the runtime marshals a step.\<close>

definition basic_opcode_names :: "(nat \<times> string) list" where
  "basic_opcode_names = [
    (0, ''Stop''), (1, ''Add''), (2, ''Mul''), (3, ''Sub''), (4, ''Div''), (5, ''SDiv''), (6, ''Mod''), (7, ''SMod''),
    (8, ''AddMod''), (9, ''MulMod''), (10, ''Exp''), (11, ''SignExtend''), (16, ''Lt''), (17, ''Gt''), (18, ''Slt''),
    (19, ''Sgt''), (20, ''Eq''), (21, ''IsZero''), (22, ''And''), (23, ''Or''), (24, ''Xor''), (25, ''Not''), (26, ''Byte''),
    (27, ''Shl''), (28, ''Shr''), (29, ''Sar''), (32, ''Keccak256''), (48, ''Address''), (49, ''Balance''), (50, ''Origin''),
    (51, ''Caller''), (52, ''CallValue''), (53, ''CallDataLoad''), (54, ''CallDataSize''), (55, ''CallDataCopy''),
    (56, ''CodeSize''), (57, ''CodeCopy''), (58, ''GasPrice''), (59, ''ExtCodeSize''), (60, ''ExtCodeCopy''),
    (61, ''ReturnDataSize''), (62, ''ReturnDataCopy''), (63, ''ExtCodeHash''), (64, ''BlockHash''), (65, ''Coinbase''),
    (66, ''Timestamp''), (67, ''Number''), (68, ''Difficulty''), (69, ''GasLimit''), (70, ''ChainId''), (80, ''Pop''),
    (81, ''MLoad''), (82, ''MStore''), (83, ''MStore8''), (84, ''SLoad''), (85, ''SStore''), (86, ''Jump''), (87, ''JumpI''),
    (88, ''GetPc''), (89, ''MSize''), (90, ''Gas''), (91, ''JumpDest''), (96, ''Push1''), (97, ''Push2''), (98, ''Push3''),
    (99, ''Push4''), (100, ''Push5''), (101, ''Push6''), (102, ''Push7''), (103, ''Push8''), (104, ''Push9''), (105, ''Push10''),
    (106, ''Push11''), (107, ''Push12''), (108, ''Push13''), (109, ''Push14''), (110, ''Push15''), (111, ''Push16''),
    (112, ''Push17''), (113, ''Push18''), (114, ''Push19''), (115, ''Push20''), (116, ''Push21''), (117, ''Push22''),
    (118, ''Push23''), (119, ''Push24''), (120, ''Push25''), (121, ''Push26''), (122, ''Push27''), (123, ''Push28''),
    (124, ''Push29''), (125, ''Push30''), (126, ''Push31''), (127, ''Push32''), (128, ''Dup1''), (129, ''Dup2''),
    (130, ''Dup3''), (131, ''Dup4''), (132, ''Dup5''), (133, ''Dup6''), (134, ''Dup7''), (135, ''Dup8''), (136, ''Dup9''),
    (137, ''Dup10''), (138, ''Dup11''), (139, ''Dup12''), (140, ''Dup13''), (141, ''Dup14''), (142, ''Dup15''), (143, ''Dup16''),
    (144, ''Swap1''), (145, ''Swap2''), (146, ''Swap3''), (147, ''Swap4''), (148, ''Swap5''), (149, ''Swap6''), (150, ''Swap7''),
    (151, ''Swap8''), (152, ''Swap9''), (153, ''Swap10''), (154, ''Swap11''), (155, ''Swap12''), (156, ''Swap13''),
    (157, ''Swap14''), (158, ''Swap15''), (159, ''Swap16''), (160, ''Log0''), (161, ''Log1''), (162, ''Log2''), (163, ''Log3''),
    (164, ''Log4''), (176, ''JumpTo''), (177, ''JumpIf''), (178, ''JumpSub''), (180, ''JumpSubv''), (181, ''BeginSub''),
    (182, ''BeginData''), (184, ''ReturnSub''), (185, ''PutLocal''), (186, ''GetLocal'')]"

definition system_opcode_names :: "(nat \<times> string) list" where
  "system_opcode_names = [
    (225, ''SLoadBytes''), (226, ''SStoreBytes''), (227, ''SSize''), (240, ''Create''), (241, ''Call''), (242, ''CallCode''),
    (243, ''Return''), (244, ''DelegateCall''), (245, ''Create2''), (250, ''StaticCall''), (252, ''TxExecGas''),
    (253, ''Revert''), (254, ''Invalid''), (255, ''SelfDestruct'')]"

fun decimal :: "nat \<Rightarrow> string" where
  "decimal n = (if n < 10 then [char_of (48 + n)] else decimal (n div 10) @ [char_of (48 + n mod 10)])"

definition opcodes_string :: "nat \<Rightarrow> string" where
  "opcodes_string opcode = (case map_of (system_opcode_names @ basic_opcode_names) opcode of
     Some name \<Rightarrow> name | None \<Rightarrow> ''Unknown('' @ decimal opcode @ '')'')"

section \<open>Contexts and calls\<close>

datatype CallType = CALL | CALLCODE | DELEGATECALL | STATICCALL

datatype ContextType = CallContext CallType | CreateContext

text \<open>Opcode names are ASCII, where upper case is a shift of the small letters.\<close>

definition to_uppercase :: "string \<Rightarrow> string" where
  "to_uppercase = map (\<lambda>c. if 97 \<le> (of_char c :: nat) \<and> (of_char c :: nat) \<le> 122 then char_of ((of_char c :: nat) - 32) else c)"

definition ContextType_from :: "string \<Rightarrow> ContextType option" where
  "ContextType_from opcode =
     (let opcode = to_uppercase opcode in
      if opcode = ''CREATE'' \<or> opcode = ''CREATE2'' then Some CreateContext
      else if opcode = ''CALL'' then Some (CallContext CALL)
      else if opcode = ''CALLCODE'' then Some (CallContext CALLCODE)
      else if opcode = ''DELEGATECALL'' then Some (CallContext DELEGATECALL)
      else if opcode = ''STATICCALL'' then Some (CallContext STATICCALL)
      else None)"

datatype CallResult = CallOutput "nat list" | CallError string

datatype CreateResult = CreateError string | CreateSuccess Address "nat list"

datatype BlockscoutCallInner =
    CallInner CallType Address "nat list" CallResult
  | CreateInner "nat list" CreateResult
  | SelfDestructInner nat Address

record BlockscoutCall =
  bc_from :: Address
  bc_trace_address :: "nat list"
  bc_subtraces :: nat
  bc_value :: nat
  bc_gas :: nat
  bc_gas_used :: nat
  bc_inner :: BlockscoutCallInner

record Context =
  cx_entries_index :: nat
  cx_context_type :: ContextType
  cx_from :: Address
  cx_trace_address :: "nat list"
  cx_subtraces :: nat
  cx_value :: nat
  cx_gas :: nat
  cx_start_gas :: "nat option"
  cx_data :: "nat list"
  cx_to :: Address

datatype TracingVersion = EarlyTransact | Legacy

record Listener =
  ls_version :: TracingVersion
  ls_transaction_cost :: nat
  ls_entries :: "(nat, BlockscoutCall) btree list"
  ls_entries_next_index :: nat
  ls_context_stack :: "Context list"
  ls_call_type :: "CallType option"
  ls_skip_next_context :: bool
  ls_step_result_entry :: "(nat \<times> BlockscoutCall) option"
  ls_call_list_first_transaction :: bool
  ls_record_transaction_event_only :: bool

definition Listener_default :: Listener where
  "Listener_default = \<lparr> ls_version = Legacy, ls_transaction_cost = 0, ls_entries = [], ls_entries_next_index = 0,
     ls_context_stack = [], ls_call_type = None, ls_skip_next_context = False, ls_step_result_entry = None,
     ls_call_list_first_transaction = True, ls_record_transaction_event_only = False \<rparr>"

section \<open>The listener\<close>

definition EARLY_EXIT :: string where
  "EARLY_EXIT = ''early exit (out of gas, stack overflow, direct call to precompile, ...)''"

definition NO_DATA_COST :: string where
  "NO_DATA_COST = ''transaction could not pay its own data cost (impossible to gather more info)''"

definition error_message :: "ExitError \<Rightarrow> string" where
  "error_message error = (case error of
       StackUnderflow \<Rightarrow> ''stack underflow'' | StackOverflow \<Rightarrow> ''stack overflow'' | InvalidJump \<Rightarrow> ''invalid jump''
     | InvalidRange \<Rightarrow> ''invalid range'' | DesignatedInvalid \<Rightarrow> ''designated invalid'' | CallTooDeep \<Rightarrow> ''call too deep''
     | CreateCollision \<Rightarrow> ''create collision'' | CreateContractLimit \<Rightarrow> ''create contract limit'' | OutOfOffset \<Rightarrow> ''out of offset''
     | OutOfGas \<Rightarrow> ''out of gas'' | OutOfFund \<Rightarrow> ''out of funds'' | OtherError err \<Rightarrow> err | UnlistedError \<Rightarrow> ''unexpected error'')"

definition insert_entry :: "nat \<Rightarrow> BlockscoutCall \<Rightarrow> Listener \<Rightarrow> Listener" where
  "insert_entry key entry self = self\<lparr> ls_entries :=
     (if ls_entries self = [] then [bt_insert key entry []]
      else butlast (ls_entries self) @ [bt_insert key entry (last (ls_entries self))]) \<rparr>"

text \<open>The gas a context has used; the cost of the transaction is added to the context of index zero.\<close>

definition context_gas_used :: "Listener \<Rightarrow> Context \<Rightarrow> nat" where
  "context_gas_used self context =
     (let gas_used = wrapping_sub 64 (case cx_start_gas context of Some g \<Rightarrow> g | None \<Rightarrow> 0) (cx_gas context) in
      if cx_entries_index context = 0 then wrapping_add 64 gas_used (ls_transaction_cost self) else gas_used)"

definition context_entry :: "Listener \<Rightarrow> Context \<Rightarrow> BlockscoutCallInner \<Rightarrow> BlockscoutCall" where
  "context_entry self context inner = \<lparr> bc_from = cx_from context, bc_trace_address = cx_trace_address context,
     bc_subtraces = cx_subtraces context, bc_value = cx_value context, bc_gas = cx_gas context,
     bc_gas_used = context_gas_used self context, bc_inner = inner \<rparr>"

definition call_res :: "ExitReason \<Rightarrow> nat list \<Rightarrow> CallResult" where
  "call_res reason return_value = (case reason of
       Succeed Returned \<Rightarrow> CallOutput return_value
     | Succeed _ \<Rightarrow> CallOutput []
     | Error error \<Rightarrow> CallError (error_message error)
     | Revert \<Rightarrow> CallError ''execution reverted''
     | Fatal \<Rightarrow> CallError [])"

definition create_res :: "Address \<Rightarrow> ExitReason \<Rightarrow> nat list \<Rightarrow> CreateResult" where
  "create_res to reason return_value = (case reason of
       Succeed _ \<Rightarrow> CreateSuccess to return_value
     | Error error \<Rightarrow> CreateError (error_message error)
     | Revert \<Rightarrow> CreateError ''execution reverted''
     | Fatal \<Rightarrow> CreateError [])"

definition exit_inner :: "Context \<Rightarrow> ExitReason \<Rightarrow> nat list \<Rightarrow> BlockscoutCallInner" where
  "exit_inner context reason return_value = (case cx_context_type context of
       CallContext call_type \<Rightarrow> CallInner call_type (cx_to context) (cx_data context) (call_res reason return_value)
     | CreateContext \<Rightarrow> CreateInner (cx_data context) (create_res (cx_to context) reason return_value))"

definition pop_context_to_entry ::
  "ExitReason \<Rightarrow> nat list \<Rightarrow> Listener \<Rightarrow> Listener \<times> (nat \<times> BlockscoutCall) option" where
  "pop_context_to_entry reason return_value self =
     (if ls_context_stack self = [] then (self, None)
      else let context = last (ls_context_stack self) in
        (self\<lparr> ls_context_stack := butlast (ls_context_stack self) \<rparr>,
         Some (cx_entries_index context, context_entry self context (exit_inner context reason return_value))))"

definition early_exit_inner :: "Context \<Rightarrow> BlockscoutCallInner" where
  "early_exit_inner context = (case cx_context_type context of
       CallContext call_type \<Rightarrow> CallInner call_type (cx_to context) (cx_data context) (CallError EARLY_EXIT)
     | CreateContext \<Rightarrow> CreateInner (cx_data context) (CreateError EARLY_EXIT))"

definition finish_transaction :: "Listener \<Rightarrow> Listener" where
  "finish_transaction self =
     (let context_stack = ls_context_stack self; self = self\<lparr> ls_context_stack := [] \<rparr> in
      case context_stack of
        context # _ \<Rightarrow>
          (insert_entry (cx_entries_index context) (context_entry self context (early_exit_inner context)) self)
            \<lparr> ls_entries_next_index := wrapping_add 32 (cx_entries_index context) 1 \<rparr>
      | [] \<Rightarrow>
          if ls_record_transaction_event_only self
          then (insert_entry (ls_entries_next_index self)
                 \<lparr> bc_from = 0, bc_trace_address = [], bc_subtraces = 0, bc_value = 0, bc_gas = 0, bc_gas_used = 0,
                   bc_inner = CallInner CALL 0 [] (CallError NO_DATA_COST) \<rparr> self)
                 \<lparr> ls_entries_next_index := wrapping_add 32 (ls_entries_next_index self) 1 \<rparr>
          else self)"

definition map_last :: "('a \<Rightarrow> 'a) \<Rightarrow> 'a list \<Rightarrow> 'a list" where
  "map_last f xs = (if xs = [] then [] else butlast xs @ [f (last xs)])"

definition record_gas :: "Snapshot \<Rightarrow> Context \<Rightarrow> Context" where
  "record_gas snapshot context =
     context\<lparr> cx_start_gas := (case cx_start_gas context of None \<Rightarrow> Some (Snapshot_gas snapshot) | Some g \<Rightarrow> Some g),
       cx_gas := Snapshot_gas snapshot \<rparr>"

definition gasometer_event :: "GasometerEvent \<Rightarrow> Listener \<Rightarrow> Listener" where
  "gasometer_event event self = (case event of
       RecordCost _ snapshot \<Rightarrow> self\<lparr> ls_context_stack := map_last (record_gas snapshot) (ls_context_stack self) \<rparr>
     | RecordDynamicCost _ _ _ snapshot \<Rightarrow> self\<lparr> ls_context_stack := map_last (record_gas snapshot) (ls_context_stack self) \<rparr>
     | RecordStipend _ snapshot \<Rightarrow> self\<lparr> ls_context_stack := map_last (record_gas snapshot) (ls_context_stack self) \<rparr>
     | RecordTransaction cost _ \<Rightarrow> self\<lparr> ls_transaction_cost := cost, ls_record_transaction_event_only := True \<rparr>
     | RecordRefund _ _ \<Rightarrow> self)"

definition runtime_event :: "RuntimeEvent \<Rightarrow> Listener \<Rightarrow> Listener" where
  "runtime_event event self = (case event of
       StepResult (Err (Trap opcode)) _ \<Rightarrow>
         (case ContextType_from opcode of
            Some (CallContext call_type) \<Rightarrow> self\<lparr> ls_call_type := Some call_type \<rparr>
          | _ \<Rightarrow> self)
     | StepResult (Err (Exit reason)) return_value \<Rightarrow>
         (case pop_context_to_entry reason return_value self of
            (self, Some (key, entry)) \<Rightarrow>
              (case ls_version self of
                 Legacy \<Rightarrow> insert_entry key entry self
               | EarlyTransact \<Rightarrow> self\<lparr> ls_step_result_entry := Some (key, entry) \<rparr>)
          | (self, None) \<Rightarrow> self)
     | _ \<Rightarrow> self)"

text \<open>The trace address of a child: its number among the children of the context on top of the stack, which counts it.\<close>

definition child_trace_address :: "Listener \<Rightarrow> nat list" where
  "child_trace_address self = (if ls_context_stack self = [] then []
     else cx_trace_address (last (ls_context_stack self)) @ [cx_subtraces (last (ls_context_stack self))])"

definition count_child :: "Listener \<Rightarrow> Listener" where
  "count_child self = self\<lparr> ls_context_stack :=
     map_last (\<lambda>context. context\<lparr> cx_subtraces := wrapping_add 32 (cx_subtraces context) 1 \<rparr>) (ls_context_stack self) \<rparr>"

text \<open>A new context is pushed with the next index, no children and no gas.\<close>

definition push_context :: "ContextType \<Rightarrow> Address \<Rightarrow> nat list \<Rightarrow> nat \<Rightarrow> nat list \<Rightarrow> Address \<Rightarrow> Listener \<Rightarrow> Listener" where
  "push_context context_type from trace_address value data to self = self\<lparr>
     ls_context_stack := ls_context_stack self @ [\<lparr> cx_entries_index = ls_entries_next_index self,
       cx_context_type = context_type, cx_from = from, cx_trace_address = trace_address, cx_subtraces = 0, cx_value = value,
       cx_gas = 0, cx_start_gas = None, cx_data = data, cx_to = to \<rparr>],
     ls_entries_next_index := wrapping_add 32 (ls_entries_next_index self) 1 \<rparr>"

definition transact_context :: "ContextType \<Rightarrow> Address \<Rightarrow> nat \<Rightarrow> nat list \<Rightarrow> Address \<Rightarrow> Listener \<Rightarrow> Listener" where
  "transact_context context_type from value data to self =
     (push_context context_type from [] value data to
       (self\<lparr> ls_record_transaction_event_only := False, ls_version := EarlyTransact \<rparr>))\<lparr> ls_skip_next_context := True \<rparr>"

definition evm_event :: "EvmEvent \<Rightarrow> Listener \<Rightarrow> Listener" where
  "evm_event event self = (case event of
       TransactCall caller address value data _ \<Rightarrow> transact_context (CallContext CALL) caller value data address self
     | TransactCreate caller value init_code _ address \<Rightarrow> transact_context CreateContext caller value init_code address self
     | TransactCreate2 caller value init_code _ _ address \<Rightarrow> transact_context CreateContext caller value init_code address self
     | EvmCall code_address _ input _ is_static context \<Rightarrow>
         (let self = self\<lparr> ls_record_transaction_event_only := False \<rparr>;
              call_type = (case ls_call_type self of None \<Rightarrow> if is_static then STATICCALL else CALL | Some call_type \<Rightarrow> call_type) in
          if \<not> ls_skip_next_context self
          then let from = (if ls_context_stack self = [] then ec_caller context else cx_to (last (ls_context_stack self))) in
            push_context (CallContext call_type) from (child_trace_address self) (ec_apparent_value context) input code_address
              (count_child self)
          else self\<lparr> ls_skip_next_context := False \<rparr>)
     | EvmCreate caller address _ value init_code _ \<Rightarrow>
         (let self = self\<lparr> ls_record_transaction_event_only := False \<rparr> in
          if \<not> ls_skip_next_context self
          then push_context CreateContext caller (child_trace_address self) value init_code address (count_child self)
          else self\<lparr> ls_skip_next_context := False \<rparr>)
     | Suicide address target balance \<Rightarrow>
         (let trace_address = child_trace_address self; self = count_child self in
          (insert_entry (ls_entries_next_index self)
             \<lparr> bc_from = address, bc_trace_address = trace_address, bc_subtraces = 0, bc_value = 0, bc_gas = 0, bc_gas_used = 0,
               bc_inner = SelfDestructInner balance target \<rparr> self)
             \<lparr> ls_entries_next_index := wrapping_add 32 (ls_entries_next_index self) 1 \<rparr>)
     | EvmExit reason return_value \<Rightarrow>
         (let self = self\<lparr> ls_record_transaction_event_only := False \<rparr>;
              (self, entry) = (case ls_step_result_entry self of
                 Some entry \<Rightarrow> (self\<lparr> ls_step_result_entry := None \<rparr>, Some entry)
               | None \<Rightarrow> pop_context_to_entry reason return_value self) in
          case entry of Some (key, entry) \<Rightarrow> insert_entry key entry self | None \<Rightarrow> self)
     | PrecompileSubcall _ _ _ _ _ _ \<Rightarrow> self\<lparr> ls_call_type := Some CALL \<rparr>)"

definition listener_event :: "TraceEvent \<Rightarrow> Listener \<Rightarrow> Listener" where
  "listener_event event self = (case event of
       Gasometer e \<Rightarrow> gasometer_event e self
     | Runtime e \<Rightarrow> runtime_event e self
     | Evm e \<Rightarrow> evm_event e self
     | CallListNew \<Rightarrow>
         if \<not> ls_call_list_first_transaction self
         then let self = (finish_transaction self)\<lparr> ls_skip_next_context := False \<rparr> in self\<lparr> ls_entries := ls_entries self @ [[]] \<rparr>
         else self\<lparr> ls_call_list_first_transaction := False \<rparr>)"

definition step_event_filter :: StepEventFilter where
  "step_event_filter = \<lparr> enable_stack = False, enable_memory = False \<rparr>"

definition listen :: "TraceEvent list \<Rightarrow> Listener \<Rightarrow> Listener" where
  "listen es self = fold listener_event es self"

section \<open>The events of a transaction\<close>

text \<open>A frame is opened by a call or a create, has its own steps, self destructions and inner frames, and exits with a reason. The result
  of its last step is reported before the exit or not.\<close>

datatype frame_opening =
    CallOpening CallType Address "nat list" bool EventContext
  | CreateOpening CreateScheme Address Address nat "nat list"

datatype frame = Frame frame_opening "item list" ExitReason "nat list" bool
  and item = Quiet TraceEvent | Destruct Address Address nat | Sub frame

definition call_opcode :: "CallType \<Rightarrow> nat" where
  "call_opcode ct = (case ct of CALL \<Rightarrow> 241 | CALLCODE \<Rightarrow> 242 | DELEGATECALL \<Rightarrow> 244 | STATICCALL \<Rightarrow> 250)"

definition opening_opcode :: "frame_opening \<Rightarrow> nat" where
  "opening_opcode op = (case op of CallOpening ct _ _ _ _ \<Rightarrow> call_opcode ct
     | CreateOpening (Create2Scheme _ _ _) _ _ _ _ \<Rightarrow> 245 | CreateOpening _ _ _ _ _ \<Rightarrow> 240)"

definition opening_event :: "frame_opening \<Rightarrow> EvmEvent" where
  "opening_event op = (case op of
       CallOpening _ code_address input is_static context \<Rightarrow> EvmCall code_address None input None is_static context
     | CreateOpening scheme caller address value init_code \<Rightarrow> EvmCreate caller address scheme value init_code None)"

definition transact_event :: "nat \<Rightarrow> frame_opening \<Rightarrow> EvmEvent" where
  "transact_event gas_limit op = (case op of
       CallOpening _ code_address input _ context \<Rightarrow> TransactCall (ec_caller context) code_address (ec_apparent_value context) input gas_limit
     | CreateOpening (Create2Scheme _ _ salt) caller address value init_code \<Rightarrow> TransactCreate2 caller value init_code salt gas_limit address
     | CreateOpening _ caller address value init_code \<Rightarrow> TransactCreate caller value init_code gas_limit address)"

definition ending_events :: "ExitReason \<Rightarrow> nat list \<Rightarrow> bool \<Rightarrow> TraceEvent list" where
  "ending_events reason return_value stepped =
     (if stepped then [Runtime (StepResult (Err (Exit reason)) return_value)] else []) @ [Evm (EvmExit reason return_value)]"

fun frame_events :: "frame \<Rightarrow> TraceEvent list" and items_events :: "item list \<Rightarrow> TraceEvent list" where
  "frame_events (Frame op items reason return_value stepped) =
     [Runtime (StepResult (Err (Trap (opcodes_string (opening_opcode op)))) []), Evm (opening_event op)]
     @ items_events items @ ending_events reason return_value stepped"
| "items_events [] = []"
| "items_events (Quiet e # items) = e # items_events items"
| "items_events (Destruct address target balance # items) = Evm (Suicide address target balance) # items_events items"
| "items_events (Sub f # items) = frame_events f @ items_events items"

text \<open>The steps of a frame that open, close or pay for no frame.\<close>

definition quiet :: "TraceEvent \<Rightarrow> bool" where
  "quiet e = (case e of
       Gasometer (RecordTransaction _ _) \<Rightarrow> False | Gasometer _ \<Rightarrow> True
     | Runtime (StepResult (Err (Exit _)) _) \<Rightarrow> False
     | Runtime (StepResult (Err (Trap opcode)) _) \<Rightarrow> ContextType_from opcode = None
     | Runtime _ \<Rightarrow> True
     | _ \<Rightarrow> False)"

fun frame_ok :: "frame \<Rightarrow> bool" and items_ok :: "item list \<Rightarrow> bool" where
  "frame_ok (Frame op items reason return_value stepped) \<longleftrightarrow> items_ok items"
| "items_ok [] \<longleftrightarrow> True"
| "items_ok (Quiet e # items) \<longleftrightarrow> quiet e \<and> items_ok items"
| "items_ok (Destruct _ _ _ # items) \<longleftrightarrow> items_ok items"
| "items_ok (Sub f # items) \<longleftrightarrow> frame_ok f \<and> items_ok items"

text \<open>A transaction announces itself and its cost, enters its root frame unless it exits before, and ends.\<close>

record transaction =
  tx_root :: frame
  tx_gas_limit :: nat
  tx_cost :: nat
  tx_snapshot :: Snapshot
  tx_entered :: bool

definition transaction_events :: "transaction \<Rightarrow> TraceEvent list" where
  "transaction_events tx = (case tx_root tx of Frame op items reason return_value stepped \<Rightarrow>
     [Evm (transact_event (tx_gas_limit tx) op), Gasometer (RecordTransaction (tx_cost tx) (tx_snapshot tx))]
     @ (if tx_entered tx then [Evm (opening_event op)] else [])
     @ items_events items @ ending_events reason return_value stepped)"

definition transaction_ok :: "transaction \<Rightarrow> bool" where
  "transaction_ok tx \<longleftrightarrow> (case tx_root tx of Frame op items _ _ _ \<Rightarrow> items_ok items
     \<and> (case op of CallOpening ct _ _ _ _ \<Rightarrow> ct = CALL | CreateOpening _ _ _ _ _ \<Rightarrow> True)
     \<and> (tx_entered tx \<or> list_all (\<lambda>i. case i of Quiet _ \<Rightarrow> True | _ \<Rightarrow> False) items))"

section \<open>The calls of a transaction\<close>

definition gas_reading :: "item \<Rightarrow> nat list" where
  "gas_reading i = (case i of
       Quiet (Gasometer (RecordCost _ snapshot)) \<Rightarrow> [Snapshot_gas snapshot]
     | Quiet (Gasometer (RecordDynamicCost _ _ _ snapshot)) \<Rightarrow> [Snapshot_gas snapshot]
     | Quiet (Gasometer (RecordStipend _ snapshot)) \<Rightarrow> [Snapshot_gas snapshot]
     | _ \<Rightarrow> [])"

definition gas_readings :: "item list \<Rightarrow> nat list" where
  "gas_readings items = concat (map gas_reading items)"

definition gas_left :: "item list \<Rightarrow> nat" where
  "gas_left items = (if gas_readings items = [] then 0 else last (gas_readings items))"

definition gas_spent :: "item list \<Rightarrow> nat" where
  "gas_spent items = (if gas_readings items = [] then 0 else wrapping_sub 64 (hd (gas_readings items)) (gas_left items))"

definition inner_frames :: "item list \<Rightarrow> nat" where
  "inner_frames items = length (filter (\<lambda>i. case i of Quiet _ \<Rightarrow> False | _ \<Rightarrow> True) items)"

definition opening_to :: "frame_opening \<Rightarrow> Address" where
  "opening_to op = (case op of CallOpening _ to _ _ _ \<Rightarrow> to | CreateOpening _ _ to _ _ \<Rightarrow> to)"

definition opening_from :: "Address \<Rightarrow> frame_opening \<Rightarrow> Address" where
  "opening_from parent op = (case op of CallOpening _ _ _ _ _ \<Rightarrow> parent | CreateOpening _ caller _ _ _ \<Rightarrow> caller)"

definition opening_value :: "frame_opening \<Rightarrow> nat" where
  "opening_value op = (case op of CallOpening _ _ _ _ context \<Rightarrow> ec_apparent_value context | CreateOpening _ _ _ value _ \<Rightarrow> value)"

definition opening_inner :: "frame_opening \<Rightarrow> ExitReason \<Rightarrow> nat list \<Rightarrow> BlockscoutCallInner" where
  "opening_inner op reason return_value = (case op of
       CallOpening ct to input _ _ \<Rightarrow> CallInner ct to input (call_res reason return_value)
     | CreateOpening _ _ to _ init \<Rightarrow> CreateInner init (create_res to reason return_value))"

definition frame_call :: "Address \<Rightarrow> nat list \<Rightarrow> frame \<Rightarrow> BlockscoutCall" where
  "frame_call parent ta f = (case f of Frame op items reason return_value _ \<Rightarrow>
     \<lparr> bc_from = opening_from parent op, bc_trace_address = ta, bc_subtraces = inner_frames items, bc_value = opening_value op,
       bc_gas = gas_left items, bc_gas_used = gas_spent items, bc_inner = opening_inner op reason return_value \<rparr>)"

definition destruct_call :: "nat list \<Rightarrow> Address \<Rightarrow> Address \<Rightarrow> nat \<Rightarrow> BlockscoutCall" where
  "destruct_call ta address target balance = \<lparr> bc_from = address, bc_trace_address = ta, bc_subtraces = 0, bc_value = 0, bc_gas = 0,
     bc_gas_used = 0, bc_inner = SelfDestructInner balance target \<rparr>"

text \<open>The calls of a frame, the frame before its inner frames, each addressed by its path from the root.\<close>

fun frame_calls :: "Address \<Rightarrow> nat list \<Rightarrow> frame \<Rightarrow> BlockscoutCall list"
  and items_calls :: "Address \<Rightarrow> nat list \<Rightarrow> nat \<Rightarrow> item list \<Rightarrow> BlockscoutCall list" where
  "frame_calls parent ta (Frame op items reason return_value stepped) =
     frame_call parent ta (Frame op items reason return_value stepped) # items_calls (opening_to op) ta 0 items"
| "items_calls to ta i [] = []"
| "items_calls to ta i (Quiet e # items) = items_calls to ta i items"
| "items_calls to ta i (Destruct address target balance # items) =
     destruct_call (ta @ [i]) address target balance # items_calls to ta (Suc i) items"
| "items_calls to ta i (Sub f # items) = frame_calls to (ta @ [i]) f @ items_calls to ta (Suc i) items"

section \<open>What the listener records of a frame\<close>

lemma opening_opcode_names:
  "opcodes_string 240 = ''Create''" "opcodes_string 241 = ''Call''" "opcodes_string 242 = ''CallCode''"
  "opcodes_string 244 = ''DelegateCall''" "opcodes_string 245 = ''Create2''" "opcodes_string 250 = ''StaticCall''"
  by (simp_all add: opcodes_string_def map_add_def system_opcode_names_def)

lemma context_type_names:
  "ContextType_from ''Create'' = Some CreateContext" "ContextType_from ''Create2'' = Some CreateContext"
  "ContextType_from ''Call'' = Some (CallContext CALL)" "ContextType_from ''CallCode'' = Some (CallContext CALLCODE)"
  "ContextType_from ''DelegateCall'' = Some (CallContext DELEGATECALL)"
  "ContextType_from ''StaticCall'' = Some (CallContext STATICCALL)"
  by code_simp+

lemma opening_context_type:
  "ContextType_from (opcodes_string (opening_opcode op)) =
     Some (case op of CallOpening ct _ _ _ _ \<Rightarrow> CallContext ct | CreateOpening _ _ _ _ _ \<Rightarrow> CreateContext)"
  by (simp add: opening_opcode_def call_opcode_def opening_opcode_names context_type_names
      split: frame_opening.split CallType.split CreateScheme.split)

lemma bt_insert_between:
  assumes "\<forall>k'\<in>fst ` set m1. k' < k" and "\<forall>k'\<in>fst ` set m2. k < k'"
  shows "bt_insert k v (m1 @ m2) = m1 @ (k, v) # m2"
proof -
  have "takeWhile (\<lambda>e. fst e < k) (m1 @ m2) = m1 @ takeWhile (\<lambda>e. fst e < k) m2" "dropWhile (\<lambda>e. fst e \<le> k) (m1 @ m2) = dropWhile (\<lambda>e. fst e \<le> k) m2"
    using assms(1) by (auto simp: takeWhile_append dropWhile_append intro: less_imp_le)
  with assms(2) show ?thesis by (cases m2) (auto simp: bt_insert_def)
qed

definition open_map :: "Listener \<Rightarrow> (nat, BlockscoutCall) btree" where
  "open_map l = (if ls_entries l = [] then [] else last (ls_entries l))"

lemma insert_entry_open:
  "insert_entry k e l = l\<lparr> ls_entries := butlast (ls_entries l) @ [bt_insert k e (open_map l)] \<rparr>"
  by (simp add: insert_entry_def open_map_def)

definition ready :: "Listener \<Rightarrow> bool" where
  "ready l \<longleftrightarrow> ls_version l = EarlyTransact \<and> ls_step_result_entry l = None \<and> \<not> ls_skip_next_context l
     \<and> (\<forall>k\<in>fst ` set (open_map l). k < ls_entries_next_index l)"

text \<open>The listener after calls \<open>xs\<close> have been recorded in the open map.\<close>

definition traced :: "Listener \<Rightarrow> Context list \<Rightarrow> BlockscoutCall list \<Rightarrow> CallType option \<Rightarrow> bool \<Rightarrow> Listener" where
  "traced l stack xs ct rto = l\<lparr>
     ls_entries := (if xs = [] then ls_entries l else butlast (ls_entries l) @ [open_map l @ enumerate (ls_entries_next_index l) xs]),
     ls_context_stack := stack, ls_entries_next_index := ls_entries_next_index l + length xs, ls_call_type := ct,
     ls_record_transaction_event_only := rto \<rparr>"

lemma open_map_traced [simp]: "open_map (traced l stack xs ct rto) = open_map l @ enumerate (ls_entries_next_index l) xs"
  by (simp add: traced_def open_map_def)

lemma traced_fields [simp]:
  "ls_version (traced l stack xs ct rto) = ls_version l" "ls_context_stack (traced l stack xs ct rto) = stack"
  "ls_entries_next_index (traced l stack xs ct rto) = ls_entries_next_index l + length xs"
  "ls_step_result_entry (traced l stack xs ct rto) = ls_step_result_entry l"
  "ls_skip_next_context (traced l stack xs ct rto) = ls_skip_next_context l"
  "ls_transaction_cost (traced l stack xs ct rto) = ls_transaction_cost l"
  "ls_call_type (traced l stack xs ct rto) = ct" "ls_record_transaction_event_only (traced l stack xs ct rto) = rto"
  by (simp_all add: traced_def)

lemma ready_traced [simp]: "ready l \<Longrightarrow> ready (traced l stack xs ct rto)"
  by (auto simp: ready_def in_set_enumerate_eq)

lemma traced_traced [simp]: "traced (traced l stack xs ct rto) stack' ys ct' rto' = traced l stack' (xs @ ys) ct' rto'"
proof -
  have "ls_entries (traced l stack xs ct rto) = (if xs = [] then ls_entries l
      else butlast (ls_entries l) @ [open_map l @ enumerate (ls_entries_next_index l) xs])" by (simp add: traced_def)
  then show ?thesis by (cases "xs = []") (simp_all add: traced_def [of _ stack'] enumerate_append_eq, simp_all add: traced_def add.assoc)
qed

lemma traced_same: "traced l (ls_context_stack l) [] (ls_call_type l) (ls_record_transaction_event_only l) = l"
  by (simp add: traced_def)

lemma listen_simps [simp]:
  "listen [] l = l" "listen (e # es) l = listen es (listener_event e l)" "listen (es @ es') l = listen es' (listen es l)"
  by (simp_all add: listen_def)

definition record_reading :: "nat \<Rightarrow> Context \<Rightarrow> Context" where
  "record_reading g c = c\<lparr> cx_start_gas := (case cx_start_gas c of None \<Rightarrow> Some g | Some h \<Rightarrow> Some h), cx_gas := g \<rparr>"

definition after_items :: "item list \<Rightarrow> Context \<Rightarrow> Context" where
  "after_items items c = (fold record_reading (gas_readings items) c)\<lparr> cx_subtraces := cx_subtraces c + inner_frames items \<rparr>"

lemma map_last_simps [simp]: "map_last f [] = []" "map_last f (xs @ [x]) = xs @ [f x]"
  by (simp_all add: map_last_def)

lemma quiet_event:
  assumes "quiet e" and "ls_context_stack l = stk @ [c]"
  shows "listener_event e l = l\<lparr> ls_context_stack := stk @ [fold record_reading (gas_reading (Quiet e)) c] \<rparr>"
proof (cases e)
  case (Gasometer g)
  with assms show ?thesis
    by (cases g) (simp_all add: quiet_def listener_event_def gasometer_event_def gas_reading_def record_gas_def record_reading_def)
next
  case (Runtime r)
  with assms show ?thesis
    by (cases r) (auto simp: quiet_def listener_event_def runtime_event_def gas_reading_def split: result.splits Capture.splits)
qed (use assms in \<open>simp_all add: quiet_def\<close>)

lemma ending_events_listen:
  assumes "ls_version l = EarlyTransact" and "ls_step_result_entry l = None" and "ls_context_stack l = stk @ [k]"
  shows "listen (ending_events reason rv stepped) l =
    insert_entry (cx_entries_index k) (context_entry l k (exit_inner k reason rv))
      (l\<lparr> ls_context_stack := stk, ls_record_transaction_event_only := False \<rparr>)"
  using assms
  by (simp add: ending_events_def listener_event_def runtime_event_def evm_event_def pop_context_to_entry_def insert_entry_def
      context_entry_def context_gas_used_def Let_def)

lemma enumerate_above: "k \<in> fst ` set (enumerate n xs) \<Longrightarrow> n \<le> k"
  by (auto simp: in_set_enumerate_eq)

lemma insert_entry_traced:
  assumes "\<forall>k\<in>fst ` set (open_map l). k < ls_entries_next_index l"
    and "l' = l\<lparr> ls_context_stack := stack, ls_entries_next_index := Suc (ls_entries_next_index l), ls_call_type := ct, ls_record_transaction_event_only := rto \<rparr>"
  shows "insert_entry (ls_entries_next_index l) e ((traced l' stack' xs ct' rto')\<lparr> ls_context_stack := stack'', ls_record_transaction_event_only := rto'' \<rparr>)
    = traced l stack'' (e # xs) ct' rto''"
proof -
  have o: "open_map l' = open_map l" by (simp add: assms(2) open_map_def)
  have "bt_insert (ls_entries_next_index l) e (open_map l @ enumerate (Suc (ls_entries_next_index l)) xs)
      = open_map l @ enumerate (ls_entries_next_index l) (e # xs)"
    using bt_insert_between [OF assms(1), of "enumerate (Suc (ls_entries_next_index l)) xs" e] enumerate_above [of _ "Suc (ls_entries_next_index l)" xs]
    by (auto simp: Suc_le_eq)
  moreover have "(traced l' stack' xs ct' rto')\<lparr> ls_context_stack := stack'', ls_record_transaction_event_only := rto'' \<rparr> = traced l' stack'' xs ct' rto''"
    by (simp add: traced_def)
  moreover have "ls_entries_next_index l' = Suc (ls_entries_next_index l)" by (simp add: assms(2))
  ultimately show ?thesis
    by (cases "xs = []") (simp_all add: insert_entry_open o, simp_all add: traced_def assms(2))
qed

lemma fold_reading_fields [simp]:
  "cx_entries_index (fold record_reading gs c) = cx_entries_index c" "cx_context_type (fold record_reading gs c) = cx_context_type c"
  "cx_from (fold record_reading gs c) = cx_from c" "cx_trace_address (fold record_reading gs c) = cx_trace_address c"
  "cx_subtraces (fold record_reading gs c) = cx_subtraces c" "cx_value (fold record_reading gs c) = cx_value c"
  "cx_data (fold record_reading gs c) = cx_data c" "cx_to (fold record_reading gs c) = cx_to c"
  by (induction gs arbitrary: c) (simp_all add: record_reading_def)

lemma fold_reading_gas:
  "cx_gas (fold record_reading gs c) = (if gs = [] then cx_gas c else last gs)"
  "cx_start_gas (fold record_reading gs c) = (case cx_start_gas c of Some g \<Rightarrow> Some g | None \<Rightarrow> if gs = [] then None else Some (hd gs))"
  by (induction gs arbitrary: c) (simp_all add: record_reading_def split: option.split)

lemma fold_reading_subtraces:
  "fold record_reading gs (c\<lparr> cx_subtraces := n \<rparr>) = (fold record_reading gs c)\<lparr> cx_subtraces := n \<rparr>"
proof (induction gs arbitrary: c)
  case (Cons g gs)
  have "record_reading g (c\<lparr> cx_subtraces := n \<rparr>) = (record_reading g c)\<lparr> cx_subtraces := n \<rparr>"
    by (simp add: record_reading_def)
  with Cons show ?case by simp
qed simp

lemma after_items_fields [simp]:
  "cx_entries_index (after_items is c) = cx_entries_index c" "cx_context_type (after_items is c) = cx_context_type c"
  "cx_from (after_items is c) = cx_from c" "cx_trace_address (after_items is c) = cx_trace_address c"
  "cx_subtraces (after_items is c) = cx_subtraces c + inner_frames is" "cx_value (after_items is c) = cx_value c"
  "cx_data (after_items is c) = cx_data c" "cx_to (after_items is c) = cx_to c"
  by (simp_all add: after_items_def)

lemma after_items_simps [simp]:
  "after_items [] c = c"
  "after_items (Quiet e # is) c = after_items is (fold record_reading (gas_reading (Quiet e)) c)"
  "after_items (Destruct a t b # is) c = after_items is (c\<lparr> cx_subtraces := Suc (cx_subtraces c) \<rparr>)"
  "after_items (Sub f # is) c = after_items is (c\<lparr> cx_subtraces := Suc (cx_subtraces c) \<rparr>)"
  by (simp_all add: after_items_def gas_readings_def gas_reading_def inner_frames_def fold_reading_subtraces)

definition fresh_context :: "nat \<Rightarrow> Address \<Rightarrow> nat list \<Rightarrow> frame_opening \<Rightarrow> Context" where
  "fresh_context n parent ta op = \<lparr> cx_entries_index = n,
     cx_context_type = (case op of CallOpening ct _ _ _ _ \<Rightarrow> CallContext ct | CreateOpening _ _ _ _ _ \<Rightarrow> CreateContext),
     cx_from = opening_from parent op, cx_trace_address = ta, cx_subtraces = 0, cx_value = opening_value op, cx_gas = 0, cx_start_gas = None,
     cx_data = (case op of CallOpening _ _ input _ _ \<Rightarrow> input | CreateOpening _ _ _ _ init \<Rightarrow> init), cx_to = opening_to op \<rparr>"

lemma enter_frame:
  assumes "ready l" and "ls_context_stack l = stk @ [c]" and "Suc (ls_entries_next_index l) < 2 ^ 32" and "Suc (cx_subtraces c) < 2 ^ 32"
  shows "listen [Runtime (StepResult (Err (Trap (opcodes_string (opening_opcode op)))) rv), Evm (opening_event op)] l =
    l\<lparr> ls_context_stack := stk @ [c\<lparr> cx_subtraces := Suc (cx_subtraces c) \<rparr>,
          fresh_context (ls_entries_next_index l) (cx_to c) (cx_trace_address c @ [cx_subtraces c]) op],
        ls_entries_next_index := Suc (ls_entries_next_index l),
        ls_call_type := (case op of CallOpening ct _ _ _ _ \<Rightarrow> Some ct | CreateOpening _ _ _ _ _ \<Rightarrow> ls_call_type l),
        ls_record_transaction_event_only := False \<rparr>"
  using assms
  by (cases op; intro Listener.equality) (simp_all add: listener_event_def runtime_event_def opening_context_type opening_event_def evm_event_def Let_def
      ready_def child_trace_address_def count_child_def push_context_def wrapping_add_def fresh_context_def opening_from_def
      opening_value_def opening_to_def)

lemma exit_entry:
  assumes "k = after_items items (fresh_context n parent ta op)"
  shows "context_entry l k (exit_inner k reason rv) =
    (let call = frame_call parent ta (Frame op items reason rv stepped) in
     if n = 0 then call\<lparr> bc_gas_used := wrapping_add 64 (bc_gas_used call) (ls_transaction_cost l) \<rparr> else call)"
proof -
  have "cx_gas k = gas_left items" "wrapping_sub 64 (case cx_start_gas k of Some g \<Rightarrow> g | None \<Rightarrow> 0) (cx_gas k) = gas_spent items"
    by (simp_all add: assms after_items_def fold_reading_gas gas_left_def gas_spent_def fresh_context_def wrapping_sub_def)
  then show ?thesis
    by (simp add: assms context_entry_def context_gas_used_def frame_call_def Let_def exit_inner_def)
      (simp add: fresh_context_def opening_inner_def opening_to_def split: frame_opening.split)
qed

lemma inner_frames_simps [simp]:
  "inner_frames [] = 0" "inner_frames (Quiet e # is) = inner_frames is" "inner_frames (Destruct a t b # is) = Suc (inner_frames is)"
  "inner_frames (Sub f # is) = Suc (inner_frames is)"
  by (simp_all add: inner_frames_def)

lemma frame_listened:
  assumes items: "\<exists>ct rto. listen (items_events items) l2 = traced l2 (stk @ [after_items items k]) xs ct rto"
    and l2: "l2 = l\<lparr> ls_context_stack := stk @ [k], ls_entries_next_index := Suc (ls_entries_next_index l),
        ls_call_type := ct2, ls_record_transaction_event_only := rto2 \<rparr>"
    and k: "k = fresh_context (ls_entries_next_index l) parent ta op"
    and l: "ls_version l = EarlyTransact" "ls_step_result_entry l = None" "\<forall>k\<in>fst ` set (open_map l). k < ls_entries_next_index l"
  shows "\<exists>ct. listen (items_events items @ ending_events reason rv stepped) l2 =
    traced l stk (context_entry l (after_items items k) (exit_inner (after_items items k) reason rv) # xs) ct False"
proof -
  obtain ct rto where l3: "listen (items_events items) l2 = traced l2 (stk @ [after_items items k]) xs ct rto" using items by auto
  have v: "ls_version l2 = EarlyTransact" "ls_step_result_entry l2 = None" "ls_transaction_cost l2 = ls_transaction_cost l"
    using l by (simp_all add: l2)
  have e: "context_entry (traced l2 (stk @ [after_items items k]) xs ct rto) = context_entry l"
    by (simp add: context_entry_def context_gas_used_def v fun_eq_iff Let_def)
  have i: "cx_entries_index k = ls_entries_next_index l" by (simp add: k fresh_context_def)
  show ?thesis
    using insert_entry_traced [OF l(3) l2, where e = "context_entry l (after_items items k) (exit_inner (after_items items k) reason rv)"
        and stack' = "stk @ [after_items items k]" and xs = xs and ct' = ct and rto' = rto and stack'' = stk and rto'' = False]
      ending_events_listen [of "traced l2 (stk @ [after_items items k]) xs ct rto" stk "after_items items k" reason rv stepped]
    by (auto simp: l3 v e i)
qed

lemma destruct_listened:
  assumes "ready l" and "ls_context_stack l = stk @ [c]" and "Suc (cx_subtraces c) < 2 ^ 32" and "Suc (ls_entries_next_index l) < 2 ^ 32"
  shows "listener_event (Evm (Suicide address target balance)) l =
    traced l (stk @ [c\<lparr> cx_subtraces := Suc (cx_subtraces c) \<rparr>]) [destruct_call (cx_trace_address c @ [cx_subtraces c]) address target balance]
      (ls_call_type l) (ls_record_transaction_event_only l)"
proof -
  have "bt_insert (ls_entries_next_index l) e (open_map l) = open_map l @ [(ls_entries_next_index l, e)]" for e
    using bt_insert_between [of "open_map l" "ls_entries_next_index l" "[]" e] assms(1) by (simp add: ready_def)
  moreover have "open_map (l\<lparr> ls_context_stack := xs \<rparr>) = open_map l" for xs by (simp add: open_map_def)
  ultimately show ?thesis using assms(2-)
    by (simp add: listener_event_def evm_event_def Let_def count_child_def child_trace_address_def insert_entry_open wrapping_add_def traced_def destruct_call_def)
qed

lemma frame_calls_length: "1 \<le> length (frame_calls parent ta f)"
  by (cases f) simp

lemma frame_recorded:
  "frame_ok f \<Longrightarrow> ready l \<Longrightarrow> ls_context_stack l = stk @ [c] \<Longrightarrow> 0 < ls_entries_next_index l \<Longrightarrow> cx_subtraces c < ls_entries_next_index l \<Longrightarrow>
   ls_entries_next_index l + length (frame_calls (cx_to c) (cx_trace_address c @ [cx_subtraces c]) f) < 2 ^ 32 \<Longrightarrow>
   \<exists>ct. listen (frame_events f) l =
     traced l (stk @ [c\<lparr> cx_subtraces := Suc (cx_subtraces c) \<rparr>]) (frame_calls (cx_to c) (cx_trace_address c @ [cx_subtraces c]) f) ct False"
  and items_recorded:
  "items_ok items \<Longrightarrow> ready l \<Longrightarrow> ls_context_stack l = stk @ [c] \<Longrightarrow> 0 < ls_entries_next_index l \<Longrightarrow> cx_subtraces c < ls_entries_next_index l \<Longrightarrow>
   ls_entries_next_index l + length (items_calls (cx_to c) (cx_trace_address c) (cx_subtraces c) items) < 2 ^ 32 \<Longrightarrow>
   \<exists>ct rto. listen (items_events items) l =
     traced l (stk @ [after_items items c]) (items_calls (cx_to c) (cx_trace_address c) (cx_subtraces c) items) ct rto"
proof (induction f and items arbitrary: l stk c and l stk c rule: frame_events_items_events.induct)
  case (1 op items reason rv stepped)
  let ?ta = "cx_trace_address c @ [cx_subtraces c]" and ?c2 = "c\<lparr> cx_subtraces := Suc (cx_subtraces c) \<rparr>"
  let ?k = "fresh_context (ls_entries_next_index l) (cx_to c) ?ta op"
  define l2 where "l2 = l\<lparr> ls_context_stack := stk @ [?c2, ?k], ls_entries_next_index := Suc (ls_entries_next_index l),
        ls_call_type := (case op of CallOpening ct _ _ _ _ \<Rightarrow> Some ct | CreateOpening _ _ _ _ _ \<Rightarrow> ls_call_type l), ls_record_transaction_event_only := False \<rparr>"
  have enter: "listen [Runtime (StepResult (Err (Trap (opcodes_string (opening_opcode op)))) []), Evm (opening_event op)] l = l2"
    unfolding l2_def using 1 by (intro enter_frame) auto
  have k: "cx_to ?k = opening_to op" "cx_trace_address ?k = ?ta" "cx_subtraces ?k = 0" by (simp_all add: fresh_context_def)
  have "ready l2" using 1(3) by (fastforce simp: ready_def l2_def open_map_def)
  from 1(1) [OF _ this, of "stk @ [?c2]" ?k] 1 k
  have items: "\<exists>ct rto. listen (items_events items) l2 = traced l2 ((stk @ [?c2]) @ [after_items items ?k]) (items_calls (opening_to op) ?ta 0 items) ct rto"
    by (simp add: l2_def)
  have "l2 = l\<lparr> ls_context_stack := (stk @ [?c2]) @ [?k], ls_entries_next_index := Suc (ls_entries_next_index l),
      ls_call_type := (case op of CallOpening ct _ _ _ _ \<Rightarrow> Some ct | CreateOpening _ _ _ _ _ \<Rightarrow> ls_call_type l), ls_record_transaction_event_only := False \<rparr>"
    by (simp add: l2_def)
  from frame_listened [OF items this refl, of reason rv stepped] 1(3) enter 1(5)
    exit_entry [OF refl, of l items "ls_entries_next_index l" "cx_to c" ?ta op reason rv stepped]
  show ?case by (simp add: Let_def ready_def)
next
  case (2 l stk c)
  then have "listen (items_events []) l = traced l (stk @ [after_items [] c]) [] (ls_call_type l) (ls_record_transaction_event_only l)"
    using traced_same [of l] by simp
  then show ?case by auto
next
  case (3 e items)
  let ?c = "fold record_reading (gas_reading (Quiet e)) c"
  let ?l = "traced l (stk @ [?c]) [] (ls_call_type l) (ls_record_transaction_event_only l)"
  have e: "listener_event e l = ?l" using quiet_event [of e l stk c] 3(2,4) by (simp add: traced_def)
  from 3(1) [of ?l stk ?c] 3 show ?case by (simp add: e)
next
  case (4 address target balance items)
  let ?c = "c\<lparr> cx_subtraces := Suc (cx_subtraces c) \<rparr>"
  let ?l = "traced l (stk @ [?c]) [destruct_call (cx_trace_address c @ [cx_subtraces c]) address target balance]
    (ls_call_type l) (ls_record_transaction_event_only l)"
  have e: "listener_event (Evm (Suicide address target balance)) l = ?l" by (rule destruct_listened) (use 4 in simp_all)
  from 4(1) [of ?l stk ?c] 4 show ?case by (simp add: e)
next
  case (5 f items)
  let ?c = "c\<lparr> cx_subtraces := Suc (cx_subtraces c) \<rparr>" and ?xs = "frame_calls (cx_to c) (cx_trace_address c @ [cx_subtraces c]) f"
  have "\<exists>ct. listen (frame_events f) l = traced l (stk @ [?c]) ?xs ct False" by (rule 5(1)) (use 5(3-) in simp_all)
  then obtain ct where f: "listen (frame_events f) l = traced l (stk @ [?c]) ?xs ct False" ..
  from 5(2) [of "traced l (stk @ [?c]) ?xs ct False" stk ?c] 5 frame_calls_length [of "cx_to c" "cx_trace_address c @ [cx_subtraces c]" f]
  show ?case by (simp add: f)
qed

section \<open>What the listener records of a transaction\<close>

text \<open>The calls of a transaction whose first call has index \<open>n\<close>.\<close>

definition transaction_calls :: "nat \<Rightarrow> transaction \<Rightarrow> BlockscoutCall list" where
  "transaction_calls n tx = (case tx_root tx of Frame op items reason rv stepped \<Rightarrow>
     (case frame_calls (case op of CallOpening _ _ _ _ context \<Rightarrow> ec_caller context | CreateOpening _ caller _ _ _ \<Rightarrow> caller) [] (tx_root tx) of
        [] \<Rightarrow> []
      | call # calls \<Rightarrow>
          (if n = 0 then call\<lparr> bc_gas_used := wrapping_add 64 (bc_gas_used call) (tx_cost tx) \<rparr> else call) # calls))"

definition between_transactions :: "Listener \<Rightarrow> bool" where
  "between_transactions l \<longleftrightarrow> ls_step_result_entry l = None \<and> ls_context_stack l = []
     \<and> (\<forall>k\<in>fst ` set (open_map l). k < ls_entries_next_index l)"

lemma quiet_items:
  assumes "list_all (\<lambda>i. case i of Quiet _ \<Rightarrow> True | _ \<Rightarrow> False) items" and "items_ok items" and "ls_context_stack l = stk @ [c]"
  shows "listen (items_events items) l = traced l (stk @ [after_items items c]) [] (ls_call_type l) (ls_record_transaction_event_only l)"
    and "items_calls to ta i items = []"
proof -
  show "listen (items_events items) l = traced l (stk @ [after_items items c]) [] (ls_call_type l) (ls_record_transaction_event_only l)" using assms
  proof (induction items arbitrary: l c)
    case Nil
    then show ?case using traced_same [of l] by simp
  next
    case (Cons i items)
    let ?c = "fold record_reading (gas_reading i) c"
    from Cons.prems obtain e where i: "i = Quiet e" "quiet e" by (cases i) auto
    have e: "listener_event e l = traced l (stk @ [?c]) [] (ls_call_type l) (ls_record_transaction_event_only l)"
      using quiet_event [OF i(2) Cons.prems(3)] i(1) by (simp add: traced_def)
    from Cons.IH [of "traced l (stk @ [?c]) [] (ls_call_type l) (ls_record_transaction_event_only l)" ?c] Cons.prems i(1) show ?case by (simp add: e)
  qed
  show "items_calls to ta i items = []" using assms(1)
  proof (induction items)
    case (Cons i items)
    then show ?case by (cases i) auto
  qed simp
qed

text \<open>The listener after the events up to the root frame.\<close>

lemma enter_transaction:
  assumes "ls_context_stack l = []" and "Suc (ls_entries_next_index l) < 2 ^ 32"
    and "case op of CallOpening ct _ _ _ _ \<Rightarrow> ct = CALL | CreateOpening _ _ _ _ _ \<Rightarrow> True"
  shows "listen ([Evm (transact_event gl op), Gasometer (RecordTransaction cost sn)] @ (if entered then [Evm (opening_event op)] else [])) l =
    l\<lparr> ls_version := EarlyTransact, ls_transaction_cost := cost, ls_skip_next_context := \<not> entered,
       ls_context_stack := [] @ [fresh_context (ls_entries_next_index l)
         (case op of CallOpening _ _ _ _ context \<Rightarrow> ec_caller context | CreateOpening _ caller _ _ _ \<Rightarrow> caller) [] op],
       ls_entries_next_index := Suc (ls_entries_next_index l), ls_call_type := ls_call_type l,
       ls_record_transaction_event_only := \<not> entered \<rparr>"
  using assms
  by (cases op; intro Listener.equality)
    (simp_all add: listener_event_def transact_event_def opening_event_def evm_event_def gasometer_event_def Let_def transact_context_def
      push_context_def wrapping_add_def fresh_context_def opening_from_def opening_value_def opening_to_def split: CreateScheme.split)

lemma transaction_recorded:
  assumes "transaction_ok tx" and "between_transactions l"
    and "ls_entries_next_index l + length (transaction_calls (ls_entries_next_index l) tx) < 2 ^ 32"
  shows "\<exists>ct. listen (transaction_events tx) l = traced (l\<lparr> ls_version := EarlyTransact, ls_transaction_cost := tx_cost tx,
    ls_skip_next_context := \<not> tx_entered tx \<rparr>) [] (transaction_calls (ls_entries_next_index l) tx) ct False"
proof -
  obtain op items reason rv stepped where root: "tx_root tx = Frame op items reason rv stepped" by (cases "tx_root tx")
  let ?p = "case op of CallOpening _ _ _ _ context \<Rightarrow> ec_caller context | CreateOpening _ caller _ _ _ \<Rightarrow> caller"
  let ?k = "fresh_context (ls_entries_next_index l) ?p [] op"
  define l0 where "l0 = l\<lparr> ls_version := EarlyTransact, ls_transaction_cost := tx_cost tx, ls_skip_next_context := \<not> tx_entered tx \<rparr>"
  define l2 where "l2 = l0\<lparr> ls_context_stack := [] @ [?k], ls_entries_next_index := Suc (ls_entries_next_index l0),
      ls_call_type := ls_call_type l, ls_record_transaction_event_only := \<not> tx_entered tx \<rparr>"
  have ok: "items_ok items" "case op of CallOpening ct _ _ _ _ \<Rightarrow> ct = CALL | CreateOpening _ _ _ _ _ \<Rightarrow> True"
    "tx_entered tx \<or> list_all (\<lambda>i. case i of Quiet _ \<Rightarrow> True | _ \<Rightarrow> False) items"
    using assms(1) by (simp_all add: transaction_ok_def root)
  have k: "cx_to ?k = opening_to op" "cx_trace_address ?k = []" "cx_subtraces ?k = 0" by (simp_all add: fresh_context_def)
  have len: "Suc (ls_entries_next_index l + length (items_calls (opening_to op) [] 0 items)) < 2 ^ 32"
    using assms(3) by (simp add: transaction_calls_def root)
  have l0: "ls_version l0 = EarlyTransact" "ls_step_result_entry l0 = None" "\<forall>k\<in>fst ` set (open_map l0). k < ls_entries_next_index l0"
    "ls_transaction_cost l0 = tx_cost tx" "ls_entries_next_index l0 = ls_entries_next_index l"
    using assms(2) by (simp_all add: l0_def between_transactions_def open_map_def)
  have items: "\<exists>ct rto. listen (items_events items) l2 = traced l2 ([] @ [after_items items ?k]) (items_calls (opening_to op) [] 0 items) ct rto"
  proof (cases "tx_entered tx")
    case True
    have "open_map l2 = open_map l0" "\<not> ls_skip_next_context l2" using True by (simp_all add: open_map_def l2_def l0_def)
    moreover have "\<forall>k\<in>fst ` set (open_map l0). k < ls_entries_next_index l2" using l0(3) by (auto simp: l2_def intro: less_SucI)
    moreover have "ls_version l2 = EarlyTransact" "ls_step_result_entry l2 = None" by (simp_all add: l2_def l0)
    ultimately have "ready l2" by (simp add: ready_def)
    from items_recorded [OF ok(1) this, of "[]" ?k] len k show ?thesis by (simp add: l2_def l0(5))
  next
    case False
    have "ls_context_stack l2 = [] @ [?k]" by (simp add: l2_def)
    with quiet_items [OF _ ok(1) this] False ok(3) show ?thesis by auto
  qed
  have "listen (transaction_events tx) l = listen (items_events items @ ending_events reason rv stepped) l2"
    using enter_transaction [of l op "tx_gas_limit tx" "tx_cost tx" "tx_snapshot tx" "tx_entered tx"] ok(2) assms(2) len
    by (simp add: transaction_events_def root l2_def l0_def between_transactions_def)
  moreover have "context_entry l0 (after_items items ?k) (exit_inner (after_items items ?k) reason rv) # items_calls (opening_to op) [] 0 items
      = transaction_calls (ls_entries_next_index l) tx"
    using exit_entry [OF refl, of l0 items "ls_entries_next_index l" ?p "[]" op reason rv stepped]
    by (simp add: transaction_calls_def root l0(4) Let_def)
  ultimately show ?thesis
    using frame_listened [OF items l2_def _ l0(1-3), of ?p "[]" op reason rv stepped] by (simp add: l0_def)
qed

end
