(* ===== verification/RawTrace.thy ===== *)
theory RawTrace
  imports CallTrace
begin

text \<open>
  The raw trace of a transaction (\<open>vendor/evm-tracing/src/listeners/raw.rs\<close>): one log for every step of the EVM, with the memory, the
  stack and the storage the step sees, as long as they fit a limit. The listener panics when a step comes without the memory or
  the stack it has asked for; that is the value \<open>None\<close>.
\<close>

section \<open>Types\<close>

record RawStepLog =
  rl_depth :: nat
  rl_gas :: nat
  rl_gas_cost :: nat
  rl_memory :: "nat list list option"
  rl_op :: string
  rl_pc :: nat
  rl_stack :: "nat list option"
  rl_storage :: "(nat, nat) btree option"

record RawStep =
  rs_opcode :: string
  rs_depth :: nat
  rs_gas :: nat
  rs_gas_cost :: nat
  rs_position :: nat
  rs_memory :: "nat list option"
  rs_stack :: "nat list option"

record RawContext =
  rx_storage_cache :: "(nat, nat) btree"
  rx_address :: Address
  rx_current_step :: "RawStep option"
  rx_global_storage_changes :: "(Address, (nat, nat) btree) btree"

record RawListener =
  rw_disable_storage :: bool
  rw_disable_memory :: bool
  rw_disable_stack :: bool
  rw_new_context :: bool
  rw_context_stack :: "RawContext list"
  rw_struct_logs :: "RawStepLog list"
  rw_return_value :: "nat list"
  rw_final_gas :: nat
  rw_remaining_memory_usage :: "nat option"

definition RawListener_new :: "bool \<Rightarrow> bool \<Rightarrow> bool \<Rightarrow> nat \<Rightarrow> RawListener" where
  "RawListener_new disable_storage disable_memory disable_stack raw_max_memory_usage =
     \<lparr> rw_disable_storage = disable_storage, rw_disable_memory = disable_memory, rw_disable_stack = disable_stack,
       rw_new_context = False, rw_context_stack = [], rw_struct_logs = [], rw_return_value = [], rw_final_gas = 0,
       rw_remaining_memory_usage = Some raw_max_memory_usage \<rparr>"

section \<open>Events\<close>

text \<open>The memory as words of 32 bytes; a last word that is too short is filled from the left.\<close>

fun convert_memory :: "nat list \<Rightarrow> nat list list" where
  "convert_memory [] = []"
| "convert_memory (b # memory) = (let c = take 32 (b # memory) in
     (if length c < 32 then replicate (32 - length c) 0 @ c else c) # convert_memory (drop 31 memory))"

definition use_memory :: "nat \<Rightarrow> RawListener \<Rightarrow> RawListener" where
  "use_memory n self = self\<lparr> rw_remaining_memory_usage :=
     Option.bind (rw_remaining_memory_usage self) (\<lambda>inner. if n \<le> inner then Some (inner - n) else None) \<rparr>"

definition set_step_gas :: "nat \<Rightarrow> nat \<Rightarrow> RawContext \<Rightarrow> RawContext" where
  "set_step_gas gas cost context = context\<lparr> rx_current_step :=
     map_option (\<lambda>step. step\<lparr> rs_gas := gas, rs_gas_cost := cost \<rparr>) (rx_current_step context) \<rparr>"

definition raw_cost :: "nat \<Rightarrow> Snapshot \<Rightarrow> RawListener \<Rightarrow> RawListener" where
  "raw_cost cost snapshot self = (if rw_context_stack self = [] then self
     else self\<lparr> rw_context_stack := map_last (set_step_gas (Snapshot_gas snapshot) cost) (rw_context_stack self),
       rw_final_gas := sn_used_gas snapshot \<rparr>)"

definition raw_gasometer_event :: "GasometerEvent \<Rightarrow> RawListener \<Rightarrow> RawListener" where
  "raw_gasometer_event event self = (case event of
       RecordTransaction cost _ \<Rightarrow> self\<lparr> rw_new_context := True, rw_final_gas := cost \<rparr>
     | RecordCost cost snapshot \<Rightarrow> raw_cost cost snapshot self
     | RecordDynamicCost gas_cost _ _ snapshot \<Rightarrow> raw_cost gas_cost snapshot self
     | _ \<Rightarrow> self)"

text \<open>The memory or the stack of a step: what is kept of it, which counts against the limit.\<close>

definition keep_data :: "bool \<Rightarrow> nat list option \<Rightarrow> RawListener \<Rightarrow> (nat list option \<times> RawListener) option" where
  "keep_data disabled data self =
     (if disabled then Some (None, self)
      else case data of None \<Rightarrow> None | Some d \<Rightarrow> Some (Some d, use_memory (length d) self))"

definition raw_step ::
  "EventContext \<Rightarrow> string \<Rightarrow> (nat, ExitReason) result \<Rightarrow> EvmStack option \<Rightarrow> EvmMemory option \<Rightarrow> RawListener \<Rightarrow> RawListener option" where
  "raw_step context opcode position stack memory self =
     (let self = (if rw_new_context self
        then self\<lparr> rw_new_context := False, rw_context_stack := rw_context_stack self @
          [\<lparr> rx_storage_cache = [], rx_address = ec_address context, rx_current_step = None, rx_global_storage_changes = [] \<rparr>] \<rparr>
        else self);
          depth = length (rw_context_stack self) in
      if rw_context_stack self = [] then Some self
      else Option.bind (keep_data (rw_disable_memory self) (map_option me_data memory) self) (\<lambda>(kept_memory, self).
        if rw_remaining_memory_usage self = None then Some self
        else Option.bind (keep_data (rw_disable_stack self) (map_option st_data stack) self) (\<lambda>(kept_stack, self).
          if rw_remaining_memory_usage self = None then Some self
          else Some (self\<lparr> rw_context_stack := map_last (\<lambda>context. context\<lparr> rx_current_step := Some
            \<lparr> rs_opcode = opcode, rs_depth = depth, rs_gas = 0, rs_gas_cost = 0,
              rs_position = (case position of Ok p \<Rightarrow> p | Err _ \<Rightarrow> 0), rs_memory = kept_memory, rs_stack = kept_stack \<rparr> \<rparr>)
            (rw_context_stack self) \<rparr>))))"

text \<open>The log of the step that has ended. The storage counts 64 bytes an entry; when it does not fit, the step is dropped and the rest of
  the event is ignored.\<close>

definition raw_log :: "RawListener \<Rightarrow> RawListener \<times> bool" where
  "raw_log self =
     (if rw_context_stack self = [] then (self, True)
      else let context = last (rw_context_stack self) in
        case rx_current_step context of
          None \<Rightarrow> (self, True)
        | Some step \<Rightarrow>
            let self = self\<lparr> rw_context_stack := map_last (\<lambda>c. c\<lparr> rx_current_step := None \<rparr>) (rw_context_stack self) \<rparr>;
                self = (if rw_disable_storage self then self else use_memory (length (rx_storage_cache context) * 64) self) in
            if \<not> rw_disable_storage self \<and> rw_remaining_memory_usage self = None then (self, False)
            else (self\<lparr> rw_struct_logs := rw_struct_logs self @
              [\<lparr> rl_depth = rs_depth step, rl_gas = rs_gas step, rl_gas_cost = rs_gas_cost step,
                 rl_memory = map_option convert_memory (rs_memory step), rl_op = rs_opcode step, rl_pc = rs_position step,
                 rl_stack = rs_stack step,
                 rl_storage = (if rw_disable_storage self then None else Some (rx_storage_cache context)) \<rparr>] \<rparr>, True))"

definition bt_append :: "('k::linorder, 'v) btree \<Rightarrow> ('k, 'v) btree \<Rightarrow> ('k, 'v) btree" where
  "bt_append other m = fold (\<lambda>(k, v). bt_insert k v) other m"

text \<open>What a context that has succeeded tells its parent of the storage it knows.\<close>

definition apply_changes :: "Address \<times> (nat, nat) btree \<Rightarrow> RawContext \<Rightarrow> RawContext" where
  "apply_changes = (\<lambda>(address, storage) parent.
     if rx_address parent = address
     then parent\<lparr> rx_storage_cache := map (\<lambda>(k, v). (k, case map_of storage k of Some v' \<Rightarrow> v' | None \<Rightarrow> v)) (rx_storage_cache parent) \<rparr>
     else parent\<lparr> rx_global_storage_changes := bt_insert address
       (bt_append storage (case map_of (rx_global_storage_changes parent) address of Some m \<Rightarrow> m | None \<Rightarrow> []))
       (rx_global_storage_changes parent) \<rparr>)"

definition raw_exit :: "ExitReason \<Rightarrow> nat list \<Rightarrow> RawListener \<Rightarrow> RawListener" where
  "raw_exit reason return_value self =
     (if rw_context_stack self = [] then self
      else let context = last (rw_context_stack self);
               self = self\<lparr> rw_context_stack := butlast (rw_context_stack self) \<rparr>;
               self = (if rw_context_stack self = [] then self\<lparr> rw_return_value := return_value \<rparr> else self);
               changes = bt_insert (rx_address context) (rx_storage_cache context) (rx_global_storage_changes context) in
        if \<not> rw_disable_storage self \<and> (case reason of Succeed _ \<Rightarrow> True | _ \<Rightarrow> False)
        then self\<lparr> rw_context_stack := map_last (fold apply_changes changes) (rw_context_stack self) \<rparr>
        else self)"

definition raw_storage :: "nat \<Rightarrow> nat \<Rightarrow> RawListener \<Rightarrow> RawListener" where
  "raw_storage index value self = (if rw_disable_storage self then self
     else self\<lparr> rw_context_stack := map_last (\<lambda>c. c\<lparr> rx_storage_cache := bt_insert index value (rx_storage_cache c) \<rparr>) (rw_context_stack self) \<rparr>)"

definition raw_runtime_event :: "RuntimeEvent \<Rightarrow> RawListener \<Rightarrow> RawListener option" where
  "raw_runtime_event event self = (case event of
       Step context opcode position stack memory \<Rightarrow> raw_step context opcode position stack memory self
     | StepResult result return_value \<Rightarrow>
         (case raw_log self of (self, continue) \<Rightarrow>
          Some (if \<not> continue then self
                else case result of
                    Err (Exit reason) \<Rightarrow> raw_exit reason return_value self
                  | Err (Trap opcode) \<Rightarrow> if ContextType_from opcode \<noteq> None then self\<lparr> rw_new_context := True \<rparr> else self
                  | Ok _ \<Rightarrow> self))
     | SLoad _ index value \<Rightarrow> Some (raw_storage index value self)
     | SStore _ index value \<Rightarrow> Some (raw_storage index value self))"

definition raw_event :: "TraceEvent \<Rightarrow> RawListener \<Rightarrow> RawListener option" where
  "raw_event event self =
     (if rw_remaining_memory_usage self = None then Some self
      else case event of
          Gasometer e \<Rightarrow> Some (raw_gasometer_event e self)
        | Runtime e \<Rightarrow> raw_runtime_event e self
        | _ \<Rightarrow> Some self)"

definition raw_step_event_filter :: "RawListener \<Rightarrow> StepEventFilter" where
  "raw_step_event_filter self = \<lparr> enable_stack = \<not> rw_disable_stack self, enable_memory = \<not> rw_disable_memory self \<rparr>"

primrec raw_listen :: "TraceEvent list \<Rightarrow> RawListener \<Rightarrow> RawListener option" where
  "raw_listen [] self = Some self"
| "raw_listen (e # es) self = Option.bind (raw_event e self) (raw_listen es)"

section \<open>The data a trace holds\<close>

definition data_length :: "'a list option \<Rightarrow> nat" where
  "data_length d = (case d of None \<Rightarrow> 0 | Some xs \<Rightarrow> length xs)"

text \<open>Memory in bytes, the stack in words and storage with 64 bytes an entry, as the listener counts them.\<close>

definition log_size :: "RawStepLog \<Rightarrow> nat" where
  "log_size l = 32 * data_length (rl_memory l) + data_length (rl_stack l) + 64 * data_length (rl_storage l)"

definition pending_size :: "RawContext \<Rightarrow> nat" where
  "pending_size c = (case rx_current_step c of None \<Rightarrow> 0 | Some st \<Rightarrow> data_length (rs_memory st) + data_length (rs_stack st))"

definition within_limit :: "nat \<Rightarrow> RawListener \<Rightarrow> bool" where
  "within_limit limit l = (case rw_remaining_memory_usage l of None \<Rightarrow> True
     | Some r \<Rightarrow> r + sum_list (map log_size (rw_struct_logs l)) + sum_list (map pending_size (rw_context_stack l))
         \<le> limit + 31 * length (rw_struct_logs l))"

lemma convert_memory_length: "32 * length (convert_memory m) \<le> length m + 31"
proof (induction m rule: convert_memory.induct)
  case (2 b memory)
  then show ?case by (cases "31 \<le> length memory") (simp_all add: Let_def)
qed simp

lemma data_length_simps [simp]: "data_length None = 0" "data_length (Some xs) = length xs"
  by (simp_all add: data_length_def)

lemma sum_map_last:
  "(\<And>x. f (g x) \<le> f x) \<Longrightarrow> sum_list (map f (map_last g xs)) \<le> (sum_list (map f xs) :: nat)"
  by (cases xs rule: rev_cases) (simp_all add: map_last_def)

text \<open>Whatever keeps the limit and the logs and adds no pending step keeps the bound.\<close>

lemma within_limit_less:
  "within_limit limit l \<Longrightarrow> rw_struct_logs l' = rw_struct_logs l \<Longrightarrow> rw_remaining_memory_usage l' = rw_remaining_memory_usage l \<Longrightarrow>
   sum_list (map pending_size (rw_context_stack l')) \<le> sum_list (map pending_size (rw_context_stack l)) \<Longrightarrow> within_limit limit l'"
  by (auto simp: within_limit_def split: option.splits)

lemma keep_data_within:
  assumes "keep_data disabled data l = Some (kept, l')" and "rw_remaining_memory_usage l = Some r" and "rw_remaining_memory_usage l' = Some r'"
  shows "r' + data_length kept = r \<and> rw_struct_logs l' = rw_struct_logs l \<and> rw_context_stack l' = rw_context_stack l"
  using assms by (auto simp: keep_data_def use_memory_def split: if_splits option.splits)

lemma raw_cost_within: "within_limit limit l \<Longrightarrow> within_limit limit (raw_cost cost sn l)"
  by (rule within_limit_less [of limit l])
    (auto simp: raw_cost_def intro!: sum_map_last, simp add: set_step_gas_def pending_size_def split: option.splits)

lemma raw_storage_within: "within_limit limit l \<Longrightarrow> within_limit limit (raw_storage k v l)"
  by (rule within_limit_less [of limit l]) (auto simp: raw_storage_def pending_size_def intro!: sum_map_last)

lemma apply_changes_step [simp]: "rx_current_step (fold apply_changes changes c) = rx_current_step c"
  by (induction changes arbitrary: c) (auto simp: apply_changes_def)

lemma raw_exit_within: "within_limit limit l \<Longrightarrow> within_limit limit (raw_exit reason rv l)"
proof (rule within_limit_less [of limit l])
  show "sum_list (map pending_size (rw_context_stack (raw_exit reason rv l))) \<le> sum_list (map pending_size (rw_context_stack l))"
  proof (cases "rw_context_stack l" rule: rev_cases)
    case (snoc xs x)
    have "sum_list (map pending_size (map_last (fold apply_changes cs) xs)) \<le> sum_list (map pending_size xs)" for cs
      by (rule sum_map_last) (simp add: pending_size_def)
    with snoc show ?thesis by (auto simp: raw_exit_def Let_def intro: trans_le_add1)
  qed (simp add: raw_exit_def)
qed (auto simp: raw_exit_def Let_def)

lemma raw_log_within:
  assumes "within_limit limit l" and "raw_log l = (l', b)"
  shows "within_limit limit l'"
proof (cases "rw_context_stack l" rule: rev_cases)
  case (snoc xs x)
  show ?thesis
  proof (cases "rx_current_step x")
    case (Some st)
    have "32 * data_length (map_option convert_memory (rs_memory st)) \<le> data_length (rs_memory st) + 31"
      using convert_memory_length by (cases "rs_memory st") auto
    with assms snoc Some show ?thesis
      by (auto simp: raw_log_def within_limit_def Let_def use_memory_def log_size_def pending_size_def split: if_splits option.splits)
  qed (use assms snoc in \<open>simp add: raw_log_def\<close>)
qed (use assms in \<open>simp add: raw_log_def\<close>)

lemma raw_step_within:
  assumes "within_limit limit l" and "raw_step context opcode position stack memory l = Some l'"
  shows "within_limit limit l'"
proof -
  define l1 where "l1 = (if rw_new_context l
        then l\<lparr> rw_new_context := False, rw_context_stack := rw_context_stack l @
          [\<lparr> rx_storage_cache = [], rx_address = ec_address context, rx_current_step = None, rx_global_storage_changes = [] \<rparr>] \<rparr>
        else l)"
  have l1: "within_limit limit l1"
    by (rule within_limit_less [OF assms(1)]) (auto simp: l1_def pending_size_def)
  show ?thesis
  proof (cases "rw_remaining_memory_usage l' = None \<or> rw_context_stack l1 = []")
    case True
    with assms(2) l1 show ?thesis by (auto simp: raw_step_def l1_def [symmetric] Let_def within_limit_def)
  next
    case False
    then obtain r' where r': "rw_remaining_memory_usage l' = Some r'" by auto
    from False assms(2) obtain km l2 where m: "keep_data (rw_disable_memory l1) (map_option me_data memory) l1 = Some (km, l2)"
      by (cases "keep_data (rw_disable_memory l1) (map_option me_data memory) l1") (auto simp: raw_step_def l1_def [symmetric] Let_def)
    have some: "rw_remaining_memory_usage l2 \<noteq> None"
      using False assms(2) m
      by (cases "rw_remaining_memory_usage l2") (auto simp: raw_step_def l1_def [symmetric] Let_def)
    then obtain ks l3 where st: "keep_data (rw_disable_stack l2) (map_option st_data stack) l2 = Some (ks, l3)"
      using False assms(2) m
      by (cases "keep_data (rw_disable_stack l2) (map_option st_data stack) l2") (auto simp: raw_step_def l1_def [symmetric] Let_def)
    have "rw_remaining_memory_usage l3 \<noteq> None"
      using False assms(2) m st some
      by (cases "rw_remaining_memory_usage l3") (auto simp: raw_step_def l1_def [symmetric] Let_def)
    then obtain step where l': "l' = l3\<lparr> rw_context_stack := map_last (\<lambda>c. c\<lparr> rx_current_step := Some step \<rparr>) (rw_context_stack l3) \<rparr>"
      and step: "rs_memory step = km" "rs_stack step = ks"
      using False assms(2) m st some by (auto simp: raw_step_def l1_def [symmetric] Let_def)
    obtain r2 where r2: "rw_remaining_memory_usage l2 = Some r2" using some by auto
    have r3: "rw_remaining_memory_usage l3 = Some r'" using r' by (simp add: l')
    obtain r1 where r1: "rw_remaining_memory_usage l1 = Some r1"
      using m r2 by (auto simp: keep_data_def use_memory_def bind_eq_Some_conv split: if_splits option.splits)
    obtain xs x where x: "rw_context_stack l1 = xs @ [x]" using False by (cases "rw_context_stack l1" rule: rev_cases) auto
    from keep_data_within [OF m r1 r2] keep_data_within [OF st r2 r3] l1 show ?thesis
      by (auto simp: l' within_limit_def r3 r1 x pending_size_def step)
  qed
qed

lemma raw_event_within: "within_limit limit l \<Longrightarrow> raw_event e l = Some l' \<Longrightarrow> within_limit limit l'"
proof -
  assume l: "within_limit limit l" and e: "raw_event e l = Some l'"
  have kept: "within_limit limit (k\<lparr> rw_new_context := True \<rparr>)" if "within_limit limit k" for k
    by (rule within_limit_less [OF that]) simp_all
  have start: "within_limit limit (l\<lparr> rw_new_context := True, rw_final_gas := c \<rparr>)" for c by (rule within_limit_less [OF l]) simp_all
  have result: "within_limit limit l'" if "raw_runtime_event (StepResult r rv) l = Some l'" for r rv
  proof -
    obtain k b where k: "raw_log l = (k, b)" by fastforce
    from raw_log_within [OF l k] that k kept [of k] raw_exit_within [of limit k] show ?thesis
      by (auto simp: raw_runtime_event_def split: if_splits result.splits Capture.splits)
  qed
  show "within_limit limit l'"
  proof (cases "rw_remaining_memory_usage l = None")
    case False
    show ?thesis
    proof (cases e)
      case (Gasometer g)
      with False e l start show ?thesis by (cases g) (auto simp: raw_event_def raw_gasometer_event_def intro: raw_cost_within)
    next
      case (Runtime r)
      with False e l result show ?thesis
        by (cases r) (auto simp: raw_event_def raw_runtime_event_def intro: raw_step_within raw_storage_within)
    qed (use False e l in \<open>auto simp: raw_event_def\<close>)
  qed (use e l in \<open>simp add: raw_event_def\<close>)
qed

lemma raw_listen_within: "within_limit limit l \<Longrightarrow> raw_listen es l = Some l' \<Longrightarrow> within_limit limit l'"
  by (induction es arbitrary: l) (auto simp: bind_eq_Some_conv intro: raw_event_within)

section \<open>A write two calls below\<close>

text \<open>A contract reads slot 1, calls itself, and the inner call calls the contract again, which writes 20 to the slot. Both calls succeed.\<close>

definition own_step :: "string \<Rightarrow> TraceEvent" where
  "own_step opcode = Runtime (Step \<lparr> ec_address = 5, ec_caller = 5, ec_apparent_value = 0 \<rparr> opcode (Ok 0) None None)"

definition nested_write :: "TraceEvent list" where
  "nested_write = [Gasometer (RecordTransaction 0 \<lparr> sn_gas_limit = 0, sn_memory_gas = 0, sn_used_gas = 0, sn_refunded_gas = 0 \<rparr>),
     own_step ''SLoad'', Runtime (SLoad 5 1 10), Runtime (StepResult (Ok ()) []),
     own_step ''Call'', Runtime (StepResult (Err (Trap ''Call'')) []),
     own_step ''Call'', Runtime (StepResult (Err (Trap ''Call'')) []),
     own_step ''SStore'', Runtime (SStore 5 1 20), Runtime (StepResult (Ok ()) []),
     own_step ''Stop'', Runtime (StepResult (Err (Exit (Succeed Stopped))) []),
     own_step ''Stop'', Runtime (StepResult (Err (Exit (Succeed Stopped))) []),
     own_step ''SLoad'', Runtime (StepResult (Ok ()) [])]"

text \<open>The middle call has not touched the slot, so the write is lost on its way up, and the outer call is shown with the old value.\<close>

lemma nested_write_not_shown:
  "map_option (\<lambda>l. rl_storage (last (rw_struct_logs l))) (raw_listen nested_write (RawListener_new False True True 1000)) = Some (Some [(1, 10)])"
  by code_simp

end
