(* ===== verification/TraceFormat.thy ===== *)
theory TraceFormat
  imports RawTrace "HOL-Library.Code_Target_Nat"
begin

text \<open>
  The formatters of traces (\<open>vendor/evm-tracing/src/formatters\<close>) and their results (\<open>types/single.rs\<close>, \<open>types/block.rs\<close>): the raw trace,
  the list of calls Blockscout reads, the flat traces of \<open>trace_filter\<close>, and the nested calls of Geth's \<open>callTracer\<close>. The nested
  calls are shown to be the tree of the frames of the transaction. A panic is the value \<open>None\<close>.
\<close>

section \<open>Results\<close>

datatype CallTracerInner =
    TracerCall string Address "nat list" CallResult "nat option"
  | TracerCreate string "nat list" "Address option" "nat list option" "string option" nat
  | TracerSelfDestruct string Address nat

datatype TracedCall = Blockscout BlockscoutCall | CallTracer CallTracerCall
  and CallTracerCall = CallTracerCall (tc_from: Address) (tc_trace_address: "nat list option") (tc_gas: nat) (tc_gas_used: nat)
    (tc_inner: CallTracerInner) (tc_calls: "TracedCall list")

datatype SingleTrace = Raw nat "nat list" "RawStepLog list" | CallList "TracedCall list" | CallListNested TracedCall

datatype TransactionTraceAction =
    CallAction CallType Address nat "nat list" Address nat
  | CreateAction Address nat "nat list" nat
  | SuicideAction Address nat Address

datatype TransactionTraceResult = CallTraceResult nat "nat list" | CreateTraceResult Address "nat list" nat | SuicideTraceResult

datatype TransactionTraceOutput = TraceResult TransactionTraceResult | TraceError string

record BlockTrace =
  bt_action :: TransactionTraceAction
  bt_block_hash :: nat
  bt_block_number :: nat
  bt_output :: TransactionTraceOutput
  bt_subtraces :: nat
  bt_trace_address :: "nat list"
  bt_transaction_hash :: nat
  bt_transaction_position :: nat

section \<open>Flat formats\<close>


definition Blockscout_format :: "Listener \<Rightarrow> SingleTrace option" where
  "Blockscout_format listener = (if ls_entries listener = [] then None
     else Some (CallList (map (\<lambda>(_, value). Blockscout value) (last (ls_entries listener)))))"

definition trace_action :: "BlockscoutCall \<Rightarrow> TransactionTraceAction" where
  "trace_action trace = (case bc_inner trace of
       CallInner call_type to input _ \<Rightarrow> CallAction call_type (bc_from trace) (bc_gas trace) input to (bc_value trace)
     | CreateInner init _ \<Rightarrow> CreateAction (bc_from trace) (bc_gas trace) init (bc_value trace)
     | SelfDestructInner balance to \<Rightarrow> SuicideAction (bc_from trace) balance to)"

definition trace_output :: "BlockscoutCall \<Rightarrow> TransactionTraceOutput" where
  "trace_output trace = (case bc_inner trace of
       CallInner _ _ _ (CallOutput output) \<Rightarrow> TraceResult (CallTraceResult (bc_gas_used trace) output)
     | CallInner _ _ _ (CallError error) \<Rightarrow> TraceError error
     | CreateInner _ (CreateSuccess address code) \<Rightarrow> TraceResult (CreateTraceResult address code (bc_gas_used trace))
     | CreateInner _ (CreateError error) \<Rightarrow> TraceError error
     | SelfDestructInner _ _ \<Rightarrow> TraceResult SuicideTraceResult)"

definition filter_trace :: "nat \<Rightarrow> BlockscoutCall \<Rightarrow> BlockTrace" where
  "filter_trace eth_tx_index trace = \<lparr> bt_action = trace_action trace, bt_block_hash = 0, bt_block_number = 0,
     bt_output = trace_output trace, bt_subtraces = bc_subtraces trace, bt_trace_address = bc_trace_address trace,
     bt_transaction_hash = 0, bt_transaction_position = eth_tx_index mod 2 ^ 32 \<rparr>"

definition TraceFilter_format :: "Listener \<Rightarrow> BlockTrace list option" where
  "TraceFilter_format listener =
     Some (concat (map (\<lambda>(eth_tx_index, entry). map (\<lambda>(_, trace). filter_trace eth_tx_index trace) entry)
       (enumerate 0 (filter (\<lambda>x. x \<noteq> []) (ls_entries listener)))))"

section \<open>Nested calls\<close>

definition call_type_name :: "CallType \<Rightarrow> string" where
  "call_type_name ct = (case ct of CALL \<Rightarrow> ''CALL'' | CALLCODE \<Rightarrow> ''CALLCODE'' | DELEGATECALL \<Rightarrow> ''DELEGATECALL''
     | STATICCALL \<Rightarrow> ''STATICCALL'')"

definition tracer_inner :: "nat \<Rightarrow> BlockscoutCallInner \<Rightarrow> CallTracerInner" where
  "tracer_inner value inner = (case inner of
       CallInner call_type to input res \<Rightarrow> TracerCall (call_type_name call_type) to input res (Some value)
     | CreateInner init res \<Rightarrow> TracerCreate ''CREATE'' init
         (case res of CreateSuccess address _ \<Rightarrow> Some address | CreateError _ \<Rightarrow> None)
         (case res of CreateSuccess _ code \<Rightarrow> Some code | CreateError _ \<Rightarrow> None)
         (case res of CreateSuccess _ _ \<Rightarrow> None | CreateError error \<Rightarrow> Some error) value
     | SelfDestructInner balance to \<Rightarrow> TracerSelfDestruct ''SELFDESTRUCT'' to balance)"

definition tracer_call :: "BlockscoutCall \<Rightarrow> CallTracerCall" where
  "tracer_call it = CallTracerCall (bc_from it) (Some (bc_trace_address it)) (bc_gas it) (bc_gas_used it)
     (tracer_inner (bc_value it) (bc_inner it)) []"

text \<open>The order of the stack: closer to the root first, and of two siblings the greater first.\<close>

fun sibling_greater_than :: "nat list \<Rightarrow> nat list \<Rightarrow> bool" where
  "sibling_greater_than (a # as) (b # bs) \<longleftrightarrow> (if a > b then True else if a < b then False else sibling_greater_than as bs)"
| "sibling_greater_than _ _ \<longleftrightarrow> False"

definition address_less :: "nat list \<Rightarrow> nat list \<Rightarrow> bool" where
  "address_less a b \<longleftrightarrow> length b > length a \<or> length a = length b \<and> sibling_greater_than a b"

definition tracer_less :: "CallTracerCall \<Rightarrow> CallTracerCall \<Rightarrow> bool" where
  "tracer_less x y = (case (tc_trace_address x, tc_trace_address y) of (Some a, Some b) \<Rightarrow> address_less a b | _ \<Rightarrow> False)"

text \<open>Sorting by a comparator. The trace addresses of the calls of a transaction are distinct, so that the result does not depend on
  the algorithm.\<close>

fun insert_by :: "('a \<Rightarrow> 'a \<Rightarrow> bool) \<Rightarrow> 'a \<Rightarrow> 'a list \<Rightarrow> 'a list" where
  "insert_by cmp x [] = [x]"
| "insert_by cmp x (y # ys) = (if cmp y x then y # insert_by cmp x ys else x # y # ys)"

definition sort_by :: "('a \<Rightarrow> 'a \<Rightarrow> bool) \<Rightarrow> 'a list \<Rightarrow> 'a list" where
  "sort_by cmp xs = foldr (insert_by cmp) xs []"

primrec push_call :: "TracedCall \<Rightarrow> CallTracerCall \<Rightarrow> CallTracerCall" where
  "push_call c (CallTracerCall from ta gas gas_used inner calls) = CallTracerCall from ta gas gas_used inner (calls @ [c])"

primrec clear_trace_address :: "CallTracerCall \<Rightarrow> CallTracerCall" where
  "clear_trace_address (CallTracerCall from ta gas gas_used inner calls) = CallTracerCall from None gas gas_used inner calls"

primrec position :: "('a \<Rightarrow> bool) \<Rightarrow> 'a list \<Rightarrow> nat option" where
  "position P [] = None"
| "position P (x # xs) = (if P x then Some 0 else map_option Suc (position P xs))"

text \<open>Pop the last call and push it to its parent, until one call is left. A call without a parent is dropped; the search for the parent
  of a root panics.\<close>

function nest_calls :: "CallTracerCall list \<Rightarrow> CallTracerCall list option" where
  "nest_calls result =
     (if length result \<le> 1 then Some result
      else let lst = last result; result = butlast result in
        case tc_trace_address lst of
          Some (a # as) \<Rightarrow>
            nest_calls (case position (\<lambda>current. tc_trace_address current = Some (butlast (a # as))) result of
                Some index \<Rightarrow> result[index := push_call (CallTracer (clear_trace_address lst)) (result ! index)]
              | None \<Rightarrow> result)
        | _ \<Rightarrow> None)"
  by pat_completeness auto
termination
  by (relation "measure length") (auto split: option.splits simp: Let_def)

declare nest_calls.simps [simp del]

definition nest_entry :: "(nat, BlockscoutCall) btree \<Rightarrow> CallTracerCall list option" where
  "nest_entry entry =
     (let result = map (\<lambda>(_, it). tracer_call it) entry in
      map_option (\<lambda>result. case result of r # rs \<Rightarrow> clear_trace_address r # rs | [] \<Rightarrow> [])
        (if length result > 1 then nest_calls (sort_by tracer_less result) else Some result))"

fun nest_entries :: "(nat, BlockscoutCall) btree list \<Rightarrow> SingleTrace list option" where
  "nest_entries [] = Some []"
| "nest_entries (entry # entries) =
     Option.bind (nest_entry entry) (\<lambda>result. Option.bind (nest_entries entries) (\<lambda>traces.
       Some ((case result of [r] \<Rightarrow> [CallListNested (CallTracer r)] | _ \<Rightarrow> []) @ traces)))"

text \<open>The outer option is a panic, the inner one the result.\<close>

definition CallTracer_format :: "Listener \<Rightarrow> SingleTrace list option option" where
  "CallTracer_format listener =
     map_option (\<lambda>traces. if traces = [] then None else Some traces) (nest_entries (filter (\<lambda>x. x \<noteq> []) (ls_entries listener)))"

section \<open>The order of the stack\<close>

lemma sibling_total: "length a = length b \<Longrightarrow> a \<noteq> b \<Longrightarrow> sibling_greater_than a b \<or> sibling_greater_than b a"
  by (induction a b rule: list_induct2) auto

lemma sibling_asym: "sibling_greater_than a b \<Longrightarrow> \<not> sibling_greater_than b a"
  by (induction a b rule: sibling_greater_than.induct) (auto split: if_splits)

lemma sibling_trans: "length a = length b \<Longrightarrow> length b = length c \<Longrightarrow> sibling_greater_than a b \<Longrightarrow> sibling_greater_than b c \<Longrightarrow> sibling_greater_than a c"
  by (induction a b c rule: list_induct3) (auto split: if_splits)

lemma sibling_snoc: "sibling_greater_than (p @ [i]) (p @ [j]) \<longleftrightarrow> i > j"
  by (induction p) auto

lemma address_less_total: "a \<noteq> b \<Longrightarrow> address_less a b \<or> address_less b a"
  using sibling_total [of a b] by (auto simp: address_less_def)

lemma address_less_asym: "address_less a b \<Longrightarrow> \<not> address_less b a"
  using sibling_asym by (auto simp: address_less_def)

lemma address_less_trans: "address_less a b \<Longrightarrow> address_less b c \<Longrightarrow> address_less a c"
  using sibling_trans [of a b c] by (auto simp: address_less_def)

lemma address_less_child: "address_less (p @ [i]) (p @ [j]) \<longleftrightarrow> i > j" "address_less p (p @ [i])" "\<not> address_less p []"
  by (simp_all add: address_less_def sibling_snoc)

lemma set_insert_by [simp]: "set (insert_by cmp x ys) = insert x (set ys)"
  by (induction ys) auto

lemma insert_by_sorted:
  assumes "\<And>a b. a \<noteq> b \<Longrightarrow> cmp a b \<or> cmp b a" and "\<And>a b c. cmp a b \<Longrightarrow> cmp b c \<Longrightarrow> cmp a c"
  shows "sorted_wrt cmp ys \<Longrightarrow> x \<notin> set ys \<Longrightarrow> sorted_wrt cmp (insert_by cmp x ys)"
  by (induction ys) (use assms in \<open>auto, metis\<close>)

lemma sort_by_sorted:
  assumes "\<And>a b. a \<noteq> b \<Longrightarrow> cmp a b \<or> cmp b a" and "\<And>a b c. cmp a b \<Longrightarrow> cmp b c \<Longrightarrow> cmp a c" and "distinct xs"
  shows "sorted_wrt cmp (sort_by cmp xs) \<and> set (sort_by cmp xs) = set xs"
  using assms(3) by (induction xs) (use assms(1,2) in \<open>simp_all add: sort_by_def insert_by_sorted\<close>)

lemma sort_by_map:
  assumes "\<And>a b. c' (f a) (f b) = cmp a b"
  shows "sort_by c' (map f xs) = map f (sort_by cmp xs)"
proof -
  have "insert_by c' (f x) (map f ys) = map f (insert_by cmp x ys)" for x ys by (induction ys) (auto simp: assms)
  then show ?thesis by (induction xs) (simp_all add: sort_by_def)
qed

section \<open>Trees of calls\<close>

datatype call_tree = Node CallTracerCall "call_tree list"

primrec with_calls :: "TracedCall list \<Rightarrow> CallTracerCall \<Rightarrow> CallTracerCall" where
  "with_calls cs (CallTracerCall from ta gas gas_used inner calls) = CallTracerCall from ta gas gas_used inner cs"

primrec with_address :: "nat list \<Rightarrow> CallTracerCall \<Rightarrow> CallTracerCall" where
  "with_address a (CallTracerCall from ta gas gas_used inner calls) = CallTracerCall from (Some a) gas gas_used inner calls"

fun nested :: "call_tree \<Rightarrow> CallTracerCall" where
  "nested (Node x ts) = with_calls (map (\<lambda>t. CallTracer (nested t)) ts) (clear_trace_address x)"

fun subtree :: "call_tree \<Rightarrow> nat list \<Rightarrow> call_tree option" where
  "subtree t [] = Some t"
| "subtree (Node x ts) (i # p) = (if i < length ts then subtree (ts ! i) p else None)"

fun call_at :: "call_tree \<Rightarrow> CallTracerCall" where
  "call_at (Node x ts) = x"

fun children :: "call_tree \<Rightarrow> call_tree list" where
  "children (Node x ts) = ts"

lemma subtree_snoc: "subtree t (p @ [i]) = Option.bind (subtree t p) (\<lambda>u. if i < length (children u) then Some (children u ! i) else None)"
proof (induction p arbitrary: t)
  case Nil
  then show ?case by (cases t) simp
next
  case (Cons j p)
  then show ?case by (cases t) simp
qed

text \<open>The call at address \<open>p\<close>, to which those children have been pushed whose addresses are no longer on the stack.\<close>

definition partial_call :: "call_tree \<Rightarrow> nat list list \<Rightarrow> nat list \<Rightarrow> CallTracerCall" where
  "partial_call t stack p = (case subtree t p of None \<Rightarrow> call_at t
     | Some u \<Rightarrow> with_address p (with_calls (map (\<lambda>i. CallTracer (nested (children u ! i)))
         (filter (\<lambda>i. p @ [i] \<notin> set stack) [0..<length (children u)])) (call_at u)))"

lemma with_simps [simp]:
  "tc_trace_address (with_address a x) = Some a" "clear_trace_address (with_address a x) = clear_trace_address x"
  "clear_trace_address (with_calls cs x) = with_calls cs (clear_trace_address x)"
  "push_call c (with_address a x) = with_address a (push_call c x)" "push_call c (with_calls cs x) = with_calls (cs @ [c]) x"
  "with_calls cs (with_address a x) = with_address a (with_calls cs x)" "with_calls cs (with_calls cs' x) = with_calls cs x"
  by (cases x, simp)+

section \<open>Nesting rebuilds the tree\<close>

text \<open>A stack of addresses from which only addresses beyond its last one have been popped.\<close>

definition initial_stack :: "call_tree \<Rightarrow> nat list list \<Rightarrow> bool" where
  "initial_stack t stack \<longleftrightarrow> sorted_wrt address_less stack \<and> distinct stack \<and> [] \<in> set stack
     \<and> (\<forall>p\<in>set stack. subtree t p \<noteq> None) \<and> (\<forall>p q. p \<in> set stack \<longrightarrow> subtree t q \<noteq> None \<longrightarrow> q \<notin> set stack \<longrightarrow> address_less p q)"

lemma initial_stack_parent:
  assumes "initial_stack t (stack @ [y])" and "stack \<noteq> []"
  obtains p j u where "y = p @ [j]" "p \<in> set stack" "subtree t p = Some u" "j < length (children u)"
proof -
  have s: "\<forall>x\<in>set stack. address_less x y" using assms(1) by (simp add: initial_stack_def sorted_wrt_append)
  obtain x where "x \<in> set stack" using assms(2) by (cases stack) auto
  with s have "y \<noteq> []" using address_less_child(3) by metis
  then obtain p j where y: "y = p @ [j]" by (metis rev_exhaust)
  have "subtree t y \<noteq> None" using assms(1) by (simp add: initial_stack_def)
  then obtain u where u: "subtree t p = Some u" "j < length (children u)"
    by (auto simp: y subtree_snoc bind_eq_Some_conv split: if_splits)
  have "p \<in> set (stack @ [y])"
  proof (rule ccontr)
    assume "p \<notin> set (stack @ [y])"
    moreover have "y \<in> set (stack @ [y])" by simp
    ultimately have "address_less y p" using assms(1) u(1) unfolding initial_stack_def by (metis option.distinct(1))
    then show False using address_less_child(2) [of p j] address_less_asym y by metis
  qed
  then have "p \<in> set stack" by (auto simp: y)
  with y u that show ?thesis by blast
qed

lemma initial_stack_pop:
  assumes "initial_stack t (stack @ [y])" and "stack \<noteq> []"
  shows "initial_stack t stack"
proof -
  have s: "\<forall>x\<in>set stack. address_less x y" "[] \<in> set (stack @ [y])" "y \<notin> set stack"
    using assms(1) by (simp_all add: initial_stack_def sorted_wrt_append)
  from initial_stack_parent [OF assms] have "y \<noteq> []" by (metis Nil_is_append_conv not_Cons_self2)
  moreover have "address_less p q" if "p \<in> set stack" "subtree t q \<noteq> None" "q \<notin> set stack" for p q
    using that s(1) assms(1) unfolding initial_stack_def by (cases "q = y") auto
  ultimately show ?thesis using s assms(1) by (simp add: initial_stack_def sorted_wrt_append)
qed

text \<open>The children of the parent that have been popped are those before the last address of the stack.\<close>

lemma popped_children:
  assumes "initial_stack t (stack @ [p @ [j]])" and "subtree t p = Some u" and "j < length (children u)"
  shows "filter (\<lambda>i. p @ [i] \<notin> set (stack @ [p @ [j]])) [0..<length (children u)] = [0..<j]"
    and "filter (\<lambda>i. p @ [i] \<notin> set stack) [0..<length (children u)] = [0..<j] @ [j]"
proof -
  have before: "address_less x (p @ [j])" if "x \<in> set stack" for x using assms(1) that by (simp add: initial_stack_def sorted_wrt_append)
  have after: "address_less (p @ [j]) q" if "subtree t q \<noteq> None" "q \<notin> set (stack @ [p @ [j]])" for q
    using assms(1) that by (simp add: initial_stack_def)
  have small: "p @ [i] \<notin> set stack" if "i < j" for i using before [of "p @ [i]"] that by (auto simp: address_less_child)
  have large: "p @ [i] \<in> set stack" if "j < i" "i < length (children u)" for i
    using after [of "p @ [i]"] that assms(2) by (auto simp: address_less_child subtree_snoc)
  have self: "p @ [j] \<notin> set stack" using assms(1) by (simp add: initial_stack_def)
  have "[0..<length (children u)] = [0..<j] @ [j] @ [Suc j..<length (children u)]"
    using assms(3) by (metis append.assoc le_add1 less_imp_add_positive upt_add_eq_append upt_conv_Cons zero_le append_Cons append_Nil)
  then show "filter (\<lambda>i. p @ [i] \<notin> set (stack @ [p @ [j]])) [0..<length (children u)] = [0..<j]"
    "filter (\<lambda>i. p @ [i] \<notin> set stack) [0..<length (children u)] = [0..<j] @ [j]"
    using small large self by (auto intro!: filter_True filter_False simp: filter_empty_conv)
qed

lemma partial_call_address: "subtree t p \<noteq> None \<Longrightarrow> tc_trace_address (partial_call t stack p) = Some p"
  by (auto simp: partial_call_def)

lemma partial_call_whole:
  assumes "subtree t p = Some u" and "\<And>i. p @ [i] \<notin> set stack"
  shows "clear_trace_address (partial_call t stack p) = nested u"
proof (cases u)
  case (Node x ts)
  have "map (\<lambda>i. CallTracer (nested (ts ! i))) [0..<length ts] = map (\<lambda>t. CallTracer (nested t)) ts"
    by (rule nth_equalityI) simp_all
  with Node assms show ?thesis by (simp add: partial_call_def)
qed

lemma position_map:
  "x \<in> set xs \<Longrightarrow> distinct xs \<Longrightarrow> (\<And>y. y \<in> set xs \<Longrightarrow> P (f y) \<longleftrightarrow> y = x) \<Longrightarrow>
   \<exists>i. position P (map f xs) = Some i \<and> i < length xs \<and> xs ! i = x"
  by (induction xs) fastforce+

lemma nest_step:
  assumes st: "initial_stack t (stack @ [y])" and ne: "stack \<noteq> []"
  shows "nest_calls (map (partial_call t (stack @ [y])) (stack @ [y])) = nest_calls (map (partial_call t stack) stack)"
proof -
  obtain p j u where y: "y = p @ [j]" and p: "p \<in> set stack" and u: "subtree t p = Some u" "j < length (children u)"
    by (rule initial_stack_parent [OF st ne])
  let ?f = "partial_call t (stack @ [y])" and ?g = "partial_call t stack"
  have known: "subtree t q \<noteq> None" if "q \<in> set (stack @ [y])" for q
    using st that unfolding initial_stack_def by blast
  have d: "distinct stack" "y \<notin> set stack" using st by (simp_all add: initial_stack_def)
  obtain i where i: "position (\<lambda>c. tc_trace_address c = Some p) (map ?f stack) = Some i" "i < length stack" "stack ! i = p"
    using position_map [OF p d(1), of "\<lambda>c. tc_trace_address c = Some p" ?f] partial_call_address [OF known] by auto
  have "y @ [k] \<notin> set (stack @ [y])" for k
    using st address_less_child(2) [of y k] address_less_asym by (auto simp: initial_stack_def sorted_wrt_append)
  then have child: "clear_trace_address (?f y) = nested (children u ! j)"
    using partial_call_whole [of t y "children u ! j" "stack @ [y]"] u by (simp add: y subtree_snoc)
  have parent: "?g p = push_call (CallTracer (nested (children u ! j))) (?f p)"
    using popped_children [OF st [unfolded y] u] by (simp add: partial_call_def u y)
  have other: "?g q = ?f q" if "q \<noteq> p" for q
  proof -
    have "q @ [k] \<noteq> y" for k using that y by auto
    then show ?thesis by (simp add: partial_call_def split: option.split)
  qed
  have "(map ?f stack)[i := push_call (CallTracer (nested (children u ! j))) (map ?f stack ! i)] = map ?g stack"
  proof (rule nth_equalityI)
    fix k assume "k < length ((map ?f stack)[i := push_call (CallTracer (nested (children u ! j))) (map ?f stack ! i)])"
    then have k: "k < length stack" by simp
    show "(map ?f stack)[i := push_call (CallTracer (nested (children u ! j))) (map ?f stack ! i)] ! k = map ?g stack ! k"
    proof (cases "k = i")
      case True
      with i k parent show ?thesis by simp
    next
      case False
      then have "stack ! k \<noteq> p" using i k d(1) nth_eq_iff_index_eq by metis
      with False k other show ?thesis by simp
    qed
  qed simp
  moreover have "tc_trace_address (?f y) = Some (p @ [j])" using partial_call_address [OF known, of y] by (simp add: y)
  moreover obtain a as where a: "p @ [j] = a # as" by (cases "p @ [j]") auto
  moreover have "butlast (a # as) = p" using a by (metis butlast_snoc)
  ultimately show ?thesis
    using ne i child by (subst nest_calls.simps) (simp add: Let_def butlast_append)
qed

lemma nest_calls_single [simp]: "nest_calls [c] = Some [c]"
  by (subst nest_calls.simps) simp

lemma nest_rebuilds:
  "initial_stack t stack \<Longrightarrow> nest_calls (map (partial_call t stack) stack) = Some [partial_call t [[]] []]"
proof (induction stack rule: rev_induct)
  case (snoc y stack)
  show ?case
  proof (cases "stack = []")
    case True
    with snoc.prems have "y = []" by (auto simp: initial_stack_def)
    with True show ?thesis by simp
  next
    case False
    with snoc initial_stack_pop [OF snoc.prems False] nest_step [OF snoc.prems False] show ?thesis by simp
  qed
qed (simp add: initial_stack_def)

section \<open>The calls of a tree\<close>

fun flatten :: "nat list \<Rightarrow> call_tree \<Rightarrow> (nat list \<times> CallTracerCall) list"
  and flatten_list :: "nat list \<Rightarrow> nat \<Rightarrow> call_tree list \<Rightarrow> (nat list \<times> CallTracerCall) list" where
  "flatten ta (Node x ts) = (ta, x) # flatten_list ta 0 ts"
| "flatten_list ta i [] = []"
| "flatten_list ta i (t # ts) = flatten (ta @ [i]) t @ flatten_list ta (Suc i) ts"

lemma ex_list_iff: "(\<exists>p. P p) \<longleftrightarrow> P [] \<or> (\<exists>k p. P (k # p))"
  by (metis list.exhaust)

lemma flatten_iff:
  "(q, x) \<in> set (flatten ta t) \<longleftrightarrow> (\<exists>p. q = ta @ p \<and> (\<exists>u. subtree t p = Some u \<and> x = call_at u))"
  and flatten_list_iff:
  "(q, x) \<in> set (flatten_list ta i ts) \<longleftrightarrow>
     (\<exists>k<length ts. \<exists>p. q = ta @ (i + k) # p \<and> (\<exists>u. subtree (ts ! k) p = Some u \<and> x = call_at u))"
proof (induction ta t and ta i ts rule: flatten_flatten_list.induct)
  case (1 ta y ts)
  have "(\<exists>p. q = ta @ p \<and> (\<exists>u. subtree (Node y ts) p = Some u \<and> x = call_at u)) \<longleftrightarrow> q = ta \<and> x = y \<or>
      (\<exists>k<length ts. \<exists>p. q = ta @ k # p \<and> (\<exists>u. subtree (ts ! k) p = Some u \<and> x = call_at u))"
    by (subst ex_list_iff) auto
  with 1 show ?case by auto
next
  case (3 ta i t ts)
  then show ?case by (simp add: Ex_less_Suc2)
qed simp

lemma flatten_distinct: "distinct (map fst (flatten ta t))"
  and flatten_list_distinct: "distinct (map fst (flatten_list ta i ts))"
proof (induction ta t and ta i ts rule: flatten_flatten_list.induct)
  case (1 ta y ts)
  have "(ta, x) \<notin> set (flatten_list ta 0 ts)" for x by (simp add: flatten_list_iff)
  with 1 show ?case by auto
next
  case (3 ta i t ts)
  have "(q, x) \<in> set (flatten (ta @ [i]) t) \<Longrightarrow> (q, x') \<notin> set (flatten_list ta (Suc i) ts)" for q x x'
    by (auto simp: flatten_iff flatten_list_iff)
  with 3 show ?case by auto
qed simp

lemma length_sort_by [simp]: "length (sort_by cmp xs) = length xs"
proof -
  have "length (insert_by cmp x ys) = Suc (length ys)" for x ys by (induction ys) auto
  then show ?thesis by (induction xs) (simp_all add: sort_by_def)
qed

lemma flatten_known: "q \<in> set (map fst (flatten [] t)) \<longleftrightarrow> subtree t q \<noteq> None"
proof -
  have "q \<in> set (map fst (flatten [] t)) \<longleftrightarrow> (\<exists>x. (q, x) \<in> set (flatten [] t))" by force
  then show ?thesis by (simp add: flatten_iff)
qed

lemma sorted_addresses:
  assumes "s = sort_by address_less (map fst (flatten [] t))"
  shows "initial_stack t s" and "q \<in> set s \<longleftrightarrow> subtree t q \<noteq> None"
proof -
  have "sorted_wrt address_less s \<and> set s = set (map fst (flatten [] t))"
    unfolding assms by (rule sort_by_sorted) (erule address_less_total, erule (1) address_less_trans, rule flatten_distinct)
  then have s: "sorted_wrt address_less s" "set s = set (map fst (flatten [] t))" by simp_all
  have mem: "q \<in> set s \<longleftrightarrow> subtree t q \<noteq> None" for q unfolding s(2) by (rule flatten_known)
  then show "q \<in> set s \<longleftrightarrow> subtree t q \<noteq> None" .
  have "card (set s) = length s"
    unfolding s(2) using distinct_card [OF flatten_distinct [of "[]" t]] by (simp add: assms)
  then have "distinct s" by (rule card_distinct)
  then show "initial_stack t s" using s(1) mem unfolding initial_stack_def by simp
qed

lemma nest_flattened:
  assumes "cs = map (\<lambda>(p, x). with_address p (with_calls [] x)) (flatten [] t)"
  shows "\<exists>r. nest_calls (sort_by tracer_less cs) = Some [r] \<and> clear_trace_address r = nested t"
proof -
  define s where "s = sort_by address_less (map fst (flatten [] t))"
  note stack = sorted_addresses [OF s_def]
  define g where "g = (\<lambda>p. with_address p (with_calls [] (call_at (the (subtree t p)))))"
  have "(\<lambda>(p, x). with_address p (with_calls [] x)) e = g (fst e)" if "e \<in> set (flatten [] t)" for e
    using that flatten_iff [of "fst e" "snd e" "[]" t] by (auto simp: g_def case_prod_beta)
  then have cs: "cs = map g (map fst (flatten [] t))" by (simp add: assms)
  have "sort_by tracer_less cs = map g s"
    unfolding cs s_def by (rule sort_by_map) (simp add: tracer_less_def g_def)
  moreover have "g p = partial_call t s p" if p: "p \<in> set s" for p
  proof -
    obtain u where u: "subtree t p = Some u" using p stack(2) [of p] by auto
    then have "filter (\<lambda>i. p @ [i] \<notin> set s) [0..<length (children u)] = []"
      by (simp add: stack(2) filter_empty_conv subtree_snoc)
    with u show ?thesis by (simp add: partial_call_def g_def)
  qed
  then have "map g s = map (partial_call t s) s" by simp
  moreover have "clear_trace_address (partial_call t [[]] []) = nested t" by (rule partial_call_whole) simp_all
  ultimately show ?thesis using nest_rebuilds [OF stack(1)] by simp
qed

section \<open>The tree of a transaction\<close>

fun frame_tree :: "Address \<Rightarrow> frame \<Rightarrow> call_tree" and items_trees :: "Address \<Rightarrow> item list \<Rightarrow> call_tree list" where
  "frame_tree parent (Frame op items reason rv stepped) =
     Node (clear_trace_address (tracer_call (frame_call parent [] (Frame op items reason rv stepped)))) (items_trees (opening_to op) items)"
| "items_trees to [] = []"
| "items_trees to (Quiet e # items) = items_trees to items"
| "items_trees to (Destruct address target balance # items) =
     Node (clear_trace_address (tracer_call (destruct_call [] address target balance))) [] # items_trees to items"
| "items_trees to (Sub f # items) = frame_tree to f # items_trees to items"

lemma frame_calls_flatten:
  "map tracer_call (frame_calls parent ta f) = map (\<lambda>(p, x). with_address p (with_calls [] x)) (flatten ta (frame_tree parent f))"
  and items_calls_flatten:
  "map tracer_call (items_calls parent ta i items) = map (\<lambda>(p, x). with_address p (with_calls [] x)) (flatten_list ta i (items_trees parent items))"
proof (induction parent ta f and parent ta i items rule: frame_calls_items_calls.induct)
  case (1 parent ta op items reason rv stepped)
  then show ?case by (simp add: tracer_call_def frame_call_def)
next
  case (4 to ta i address target balance items)
  then show ?case by (simp add: tracer_call_def destruct_call_def)
qed simp_all

text \<open>The root of the first transaction of a block is charged the cost of the transaction.\<close>

definition charge :: "nat \<Rightarrow> CallTracerCall \<Rightarrow> CallTracerCall" where
  "charge cost c = CallTracerCall (tc_from c) (tc_trace_address c) (tc_gas c) (wrapping_add 64 (tc_gas_used c) cost) (tc_inner c) (tc_calls c)"

definition transaction_tree :: "bool \<Rightarrow> transaction \<Rightarrow> call_tree" where
  "transaction_tree is_first tx = (case tx_root tx of Frame op items reason rv stepped \<Rightarrow>
     (case frame_tree (case op of CallOpening _ _ _ _ context \<Rightarrow> ec_caller context | CreateOpening _ caller _ _ _ \<Rightarrow> caller) (tx_root tx) of
        Node x ts \<Rightarrow> Node (if is_first then charge (tx_cost tx) x else x) ts))"

lemma transaction_calls_flatten:
  "map tracer_call (transaction_calls n tx) =
     map (\<lambda>(p, x). with_address p (with_calls [] x)) (flatten [] (transaction_tree (n = 0) tx))"
proof -
  obtain op items reason rv stepped where root: "tx_root tx = Frame op items reason rv stepped" by (cases "tx_root tx")
  let ?p = "case op of CallOpening _ _ _ _ context \<Rightarrow> ec_caller context | CreateOpening _ caller _ _ _ \<Rightarrow> caller"
  show ?thesis
    using items_calls_flatten [of "opening_to op" "[]" 0 items]
    by (simp add: transaction_calls_def transaction_tree_def root tracer_call_def charge_def)
      (simp add: frame_call_def)
qed

lemma nest_transaction: "nest_entry (enumerate m (transaction_calls n tx)) = Some [nested (transaction_tree (n = 0) tx)]"
proof -
  let ?t = "transaction_tree (n = 0) tx" and ?e = "enumerate m (transaction_calls n tx)"
  have e: "map (\<lambda>(_, it). tracer_call it) ?e = map (\<lambda>(p, x). with_address p (with_calls [] x)) (flatten [] ?t)"
    using transaction_calls_flatten [of n tx] by (metis (no_types, lifting) case_prod_beta map_eq_conv map_snd_enumerate map_map o_apply)
  obtain x ts where t: "?t = Node x ts" by (cases ?t)
  show ?thesis
  proof (cases "length (flatten [] ?t) > 1")
    case True
    with nest_flattened [OF e] e show ?thesis by (auto simp: nest_entry_def Let_def)
  next
    case False
    then have "ts = []" using t by (cases ts; cases "hd ts") auto
    with e t show ?thesis by (simp add: nest_entry_def Let_def)
  qed
qed

section \<open>Blocks\<close>

definition block_events :: "transaction list \<Rightarrow> TraceEvent list" where
  "block_events txs = concat (map (\<lambda>tx. CallListNew # transaction_events tx) txs)"

fun block_entries :: "nat \<Rightarrow> transaction list \<Rightarrow> (nat, BlockscoutCall) btree list" where
  "block_entries n [] = []"
| "block_entries n (tx # txs) =
     enumerate n (transaction_calls n tx) # block_entries (n + length (transaction_calls n tx)) txs"

definition number_of_calls :: "transaction list \<Rightarrow> nat" where
  "number_of_calls txs = sum_list (map (\<lambda>tx. length (transaction_calls 0 tx)) txs)"

lemma length_transaction_calls: "length (transaction_calls n tx) = length (transaction_calls 0 tx)" "0 < length (transaction_calls n tx)"
  by (cases "tx_root tx"; simp add: transaction_calls_def)+

definition settled :: "nat \<Rightarrow> (nat, BlockscoutCall) btree list \<Rightarrow> Listener \<Rightarrow> bool" where
  "settled n es l \<longleftrightarrow> ls_step_result_entry l = None \<and> ls_context_stack l = [] \<and> \<not> ls_record_transaction_event_only l
     \<and> \<not> ls_call_list_first_transaction l \<and> ls_entries_next_index l = n \<and> ls_entries l = es"

lemma settled_finish: "settled n es l \<Longrightarrow> finish_transaction l = l"
  by (simp add: settled_def finish_transaction_def Let_def)

lemma transaction_settled:
  assumes "transaction_ok tx" and "n + length (transaction_calls n tx) < 2 ^ 32"
    and l: "ls_step_result_entry l = None" "ls_context_stack l = []" "\<not> ls_call_list_first_transaction l" "ls_entries_next_index l = n"
      "open_map l = []" "butlast (ls_entries l) = es"
  shows "settled (n + length (transaction_calls n tx)) (es @ [enumerate n (transaction_calls n tx)]) (listen (transaction_events tx) l)"
proof -
  have "between_transactions l" using l by (simp add: between_transactions_def)
  from transaction_recorded [OF assms(1) this] assms(2) l(4) obtain ct where
    "listen (transaction_events tx) l = traced (l\<lparr> ls_version := EarlyTransact, ls_transaction_cost := tx_cost tx,
      ls_skip_next_context := \<not> tx_entered tx \<rparr>) [] (transaction_calls n tx) ct False" by auto
  moreover have "open_map (l\<lparr> ls_version := v, ls_transaction_cost := c, ls_skip_next_context := b \<rparr>) = open_map l" for v c b
    by (simp add: open_map_def)
  ultimately show ?thesis using length_transaction_calls(2) [of n tx] l by (simp add: settled_def traced_def)
qed

lemma later_transaction:
  assumes "transaction_ok tx" and "n + length (transaction_calls n tx) < 2 ^ 32" and "settled n es l"
  shows "settled (n + length (transaction_calls n tx)) (es @ [enumerate n (transaction_calls n tx)]) (listen (CallListNew # transaction_events tx) l)"
proof -
  let ?l = "listener_event CallListNew l"
  have "?l = l\<lparr> ls_skip_next_context := False, ls_entries := ls_entries l @ [[]] \<rparr>"
    using assms(3) settled_finish [OF assms(3)] by (simp add: listener_event_def settled_def)
  then have "settled (n + length (transaction_calls n tx)) (es @ [enumerate n (transaction_calls n tx)]) (listen (transaction_events tx) ?l)"
    using assms(3) by (intro transaction_settled [OF assms(1,2)]) (simp_all add: settled_def open_map_def)
  then show ?thesis by simp
qed

lemma block_settled:
  "\<forall>tx\<in>set txs. transaction_ok tx \<Longrightarrow> n + number_of_calls txs < 2 ^ 32 \<Longrightarrow> settled n es l \<Longrightarrow>
   \<exists>m. settled m (es @ block_entries n txs) (listen (block_events txs) l)"
proof (induction txs arbitrary: n es l)
  case (Cons tx txs)
  let ?c = "transaction_calls n tx"
  have len: "n + length ?c + number_of_calls txs < 2 ^ 32"
    using Cons.prems(2) length_transaction_calls(1) [of n tx] by (simp add: number_of_calls_def)
  then have "settled (n + length ?c) (es @ [enumerate n ?c]) (listen (CallListNew # transaction_events tx) l)"
    using later_transaction [OF _ _ Cons.prems(3), of tx] Cons.prems(1) by simp
  from Cons.IH [OF _ len this] Cons.prems(1) show ?case by (simp add: block_events_def)
qed (auto simp: block_events_def)

lemma block_recorded:
  assumes "\<forall>tx\<in>set (tx # txs). transaction_ok tx" and "number_of_calls (tx # txs) < 2 ^ 32"
  shows "\<exists>m. settled m (block_entries 0 (tx # txs)) (listen (block_events (tx # txs)) Listener_default)"
proof -
  let ?l = "Listener_default\<lparr> ls_call_list_first_transaction := False \<rparr>" and ?c = "transaction_calls 0 tx"
  have "listener_event CallListNew Listener_default = ?l" by (simp add: listener_event_def Listener_default_def)
  moreover have "settled (0 + length ?c) ([] @ [enumerate 0 ?c]) (listen (transaction_events tx) ?l)"
    using assms by (intro transaction_settled) (simp_all add: Listener_default_def open_map_def number_of_calls_def)
  ultimately show ?thesis
    using block_settled [of txs "length ?c" "[enumerate 0 ?c]" "listen (transaction_events tx) ?l"] assms
    by (simp add: block_events_def number_of_calls_def)
qed

lemma block_entries_nonempty: "filter (\<lambda>x. x \<noteq> []) (block_entries n txs) = block_entries n txs"
proof (induction txs arbitrary: n)
  case (Cons tx txs)
  have "enumerate n (transaction_calls n tx) \<noteq> []"
    using length_transaction_calls(2) [of n tx] by (metis length_enumerate length_greater_0_conv)
  with Cons show ?case by simp
qed simp

lemma nest_block:
  "0 < n \<Longrightarrow> nest_entries (block_entries n txs) = Some (map (\<lambda>tx. CallListNested (CallTracer (nested (transaction_tree False tx)))) txs)"
proof (induction txs arbitrary: n)
  case (Cons tx txs)
  from Cons.IH [of "n + length (transaction_calls n tx)"] Cons.prems show ?case by (simp add: nest_transaction)
qed simp

lemma filter_block:
  "TraceFilter_format l = Some (concat (map (\<lambda>(i, entry). map (\<lambda>(_, trace). filter_trace i trace) entry) (enumerate 0 (block_entries 0 txs))))"
  if "ls_entries l = block_entries 0 txs"
  by (simp add: TraceFilter_format_def that block_entries_nonempty)

section \<open>Properties\<close>

text \<open>C19: Tracing a block of transactions with the call list and formatting it for \<open>callTracer\<close> never panics and yields, for every
  transaction, the tree of its frames: every inner call, create and self destruction is nested in its parent at its place, with
  its type, addresses, value, data, gas and result. Only the root of the first transaction is charged the cost of its transaction.\<close>

theorem call_tracer_shows_frames:
  assumes "\<forall>tx\<in>set (tx # txs). transaction_ok tx" and "number_of_calls (tx # txs) < 2 ^ 32"
  shows "CallTracer_format (finish_transaction (listen (block_events (tx # txs)) Listener_default)) =
    Some (Some (map (\<lambda>t. CallListNested (CallTracer (nested t))) (transaction_tree True tx # map (transaction_tree False) txs)))"
proof -
  obtain m where l: "settled m (block_entries 0 (tx # txs)) (listen (block_events (tx # txs)) Listener_default)"
    using block_recorded [OF assms] by blast
  have "nest_entries (block_entries 0 (tx # txs)) =
      Some (map (\<lambda>t. CallListNested (CallTracer (nested t))) (transaction_tree True tx # map (transaction_tree False) txs))"
    using nest_block [of "length (transaction_calls 0 tx)" txs] length_transaction_calls(2) [of 0 tx] by (simp add: nest_transaction)
  moreover have "ls_entries (listen (block_events (tx # txs)) Listener_default) = block_entries 0 (tx # txs)" using l by (simp add: settled_def)
  ultimately show ?thesis
    unfolding CallTracer_format_def settled_finish [OF l] by (simp only: block_entries_nonempty) simp
qed

definition sample_gas :: "nat \<Rightarrow> item" where
  "sample_gas left = Quiet (Gasometer (RecordCost 0 \<lparr> sn_gas_limit = 100, sn_memory_gas = 0, sn_used_gas = 100 - left, sn_refunded_gas = 0 \<rparr>))"

definition sample_call :: "Address \<Rightarrow> Address \<Rightarrow> item list \<Rightarrow> frame" where
  "sample_call from to items = Frame (CallOpening CALL to [1, 2] False \<lparr> ec_address = to, ec_caller = from, ec_apparent_value = 3 \<rparr>)
     items (Succeed Returned) [9] True"

definition sample_transaction :: transaction where
  "sample_transaction = \<lparr> tx_root = sample_call 1 7 [sample_gas 90, Sub (sample_call 7 8 [sample_gas 50, sample_gas 45]),
       Destruct 7 6 1000, sample_gas 70], tx_gas_limit = 100, tx_cost = 21,
     tx_snapshot = \<lparr> sn_gas_limit = 100, sn_memory_gas = 0, sn_used_gas = 0, sn_refunded_gas = 0 \<rparr>, tx_entered = True \<rparr>"

theorem call_tracer_shows_frames_witness:
  "CallTracer_format (finish_transaction (listen (block_events [sample_transaction, sample_transaction]) Listener_default)) =
     Some (Some (map (\<lambda>t. CallListNested (CallTracer (nested t))) [transaction_tree True sample_transaction, transaction_tree False sample_transaction]))
   \<and> tc_gas_used (nested (transaction_tree True sample_transaction)) = 41
   \<and> tc_gas_used (nested (transaction_tree False sample_transaction)) = 20"
proof -
  have "transaction_ok sample_transaction" "number_of_calls [sample_transaction, sample_transaction] = 6"
    by (simp_all add: transaction_ok_def quiet_def number_of_calls_def transaction_calls_def sample_transaction_def sample_call_def sample_gas_def)
  moreover have "tc_gas_used (nested (transaction_tree True sample_transaction)) = 41"
    "tc_gas_used (nested (transaction_tree False sample_transaction)) = 20"
    by (simp_all add: sample_transaction_def sample_call_def sample_gas_def transaction_tree_def charge_def tracer_call_def frame_call_def
        gas_spent_def gas_left_def gas_readings_def gas_reading_def Snapshot_gas_def wrapping_sub_def wrapping_add_def)
  ultimately show ?thesis using call_tracer_shows_frames [of sample_transaction "[sample_transaction]"] by simp
qed




end
